(* ===== verification/Py_Prelude.thy ===== *)
theory Py_Prelude
  imports Complex_Main "HOL-Library.Char_ord" "HOL-Library.List_Lexorder"
    "HOL-Library.Product_Lexorder"
begin

text \<open>
  The Python fragment the repository's code is written in, as far as the components of this
  development need it:
  \<^item> binary64 floats (\<open>pyfloat\<close>) with round-to-nearest-even arithmetic over exact rationals;
  \<^item> dynamically typed values (\<open>pyval\<close>) with \<open>isinstance\<close> tests, \<open>dict.get\<close>, truth
    values and Python's \<open>==\<close>;
  \<^item> decimal rendering of integers and the compact \<open>json.dumps\<close> encoding of strings;
  \<^item> exceptions as the left injection of a sum type, with a sequencing operator and a traversal
    for comprehensions whose body may raise;
  \<^item> the list facts on strictly increasing stamps the evidence checks share.
  A string is modelled by its UTF-8 bytes, so that \<open>length\<close> is the byte length the code bounds;
  the \<open>ensure_ascii\<close> rendering is only reached with ASCII strings. A signed zero is not
  distinguished from zero, and no check of the code reads the sign of a zero.
\<close>

named_theorems err_simps \<open>equations and inversions of the error-value operators\<close>
named_theorems py_defs \<open>unfolding of the dynamic-value tests\<close>

section \<open>Error values\<close>

text \<open>A computation that may raise: \<open>Inl\<close> the exception, \<open>Inr\<close> the value.\<close>

definition bindE :: "'e + 'a \<Rightarrow> ('a \<Rightarrow> 'e + 'b) \<Rightarrow> 'e + 'b" where
  "bindE m f = (case m of Inl e \<Rightarrow> Inl e | Inr a \<Rightarrow> f a)"

definition guardE :: "bool \<Rightarrow> 'e \<Rightarrow> 'e + unit" where
  "guardE ok e = (if ok then Inr () else Inl e)"

fun traverse :: "('a \<Rightarrow> 'e + 'b) \<Rightarrow> 'a list \<Rightarrow> 'e + 'b list" where
  "traverse f [] = Inr []"
| "traverse f (x # xs) =
     bindE (f x) (\<lambda>y. bindE (traverse f xs) (\<lambda>ys. Inr (y # ys)))"

lemma bindE_simps [simp, err_simps]:
  "bindE (Inl e) f = Inl e" "bindE (Inr a) f = f a"
  by (simp_all add: bindE_def)

lemma bindE_Inr_iff [err_simps]:
  "bindE m f = Inr b \<longleftrightarrow> (\<exists>a. m = Inr a \<and> f a = Inr b)"
  by (cases m) simp_all

lemma bindE_InrE: "bindE m f = Inr b \<Longrightarrow> (\<And>a. m = Inr a \<Longrightarrow> f a = Inr b \<Longrightarrow> thesis) \<Longrightarrow> thesis"
  by (cases m) simp_all

lemma bindE_Inl_iff [err_simps]:
  "bindE m f = Inl e \<longleftrightarrow> m = Inl e \<or> (\<exists>a. m = Inr a \<and> f a = Inl e)"
  by (cases m) simp_all

lemma guardE_Inr_iff [simp, err_simps]: "guardE ok e = Inr u \<longleftrightarrow> ok"
  by (cases u) (simp add: guardE_def)

lemma guardE_Inl_iff [simp, err_simps]: "guardE ok e = Inl e' \<longleftrightarrow> \<not> ok \<and> e' = e"
  by (auto simp: guardE_def)

lemma guardE_simps [simp]: "guardE True e = Inr ()" "guardE False e = Inl e"
  by (simp_all add: guardE_def)

lemma traverse_Inr_iff:
  "traverse f xs = Inr ys \<longleftrightarrow> list_all2 (\<lambda>x y. f x = Inr y) xs ys"
  by (induction xs arbitrary: ys) (auto simp: err_simps list_all2_Cons1)

lemma traverse_Inl_iff:
  "traverse f xs = Inl e \<longleftrightarrow>
     (\<exists>us x vs ys. xs = us @ x # vs \<and> traverse f us = Inr ys \<and> f x = Inl e)"
proof (induction xs)
  case Nil
  then show ?case by simp
next
  case (Cons a xs)
  show ?case (is "?L = ?R")
  proof (cases "f a")
    case (Inl d)
    have "?R" if "d = e" using Inl that by (auto intro!: exI [of _ "[]"])
    moreover have "d = e" if "?R"
      using that Inl by (auto simp: Cons_eq_append_conv err_simps)
    ultimately show ?thesis using Inl by auto
  next
    case (Inr b)
    then show ?thesis
      by (auto simp: Cons Cons_eq_append_conv err_simps) (metis append_Cons traverse.simps(2) bindE_simps(2))+
  qed
qed

lemma traverse_length: "traverse f xs = Inr ys \<Longrightarrow> length ys = length xs"
  by (simp add: traverse_Inr_iff list_all2_lengthD)

lemma traverse_map_total:
  "(\<And>x. x \<in> set xs \<Longrightarrow> f x = Inr (g x)) \<Longrightarrow> traverse f xs = Inr (map g xs)"
  by (induction xs) simp_all

section \<open>Decimal rendering and JSON strings\<close>

function show_digits :: "int \<Rightarrow> string" where
  "show_digits n =
     (if n < 10 then [char_of (48 + n)] else show_digits (n div 10) @ [char_of (48 + n mod 10)])"
  by pat_completeness auto
termination
  by (relation "measure nat") auto

declare show_digits.simps [simp del]

definition show_int :: "int \<Rightarrow> string" where
  "show_int i = (if i < 0 then ''-'' @ show_digits (- i) else show_digits i)"

definition hex_digit :: "int \<Rightarrow> char" where
  "hex_digit n = (if n < 10 then char_of (48 + n) else char_of (87 + n))"

text \<open>One character of a JSON string literal under \<open>ensure_ascii=True\<close>.\<close>

definition json_char :: "char \<Rightarrow> string" where
  "json_char c =
     (let n = of_char c :: int in
      if c = CHR 0x22 then [CHR 0x5C, CHR 0x22]
      else if c = CHR 0x5C then [CHR 0x5C, CHR 0x5C]
      else if n = 10 then [CHR 0x5C, CHR ''n'']
      else if n = 13 then [CHR 0x5C, CHR ''r'']
      else if n = 9 then [CHR 0x5C, CHR ''t'']
      else if n = 8 then [CHR 0x5C, CHR ''b'']
      else if n = 12 then [CHR 0x5C, CHR ''f'']
      else if n < 32 \<or> 126 < n
        then [CHR 0x5C, CHR ''u'', CHR ''0'', CHR ''0'', hex_digit (n div 16), hex_digit (n mod 16)]
      else [c])"

definition json_str :: "string \<Rightarrow> string" where
  "json_str s = [CHR 0x22] @ concat (map json_char s) @ [CHR 0x22]"

fun join_with :: "string \<Rightarrow> string list \<Rightarrow> string" where
  "join_with sep [] = ''''"
| "join_with sep [s] = s"
| "join_with sep (s # t # ts) = s @ sep @ join_with sep (t # ts)"

section \<open>Binary64 floats\<close>

text \<open>
  \<open>Fin q\<close> is a finite float with the exact value \<open>q\<close>. Every arithmetic operation computes the
  exact rational result and rounds it once with \<open>fl\<close>: to the nearest multiple of the spacing of
  its binade (at least \<open>2 ^ -1074\<close>), ties to even, infinite from \<open>2 ^ 1024\<close> on.
\<close>

datatype pyfloat = Fin rat | PosInf | NegInf | NaN

definition pow2 :: "int \<Rightarrow> rat" where
  "pow2 e = (if 0 \<le> e then 2 ^ nat e else 1 / 2 ^ nat (- e))"

definition round_half_even :: "rat \<Rightarrow> int" where
  "round_half_even q =
     (let f = \<lfloor>q\<rfloor>; d = q - of_int f in
      if d < 1 / 2 then f else if 1 / 2 < d then f + 1 else if even f then f else f + 1)"

function ilog2 :: "int \<Rightarrow> int" where
  "ilog2 n = (if n \<le> 1 then 0 else 1 + ilog2 (n div 2))"
  by pat_completeness auto
termination
  by (relation "measure nat") auto

declare ilog2.simps [simp del]

text \<open>The exponent of the binade of a positive rational.\<close>

definition binade :: "rat \<Rightarrow> int" where
  "binade q =
     (if 1 \<le> q then ilog2 \<lfloor>q\<rfloor>
      else if \<lceil>1 / q\<rceil> \<le> 1 then 0 else - ilog2 (\<lceil>1 / q\<rceil> - 1) - 1)"

definition fl_pos :: "rat \<Rightarrow> rat" where
  "fl_pos q = (let u = pow2 (max (binade q - 52) (- 1074)) in of_int (round_half_even (q / u)) * u)"

definition fl :: "rat \<Rightarrow> pyfloat" where
  "fl q =
     (if q = 0 then Fin 0
      else let r = fl_pos \<bar>q\<bar> in
        if pow2 1024 \<le> r then (if 0 < q then PosInf else NegInf)
        else Fin (if 0 < q then r else - r))"

fun f_neg :: "pyfloat \<Rightarrow> pyfloat" where
  "f_neg (Fin q) = Fin (- q)"
| "f_neg PosInf = NegInf"
| "f_neg NegInf = PosInf"
| "f_neg NaN = NaN"

fun f_abs :: "pyfloat \<Rightarrow> pyfloat" where
  "f_abs (Fin q) = Fin \<bar>q\<bar>"
| "f_abs PosInf = PosInf"
| "f_abs NegInf = PosInf"
| "f_abs NaN = NaN"

fun f_add :: "pyfloat \<Rightarrow> pyfloat \<Rightarrow> pyfloat" where
  "f_add (Fin a) (Fin b) = fl (a + b)"
| "f_add NaN _ = NaN"
| "f_add _ NaN = NaN"
| "f_add PosInf NegInf = NaN"
| "f_add NegInf PosInf = NaN"
| "f_add PosInf _ = PosInf"
| "f_add _ PosInf = PosInf"
| "f_add NegInf _ = NegInf"
| "f_add _ NegInf = NegInf"

definition f_sub :: "pyfloat \<Rightarrow> pyfloat \<Rightarrow> pyfloat" where
  "f_sub a b = f_add a (f_neg b)"

definition f_sign :: "pyfloat \<Rightarrow> int" where
  "f_sign x = (case x of Fin q \<Rightarrow> (if q = 0 then 0 else if 0 < q then 1 else -1) | PosInf \<Rightarrow> 1 | NegInf \<Rightarrow> -1 | NaN \<Rightarrow> 0)"

fun f_mul :: "pyfloat \<Rightarrow> pyfloat \<Rightarrow> pyfloat" where
  "f_mul (Fin a) (Fin b) = fl (a * b)"
| "f_mul NaN _ = NaN"
| "f_mul _ NaN = NaN"
| "f_mul x y =
     (let s = f_sign x * f_sign y in if s = 0 then NaN else if 0 < s then PosInf else NegInf)"

text \<open>True division; \<open>None\<close> is the \<open>ZeroDivisionError\<close>.\<close>

definition f_div :: "pyfloat \<Rightarrow> pyfloat \<Rightarrow> pyfloat option" where
  "f_div x y =
     (if y = Fin 0 then None
      else Some (case (x, y) of
        (Fin a, Fin b) \<Rightarrow> fl (a / b)
      | (Fin a, NaN) \<Rightarrow> NaN
      | (Fin a, _) \<Rightarrow> Fin 0
      | (NaN, _) \<Rightarrow> NaN
      | (_, Fin b) \<Rightarrow> (if 0 < b then x else f_neg x)
      | _ \<Rightarrow> NaN))"

fun f_less :: "pyfloat \<Rightarrow> pyfloat \<Rightarrow> bool" where
  "f_less (Fin a) (Fin b) = (a < b)"
| "f_less NaN _ = False"
| "f_less _ NaN = False"
| "f_less NegInf y = (y \<noteq> NegInf)"
| "f_less x PosInf = (x \<noteq> PosInf)"
| "f_less _ _ = False"

fun f_eq :: "pyfloat \<Rightarrow> pyfloat \<Rightarrow> bool" where
  "f_eq NaN _ = False"
| "f_eq _ NaN = False"
| "f_eq x y = (x = y)"

definition f_le :: "pyfloat \<Rightarrow> pyfloat \<Rightarrow> bool" where
  "f_le x y = (f_less x y \<or> f_eq x y)"

text \<open>Python's two-argument \<open>min\<close> and \<open>max\<close> keep the first argument unless the second beats it.\<close>

definition f_min :: "pyfloat \<Rightarrow> pyfloat \<Rightarrow> pyfloat" where
  "f_min x y = (if f_less y x then y else x)"

definition f_max :: "pyfloat \<Rightarrow> pyfloat \<Rightarrow> pyfloat" where
  "f_max x y = (if f_less x y then y else x)"

fun f_isfinite :: "pyfloat \<Rightarrow> bool" where
  "f_isfinite (Fin _) = True"
| "f_isfinite _ = False"

text \<open>\<open>int(x)\<close> truncates towards zero; an infinity or NaN raises.\<close>

definition rat_trunc :: "rat \<Rightarrow> int" where
  "rat_trunc q = (if 0 \<le> q then \<lfloor>q\<rfloor> else \<lceil>q\<rceil>)"

fun int_of_float :: "pyfloat \<Rightarrow> int option" where
  "int_of_float (Fin q) = Some (rat_trunc q)"
| "int_of_float _ = None"

text \<open>True division of two integers is correctly rounded. Python raises \<open>OverflowError\<close> where the rounded quotient
  is infinite: \<open>ns_seconds\<close> and \<open>true_divide\<close> raise it; the other callers divide parts by their whole, or a
  difference of two time stamps by a constant, where an infinite quotient makes \<open>build_result\<close> fail as not
  representable in JSON.\<close>

definition int_truediv :: "int \<Rightarrow> int \<Rightarrow> pyfloat" where
  "int_truediv a b = fl (of_int a / of_int b)"

section \<open>Facts on rounding\<close>

lemma ilog2_nonneg: "0 \<le> ilog2 n"
  by (induction n rule: ilog2.induct) (simp add: ilog2.simps)

lemma ilog2_bounds: "1 \<le> n \<Longrightarrow> 2 ^ nat (ilog2 n) \<le> n \<and> n < 2 * 2 ^ nat (ilog2 n)"
proof (induction n rule: ilog2.induct)
  case (1 n)
  show ?case
  proof (cases "n \<le> 1")
    case True
    with "1.prems" have "n = 1" by simp
    moreover have "ilog2 1 = 0" by (simp add: ilog2.simps)
    ultimately show ?thesis by simp
  next
    case False
    then have "ilog2 n = 1 + ilog2 (n div 2)" by (simp add: ilog2.simps [of n])
    then have "(2::int) ^ nat (ilog2 n) = 2 * 2 ^ nat (ilog2 (n div 2))"
      using ilog2_nonneg [of "n div 2"] by (simp add: nat_add_distrib)
    moreover have "2 ^ nat (ilog2 (n div 2)) \<le> n div 2 \<and> n div 2 < 2 * 2 ^ nat (ilog2 (n div 2))"
      using False "1.IH" by simp
    ultimately show ?thesis by linarith
  qed
qed

lemma round_half_even_of_int [simp]: "round_half_even (of_int n) = n"
  by (simp add: round_half_even_def)

lemma fl_pos_of_int:
  assumes "1 \<le> n" and "n < 2 ^ 53"
  shows "fl_pos (of_int n) = of_int n"
proof -
  let ?e = "nat (ilog2 n)"
  have "(2::int) ^ ?e < 2 ^ 53" using ilog2_bounds [of n] assms by linarith
  then have "?e < 53" by (rule power_less_imp_less_exp [rotated]) simp
  then obtain k where k: "ilog2 n - 52 = - int k" and "k \<le> 52"
    using ilog2_nonneg [of n] by (intro that [of "52 - ?e"]) auto
  have "binade (of_int n) = ilog2 n" using assms by (simp add: binade_def)
  moreover have "pow2 (- int k) = 1 / 2 ^ k" by (cases "k = 0") (simp_all add: pow2_def)
  ultimately have u: "pow2 (max (binade (of_int n) - 52) (- 1074)) = 1 / 2 ^ k"
    using k \<open>k \<le> 52\<close> by simp
  have "(of_int n :: rat) / (1 / 2 ^ k) = of_int (n * 2 ^ k)" by simp
  then show ?thesis by (simp only: fl_pos_def u Let_def round_half_even_of_int) simp
qed

text \<open>Integers of at most 53 bits are exact.\<close>

lemma fl_of_int:
  assumes "\<bar>n\<bar> < 2 ^ 53"
  shows "fl (of_int n) = Fin (of_int n)"
proof (cases "n = 0")
  case True
  then show ?thesis by (simp add: fl_def)
next
  case False
  have "(of_int \<bar>n\<bar> :: rat) < of_int (2 ^ 53)" using assms by (simp only: of_int_less_iff)
  moreover have "(2::rat) ^ 53 \<le> pow2 1024"
    using power_increasing [of 53 1024 "2::rat"] by (simp only: pow2_def) simp
  ultimately have "\<not> pow2 1024 \<le> of_int \<bar>n\<bar>" by simp
  moreover have "fl_pos (of_int \<bar>n\<bar>) = of_int \<bar>n\<bar>"
    using fl_pos_of_int [of "\<bar>n\<bar>"] assms False by simp
  ultimately show ?thesis using False by (simp add: fl_def Let_def abs_if split: if_splits)
qed

lemma fl_numeral [simp]:
  "(numeral k :: int) < 2 ^ 53 \<Longrightarrow> fl (numeral k) = Fin (numeral k)"
  using fl_of_int [of "numeral k"] by simp

lemma fl_0_1 [simp]: "fl 0 = Fin 0" "fl 1 = Fin 1"
  using fl_of_int [of 0] fl_of_int [of 1] by simp_all

lemma pow2_pos [simp]: "0 < pow2 e"
  by (simp add: pow2_def)

lemma pow2_mono: "e \<le> e' \<Longrightarrow> pow2 e \<le> pow2 e'"
proof (cases "0 \<le> e"; cases "0 \<le> e'")
  assume "\<not> 0 \<le> e" "0 \<le> e'" "e \<le> e'"
  moreover have "1 / 2 ^ nat (- e) \<le> (1::rat)" "(1::rat) \<le> 2 ^ nat e'"
    by (simp_all add: divide_le_eq_1)
  ultimately show ?thesis unfolding pow2_def by (simp only: if_True if_False)
next
  assume "\<not> 0 \<le> e" "\<not> 0 \<le> e'" "e \<le> e'"
  then show ?thesis by (simp add: pow2_def frac_le power_increasing)
qed (auto simp: pow2_def power_increasing nat_mono)

lemma round_half_even_le: "of_int (round_half_even q) \<le> q + 1"
proof -
  have "round_half_even q \<le> \<lfloor>q\<rfloor> + 1" by (simp add: round_half_even_def Let_def)
  then have "(of_int (round_half_even q) :: rat) \<le> of_int (\<lfloor>q\<rfloor> + 1)" by (simp only: of_int_le_iff)
  also have "\<dots> \<le> q + 1" by simp
  finally show ?thesis .
qed

lemma binade_le:
  assumes "0 < q" "q \<le> 2 ^ n"
  shows "binade q \<le> int n"
proof (cases "1 \<le> q")
  case True
  have "2 ^ nat (ilog2 \<lfloor>q\<rfloor>) \<le> \<lfloor>q\<rfloor>" using ilog2_bounds [of "\<lfloor>q\<rfloor>"] True by simp
  then have "(2::rat) ^ nat (ilog2 \<lfloor>q\<rfloor>) \<le> q" by (simp add: le_floor_iff)
  then have "(2::rat) ^ nat (ilog2 \<lfloor>q\<rfloor>) \<le> 2 ^ n" using assms(2) by (rule order_trans)
  then have "nat (ilog2 \<lfloor>q\<rfloor>) \<le> n" by (rule power_le_imp_le_exp [of "2::rat", rotated]) simp
  with True show ?thesis using ilog2_nonneg [of "\<lfloor>q\<rfloor>"] by (simp add: binade_def)
next
  case False
  then show ?thesis using ilog2_nonneg [of "\<lceil>1 / q\<rceil> - 1"] by (simp add: binade_def)
qed

lemma fl_pos_le:
  assumes "0 < q" "q \<le> 2 ^ n" "52 \<le> n"
  shows "fl_pos q \<le> 2 * 2 ^ n"
proof -
  define u where "u = pow2 (max (binade q - 52) (- 1074))"
  have "u \<le> pow2 (int n - 52)" unfolding u_def
    using binade_le [OF assms(1,2)] assms(3) by (intro pow2_mono) auto
  also have "\<dots> \<le> 2 ^ n"
    using assms(3) power_increasing [of "nat (int n - 52)" n "2::rat"] by (simp add: pow2_def)
  finally have "u \<le> 2 ^ n" .
  have "0 < u" by (simp add: u_def)
  have "of_int (round_half_even (q / u)) * u \<le> (q / u + 1) * u"
    using round_half_even_le [of "q / u"] \<open>0 < u\<close> by (intro mult_right_mono) auto
  also have "\<dots> = q + u" using \<open>0 < u\<close> by (simp add: field_simps)
  finally show ?thesis using assms(2) \<open>u \<le> 2 ^ n\<close> by (simp add: fl_pos_def u_def Let_def)
qed

text \<open>Rounding overflows only far away.\<close>

lemma fl_finite:
  assumes "\<bar>q\<bar> \<le> 2 ^ 1000"
  shows "f_isfinite (fl q)"
proof (cases "q = 0")
  case False
  then have "fl_pos \<bar>q\<bar> \<le> 2 * 2 ^ 1000" using fl_pos_le [of "\<bar>q\<bar>" 1000] assms by simp
  also have "\<dots> = 2 ^ 1001" using power_Suc [of "2::rat" 1000] by (simp only: eval_nat_numeral)
  also have "\<dots> < pow2 1024"
    using power_strict_increasing [of 1001 1024 "2::rat"] by (simp add: pow2_def)
  finally show ?thesis using False by (simp add: fl_def Let_def not_le)
qed (simp add: fl_def)

text \<open>The relative error of rounding a normal number is at most one unit in the last place.\<close>

lemma pow2_powi: "pow2 e = 2 powi e"
  by (simp add: pow2_def power_int_def field_simps)

lemma pow2_diff: "pow2 (a - b) = pow2 a / pow2 b"
  by (simp add: pow2_powi power_int_diff)

lemma pow2_binade_le:
  assumes "0 < q"
  shows "pow2 (binade q) \<le> q"
proof (cases "1 \<le> q")
  case True
  have "2 ^ nat (ilog2 \<lfloor>q\<rfloor>) \<le> \<lfloor>q\<rfloor>" using ilog2_bounds [of "\<lfloor>q\<rfloor>"] True by simp
  then have "(2::rat) ^ nat (ilog2 \<lfloor>q\<rfloor>) \<le> q" by (simp add: le_floor_iff)
  with True show ?thesis using ilog2_nonneg [of "\<lfloor>q\<rfloor>"] by (simp add: binade_def pow2_def)
next
  case False
  then have "1 < 1 / q" using assms by (simp add: field_simps)
  then have c: "1 < \<lceil>1 / q\<rceil>" by (simp add: less_ceiling_iff)
  define m where "m = \<lceil>1 / q\<rceil> - 1"
  have m: "1 \<le> m" using c by (simp add: m_def)
  have "m + 1 \<le> 2 * 2 ^ nat (ilog2 m)" using ilog2_bounds [OF m] by linarith
  then have "rat_of_int (m + 1) \<le> rat_of_int (2 * 2 ^ nat (ilog2 m))" by (simp only: of_int_le_iff)
  moreover have "1 / q \<le> rat_of_int (m + 1)" by (simp add: m_def)
  ultimately have "1 / q \<le> 2 ^ nat (ilog2 m + 1)"
    using ilog2_nonneg [of m] by (simp add: nat_add_distrib)
  then have "1 / 2 ^ nat (ilog2 m + 1) \<le> q" using assms by (simp add: field_simps)
  moreover have "binade q = - (ilog2 m + 1)" using False c by (simp add: binade_def m_def)
  ultimately show ?thesis using ilog2_nonneg [of m] by (simp add: pow2_def add.commute)
qed

lemma round_half_even_ge: "q - 1 \<le> of_int (round_half_even q)"
proof -
  have "\<lfloor>q\<rfloor> \<le> round_half_even q" by (simp add: round_half_even_def Let_def)
  then have "rat_of_int \<lfloor>q\<rfloor> \<le> of_int (round_half_even q)" by (simp only: of_int_le_iff)
  moreover have "q - 1 \<le> rat_of_int \<lfloor>q\<rfloor>" by linarith
  ultimately show ?thesis by linarith
qed

lemma fl_pos_near:
  assumes "pow2 (- 1022) \<le> q"
  shows "\<bar>fl_pos q - q\<bar> \<le> q / 2 ^ 52"
proof -
  have q: "0 < q" using assms pow2_pos [of "- 1022"] by linarith
  define u where "u = pow2 (max (binade q - 52) (- 1074))"
  have "pow2 52 = 2 ^ 52" by (simp add: pow2_def)
  then have "pow2 (binade q - 52) \<le> q / 2 ^ 52"
    using pow2_binade_le [OF q] by (simp only: pow2_diff) (simp add: divide_right_mono)
  moreover have "pow2 (- 1074) \<le> q / 2 ^ 52"
  proof -
    have "pow2 (- 1074) = pow2 (- 1022 - 52)" by simp
    also have "\<dots> = pow2 (- 1022) / 2 ^ 52" by (simp only: pow2_diff \<open>pow2 52 = 2 ^ 52\<close>)
    finally show ?thesis using assms by (simp only: divide_right_mono) (simp add: divide_right_mono)
  qed
  ultimately have u: "u \<le> q / 2 ^ 52" by (simp add: u_def max_def)
  have "0 < u" by (simp add: u_def)
  have "(q / u - 1) * u \<le> fl_pos q" "fl_pos q \<le> (q / u + 1) * u"
    using round_half_even_ge [of "q / u"] round_half_even_le [of "q / u"] \<open>0 < u\<close>
    by (auto simp: fl_pos_def u_def [symmetric] intro!: mult_right_mono)
  moreover have "(q / u - 1) * u = q - u" "(q / u + 1) * u = q + u"
    using \<open>0 < u\<close> by (simp_all add: left_diff_distrib distrib_right)
  ultimately have "q - u \<le> fl_pos q" "fl_pos q \<le> q + u" by simp_all
  then have "\<bar>fl_pos q - q\<bar> \<le> u" by linarith
  then show ?thesis using u by (rule order_trans)
qed

lemma fl_near:
  assumes "pow2 (- 1022) \<le> q" "q \<le> 2 ^ 1000"
  obtains r where "fl q = Fin r" "\<bar>r - q\<bar> \<le> q / 2 ^ 52" "0 < r"
proof -
  have q: "0 < q" using assms(1) pow2_pos [of "- 1022"] by linarith
  then have "f_isfinite (fl q)" using assms(2) by (intro fl_finite) simp
  then have "fl q = Fin (fl_pos q)" using q by (simp add: fl_def Let_def split: if_splits)
  moreover have near: "\<bar>fl_pos q - q\<bar> \<le> q / 2 ^ 52" by (rule fl_pos_near [OF assms(1)])
  moreover have "0 < fl_pos q" using abs_le_D2 [OF near] q by (simp add: field_simps)
  ultimately show ?thesis by (rule that)
qed

text \<open>Dyadic rationals with at most 53 significant bits are exact.\<close>

lemma pow2_neg_nat: "pow2 (- int k) = 1 / 2 ^ k"
  by (cases "k = 0") (simp_all add: pow2_def)

lemma fl_pos_dyadic:
  assumes "0 < m" "m < 2 ^ 53" "k \<le> 1074"
  shows "fl_pos (of_int m / 2 ^ k) = of_int m / 2 ^ k"
proof -
  define q where "q = (of_int m / 2 ^ k :: rat)"
  define e where "e = max (binade q - 52) (- 1074)"
  have q: "0 < q" using assms(1) by (simp add: q_def)
  have "(of_int m :: rat) < of_int (2 ^ 53)" using assms(2) by (simp only: of_int_less_iff)
  then have "q < 2 ^ 53 / 2 ^ k" by (simp add: q_def divide_strict_right_mono)
  also have "\<dots> = pow2 53 / pow2 (int k)" by (simp add: pow2_def)
  also have "\<dots> = pow2 (53 - int k)" by (rule pow2_diff [symmetric])
  finally have "\<not> 53 - int k \<le> binade q" using pow2_binade_le [OF q] pow2_mono [of "53 - int k" "binade q"] by linarith
  then have "e \<le> - int k" using assms(3) by (simp add: e_def)
  then have j: "e = - int (k + nat (- e - int k))" by simp
  define j where "j = nat (- e - int k)"
  note j = j [folded j_def]
  have "q / pow2 e = of_int (m * 2 ^ j)" unfolding j pow2_neg_nat by (simp add: q_def power_add)
  moreover have "of_int (m * 2 ^ j) * pow2 e = q" unfolding j pow2_neg_nat by (simp add: q_def power_add)
  ultimately show ?thesis unfolding fl_pos_def Let_def e_def [symmetric] q_def [symmetric] by (simp only: round_half_even_of_int)
qed

lemma fl_dyadic:
  assumes "0 < m" "m < 2 ^ 53" "k \<le> 1074"
  shows "fl (of_int m / 2 ^ k) = Fin (of_int m / 2 ^ k)"
proof -
  have pos: "0 < (of_int m / 2 ^ k :: rat)" using assms(1) by simp
  have "(of_int m :: rat) < of_int (2 ^ 53)" using assms(2) by (simp only: of_int_less_iff)
  moreover have "(of_int m :: rat) / 2 ^ k \<le> of_int m" using assms(1) using mult_left_mono [of 1 "2 ^ k" "of_int m :: rat"] by (simp add: divide_le_eq)
  ultimately have "(of_int m / 2 ^ k :: rat) \<le> 2 ^ 53" by simp
  also have "\<dots> \<le> 2 ^ 1000" by (rule power_increasing) simp_all
  finally have "f_isfinite (fl (of_int m / 2 ^ k))" using pos by (intro fl_finite) simp
  moreover have "fl q = Fin (fl_pos q)" if "0 < q" "f_isfinite (fl q)" for q
    using that by (simp add: fl_def Let_def split: if_splits)
  ultimately show ?thesis using pos fl_pos_dyadic [OF assms] by metis
qed

lemma fl_ratio_pos:
  assumes "1 \<le> n" "n \<le> d" "d \<le> (2::rat) ^ 1022"
  shows "\<exists>r. fl (n / d) = Fin r \<and> 0 < r"
proof -
  have "pow2 (- 1022) \<le> n / d"
    using assms frac_le [of 1 n d "2 ^ 1022"] by (simp add: pow2_def)
  moreover have "n / d \<le> 1" using assms by (simp add: divide_le_eq_1)
  then have "n / d \<le> 2 ^ 1000" by (rule order_trans) simp
  ultimately show ?thesis by (metis fl_near)
qed

lemma f_less_irrefl [simp]: "\<not> f_less x x"
  by (cases x) simp_all

lemma f_less_trans: "f_less x y \<Longrightarrow> f_less y z \<Longrightarrow> f_less x z"
  by (cases x; cases y; cases z) simp_all

lemma f_max_0_nonneg: "f_le (Fin 0) (f_max (Fin 0) x)"
  by (cases x) (auto simp: f_max_def f_le_def)

section \<open>Dynamically typed values\<close>

datatype pyval =
    PNone
  | PBool bool
  | PInt int
  | PFloat pyfloat
  | PStr string
  | PList "pyval list"
  | PDict "(string \<times> pyval) list"

type_synonym pydict = "(string \<times> pyval) list"

text \<open>\<open>d.get(k)\<close>\<close>

definition dget :: "pydict \<Rightarrow> string \<Rightarrow> pyval" where
  "dget d k = (case map_of d k of None \<Rightarrow> PNone | Some v \<Rightarrow> v)"

text \<open>\<open>isinstance(v, int) and not isinstance(v, bool)\<close>\<close>

definition is_int :: "pyval \<Rightarrow> bool" where
  "is_int v = (case v of PInt _ \<Rightarrow> True | _ \<Rightarrow> False)"

fun truthy :: "pyval \<Rightarrow> bool" where
  "truthy PNone = False"
| "truthy (PBool b) = b"
| "truthy (PInt i) = (i \<noteq> 0)"
| "truthy (PFloat f) = (f \<noteq> Fin 0)"
| "truthy (PStr s) = (s \<noteq> '''')"
| "truthy (PList xs) = (xs \<noteq> [])"
| "truthy (PDict d) = (d \<noteq> [])"

text \<open>The numeric value of a bool, int or float, all of which compare with each other.\<close>

fun py_num :: "pyval \<Rightarrow> pyfloat option" where
  "py_num (PBool b) = Some (Fin (if b then 1 else 0))"
| "py_num (PInt i) = Some (Fin (of_int i))"
| "py_num (PFloat f) = Some f"
| "py_num _ = None"

fun py_eq :: "pyval \<Rightarrow> pyval \<Rightarrow> bool" where
  "py_eq PNone PNone = True"
| "py_eq (PStr s) (PStr t) = (s = t)"
| "py_eq (PList xs) (PList ys) = list_all2 py_eq xs ys"
| "py_eq (PDict d) (PDict e) =
     (length d = length e \<and>
      list_all (\<lambda>(k, v). case map_of e k of None \<Rightarrow> False | Some w \<Rightarrow> py_eq v w) d)"
| "py_eq v w =
     (case (py_num v, py_num w) of (Some x, Some y) \<Rightarrow> f_eq x y | _ \<Rightarrow> False)"

section \<open>\<open>json.dumps\<close> with compact separators\<close>

text \<open>
  \<open>repr\<close> of a positive finite float: the fewest significant digits, at most seventeen, whose
  nearest decimal rounds back to the float; fixed notation for decimal exponents from -4 to 15.
\<close>

definition pow10 :: "int \<Rightarrow> rat" where
  "pow10 e = (if 0 \<le> e then 10 ^ nat e else 1 / 10 ^ nat (- e))"

definition decade :: "rat \<Rightarrow> int" where
  "decade q =
     (if 1 \<le> q then int (length (show_int \<lfloor>q\<rfloor>)) - 1
      else - int (length (show_int (\<lceil>1 / q\<rceil> - 1))))"

fun shortest_digits :: "nat \<Rightarrow> nat \<Rightarrow> rat \<Rightarrow> int \<Rightarrow> string \<times> int" where
  "shortest_digits k n q e =
     (let c = round_half_even (q / pow10 (e - int n + 1)); s = show_int c in
      case k of
        0 \<Rightarrow> (s, e + int (length s) - int n)
      | Suc k' \<Rightarrow>
          (if fl (of_int c * pow10 (e - int n + 1)) = Fin q
           then (s, e + int (length s) - int n)
           else shortest_digits k' (Suc n) q e))"

definition strip_zeros :: "string \<Rightarrow> string" where
  "strip_zeros s = rev (dropWhile (\<lambda>c. c = CHR ''0'') (rev s))"

definition show_exponent :: "int \<Rightarrow> string" where
  "show_exponent e =
     (let d = show_int \<bar>e\<bar> in
      (if e < 0 then ''-'' else ''+'') @ (if length d < 2 then ''0'' else '''') @ d)"

definition pos_float_repr :: "rat \<Rightarrow> string" where
  "pos_float_repr q =
     (let (s0, e) = shortest_digits 16 1 q (decade q); s = strip_zeros s0; n = int (length s) in
      if - 4 \<le> e \<and> e < 16 then
        (if n - 1 \<le> e then s @ replicate (nat (e - n + 1)) (CHR ''0'') @ ''.0''
         else if 0 \<le> e then take (nat (e + 1)) s @ ''.'' @ drop (nat (e + 1)) s
         else ''0.'' @ replicate (nat (- e - 1)) (CHR ''0'') @ s)
      else
        take 1 s @ (if 1 < n then ''.'' @ drop 1 s else '''') @ ''e'' @ show_exponent e)"

fun json_float :: "pyfloat \<Rightarrow> string" where
  "json_float (Fin q) =
     (if q = 0 then ''0.0'' else if q < 0 then ''-'' @ pos_float_repr (- q) else pos_float_repr q)"
| "json_float PosInf = ''Infinity''"
| "json_float NegInf = ''-Infinity''"
| "json_float NaN = ''NaN''"

text \<open>\<open>json.dumps(v, ensure_ascii=True, separators=(',', ':'))\<close>: dictionaries keep their
  insertion order.\<close>

fun json_dumps :: "pyval \<Rightarrow> string" where
  "json_dumps PNone = ''null''"
| "json_dumps (PBool b) = (if b then ''true'' else ''false'')"
| "json_dumps (PInt i) = show_int i"
| "json_dumps (PFloat f) = json_float f"
| "json_dumps (PStr s) = json_str s"
| "json_dumps (PList vs) = ''['' @ join_with '','' (map json_dumps vs) @ '']''"
| "json_dumps (PDict d) =
     [CHR 0x7B] @ join_with '','' (map (\<lambda>(k, v). json_str k @ '':'' @ json_dumps v) d) @ [CHR 0x7D]"

text \<open>\<open>json.dumps(v, allow_nan=False, ensure_ascii=False, separators=(',', ':'), sort_keys=True)\<close>:
  the canonical form of every artifact. A non-finite float anywhere raises (\<open>json_finite\<close>).\<close>

definition json_char_raw :: "char \<Rightarrow> string" where
  "json_char_raw c = (if (of_char c :: int) < 127 then json_char c else [c])"

definition json_str_raw :: "string \<Rightarrow> string" where
  "json_str_raw s = [CHR 0x22] @ concat (map json_char_raw s) @ [CHR 0x22]"

fun json_canonical :: "pyval \<Rightarrow> string" where
  "json_canonical PNone = ''null''"
| "json_canonical (PBool b) = (if b then ''true'' else ''false'')"
| "json_canonical (PInt i) = show_int i"
| "json_canonical (PFloat f) = json_float f"
| "json_canonical (PStr s) = json_str_raw s"
| "json_canonical (PList vs) = ''['' @ join_with '','' (map json_canonical vs) @ '']''"
| "json_canonical (PDict d) =
     [CHR 0x7B]
     @ join_with '','' (map (\<lambda>(k, s). json_str_raw k @ '':'' @ s)
         (sort_key fst (map (\<lambda>(k, v). (k, json_canonical v)) d)))
     @ [CHR 0x7D]"

fun json_finite :: "pyval \<Rightarrow> bool" where
  "json_finite (PFloat f) = f_isfinite f"
| "json_finite (PList vs) = list_all json_finite vs"
| "json_finite (PDict d) = list_all (\<lambda>(k, v). json_finite v) d"
| "json_finite _ = True"

text \<open>\<open>repr\<close> of a string without quotes, backslashes or unprintable characters, and of a list of
  such strings.\<close>

definition str_repr :: "string \<Rightarrow> string" where
  "str_repr s = [CHR 0x27] @ s @ [CHR 0x27]"

definition str_list_repr :: "string list \<Rightarrow> string" where
  "str_list_repr ss = ''['' @ join_with '', '' (map str_repr ss) @ '']''"

text \<open>\<open>repr\<close> of a value.\<close>

fun py_repr :: "pyval \<Rightarrow> string" where
  "py_repr PNone = ''None''"
| "py_repr (PBool b) = (if b then ''True'' else ''False'')"
| "py_repr (PInt i) = show_int i"
| "py_repr (PFloat f) = (case f of PosInf \<Rightarrow> ''inf'' | NegInf \<Rightarrow> ''-inf'' | NaN \<Rightarrow> ''nan'' | Fin q \<Rightarrow> json_float (Fin q))"
| "py_repr (PStr s) = str_repr s"
| "py_repr (PList vs) = ''['' @ join_with '', '' (map py_repr vs) @ '']''"
| "py_repr (PDict d) = [CHR 0x7B] @ join_with '', '' (map (\<lambda>(k, v). str_repr k @ '': '' @ py_repr v) d) @ [CHR 0x7D]"

declare shortest_digits.simps [simp del]

lemma py_eq_PInt [simp]: "py_eq (PInt i) (PInt j) \<longleftrightarrow> i = j"
  by simp

lemma is_int_iff [py_defs]: "is_int v \<longleftrightarrow> (\<exists>i. v = PInt i)"
  by (auto simp: is_int_def split: pyval.splits)

lemma dget_simps [simp]:
  "dget [] k = PNone" "dget ((k', v) # d) k = (if k = k' then v else dget d k)"
  by (simp_all add: dget_def)

section \<open>Insertion-ordered dictionaries\<close>

text \<open>\<open>d[k] = v\<close> replaces the value of a present key in place and appends a new key.\<close>

fun dict_set :: "'k \<Rightarrow> 'v \<Rightarrow> ('k \<times> 'v) list \<Rightarrow> ('k \<times> 'v) list" where
  "dict_set k v [] = [(k, v)]"
| "dict_set k v ((k', v') # d) = (if k' = k then (k, v) # d else (k', v') # dict_set k v d)"

text \<open>What \<open>d.pop(k, None)\<close> leaves.\<close>

definition dict_del :: "'k \<Rightarrow> ('k \<times> 'v) list \<Rightarrow> ('k \<times> 'v) list" where
  "dict_del k d = filter (\<lambda>(k', v). k' \<noteq> k) d"

lemma dict_set_new: "k \<notin> fst ` set d \<Longrightarrow> dict_set k v d = d @ [(k, v)]"
  by (induction d rule: dict_set.induct) auto

lemma map_of_dict_set: "map_of (dict_set k v d) = (map_of d)(k \<mapsto> v)"
  by (induction k v d rule: dict_set.induct) auto

lemma dict_set_keys: "fst ` set (dict_set k v d) = insert k (fst ` set d)"
  by (induction k v d rule: dict_set.induct) auto

lemma dict_set_distinct: "distinct (map fst d) \<Longrightarrow> distinct (map fst (dict_set k v d))"
proof (induction k v d rule: dict_set.induct)
  case (2 k v k' v' d)
  have "k' \<notin> fst ` set (dict_set k v d)" if "k' \<noteq> k" using 2 that by (simp add: dict_set_keys)
  with 2 show ?case by auto
qed simp

lemma map_of_dict_del: "map_of (dict_del k d) = (map_of d)(k := None)"
  by (induction d) (auto simp: dict_del_def)

lemma dict_del_absent: "k \<notin> fst ` set d \<Longrightarrow> dict_del k d = d"
  by (induction d) (auto simp: dict_del_def)

lemma dict_del_keys: "fst ` set (dict_del k d) = fst ` set d - {k}"
  by (force simp: dict_del_def)

lemma dict_del_distinct: "distinct (map fst d) \<Longrightarrow> distinct (map fst (dict_del k d))"
  by (induction d) (auto simp: dict_del_def)

section \<open>Decimal digits read back\<close>

definition is_digit :: "char \<Rightarrow> bool" where
  "is_digit c \<longleftrightarrow> c \<in> set ''0123456789''"

definition digits_val :: "string \<Rightarrow> int" where
  "digits_val s = foldl (\<lambda>a c. 10 * a + (of_char c - 48)) 0 s"

lemma digit_char:
  assumes "0 \<le> n" "n < 10"
  shows "of_char (char_of (48 + n) :: char) = (48 + n :: int)" "is_digit (char_of (48 + n :: int))"
proof -
  have "n \<in> set [0..9]" using assms by simp
  moreover have "list_all (\<lambda>n. of_char (char_of (48 + n) :: char) = (48 + n :: int)
      \<and> is_digit (char_of (48 + n))) [0..9]" by code_simp
  ultimately show "of_char (char_of (48 + n) :: char) = (48 + n :: int)" "is_digit (char_of (48 + n))"
    by (auto simp: list_all_iff simp del: set_upto)
qed

lemma show_digits_val: "0 \<le> n \<Longrightarrow> digits_val (show_digits n) = n"
proof (induction n rule: show_digits.induct)
  case (1 n)
  show ?case
  proof (cases "n < 10")
    case True
    then show ?thesis using "1.prems" by (simp add: show_digits.simps [of n] digits_val_def digit_char)
  next
    case False
    then have "digits_val (show_digits (n div 10)) = n div 10" using "1.IH" by simp
    then show ?thesis using False
      by (simp add: show_digits.simps [of n] digits_val_def digit_char)
  qed
qed

lemma show_digits_digits: "0 \<le> n \<Longrightarrow> list_all is_digit (show_digits n)"
proof (induction n rule: show_digits.induct)
  case (1 n)
  then show ?case by (cases "n < 10") (simp_all add: show_digits.simps [of n] digit_char)
qed

lemma show_int_nonneg_inj: "0 \<le> i \<Longrightarrow> 0 \<le> j \<Longrightarrow> show_int i = show_int j \<Longrightarrow> i = j"
  by (metis show_digits_val show_int_def not_less)

end
