(* ===== verification/Sha256.thy ===== *)
theory Sha256
  imports Py_Prelude "HOL-Library.Word"
begin

text \<open>
  SHA-256 as \<open>hashlib.sha256(data).hexdigest()\<close> computes it: FIPS 180-4 on 32-bit words, with the
  message schedule kept as a sliding window of sixteen words. The digest of every message is
  sixty-four lowercase hexadecimal characters (\<open>sha256_hex_shape\<close>), which is what the pattern
  \<open>^[0-9a-f]{64}$\<close> of \<open>fault_schedule.py\<close> accepts.
\<close>

unbundle bit_operations_syntax

type_synonym u32 = "32 word"
type_synonym sha_state = "u32 \<times> u32 \<times> u32 \<times> u32 \<times> u32 \<times> u32 \<times> u32 \<times> u32"

definition K256 :: "u32 list" where
  "K256 =
    [1116352408, 1899447441, 3049323471, 3921009573, 961987163, 1508970993, 2453635748, 2870763221,
     3624381080, 310598401, 607225278, 1426881987, 1925078388, 2162078206, 2614888103, 3248222580,
     3835390401, 4022224774, 264347078, 604807628, 770255983, 1249150122, 1555081692, 1996064986,
     2554220882, 2821834349, 2952996808, 3210313671, 3336571891, 3584528711, 113926993, 338241895,
     666307205, 773529912, 1294757372, 1396182291, 1695183700, 1986661051, 2177026350, 2456956037,
     2730485921, 2820302411, 3259730800, 3345764771, 3516065817, 3600352804, 4094571909, 275423344,
     430227734, 506948616, 659060556, 883997877, 958139571, 1322822218, 1537002063, 1747873779,
     1955562222, 2024104815, 2227730452, 2361852424, 2428436474, 2756734187, 3204031479, 3329325298]"

definition H256 :: sha_state where
  "H256 = (1779033703, 3144134277, 1013904242, 2773480762,
           1359893119, 2600822924, 528734635, 1541459225)"

definition rotr :: "nat \<Rightarrow> u32 \<Rightarrow> u32" where
  "rotr n x = drop_bit n x OR push_bit (32 - n) x"

definition bsig0 :: "u32 \<Rightarrow> u32" where
  "bsig0 x = rotr 2 x XOR rotr 13 x XOR rotr 22 x"

definition bsig1 :: "u32 \<Rightarrow> u32" where
  "bsig1 x = rotr 6 x XOR rotr 11 x XOR rotr 25 x"

definition ssig0 :: "u32 \<Rightarrow> u32" where
  "ssig0 x = rotr 7 x XOR rotr 18 x XOR drop_bit 3 x"

definition ssig1 :: "u32 \<Rightarrow> u32" where
  "ssig1 x = rotr 17 x XOR rotr 19 x XOR drop_bit 10 x"

definition sha_ch :: "u32 \<Rightarrow> u32 \<Rightarrow> u32 \<Rightarrow> u32" where
  "sha_ch x y z = (x AND y) XOR (NOT x AND z)"

definition sha_maj :: "u32 \<Rightarrow> u32 \<Rightarrow> u32 \<Rightarrow> u32" where
  "sha_maj x y z = (x AND y) XOR (x AND z) XOR (y AND z)"

text \<open>One round per constant; \<open>w\<close> is the window of the sixteen next schedule words.\<close>

fun sha_rounds :: "u32 list \<Rightarrow> u32 list \<Rightarrow> sha_state \<Rightarrow> sha_state" where
  "sha_rounds [] w st = st"
| "sha_rounds (k # ks) w (a, b, c, d, e, f, g, h) =
     (let t1 = h + bsig1 e + sha_ch e f g + k + w ! 0;
          t2 = bsig0 a + sha_maj a b c;
          nw = ssig1 (w ! 14) + w ! 9 + ssig0 (w ! 1) + w ! 0
      in sha_rounds ks (tl w @ [nw]) (t1 + t2, a, b, c, d + t1, e, f, g))"

fun sha_add :: "sha_state \<Rightarrow> sha_state \<Rightarrow> sha_state" where
  "sha_add (a, b, c, d, e, f, g, h) (a', b', c', d', e', f', g', h') =
     (a + a', b + b', c + c', d + d', e + e', f + f', g + g', h + h')"

definition sha_block :: "sha_state \<Rightarrow> u32 list \<Rightarrow> sha_state" where
  "sha_block st w = sha_add st (sha_rounds K256 w st)"

fun be_word :: "int list \<Rightarrow> u32" where
  "be_word [a, b, c, d] = of_int (((a * 256 + b) * 256 + c) * 256 + d)"
| "be_word _ = 0"

function chunks :: "nat \<Rightarrow> 'a list \<Rightarrow> 'a list list" where
  "chunks n xs = (if n = 0 \<or> xs = [] then [] else take n xs # chunks n (drop n xs))"
  by pat_completeness auto
termination
  by (relation "measure (\<lambda>(n, xs). length xs)") auto

declare chunks.simps [simp del]

text \<open>The bit length as eight big-endian bytes.\<close>

definition be64 :: "int \<Rightarrow> int list" where
  "be64 n = map (\<lambda>k. n div k mod 256)
     [0x100000000000000, 0x1000000000000, 0x10000000000, 0x100000000, 0x1000000, 0x10000, 0x100, 1]"

definition sha_pad :: "int list \<Rightarrow> int list" where
  "sha_pad m =
     m @ [128] @ replicate ((119 - length m mod 64) mod 64) 0 @ be64 (8 * int (length m))"

definition sha256_words :: "int list \<Rightarrow> u32 list" where
  "sha256_words m =
     (let blocks = map (\<lambda>b. map be_word (chunks 4 b)) (chunks 64 (sha_pad m));
          (a, b, c, d, e, f, g, h) = foldl sha_block H256 blocks
      in [a, b, c, d, e, f, g, h])"

definition hex_word :: "u32 \<Rightarrow> string" where
  "hex_word w = map (\<lambda>k. hex_digit (uint w div k mod 16))
     [0x10000000, 0x1000000, 0x100000, 0x10000, 0x1000, 0x100, 0x10, 1]"

definition sha256_hex :: "string \<Rightarrow> string" where
  "sha256_hex s = concat (map hex_word (sha256_words (map of_char s)))"

section \<open>The shape of a digest\<close>

definition is_lower_hex :: "char \<Rightarrow> bool" where
  "is_lower_hex c = (c \<in> set ''0123456789abcdef'')"

lemma hex_digit_lower: "is_lower_hex (hex_digit (n mod 16))"
proof -
  have "n mod 16 \<in> set [0..15]" by simp
  moreover have "list_all (\<lambda>n. is_lower_hex (hex_digit n)) [0..15]" by code_simp
  ultimately show ?thesis by (simp add: list_all_iff del: set_upto)
qed

lemma hex_word_shape: "length (hex_word w) = 8" "list_all is_lower_hex (hex_word w)"
  by (auto simp: hex_word_def list_all_iff hex_digit_lower)

lemma sha256_words_length: "length (sha256_words m) = 8"
  by (simp add: sha256_words_def Let_def split: prod.split)

lemma concat_map_length:
  "(\<And>x. x \<in> set xs \<Longrightarrow> length (f x) = n) \<Longrightarrow> length (concat (map f xs)) = n * length xs"
  by (induction xs) simp_all

theorem sha256_hex_shape:
  "length (sha256_hex s) = 64" "list_all is_lower_hex (sha256_hex s)"
proof -
  show "length (sha256_hex s) = 64"
    by (simp add: sha256_hex_def concat_map_length [where n = 8] hex_word_shape sha256_words_length)
  show "list_all is_lower_hex (sha256_hex s)"
    using hex_word_shape(2) by (auto simp: sha256_hex_def list_all_iff)
qed

end
