(* ===== verification/Sha256_Known.thy ===== *)
theory Sha256_Known
  imports Sha256
begin

text \<open>
  A known answer: the digest of the empty canonical schedule, evaluated in the kernel, is the value
  the scenario files without faults carry as \<open>fault_schedule_sha256\<close>.
\<close>

definition empty_schedule_json :: string where
  "empty_schedule_json =
     [CHR 0x7B] @ json_str ''schema_version'' @ '':1,'' @ json_str ''faults'' @ '':[]'' @ [CHR 0x7D]"

lemma empty_schedule_blocks:
  "map (\<lambda>b. map be_word (chunks 4 b)) (chunks 64 (sha_pad (map of_char empty_schedule_json))) =
   [[0x7b227363, 0x68656d61, 0x5f766572, 0x73696f6e,
     0x223a312c, 0x22666175, 0x6c747322, 0x3a5b5d7d,
     0x80000000, 0x00000000, 0x00000000, 0x00000000,
     0x00000000, 0x00000000, 0x00000000, 0x00000100]]"
  by code_simp

lemma empty_schedule_rounds:
  "sha_rounds K256
     [0x7b227363, 0x68656d61, 0x5f766572, 0x73696f6e,
      0x223a312c, 0x22666175, 0x6c747322, 0x3a5b5d7d,
      0x80000000, 0x00000000, 0x00000000, 0x00000000,
      0x00000000, 0x00000000, 0x00000000, 0x00000100] H256 =
   (0xbbfe2716, 0x0d8c6205, 0xfa2a6f7a, 0x07cd38ef,
    0x430c469b, 0x5b8682b5, 0x30e41136, 0x803d19df)"
  by code_simp

lemma empty_schedule_words:
  "sha256_words (map of_char empty_schedule_json) =
   [0x26080d7d, 0xc8f4108a, 0x369962ec, 0xad1d2e29,
    0x941a991a, 0xf68beb41, 0x5067eae1, 0xdc1de6f8]"
  unfolding sha256_words_def empty_schedule_blocks
  by (simp add: sha_block_def empty_schedule_rounds) (simp add: H256_def)

lemma empty_schedule_hex_words:
  "concat (map hex_word
     [0x26080d7d, 0xc8f4108a, 0x369962ec, 0xad1d2e29,
      0x941a991a, 0xf68beb41, 0x5067eae1, 0xdc1de6f8]) =
   ''26080d7dc8f4108a369962ecad1d2e29941a991af68beb415067eae1dc1de6f8''"
  by code_simp

theorem sha256_empty_schedule:
  "sha256_hex empty_schedule_json =
   ''26080d7dc8f4108a369962ecad1d2e29941a991af68beb415067eae1dc1de6f8''"
  by (simp only: sha256_hex_def empty_schedule_words empty_schedule_hex_words)

end
