(* ===== verification/Evidence_Buffers.thy ===== *)
theory Evidence_Buffers
  imports Py_Prelude
begin

text \<open>
  The bounded evidence buffers of the metrics package (\<open>robotest_metrics/buffers.py\<close>):
  \<open>BufferQuality\<close>, \<open>PrefixBuffer\<close> and \<open>PlanPrefixBuffer\<close>, with every method as a function of the
  buffer state. The contract they share with the bounded traces of the mission runner is the
  locale \<open>prefix_log\<close>: a log with a fixed capacity keeps the first items offered to it and counts
  the rest. Its lemmas are proved once and reach each log through an interpretation.
\<close>

section \<open>The interface of a prefix-retaining log\<close>

locale prefix_log =
  fixes log_items :: "'b \<Rightarrow> 'a list"
    and log_dropped :: "'b \<Rightarrow> int"
    and log_capacity :: "'b \<Rightarrow> nat"
    and log_item :: "'x \<Rightarrow> 'a"
    and log_append :: "'x \<Rightarrow> 'b \<Rightarrow> 'b"
  assumes append_room:
      "length (log_items b) < log_capacity b \<Longrightarrow> log_items (log_append x b) = log_items b @ [log_item x]"
    and append_full:
      "\<not> length (log_items b) < log_capacity b \<Longrightarrow> log_items (log_append x b) = log_items b"
    and dropped_room:
      "length (log_items b) < log_capacity b \<Longrightarrow> log_dropped (log_append x b) = log_dropped b"
    and dropped_full:
      "\<not> length (log_items b) < log_capacity b \<Longrightarrow> log_dropped (log_append x b) = log_dropped b + 1"
    and append_capacity: "log_capacity (log_append x b) = log_capacity b"
begin

lemma append_bounded:
  "length (log_items b) \<le> log_capacity b \<Longrightarrow>
   length (log_items (log_append x b)) \<le> log_capacity (log_append x b)"
  by (cases "length (log_items b) < log_capacity b") (simp_all add: append_room append_full append_capacity)

lemma run_capacity: "log_capacity (fold log_append xs b) = log_capacity b"
  by (induction xs arbitrary: b) (simp_all add: append_capacity)

lemma run_items:
  "length (log_items b) \<le> log_capacity b \<Longrightarrow>
   log_items (fold log_append xs b) = take (log_capacity b) (log_items b @ map log_item xs)"
proof (induction xs arbitrary: b)
  case Nil
  then show ?case by simp
next
  case (Cons x xs)
  show ?case
  proof (cases "length (log_items b) < log_capacity b")
    case True
    with Cons.IH [of "log_append x b"] show ?thesis by (simp add: append_room append_capacity)
  next
    case False
    with Cons.prems Cons.IH [of "log_append x b"] show ?thesis
      by (simp add: append_full append_capacity)
  qed
qed

lemma run_dropped:
  "length (log_items b) \<le> log_capacity b \<Longrightarrow>
   log_dropped (fold log_append xs b) =
     log_dropped b + int (length (log_items b) + length xs - log_capacity b)"
proof (induction xs arbitrary: b)
  case Nil
  then show ?case by simp
next
  case (Cons x xs)
  show ?case
  proof (cases "length (log_items b) < log_capacity b")
    case True
    with Cons.IH [of "log_append x b"] show ?thesis
      by (simp add: append_room append_capacity dropped_room)
  next
    case False
    with Cons.prems Cons.IH [of "log_append x b"] show ?thesis
      by (simp add: append_full append_capacity dropped_full of_nat_diff)
  qed
qed

lemma run_complete:
  "length (log_items b) \<le> log_capacity b \<Longrightarrow> log_dropped b = 0 \<Longrightarrow>
   log_dropped (fold log_append xs b) = 0 \<longleftrightarrow> log_items (fold log_append xs b) = log_items b @ map log_item xs"
  by (auto simp: run_items run_dropped)

end

section \<open>\<open>BufferQuality\<close> and \<open>PrefixBuffer\<close>\<close>

record buffer_quality =
  q_capacity :: int
  ingress_count :: int
  retained_count :: int
  invalid_count :: int
  overflow_count :: int
  first_overflow_sequence :: "int option"
  first_overflow_stamp_ns :: pyval
  first_invalid_reason :: "string option"

definition overflowed :: "buffer_quality \<Rightarrow> bool" where
  "overflowed q = (overflow_count q > 0)"

fun opt_int :: "int option \<Rightarrow> pyval" where
  "opt_int None = PNone"
| "opt_int (Some i) = PInt i"

fun opt_str :: "string option \<Rightarrow> pyval" where
  "opt_str None = PNone"
| "opt_str (Some s) = PStr s"

definition quality_as_dict :: "buffer_quality \<Rightarrow> pydict" where
  "quality_as_dict q =
    [(''capacity'', PInt (q_capacity q)),
     (''first_invalid_reason'', opt_str (first_invalid_reason q)),
     (''first_overflow_sequence'', opt_int (first_overflow_sequence q)),
     (''first_overflow_stamp_ns'', first_overflow_stamp_ns q),
     (''ingress_count'', PInt (ingress_count q)),
     (''invalid_count'', PInt (invalid_count q)),
     (''overflow_count'', PInt (overflow_count q)),
     (''overflowed'', PBool (overflowed q)),
     (''retained_count'', PInt (retained_count q))]"

record 'a prefix_buffer =
  buffer_name :: string
  capacity :: int
  items :: "'a list"
  quality :: buffer_quality

datatype buffer_error = ValueError string | EvidenceOverflow string

definition new_quality :: "int \<Rightarrow> buffer_quality" where
  "new_quality cap =
     \<lparr>q_capacity = cap, ingress_count = 0, retained_count = 0, invalid_count = 0, overflow_count = 0,
      first_overflow_sequence = None, first_overflow_stamp_ns = PNone, first_invalid_reason = None\<rparr>"

text \<open>The constructor with \<open>__post_init__\<close>; every caller starts from the empty default list.\<close>

definition new_buffer :: "string \<Rightarrow> int \<Rightarrow> buffer_error + 'a prefix_buffer" where
  "new_buffer name cap =
     (if cap \<le> 0 then Inl (ValueError ''capacity must be positive'')
      else Inr \<lparr>buffer_name = name, capacity = cap, items = [], quality = new_quality cap\<rparr>)"

definition count_ingress :: "buffer_quality \<Rightarrow> buffer_quality" where
  "count_ingress q = q\<lparr>ingress_count := ingress_count q + 1\<rparr>"

definition count_overflow :: "int \<Rightarrow> pyval \<Rightarrow> buffer_quality \<Rightarrow> buffer_quality" where
  "count_overflow sequence stamp q =
     (let q' = q\<lparr>overflow_count := overflow_count q + 1\<rparr> in
      if first_overflow_sequence q' = None
      then q'\<lparr>first_overflow_sequence := Some sequence, first_overflow_stamp_ns := stamp\<rparr>
      else q')"

definition buffer_append :: "int \<Rightarrow> pyval \<Rightarrow> 'a \<Rightarrow> 'a prefix_buffer \<Rightarrow> bool \<times> 'a prefix_buffer" where
  "buffer_append sequence stamp item b =
     (let q = count_ingress (quality b) in
      if int (length (items b)) \<ge> capacity b
      then (False, b\<lparr>quality := count_overflow sequence stamp q\<rparr>)
      else (True, b\<lparr>items := items b @ [item], quality := q\<lparr>retained_count := retained_count q + 1\<rparr>\<rparr>))"

definition buffer_reject :: "string \<Rightarrow> 'a prefix_buffer \<Rightarrow> 'a prefix_buffer" where
  "buffer_reject reason b =
     (let q = count_ingress (quality b); q' = q\<lparr>invalid_count := invalid_count q + 1\<rparr> in
      b\<lparr>quality := (if first_invalid_reason q' = None then q'\<lparr>first_invalid_reason := Some reason\<rparr>
                    else q')\<rparr>)"

definition observe_without_retaining :: "'a prefix_buffer \<Rightarrow> 'a prefix_buffer" where
  "observe_without_retaining b = b\<lparr>quality := count_ingress (quality b)\<rparr>"

definition mark_overflow :: "int \<Rightarrow> pyval \<Rightarrow> 'a prefix_buffer \<Rightarrow> 'a prefix_buffer" where
  "mark_overflow sequence stamp b =
     b\<lparr>quality := count_overflow sequence stamp (count_ingress (quality b))\<rparr>"

definition require_complete :: "'a prefix_buffer \<Rightarrow> buffer_error + unit" where
  "require_complete b =
     (if overflowed (quality b)
      then Inl (EvidenceOverflow (buffer_name b @ '' overflowed by ''
              @ show_int (overflow_count (quality b)) @ '' items''))
      else Inr ())"

definition buffer_snapshot :: "'a prefix_buffer \<Rightarrow> 'a list \<times> pydict" where
  "buffer_snapshot b = (items b, quality_as_dict (quality b))"

section \<open>\<open>PlanPrefixBuffer\<close>\<close>

record plan_buffer =
  message_capacity :: int
  pose_capacity :: int
  plan_items :: "pydict list"
  plan_ingress_count :: int
  retained_pose_count :: int
  plan_invalid_count :: int
  plan_first_invalid_reason :: "string option"
  plan_overflow_count :: int
  plan_first_overflow_sequence :: pyval
  plan_first_overflow_stamp_ns :: pyval

definition new_plan_buffer :: "int \<Rightarrow> int \<Rightarrow> buffer_error + plan_buffer" where
  "new_plan_buffer mc pc =
     (if mc \<le> 0 \<or> pc \<le> 0 then Inl (ValueError ''plan capacities must be positive'')
      else Inr \<lparr>message_capacity = mc, pose_capacity = pc, plan_items = [], plan_ingress_count = 0,
                retained_pose_count = 0, plan_invalid_count = 0, plan_first_invalid_reason = None,
                plan_overflow_count = 0, plan_first_overflow_sequence = PNone,
                plan_first_overflow_stamp_ns = PNone\<rparr>)"

definition plan_invalid :: "string \<Rightarrow> plan_buffer \<Rightarrow> plan_buffer" where
  "plan_invalid reason b =
     (let b' = b\<lparr>plan_invalid_count := plan_invalid_count b + 1\<rparr> in
      if plan_first_invalid_reason b' = None then b'\<lparr>plan_first_invalid_reason := Some reason\<rparr>
      else b')"

definition plan_append :: "pydict \<Rightarrow> plan_buffer \<Rightarrow> bool \<times> plan_buffer" where
  "plan_append item b =
     (let b1 = b\<lparr>plan_ingress_count := plan_ingress_count b + 1\<rparr> in
      case dget item ''poses'' of
        PList poses \<Rightarrow>
          (let pose_count = int (length poses);
               over_messages = int (length (plan_items b1)) \<ge> message_capacity b1;
               over_poses = retained_pose_count b1 + pose_count > pose_capacity b1 in
           if over_messages \<or> over_poses then
             (let b2 = b1\<lparr>plan_overflow_count := plan_overflow_count b1 + 1\<rparr> in
              (False,
               if plan_first_overflow_sequence b2 = PNone
               then b2\<lparr>plan_first_overflow_sequence := dget item ''collector_sequence'',
                       plan_first_overflow_stamp_ns := dget item ''stamp_ns''\<rparr>
               else b2))
           else
             (True, b1\<lparr>plan_items := plan_items b1 @ [item],
                       retained_pose_count := retained_pose_count b1 + pose_count\<rparr>))
      | _ \<Rightarrow> (False, plan_invalid ''plan poses must be a list'' b1))"

definition plan_reject :: "string \<Rightarrow> plan_buffer \<Rightarrow> plan_buffer" where
  "plan_reject reason b = plan_invalid reason (b\<lparr>plan_ingress_count := plan_ingress_count b + 1\<rparr>)"

definition plan_require_complete :: "plan_buffer \<Rightarrow> buffer_error + unit" where
  "plan_require_complete b =
     (if plan_overflow_count b \<noteq> 0
      then Inl (EvidenceOverflow (''plans overflowed by '' @ show_int (plan_overflow_count b)
              @ '' messages''))
      else Inr ())"

definition plan_snapshot :: "plan_buffer \<Rightarrow> pydict list \<times> pydict" where
  "plan_snapshot b =
     (plan_items b,
      [(''first_overflow_sequence'', plan_first_overflow_sequence b),
       (''first_overflow_stamp_ns'', plan_first_overflow_stamp_ns b),
       (''first_invalid_reason'', opt_str (plan_first_invalid_reason b)),
       (''ingress_count'', PInt (plan_ingress_count b)),
       (''invalid_count'', PInt (plan_invalid_count b)),
       (''message_capacity'', PInt (message_capacity b)),
       (''overflow_count'', PInt (plan_overflow_count b)),
       (''overflowed'', PBool (plan_overflow_count b > 0)),
       (''pose_capacity'', PInt (pose_capacity b)),
       (''retained_count'', PInt (int (length (plan_items b)))),
       (''retained_pose_count'', PInt (retained_pose_count b))])"

section \<open>The buffers keep their contract\<close>

interpretation pb: prefix_log items "\<lambda>b. overflow_count (quality b)" "\<lambda>b. nat (capacity b)"
  "\<lambda>(sequence, stamp, item). item" "\<lambda>(sequence, stamp, item) b. snd (buffer_append sequence stamp item b)"
  by unfold_locales
     (auto simp: buffer_append_def count_overflow_def count_ingress_def Let_def nat_less_iff zless_nat_eq_int_zless)

text \<open>The operations a collector performs on a buffer, in the order they are called.\<close>

datatype 'a buffer_op =
    Append int pyval 'a
  | Reject string
  | Observe
  | MarkOverflow int pyval

fun buffer_step :: "'a buffer_op \<Rightarrow> 'a prefix_buffer \<Rightarrow> 'a prefix_buffer" where
  "buffer_step (Append sequence stamp item) b = snd (buffer_append sequence stamp item b)"
| "buffer_step (Reject reason) b = buffer_reject reason b"
| "buffer_step Observe b = observe_without_retaining b"
| "buffer_step (MarkOverflow sequence stamp) b = mark_overflow sequence stamp b"

fun appended :: "'a buffer_op \<Rightarrow> 'a list" where
  "appended (Append sequence stamp item) = [item]"
| "appended _ = []"

fun is_reject :: "'a buffer_op \<Rightarrow> bool" where
  "is_reject (Reject _) = True"
| "is_reject _ = False"

fun is_mark :: "'a buffer_op \<Rightarrow> bool" where
  "is_mark (MarkOverflow _ _) = True"
| "is_mark _ = False"

definition buffer_wf :: "'a prefix_buffer \<Rightarrow> bool" where
  "buffer_wf b \<longleftrightarrow>
     0 < capacity b \<and> q_capacity (quality b) = capacity b
     \<and> int (length (items b)) \<le> capacity b
     \<and> retained_count (quality b) = int (length (items b))
     \<and> 0 \<le> overflow_count (quality b) \<and> 0 \<le> invalid_count (quality b)
     \<and> retained_count (quality b) + invalid_count (quality b) + overflow_count (quality b)
         \<le> ingress_count (quality b)
     \<and> (first_overflow_sequence (quality b) = None \<longleftrightarrow> overflow_count (quality b) = 0)
     \<and> (first_invalid_reason (quality b) = None \<longleftrightarrow> invalid_count (quality b) = 0)"

lemmas buffer_defs = buffer_append_def buffer_reject_def observe_without_retaining_def
  mark_overflow_def count_overflow_def count_ingress_def

lemma new_buffer_wf: "new_buffer name cap = Inr b \<Longrightarrow> buffer_wf b"
  by (auto simp: new_buffer_def buffer_wf_def new_quality_def split: if_splits)

lemma buffer_step_wf: "buffer_wf b \<Longrightarrow> buffer_wf (buffer_step op b)"
  by (cases op) (auto simp: buffer_wf_def buffer_defs Let_def)

lemma buffer_run_wf: "buffer_wf b \<Longrightarrow> buffer_wf (fold buffer_step ops b)"
  by (induction ops arbitrary: b) (simp_all add: buffer_step_wf)

lemma buffer_step_capacity [simp]: "capacity (buffer_step op b) = capacity b"
  by (cases op) (auto simp: buffer_defs Let_def)

lemma buffer_step_items:
  "items (buffer_step op b) =
     (if int (length (items b)) < capacity b then items b @ appended op else items b)"
  by (cases op) (auto simp: buffer_defs Let_def)

lemma buffer_step_counts:
  "ingress_count (quality (buffer_step op b)) = ingress_count (quality b) + 1"
  "invalid_count (quality (buffer_step op b)) =
     invalid_count (quality b) + (if is_reject op then 1 else 0)"
  "overflow_count (quality (buffer_step op b)) =
     overflow_count (quality b) + (if is_mark op then 1 else 0)
     + (if appended op \<noteq> [] \<and> capacity b \<le> int (length (items b)) then 1 else 0)"
  by (cases op; auto simp: buffer_defs Let_def)+

lemma buffer_run_items:
  "int (length (items b)) \<le> capacity b \<Longrightarrow>
   items (fold buffer_step ops b) =
     take (nat (capacity b)) (items b @ concat (map appended ops))"
proof (induction ops arbitrary: b)
  case Nil
  then show ?case by (simp add: nat_le_iff)
next
  case (Cons op ops)
  have "length (appended op) \<le> 1" by (cases op) simp_all
  then have "int (length (items (buffer_step op b))) \<le> capacity (buffer_step op b)"
    using Cons.prems by (auto simp: buffer_step_items)
  then show ?case using Cons by (auto simp: buffer_step_items)
qed

lemma buffer_run_overflow:
  "int (length (items b)) \<le> capacity b \<Longrightarrow>
   overflow_count (quality (fold buffer_step ops b)) =
     overflow_count (quality b) + int (length (filter is_mark ops))
     + max 0 (int (length (items b)) + int (length (concat (map appended ops))) - capacity b)"
proof (induction ops arbitrary: b)
  case Nil
  then show ?case by simp
next
  case (Cons op ops)
  have one: "length (appended op) \<le> 1" by (cases op) simp_all
  then have bound: "int (length (items (buffer_step op b))) \<le> capacity (buffer_step op b)"
    using Cons.prems by (auto simp: buffer_step_items)
  show ?case
  proof (cases "appended op")
    case Nil
    then show ?thesis
      using Cons.IH [OF bound] by (simp add: buffer_step_items buffer_step_counts)
  next
    case (Cons x xs)
    with one have "xs = []" by simp
    moreover have "\<not> is_mark op" using Cons by (cases op) simp_all
    ultimately show ?thesis
      using Cons Cons.IH [OF bound] Cons.prems
      by (auto simp: buffer_step_items buffer_step_counts max_def)
  qed
qed

lemma buffer_run_counts:
  "ingress_count (quality (fold buffer_step ops b)) = ingress_count (quality b) + int (length ops)"
  "invalid_count (quality (fold buffer_step ops b)) =
     invalid_count (quality b) + int (length (filter is_reject ops))"
  by (induction ops arbitrary: b) (simp_all add: buffer_step_counts)

section \<open>Properties of \<open>PrefixBuffer\<close>\<close>

text \<open>C6: whatever sequence of calls a collector makes on a new buffer, the buffer holds exactly the
  first \<open>capacity\<close> appended items in order, and its counters account for every call: ingress is the
  number of calls, invalid the number of rejections, overflow the appended items that did not fit
  plus the nested overflows marked from outside.\<close>

theorem prefix_buffer_accounting:
  assumes "new_buffer name cap = Inr b0" and "b = fold buffer_step ops b0"
  shows "items b = take (nat cap) (concat (map appended ops))
    \<and> ingress_count (quality b) = int (length ops)
    \<and> invalid_count (quality b) = int (length (filter is_reject ops))
    \<and> overflow_count (quality b) = int (length (filter is_mark ops))
        + max 0 (int (length (concat (map appended ops))) - cap)
    \<and> retained_count (quality b) = int (length (items b))"
proof -
  have b0: "items b0 = []" "capacity b0 = cap" "0 < cap" "quality b0 = new_quality cap"
    using assms(1) by (auto simp: new_buffer_def split: if_splits)
  have "buffer_wf b" using new_buffer_wf [OF assms(1)] assms(2) by (simp add: buffer_run_wf)
  then have "retained_count (quality b) = int (length (items b))" by (simp add: buffer_wf_def)
  then show ?thesis
    unfolding assms(2)
    using buffer_run_items [of b0 ops] buffer_run_overflow [of b0 ops] buffer_run_counts [of ops b0] b0
    by (simp add: new_quality_def)
qed

text \<open>\<open>require_complete\<close> passes exactly when nothing was lost: no nested overflow was marked
  and every appended item is still in the buffer.\<close>

theorem require_complete_iff_lossless:
  assumes "new_buffer name cap = Inr b0"
  shows "require_complete (fold buffer_step ops b0) = Inr () \<longleftrightarrow>
    \<not> list_ex is_mark ops \<and> items (fold buffer_step ops b0) = concat (map appended ops)"
proof -
  have b0: "items b0 = []" "capacity b0 = cap" "0 < cap" "quality b0 = new_quality cap"
    using assms(1) by (auto simp: new_buffer_def split: if_splits)
  let ?n = "int (length (concat (map appended ops)))" and ?m = "int (length (filter is_mark ops))"
  have "require_complete (fold buffer_step ops b0) = Inr () \<longleftrightarrow>
      \<not> 0 < overflow_count (quality (fold buffer_step ops b0))"
    by (simp add: require_complete_def overflowed_def)
  also have "overflow_count (quality (fold buffer_step ops b0)) = ?m + max 0 (?n - cap)"
    using buffer_run_overflow [of b0 ops] b0 by (simp add: new_quality_def)
  also have "(\<not> 0 < ?m + max 0 (?n - cap)) \<longleftrightarrow> ?m = 0 \<and> ?n \<le> cap" by arith
  also have "\<dots> \<longleftrightarrow> filter is_mark ops = [] \<and> ?n \<le> cap" by simp
  also have "filter is_mark ops = [] \<longleftrightarrow> \<not> list_ex is_mark ops"
    by (simp add: filter_empty_conv list_ex_iff)
  also have "?n \<le> cap \<longleftrightarrow> items (fold buffer_step ops b0) = concat (map appended ops)"
    using buffer_run_items [of b0 ops] b0 by (simp add: le_nat_iff)
  finally show ?thesis .
qed

section \<open>Properties of \<open>PlanPrefixBuffer\<close>\<close>

definition pose_count :: "pydict \<Rightarrow> int" where
  "pose_count item = (case dget item ''poses'' of PList poses \<Rightarrow> int (length poses) | _ \<Rightarrow> 0)"

definition plan_wf :: "plan_buffer \<Rightarrow> bool" where
  "plan_wf b \<longleftrightarrow>
     0 < message_capacity b \<and> 0 < pose_capacity b
     \<and> int (length (plan_items b)) \<le> message_capacity b
     \<and> retained_pose_count b = sum_list (map pose_count (plan_items b))
     \<and> retained_pose_count b \<le> pose_capacity b
     \<and> 0 \<le> plan_overflow_count b \<and> 0 \<le> plan_invalid_count b
     \<and> plan_ingress_count b =
         int (length (plan_items b)) + plan_invalid_count b + plan_overflow_count b"

datatype plan_op = PlanAppend pydict | PlanReject string

fun plan_step :: "plan_op \<Rightarrow> plan_buffer \<Rightarrow> plan_buffer" where
  "plan_step (PlanAppend item) b = snd (plan_append item b)"
| "plan_step (PlanReject reason) b = plan_reject reason b"

lemma plan_append_wf: "plan_wf b \<Longrightarrow> plan_wf (snd (plan_append item b))"
  by (cases "dget item ''poses''")
     (auto simp: plan_wf_def plan_append_def plan_invalid_def pose_count_def Let_def)

lemma plan_step_wf: "plan_wf b \<Longrightarrow> plan_wf (plan_step op b)"
proof (cases op)
  case (PlanReject reason)
  assume "plan_wf b"
  then show ?thesis using PlanReject by (auto simp: plan_reject_def plan_wf_def plan_invalid_def Let_def)
qed (simp add: plan_append_wf)

lemma new_plan_wf: "new_plan_buffer mc pc = Inr b \<Longrightarrow> plan_wf b"
  by (auto simp: new_plan_buffer_def plan_wf_def split: if_splits)

text \<open>A plan buffer never holds more messages or more poses than its two capacities, never holds
  part of a plan, and accounts for every plan offered as retained, invalid or overflowed.\<close>

theorem plan_buffer_bounds:
  assumes "new_plan_buffer mc pc = Inr b0" and "b = fold plan_step ops b0"
  shows "int (length (plan_items b)) \<le> mc \<and> sum_list (map pose_count (plan_items b)) \<le> pc
    \<and> set (plan_items b) \<subseteq> {item. PlanAppend item \<in> set ops}
    \<and> int (length ops) = int (length (plan_items b)) + plan_invalid_count b + plan_overflow_count b"
proof -
  have caps: "message_capacity b0 = mc" "pose_capacity b0 = pc" "plan_items b0 = []"
    "plan_ingress_count b0 = 0"
    using assms(1) by (auto simp: new_plan_buffer_def split: if_splits)
  have step: "message_capacity (plan_step op c) = message_capacity c
    \<and> pose_capacity (plan_step op c) = pose_capacity c
    \<and> plan_ingress_count (plan_step op c) = plan_ingress_count c + 1
    \<and> set (plan_items (plan_step op c)) \<subseteq> set (plan_items c) \<union> {item. op = PlanAppend item}" for op c
    by (cases op) (auto simp: plan_append_def plan_reject_def plan_invalid_def Let_def split: pyval.splits)
  have run: "plan_wf c \<Longrightarrow> plan_wf (fold plan_step xs c)
    \<and> message_capacity (fold plan_step xs c) = message_capacity c
    \<and> pose_capacity (fold plan_step xs c) = pose_capacity c
    \<and> plan_ingress_count (fold plan_step xs c) = plan_ingress_count c + int (length xs)
    \<and> set (plan_items (fold plan_step xs c)) \<subseteq> set (plan_items c) \<union> {item. PlanAppend item \<in> set xs}" for xs c
  proof (induction xs arbitrary: c)
    case (Cons x xs)
    with step [of x c] plan_step_wf [of c x] show ?case by fastforce
  qed simp
  show ?thesis
    using run [OF new_plan_wf [OF assms(1)], of ops] caps unfolding assms(2) plan_wf_def by auto
qed

section \<open>Witnesses\<close>

definition example_buffer :: "int prefix_buffer" where
  "example_buffer =
     \<lparr>buffer_name = ''scan'', capacity = 2, items = [], quality = new_quality 2\<rparr>"

lemma example_buffer: "new_buffer ''scan'' 2 = Inr example_buffer"
  by (simp add: new_buffer_def example_buffer_def)

theorem prefix_buffer_accounting_witness:
  "items (fold buffer_step [Append 1 PNone 7, Reject ''bad'', Append 2 PNone 8, Append 3 (PInt 5) 9]
     example_buffer) = [7, 8]
   \<and> overflow_count (quality (fold buffer_step
       [Append 1 PNone 7, Reject ''bad'', Append 2 PNone 8, Append 3 (PInt 5) 9] example_buffer)) = 1"
  using prefix_buffer_accounting [OF example_buffer refl,
      of "[Append 1 PNone 7, Reject ''bad'', Append 2 PNone 8, Append 3 (PInt 5) 9]"]
  by simp

theorem require_complete_iff_lossless_witness:
  "require_complete (fold buffer_step [Append 1 PNone 7, Append 2 PNone 8] example_buffer) = Inr ()"
proof -
  have "items (fold buffer_step [Append 1 PNone 7, Append 2 PNone 8] example_buffer) = [7, 8]"
    by (simp add: buffer_append_def example_buffer_def Let_def)
  then show ?thesis
    using require_complete_iff_lossless [OF example_buffer, of "[Append 1 PNone 7, Append 2 PNone 8]"]
    by simp
qed

definition example_plan :: pydict where
  "example_plan = [(''poses'', PList [PNone, PNone, PNone])]"

theorem plan_buffer_bounds_witness:
  "\<exists>b0 b. new_plan_buffer 2 4 = Inr b0
     \<and> b = fold plan_step [PlanAppend example_plan, PlanAppend example_plan, PlanReject ''x''] b0
     \<and> int (length (plan_items b)) \<le> 2 \<and> sum_list (map pose_count (plan_items b)) \<le> 4
     \<and> 3 = int (length (plan_items b)) + plan_invalid_count b + plan_overflow_count b"
proof -
  obtain b0 where b0: "new_plan_buffer 2 4 = Inr b0" by (simp add: new_plan_buffer_def)
  show ?thesis
    using plan_buffer_bounds [OF b0 refl,
        of "[PlanAppend example_plan, PlanAppend example_plan, PlanReject ''x'']"] b0
    by auto
qed

end
