(* ===== verification/Lifecycle_Sampler.thy ===== *)
theory Lifecycle_Sampler
  imports Evidence_Buffers Sha256 "HOL-Library.Multiset"
begin

text \<open>
  The ROS-independent lifecycle sampler (\<open>robotest_metrics/lifecycle_sampler.py\<close>): the validated
  sampling schedule and \<open>LifecycleSamplerCore\<close>, the state machine that turns clock observations
  into one request per node and round and resolves every request exactly once, as a response, an
  error, an expiry or a missed slot. Methods that may raise return the exception together with
  the state they leave. The step relation \<open>sampler_step\<close> has a rule for every public method that
  changes the state, for calls that return and for calls that raise. Its invariant
  \<open>sampler_inv\<close> says that the slots of the rounds reached so far are exactly the recorded ones,
  the pending ones and those lost in a \<open>record_error\<close> call that raised, which removes the pending
  request before it checks its arguments; every other call loses nothing.
\<close>

section \<open>Constants and validators\<close>

definition NAV2_LIFECYCLE_NODES :: "string list" where
  "NAV2_LIFECYCLE_NODES =
     [''map_server'', ''amcl'', ''planner_server'', ''controller_server'', ''behavior_server'',
      ''bt_navigator'', ''waypoint_follower'', ''velocity_smoother'', ''collision_monitor'']"

definition MAX_SCHEDULE_ROUNDS :: nat where "MAX_SCHEDULE_ROUNDS = 96"
definition MAX_LIFECYCLE_SAMPLES :: nat where
  "MAX_LIFECYCLE_SAMPLES = MAX_SCHEDULE_ROUNDS * length NAV2_LIFECYCLE_NODES"
definition MAX_RUN_ID_BYTES :: nat where "MAX_RUN_ID_BYTES = 256"
definition MAX_STATE_LABEL_BYTES :: nat where "MAX_STATE_LABEL_BYTES = 256"
definition MAX_ERROR_BYTES :: nat where "MAX_ERROR_BYTES = 512"
definition MAX_STAMP_NS :: int where "MAX_STAMP_NS = 9223372036854775807"

datatype sampler_error = MetricUnavailable string | ValueError string | RuntimeError string

definition lifecycle_service_name :: "string \<Rightarrow> sampler_error + string" where
  "lifecycle_service_name node =
     (if node \<notin> set NAV2_LIFECYCLE_NODES
      then Inl (ValueError (''unsupported lifecycle node: '' @ node))
      else Inr (node @ ''/get_state''))"

definition bounded_text :: "pyval \<Rightarrow> string \<Rightarrow> nat \<Rightarrow> sampler_error + string" where
  "bounded_text v field maximum_bytes =
     (case v of
        PStr s \<Rightarrow>
          if s = '''' then Inl (MetricUnavailable (field @ '' must be a non-empty string''))
          else if length s > maximum_bytes
          then Inl (MetricUnavailable (field @ '' exceeds its '' @ show_int (int maximum_bytes)
                  @ ''-byte UTF-8 bound''))
          else Inr s
      | _ \<Rightarrow> Inl (MetricUnavailable (field @ '' must be a non-empty string'')))"

definition ls_stamp_ns :: "pyval \<Rightarrow> string \<Rightarrow> sampler_error + int" where
  "ls_stamp_ns v field =
     (case v of
        PInt i \<Rightarrow>
          if i < 0 \<or> i > MAX_STAMP_NS
          then Inl (MetricUnavailable (field @ '' must be in [0, '' @ show_int MAX_STAMP_NS @ '']''))
          else Inr i
      | _ \<Rightarrow> Inl (MetricUnavailable (field @ '' must be an integer'')))"

fun reject_duplicate_keys :: "pydict \<Rightarrow> (string \<times> pyval) list \<Rightarrow> sampler_error + pydict" where
  "reject_duplicate_keys document [] = Inr document"
| "reject_duplicate_keys document ((key, v) # pairs) =
     (if key \<in> fst ` set document then Inl (MetricUnavailable (''duplicate JSON key: '' @ key))
      else reject_duplicate_keys (dict_set key v document) pairs)"

section \<open>The schedule\<close>

record lifecycle_schedule =
  run_id :: string
  requested_stamps_ns :: "int list"

definition expected_sample_count :: "lifecycle_schedule \<Rightarrow> int" where
  "expected_sample_count sch =
     int (length (requested_stamps_ns sch)) * int (length NAV2_LIFECYCLE_NODES)"

definition schedule_as_dict :: "lifecycle_schedule \<Rightarrow> pydict" where
  "schedule_as_dict sch =
    [(''lifecycle_schedule_schema_version'', PInt 1),
     (''requested_stamps_ns'', PList (map PInt (requested_stamps_ns sch))),
     (''run_id'', PStr (run_id sch))]"

definition schedule_keys :: "string set" where
  "schedule_keys = {''lifecycle_schedule_schema_version'', ''requested_stamps_ns'', ''run_id''}"

fun strictly_increasing :: "int list \<Rightarrow> bool" where
  "strictly_increasing (x # y # zs) = (\<not> y \<le> x \<and> strictly_increasing (y # zs))"
| "strictly_increasing _ = True"

fun stamps_from :: "nat \<Rightarrow> pyval list \<Rightarrow> sampler_error + int list" where
  "stamps_from index [] = Inr []"
| "stamps_from index (v # vs) =
     bindE (ls_stamp_ns v (''requested_stamps_ns['' @ show_int (int index) @ '']'')) (\<lambda>stamp.
     bindE (stamps_from (Suc index) vs) (\<lambda>stamps. Inr (stamp # stamps)))"

definition validate_schedule :: "pyval \<Rightarrow> sampler_error + lifecycle_schedule" where
  "validate_schedule document =
     (case document of
        PDict d \<Rightarrow>
          bindE (guardE (set (map fst d) = schedule_keys)
                  (MetricUnavailable (''lifecycle schedule keys mismatch: missing='' @ str_list_repr
                     (filter (\<lambda>k. k \<notin> fst ` set d)
                       [''lifecycle_schedule_schema_version'', ''requested_stamps_ns'', ''run_id''])
                   @ '', extra='' @ str_list_repr
                     (sort (filter (\<lambda>k. k \<notin> schedule_keys) (map fst d)))))) (\<lambda>_.
          bindE (guardE ((case dget d ''lifecycle_schedule_schema_version'' of
                            PBool _ \<Rightarrow> False | v \<Rightarrow> py_eq v (PInt 1)))
                  (MetricUnavailable ''lifecycle_schedule_schema_version must equal 1'')) (\<lambda>_.
          bindE (bounded_text (dget d ''run_id'') ''run_id'' MAX_RUN_ID_BYTES) (\<lambda>rid.
          case dget d ''requested_stamps_ns'' of
            PList raw_stamps \<Rightarrow>
              bindE (guardE (1 \<le> length raw_stamps \<and> length raw_stamps \<le> MAX_SCHEDULE_ROUNDS)
                      (MetricUnavailable (''requested_stamps_ns must contain 1..''
                         @ show_int (int MAX_SCHEDULE_ROUNDS) @ '' rounds''))) (\<lambda>_.
              bindE (stamps_from 0 raw_stamps) (\<lambda>stamps.
              bindE (guardE (strictly_increasing stamps)
                      (MetricUnavailable ''requested_stamps_ns must be strictly increasing'')) (\<lambda>_.
              Inr \<lparr>run_id = rid, requested_stamps_ns = stamps\<rparr>)))
          | _ \<Rightarrow> Inl (MetricUnavailable ''requested_stamps_ns must be an array''))))
      | _ \<Rightarrow> Inl (MetricUnavailable ''lifecycle schedule must be a JSON object''))"

section \<open>State of \<open>LifecycleSamplerCore\<close>\<close>

record sample_request =
  token :: string
  round_index :: nat
  node :: string
  requested_stamp_ns :: int
  request_stamp_ns :: "int option"
  deadline_wall_ns :: int

record sample_record =
  r_collector_sequence :: int
  r_error :: "string option"
  r_missed :: bool
  r_node :: string
  r_request_stamp_ns :: "int option"
  r_requested_stamp_ns :: int
  r_response_stamp_ns :: "int option"
  r_round_index :: nat
  r_state_id :: "int option"
  r_state_label :: "string option"
  r_success :: bool

record sampler =
  schedule :: lifecycle_schedule
  request_timeout_ns :: int
  records :: "sample_record prefix_buffer"
  latest_clock_ns :: "int option"
  clock_count :: int
  clock_regression_count :: int
  request_count :: int
  response_count :: int
  success_count :: int
  error_count :: int
  missed_count :: int
  late_response_count :: int
  sequence :: int
  next_round_index :: nat
  pending :: "(string \<times> sample_request) list"
  finalized :: bool
  stop_reason :: "string option"
  finished_steady_wall_ns :: "int option"
  started_steady_wall_ns :: "int option"
  runtime_error :: "string option"

text \<open>\<open>__init__\<close>; the record buffer has the constant capacity, which is positive.\<close>

definition new_sampler :: "lifecycle_schedule \<Rightarrow> pyval \<Rightarrow> sampler_error + sampler" where
  "new_sampler sch timeout =
     (case timeout of
        PInt t \<Rightarrow>
          if t \<le> 0 then Inl (ValueError ''request_timeout_ns must be positive'')
          else Inr \<lparr>schedule = sch, request_timeout_ns = t,
             records = \<lparr>buffer_name = ''lifecycle_samples'', capacity = int MAX_LIFECYCLE_SAMPLES,
                        items = [], quality = new_quality (int MAX_LIFECYCLE_SAMPLES)\<rparr>,
             latest_clock_ns = None, clock_count = 0, clock_regression_count = 0, request_count = 0,
             response_count = 0, success_count = 0, error_count = 0, missed_count = 0,
             late_response_count = 0, sequence = 0, next_round_index = 0, pending = [],
             finalized = False, stop_reason = None, finished_steady_wall_ns = None,
             started_steady_wall_ns = None, runtime_error = None\<rparr>
      | _ \<Rightarrow> Inl (ValueError ''request_timeout_ns must be an integer''))"

section \<open>Operations\<close>

type_synonym 'a sampler_result = "(sampler_error + 'a) \<times> sampler"

definition nonneg_int :: "pyval \<Rightarrow> int option" where
  "nonneg_int v = (case v of PInt i \<Rightarrow> if i < 0 then None else Some i | _ \<Rightarrow> None)"

definition set_started_wall_ns :: "pyval \<Rightarrow> sampler \<Rightarrow> unit sampler_result" where
  "set_started_wall_ns stamp s =
     (case nonneg_int stamp of
        None \<Rightarrow> (Inl (ValueError ''started wall stamp must be a nonnegative integer''), s)
      | Some t \<Rightarrow>
          if started_steady_wall_ns s \<noteq> None
          then (Inl (RuntimeError ''started wall stamp is already set''), s)
          else (Inr (), s\<lparr>started_steady_wall_ns := Some t\<rparr>))"

definition slot_token :: "nat \<Rightarrow> string \<Rightarrow> string" where
  "slot_token i n = show_int (int i) @ '':'' @ n"

text \<open>The body of the loop over due rounds: one request per node, in the node order.\<close>

definition dispatch_round :: "int \<Rightarrow> int \<Rightarrow> int \<Rightarrow> sampler \<Rightarrow> sample_request list \<times> sampler" where
  "dispatch_round stamp wall_ns requested_stamp s =
     (let i = next_round_index s;
          due = map (\<lambda>n. \<lparr>token = slot_token i n, round_index = i, node = n,
                         requested_stamp_ns = requested_stamp, request_stamp_ns = Some stamp,
                         deadline_wall_ns = wall_ns + request_timeout_ns s\<rparr>) NAV2_LIFECYCLE_NODES
      in (due, s\<lparr>pending := foldl (\<lambda>p r. dict_set (token r) r p) (pending s) due,
                 request_count := request_count s + int (length NAV2_LIFECYCLE_NODES),
                 next_round_index := i + 1\<rparr>))"

fun dispatch_due :: "int \<Rightarrow> int \<Rightarrow> int list \<Rightarrow> sampler \<Rightarrow> sample_request list \<times> sampler" where
  "dispatch_due stamp wall_ns [] s = ([], s)"
| "dispatch_due stamp wall_ns (r # rs) s =
     (if r \<le> stamp then
        (let (due, s1) = dispatch_round stamp wall_ns r s;
             (more, s2) = dispatch_due stamp wall_ns rs s1
         in (due @ more, s2))
      else ([], s))"

definition observe_clock :: "pyval \<Rightarrow> pyval \<Rightarrow> sampler \<Rightarrow> sample_request list sampler_result" where
  "observe_clock stamp_arg wall_arg s =
     (case ls_stamp_ns stamp_arg ''clock.stamp_ns'' of
        Inl e \<Rightarrow> (Inl e, s)
      | Inr stamp \<Rightarrow>
         (case nonneg_int wall_arg of
            None \<Rightarrow> (Inl (ValueError ''wall_ns must be a nonnegative integer''), s)
          | Some wall_ns \<Rightarrow>
              if finalized s then (Inr [], s)
              else
                (let s1 = s\<lparr>clock_count := clock_count s + 1\<rparr> in
                 if (case latest_clock_ns s1 of None \<Rightarrow> False | Some l \<Rightarrow> stamp < l)
                 then (Inr [], s1\<lparr>clock_regression_count := clock_regression_count s1 + 1,
                                  latest_clock_ns := Some stamp\<rparr>)
                 else
                   (let s2 = s1\<lparr>latest_clock_ns := Some stamp\<rparr>;
                        (due, s3) = dispatch_due stamp wall_ns
                          (drop (next_round_index s2) (requested_stamps_ns (schedule s2))) s2
                    in (Inr due, s3)))))"

definition append_record ::
  "sample_request \<Rightarrow> int option \<Rightarrow> int option \<Rightarrow> string option \<Rightarrow> bool \<Rightarrow> string option \<Rightarrow> bool
   \<Rightarrow> sampler \<Rightarrow> sampler" where
  "append_record request response_stamp state_id state_label success err missed s =
     (let n = sequence s + 1;
          rec = \<lparr>r_collector_sequence = n, r_error = err, r_missed = missed,
                 r_node = node request, r_request_stamp_ns = request_stamp_ns request,
                 r_requested_stamp_ns = requested_stamp_ns request,
                 r_response_stamp_ns = response_stamp, r_round_index = round_index request,
                 r_state_id = state_id, r_state_label = state_label, r_success = success\<rparr>
      in s\<lparr>sequence := n, records := snd (buffer_append n (opt_int response_stamp) rec (records s))\<rparr>)"

definition complete_error ::
  "sample_request \<Rightarrow> string \<Rightarrow> int option \<Rightarrow> bool \<Rightarrow> bool \<Rightarrow> sampler \<Rightarrow> unit sampler_result" where
  "complete_error request err response_stamp response_received missed s =
     (case bounded_text (PStr err) ''error'' MAX_ERROR_BYTES of
        Inl e \<Rightarrow> (Inl e, s)
      | Inr bounded_error \<Rightarrow>
         (case (case response_stamp of None \<Rightarrow> Inr 0
                | Some t \<Rightarrow> ls_stamp_ns (PInt t) ''response_stamp_ns'') of
            Inl e \<Rightarrow> (Inl e, s)
          | Inr _ \<Rightarrow>
              (let s1 = append_record request response_stamp None None False (Some bounded_error)
                          missed s
               in (Inr (), s1\<lparr>response_count := response_count s1 + (if response_received then 1 else 0),
                             error_count := error_count s1 + 1,
                             missed_count := missed_count s1 + (if missed then 1 else 0)\<rparr>))))"

definition validate_response ::
  "pyval \<Rightarrow> pyval \<Rightarrow> pyval \<Rightarrow> sampler_error + (int \<times> int \<times> string)" where
  "validate_response stamp state_id state_label =
     bindE (ls_stamp_ns stamp ''response_stamp_ns'') (\<lambda>t.
     bindE (case state_id of PInt i \<Rightarrow> Inr i | _ \<Rightarrow> Inl (MetricUnavailable ''state_id must be an integer''))
     (\<lambda>i.
     bindE (guardE (0 \<le> i \<and> i \<le> 255) (MetricUnavailable ''state_id must be in [0, 255]'')) (\<lambda>_.
     bindE (bounded_text state_label ''state_label'' MAX_STATE_LABEL_BYTES) (\<lambda>label.
     Inr (t, i, label)))))"

fun error_text :: "sampler_error \<Rightarrow> string" where
  "error_text (MetricUnavailable m) = m"
| "error_text (ValueError m) = m"
| "error_text (RuntimeError m) = m"

definition record_response ::
  "string \<Rightarrow> pyval \<Rightarrow> pyval \<Rightarrow> pyval \<Rightarrow> sampler \<Rightarrow> bool sampler_result" where
  "record_response tok response_stamp state_id state_label s =
     (case map_of (pending s) tok of
        None \<Rightarrow> (Inr False, s\<lparr>late_response_count := late_response_count s + 1\<rparr>)
      | Some request \<Rightarrow>
         (let s1 = s\<lparr>pending := dict_del tok (pending s)\<rparr> in
          case validate_response response_stamp state_id state_label of
            Inl e \<Rightarrow>
              (case complete_error request (''invalid_response:'' @ error_text e) (latest_clock_ns s1)
                      True False s1 of
                 (Inl e', s2) \<Rightarrow> (Inl e', s2)
               | (Inr _, s2) \<Rightarrow> (Inr False, s2))
          | Inr (t, i, label) \<Rightarrow>
              (let s2 = append_record request (Some t) (Some i) (Some label) True None False s1
               in (Inr True, s2\<lparr>response_count := response_count s2 + 1,
                               success_count := success_count s2 + 1\<rparr>))))"

definition record_error ::
  "string \<Rightarrow> string \<Rightarrow> int option \<Rightarrow> bool \<Rightarrow> sampler \<Rightarrow> bool sampler_result" where
  "record_error tok err response_stamp response_received s =
     (case map_of (pending s) tok of
        None \<Rightarrow> (Inr False, s\<lparr>late_response_count := late_response_count s + 1\<rparr>)
      | Some request \<Rightarrow>
         (case complete_error request err response_stamp response_received False
                 (s\<lparr>pending := dict_del tok (pending s)\<rparr>) of
            (Inl e, s2) \<Rightarrow> (Inl e, s2)
          | (Inr _, s2) \<Rightarrow> (Inr True, s2)))"

text \<open>\<open>for token in tokens: self.record_error(token, err, response_stamp_ns=self.latest_clock_ns)\<close>\<close>

fun record_errors :: "string list \<Rightarrow> string \<Rightarrow> sampler \<Rightarrow> unit sampler_result" where
  "record_errors [] err s = (Inr (), s)"
| "record_errors (tok # toks) err s =
     (case record_error tok err (latest_clock_ns s) False s of
        (Inl e, s1) \<Rightarrow> (Inl e, s1)
      | (Inr _, s1) \<Rightarrow> record_errors toks err s1)"

definition expire_requests :: "pyval \<Rightarrow> sampler \<Rightarrow> string list sampler_result" where
  "expire_requests wall_arg s =
     (case nonneg_int wall_arg of
        None \<Rightarrow> (Inl (ValueError ''wall_ns must be a nonnegative integer''), s)
      | Some wall_ns \<Rightarrow>
         (let expired = map fst (filter (\<lambda>(tok, r). deadline_wall_ns r \<le> wall_ns) (pending s)) in
          case record_errors expired ''request_wall_timeout'' s of
            (Inl e, s1) \<Rightarrow> (Inl e, s1)
          | (Inr _, s1) \<Rightarrow> (Inr expired, s1)))"

text \<open>\<open>decode('utf-8', errors='ignore')\<close> of a prefix of valid UTF-8 drops an incomplete last
  sequence.\<close>

definition is_continuation :: "char \<Rightarrow> bool" where
  "is_continuation c = (let n = of_char c :: int in 128 \<le> n \<and> n < 192)"

definition continuation_need :: "char \<Rightarrow> nat" where
  "continuation_need c =
     (let n = of_char c :: int in if n < 192 then 0 else if n < 224 then 1 else if n < 240 then 2 else 3)"

definition utf8_trim :: "string \<Rightarrow> string" where
  "utf8_trim bs =
     (let r = rev bs; cont = takeWhile is_continuation r; rest = dropWhile is_continuation r in
      case rest of
        [] \<Rightarrow> []
      | c # cs \<Rightarrow> if continuation_need c \<le> length cont then bs else rev cs)"

definition mark_runtime_error :: "pyval \<Rightarrow> sampler \<Rightarrow> sampler" where
  "mark_runtime_error err s =
     (let e = (case err of PStr t \<Rightarrow> if t = '''' then ''unspecified_runtime_error'' else t
               | _ \<Rightarrow> ''unspecified_runtime_error'');
          kept = utf8_trim (take MAX_ERROR_BYTES e)
      in s\<lparr>runtime_error := Some (if kept = '''' then ''runtime_error'' else kept)\<rparr>)"

definition missed_request :: "nat \<Rightarrow> int \<Rightarrow> int \<Rightarrow> string \<Rightarrow> sample_request" where
  "missed_request i requested_stamp finished_wall n =
     \<lparr>token = slot_token i n, round_index = i, node = n, requested_stamp_ns = requested_stamp,
      request_stamp_ns = None, deadline_wall_ns = finished_wall\<rparr>"

fun miss_nodes :: "int \<Rightarrow> int \<Rightarrow> string \<Rightarrow> string list \<Rightarrow> sampler \<Rightarrow> unit sampler_result" where
  "miss_nodes requested_stamp finished_wall reason [] s = (Inr (), s)"
| "miss_nodes requested_stamp finished_wall reason (n # ns) s =
     (case complete_error (missed_request (next_round_index s) requested_stamp finished_wall n)
             (''requested_stamp_not_reached_before_'' @ reason) (latest_clock_ns s) False True s of
        (Inl e, s1) \<Rightarrow> (Inl e, s1)
      | (Inr _, s1) \<Rightarrow> miss_nodes requested_stamp finished_wall reason ns s1)"

fun miss_rounds :: "int \<Rightarrow> string \<Rightarrow> int list \<Rightarrow> sampler \<Rightarrow> unit sampler_result" where
  "miss_rounds finished_wall reason [] s = (Inr (), s)"
| "miss_rounds finished_wall reason (r # rs) s =
     (case miss_nodes r finished_wall reason NAV2_LIFECYCLE_NODES s of
        (Inl e, s1) \<Rightarrow> (Inl e, s1)
      | (Inr _, s1) \<Rightarrow>
          miss_rounds finished_wall reason rs (s1\<lparr>next_round_index := next_round_index s1 + 1\<rparr>))"

definition allowed_reasons :: "string set" where
  "allowed_reasons = {''stop_file'', ''wall_timeout'', ''runtime_shutdown'', ''runtime_error''}"

definition finalize :: "string \<Rightarrow> pyval \<Rightarrow> sampler \<Rightarrow> string list sampler_result" where
  "finalize reason finished_wall_arg s =
     (if reason \<notin> allowed_reasons then (Inl (ValueError (''unsupported stop reason: '' @ reason)), s)
      else case finished_wall_arg of
        PInt finished_wall \<Rightarrow>
          if finished_wall < 0 then (Inl (ValueError ''finished_wall_ns must be nonnegative''), s)
          else if finalized s then (Inr [], s)
          else
            (let canceled = map fst (pending s) in
             case record_errors canceled (''response_pending_on_'' @ reason) s of
               (Inl e, s1) \<Rightarrow> (Inl e, s1)
             | (Inr _, s1) \<Rightarrow>
                (case miss_rounds finished_wall reason
                        (drop (next_round_index s1) (requested_stamps_ns (schedule s1))) s1 of
                   (Inl e, s2) \<Rightarrow> (Inl e, s2)
                 | (Inr _, s2) \<Rightarrow>
                    (Inr canceled, s2\<lparr>finished_steady_wall_ns := Some finished_wall,
                                     stop_reason := Some reason, finalized := True\<rparr>)))
      | _ \<Rightarrow> (Inl (ValueError ''finished_wall_ns must be an integer''), s))"

section \<open>The snapshot\<close>

definition schedule_sha256 :: "lifecycle_schedule \<Rightarrow> string" where
  "schedule_sha256 sch = sha256_hex (json_canonical (PDict (schedule_as_dict sch)) @ [CHR 0x0A])"

definition snapshot_samples :: "sampler \<Rightarrow> sample_record list" where
  "snapshot_samples s = filter r_success (items (records s))"

definition snapshot_errors :: "sampler \<Rightarrow> sample_record list" where
  "snapshot_errors s = filter (\<lambda>r. \<not> r_success r) (items (records s))"

definition snapshot_complete :: "sampler \<Rightarrow> bool" where
  "snapshot_complete s \<longleftrightarrow>
     finalized s \<and> stop_reason s = Some ''stop_file''
     \<and> success_count s = expected_sample_count (schedule s)
     \<and> error_count s = 0 \<and> missed_count s = 0 \<and> clock_regression_count s = 0
     \<and> \<not> overflowed (quality (records s)) \<and> runtime_error s = None"

definition record_as_dict :: "sample_record \<Rightarrow> pydict" where
  "record_as_dict r =
    [(''collector_sequence'', PInt (r_collector_sequence r)), (''error'', opt_str (r_error r)),
     (''missed'', PBool (r_missed r)), (''node'', PStr (r_node r)),
     (''request_stamp_ns'', opt_int (r_request_stamp_ns r)),
     (''requested_stamp_ns'', PInt (r_requested_stamp_ns r)),
     (''response_stamp_ns'', opt_int (r_response_stamp_ns r)),
     (''round_index'', PInt (int (r_round_index r))), (''state_id'', opt_int (r_state_id r)),
     (''state_label'', opt_str (r_state_label r)), (''success'', PBool (r_success r))]"

definition error_as_dict :: "sample_record \<Rightarrow> pydict" where
  "error_as_dict r =
    [(''collector_sequence'', PInt (r_collector_sequence r)), (''error'', opt_str (r_error r)),
     (''node'', PStr (r_node r)), (''requested_stamp_ns'', PInt (r_requested_stamp_ns r)),
     (''round_index'', PInt (int (r_round_index r)))]"

definition sample_as_dict :: "sample_record \<Rightarrow> pydict" where
  "sample_as_dict r =
    [(''collector_sequence'', PInt (r_collector_sequence r)), (''node'', PStr (r_node r)),
     (''stamp_ns'', opt_int (r_response_stamp_ns r)), (''state'', opt_str (r_state_label r))]"

text \<open>\<open>dict(sorted(Counter(...).items()))\<close> over the recorded errors.\<close>

definition error_counts :: "sample_record list \<Rightarrow> pydict" where
  "error_counts rs =
     (let es = List.map_filter r_error rs
      in map (\<lambda>e. (e, PInt (int (count_list es e)))) (sort (remdups es)))"

definition sampler_snapshot :: "string \<Rightarrow> sampler \<Rightarrow> pydict" where
  "sampler_snapshot sampler_node s =
    [(''capacity'', PDict
       [(''round_capacity'', PInt (int MAX_SCHEDULE_ROUNDS)),
        (''sample_capacity'', PInt (int MAX_LIFECYCLE_SAMPLES)),
        (''scheduled_round_count'', PInt (int (length (requested_stamps_ns (schedule s))))),
        (''scheduled_sample_count'', PInt (expected_sample_count (schedule s)))]),
     (''clock'', PDict
       [(''count'', PInt (clock_count s)), (''latest_stamp_ns'', opt_int (latest_clock_ns s)),
        (''regression_count'', PInt (clock_regression_count s))]),
     (''errors'', PList (map (\<lambda>r. PDict (error_as_dict r)) (snapshot_errors s))),
     (''identity'', PDict
       [(''run_id'', PStr (run_id (schedule s))), (''sampler_node'', PStr sampler_node),
        (''schedule_sha256'', PStr (schedule_sha256 (schedule s)))]),
     (''lifecycle_snapshot_schema_version'', PInt 1),
     (''quality'', PDict
       [(''collector_overflow'', PBool (overflowed (quality (records s)))),
        (''complete'', PBool (snapshot_complete s)),
        (''error_count'', PInt (error_count s)),
        (''error_counts'', PDict (error_counts (items (records s)))),
        (''finished_steady_wall_ns'', opt_int (finished_steady_wall_ns s)),
        (''first_overflow_sequence'', opt_int (first_overflow_sequence (quality (records s)))),
        (''first_overflow_stamp_ns'', first_overflow_stamp_ns (quality (records s))),
        (''late_response_count'', PInt (late_response_count s)),
        (''missed_count'', PInt (missed_count s)),
        (''overflow_count'', PInt (overflow_count (quality (records s)))),
        (''pending_count'', PInt (int (length (pending s)))),
        (''request_count'', PInt (request_count s)),
        (''response_count'', PInt (response_count s)),
        (''retained_count'', PInt (retained_count (quality (records s)))),
        (''runtime_error'', opt_str (runtime_error s)),
        (''started_steady_wall_ns'', opt_int (started_steady_wall_ns s)),
        (''stop_reason'', opt_str (stop_reason s)),
        (''success_count'', PInt (success_count s))]),
     (''records'', PList (map (\<lambda>r. PDict (record_as_dict r)) (items (records s)))),
     (''samples'', PList (map (\<lambda>r. PDict (sample_as_dict r)) (snapshot_samples s))),
     (''schedule'', PDict
       [(''nodes'', PList (map PStr NAV2_LIFECYCLE_NODES)),
        (''requested_stamps_ns'', PList (map PInt (requested_stamps_ns (schedule s)))),
        (''service_names'', PList (map (\<lambda>n. PStr (n @ ''/get_state'')) NAV2_LIFECYCLE_NODES))])]"

section \<open>Steps and their invariant\<close>

type_synonym slot = "nat \<times> string"

definition rec_slot :: "sample_record \<Rightarrow> slot" where
  "rec_slot r = (r_round_index r, r_node r)"

definition req_slot :: "sample_request \<Rightarrow> slot" where
  "req_slot q = (round_index q, node q)"

text \<open>One rule per public method that changes the state, whether the call returns or raises. The first argument
  collects the slots that a step loses: \<open>record_error\<close> removes the request before it checks its arguments, so that a call
  that raises leaves the slot neither pending nor recorded.\<close>

inductive sampler_step :: "slot multiset \<Rightarrow> sampler \<Rightarrow> sampler \<Rightarrow> bool" where
  started: "set_started_wall_ns t s = (r, s') \<Longrightarrow> sampler_step {#} s s'"
| clock: "observe_clock t w s = (r, s') \<Longrightarrow> sampler_step {#} s s'"
| response: "record_response tok t i l s = (r, s') \<Longrightarrow> sampler_step {#} s s'"
| error: "record_error tok e t rcv s = (Inr ok, s') \<Longrightarrow> sampler_step {#} s s'"
| error_raised: "record_error tok e t rcv s = (Inl x, s') \<Longrightarrow> map_of (pending s) tok = Some q
    \<Longrightarrow> sampler_step {#req_slot q#} s s'"
| expire: "expire_requests w s = (r, s') \<Longrightarrow> sampler_step {#} s s'"
| mark: "sampler_step {#} s (mark_runtime_error e s)"
| finish: "finalize reason w s = (r, s') \<Longrightarrow> sampler_step {#} s s'"

text \<open>The states of a sampler for a schedule, with the slots lost on the way.\<close>

inductive sampler_reach :: "lifecycle_schedule \<Rightarrow> slot multiset \<Rightarrow> sampler \<Rightarrow> bool" where
  start: "validate_schedule document = Inr sch \<Longrightarrow> new_sampler sch timeout = Inr s
    \<Longrightarrow> sampler_reach sch {#} s"
| step: "sampler_reach sch L s \<Longrightarrow> sampler_step l s s' \<Longrightarrow> sampler_reach sch (L + l) s'"

text \<open>The slots of the first \<open>n\<close> rounds.\<close>

definition slots_upto :: "nat \<Rightarrow> slot list" where
  "slots_upto n = List.product [0..<n] NAV2_LIFECYCLE_NODES"

definition round_slots :: "nat \<Rightarrow> slot list" where
  "round_slots n = map (Pair n) NAV2_LIFECYCLE_NODES"

text \<open>
  Recorded slots, pending slots and the slots \<open>M\<close> in flight (popped, not yet recorded) are together
  the slots of \<open>n\<close> rounds, each exactly once; the buffer has room for all of them; the counters
  agree with the records.
\<close>

definition core_inv :: "nat \<Rightarrow> slot multiset \<Rightarrow> sampler \<Rightarrow> bool" where
  "core_inv n M s \<longleftrightarrow>
     n \<le> MAX_SCHEDULE_ROUNDS
     \<and> mset (map rec_slot (items (records s))) + mset (map (\<lambda>p. req_slot (snd p)) (pending s)) + M
         = mset (slots_upto n)
     \<and> buffer_wf (records s) \<and> capacity (records s) = int MAX_LIFECYCLE_SAMPLES
     \<and> overflow_count (quality (records s)) = 0
     \<and> (\<forall>(tok, q)\<in>set (pending s). tok = slot_token (round_index q) (node q))
     \<and> distinct (map fst (pending s))
     \<and> success_count s = int (length (snapshot_samples s))
     \<and> error_count s = int (length (snapshot_errors s))
     \<and> sequence s = int (length (items (records s)))"

definition sampler_inv :: "slot multiset \<Rightarrow> sampler \<Rightarrow> bool" where
  "sampler_inv L s \<longleftrightarrow>
     core_inv (next_round_index s) L s
     \<and> next_round_index s \<le> length (requested_stamps_ns (schedule s))
     \<and> length (requested_stamps_ns (schedule s)) \<le> MAX_SCHEDULE_ROUNDS
     \<and> (case latest_clock_ns s of None \<Rightarrow> True | Some t \<Rightarrow> 0 \<le> t \<and> t \<le> MAX_STAMP_NS)
     \<and> (finalized s \<longrightarrow> pending s = [] \<and> next_round_index s = length (requested_stamps_ns (schedule s)))"

text \<open>What the resolution of a request leaves unchanged.\<close>

definition same_frame :: "sampler \<Rightarrow> sampler \<Rightarrow> bool" where
  "same_frame s s' \<longleftrightarrow>
     schedule s' = schedule s \<and> next_round_index s' = next_round_index s
     \<and> latest_clock_ns s' = latest_clock_ns s \<and> finalized s' = finalized s"

lemma same_frame_refl [simp]: "same_frame s s"
  by (simp add: same_frame_def)

lemma same_frame_trans: "same_frame s t \<Longrightarrow> same_frame t u \<Longrightarrow> same_frame s u"
  by (simp add: same_frame_def)

lemma slots_upto_Suc: "slots_upto (Suc n) = slots_upto n @ round_slots n"
  by (simp add: slots_upto_def round_slots_def product_concat_map)

lemma slots_upto_0 [simp]: "slots_upto 0 = []"
  by (simp add: slots_upto_def)

lemma length_slots_upto: "length (slots_upto n) = n * length NAV2_LIFECYCLE_NODES"
  by (simp add: slots_upto_def)

lemma distinct_slots: "distinct (slots_upto n)"
proof -
  have "distinct NAV2_LIFECYCLE_NODES" by code_simp
  then show ?thesis by (simp add: slots_upto_def distinct_product)
qed

lemma core_inv_room:
  assumes "core_inv n (add_mset x M) s"
  shows "int (length (items (records s))) < capacity (records s)"
proof -
  have "size (mset (map rec_slot (items (records s)))
      + mset (map (\<lambda>p. req_slot (snd p)) (pending s)) + add_mset x M) = length (slots_upto n)"
    using assms unfolding core_inv_def by (metis size_mset)
  moreover have "length (slots_upto n) \<le> MAX_LIFECYCLE_SAMPLES"
    using assms by (simp add: core_inv_def length_slots_upto MAX_LIFECYCLE_SAMPLES_def)
  ultimately show ?thesis using assms by (simp add: core_inv_def)
qed

lemma buffer_append_room:
  assumes "int (length (items b)) < capacity b"
  shows "items (snd (buffer_append q t x b)) = items b @ [x]"
    "overflow_count (quality (snd (buffer_append q t x b))) = overflow_count (quality b)"
    "capacity (snd (buffer_append q t x b)) = capacity b"
  using assms by (simp_all add: buffer_append_def count_ingress_def Let_def)

lemma buffer_append_wf: "buffer_wf b \<Longrightarrow> buffer_wf (snd (buffer_append q t x b))"
  using buffer_step_wf [of b "Append q t x"] by simp

lemma record_success_inv:
  assumes "core_inv n (add_mset (req_slot q) M) s"
  shows "core_inv n M ((append_record q t i l True e m s)
    \<lparr>response_count := c, success_count := success_count s + 1\<rparr>)"
  using assms core_inv_room [OF assms]
  by (simp add: core_inv_def append_record_def Let_def buffer_append_room buffer_append_wf
        snapshot_samples_def snapshot_errors_def rec_slot_def req_slot_def)

lemma record_failure_inv:
  assumes "core_inv n (add_mset (req_slot q) M) s"
  shows "core_inv n M ((append_record q t i l False e m s)
    \<lparr>response_count := c, error_count := error_count s + 1, missed_count := d\<rparr>)"
  using assms core_inv_room [OF assms]
  by (simp add: core_inv_def append_record_def Let_def buffer_append_room buffer_append_wf
        snapshot_samples_def snapshot_errors_def rec_slot_def req_slot_def)

lemma append_record_fields [simp]:
  "response_count (append_record q t i l b e m s) = response_count s"
  "success_count (append_record q t i l b e m s) = success_count s"
  "error_count (append_record q t i l b e m s) = error_count s"
  "missed_count (append_record q t i l b e m s) = missed_count s"
  "pending (append_record q t i l b e m s) = pending s"
  "same_frame s (append_record q t i l b e m s)"
  by (simp_all add: append_record_def Let_def same_frame_def)

lemma same_frame_counts [simp]:
  "same_frame s (s'\<lparr>response_count := a, success_count := b\<rparr>) \<longleftrightarrow> same_frame s s'"
  "same_frame s (s'\<lparr>response_count := a, error_count := b, missed_count := c\<rparr>) \<longleftrightarrow> same_frame s s'"
  "same_frame (s\<lparr>pending := p\<rparr>) s' \<longleftrightarrow> same_frame s s'"
  "same_frame s (s'\<lparr>late_response_count := a\<rparr>) \<longleftrightarrow> same_frame s s'"
  by (simp_all add: same_frame_def)

lemma complete_error_inv:
  assumes "complete_error q e t rcv m s = (Inr u, s')" and "core_inv n (add_mset (req_slot q) M) s"
  shows "core_inv n M s' \<and> same_frame s s' \<and> pending s' = pending s"
proof -
  obtain b where "s' = (append_record q t None None False (Some b) m s)
     \<lparr>response_count := response_count s + (if rcv then 1 else 0),
      error_count := error_count s + 1, missed_count := missed_count s + (if m then 1 else 0)\<rparr>"
    using assms(1) by (auto simp: complete_error_def Let_def split: sum.splits option.splits)
  then show ?thesis using record_failure_inv [OF assms(2)] by simp
qed

lemma complete_error_total:
  assumes "err \<noteq> ''''" "length err \<le> MAX_ERROR_BYTES"
    and "case t of None \<Rightarrow> True | Some i \<Rightarrow> 0 \<le> i \<and> i \<le> MAX_STAMP_NS"
  shows "\<exists>s'. complete_error q err t rcv m s = (Inr (), s')"
  using assms
  by (auto simp: complete_error_def bounded_text_def ls_stamp_ns_def Let_def split: option.splits)

lemma pop_inv:
  assumes "core_inv n M s" and "map_of (pending s) tok = Some q"
  shows "core_inv n (add_mset (req_slot q) M) (s\<lparr>pending := dict_del tok (pending s)\<rparr>)"
proof -
  have dist: "distinct (map fst (pending s))" using assms(1) by (simp add: core_inv_def)
  have "mset (pending s) = add_mset (tok, q) (mset (dict_del tok (pending s)))"
    using assms(2) dist
  proof (induction "pending s" arbitrary: s)
    case (Cons p ps)
    obtain k v where p: "p = (k, v)" by (cases p)
    show ?case
    proof (cases "k = tok")
      case True
      then have "dict_del tok ps = ps" and "v = q"
        using Cons.prems Cons.hyps(2) [symmetric] p by (auto intro: dict_del_absent)
      then show ?thesis using True p Cons.hyps(2) [symmetric] by (simp add: dict_del_def)
    next
      case False
      have "mset ps = add_mset (tok, q) (mset (dict_del tok ps))"
        using Cons.hyps(1) [of "s\<lparr>pending := ps\<rparr>"] Cons.prems Cons.hyps(2) [symmetric] p False by simp
      then show ?thesis using False p Cons.hyps(2) [symmetric] by (simp add: dict_del_def)
    qed
  qed simp
  then have "mset (map (\<lambda>p. req_slot (snd p)) (pending s)) =
      add_mset (req_slot q) (mset (map (\<lambda>p. req_slot (snd p)) (dict_del tok (pending s))))"
    by (metis (no_types, lifting) image_mset_add_mset mset_map snd_conv)
  moreover have "set (dict_del tok (pending s)) \<subseteq> set (pending s)" by (auto simp: dict_del_def)
  ultimately show ?thesis using assms(1) dist
    by (auto simp: core_inv_def snapshot_samples_def snapshot_errors_def dict_del_distinct)
qed

lemma late_inv: "core_inv n M (s\<lparr>late_response_count := c\<rparr>) = core_inv n M s"
  by (simp add: core_inv_def snapshot_samples_def snapshot_errors_def)

lemma record_error_inv:
  assumes "record_error tok e t rcv s = (Inr ok, s')" and "core_inv n M s"
  shows "core_inv n M s' \<and> same_frame s s' \<and> pending s' = dict_del tok (pending s)"
proof (cases "map_of (pending s) tok")
  case None
  then have "tok \<notin> fst ` set (pending s)" by (simp add: map_of_eq_None_iff)
  with None show ?thesis using assms by (auto simp: record_error_def late_inv dict_del_absent)
next
  case (Some q)
  obtain u where "complete_error q e t rcv False (s\<lparr>pending := dict_del tok (pending s)\<rparr>) = (Inr u, s')"
    using assms(1) Some by (auto simp: record_error_def split: prod.splits sum.splits)
  from complete_error_inv [OF this pop_inv [OF assms(2) Some]] show ?thesis by simp
qed

lemma record_response_inv:
  assumes "record_response tok t i l s = (Inr ok, s')" and "core_inv n M s"
  shows "core_inv n M s' \<and> same_frame s s' \<and> pending s' = dict_del tok (pending s)"
proof (cases "map_of (pending s) tok")
  case None
  then have "tok \<notin> fst ` set (pending s)" by (simp add: map_of_eq_None_iff)
  with None show ?thesis using assms by (auto simp: record_response_def late_inv dict_del_absent)
next
  case (Some q)
  let ?s1 = "s\<lparr>pending := dict_del tok (pending s)\<rparr>"
  note pop = pop_inv [OF assms(2) Some]
  show ?thesis
  proof (cases "validate_response t i l")
    case (Inl e)
    obtain u where "complete_error q (''invalid_response:'' @ error_text e) (latest_clock_ns ?s1)
        True False ?s1 = (Inr u, s')"
      using assms(1) Some Inl
      by (auto simp: record_response_def Let_def simp del: append_Cons split: prod.splits sum.splits)
    from complete_error_inv [OF this pop] show ?thesis by simp
  next
    case (Inr v)
    obtain st si sl where v: "v = (st, si, sl)" by (cases v)
    have "s' = (append_record q (Some st) (Some si) (Some sl) True None False ?s1)
        \<lparr>response_count := response_count ?s1 + 1, success_count := success_count ?s1 + 1\<rparr>"
      using assms(1) Some Inr v by (simp add: record_response_def Let_def)
    then show ?thesis using record_success_inv [OF pop]
      by (simp add: same_frame_def append_record_def Let_def del: opt_int.simps)
  qed
qed

lemma record_errors_inv:
  assumes "record_errors toks e s = (Inr u, s')" and "core_inv n M s"
  shows "core_inv n M s' \<and> same_frame s s' \<and> pending s' = fold dict_del toks (pending s)"
  using assms
proof (induction toks arbitrary: s)
  case (Cons tok toks)
  obtain ok s1 where s1: "record_error tok e (latest_clock_ns s) False s = (Inr ok, s1)"
    and rest: "record_errors toks e s1 = (Inr u, s')"
    using Cons.prems(1) by (auto split: prod.splits sum.splits)
  have "core_inv n M s1 \<and> same_frame s s1 \<and> pending s1 = dict_del tok (pending s)"
    using record_error_inv [OF s1 Cons.prems(2)] .
  with Cons.IH [OF rest] show ?case by (auto intro: same_frame_trans)
qed simp

lemma fold_dict_del: "fold dict_del toks d = filter (\<lambda>(k, v). k \<notin> set toks) d"
  by (induction toks arbitrary: d) (auto simp: dict_del_def intro!: filter_cong)

lemma fold_dict_del_all: "fold dict_del (map fst d) d = []"
  by (auto simp: fold_dict_del filter_empty_conv image_iff intro: bexI)

lemma miss_nodes_inv:
  assumes "miss_nodes r w reason ns s = (Inr u, s')"
    and "core_inv n (mset (map (Pair (next_round_index s)) ns) + M) s"
  shows "core_inv n M s' \<and> same_frame s s' \<and> pending s' = pending s"
  using assms
proof (induction ns arbitrary: s)
  case (Cons m ns)
  let ?q = "missed_request (next_round_index s) r w m"
  let ?e = "''requested_stamp_not_reached_before_'' @ reason"
  obtain u' s1 where s1: "complete_error ?q ?e (latest_clock_ns s) False True s = (Inr u', s1)"
    and rest: "miss_nodes r w reason ns s1 = (Inr u, s')"
    using Cons.prems(1) by (auto simp del: append_Cons split: prod.splits sum.splits)
  have "req_slot ?q = (next_round_index s, m)" by (simp add: req_slot_def missed_request_def)
  with Cons.prems(2)
  have "core_inv n (add_mset (req_slot ?q) (mset (map (Pair (next_round_index s)) ns) + M)) s"
    by simp
  from complete_error_inv [OF s1 this]
  have s1': "core_inv n (mset (map (Pair (next_round_index s1)) ns) + M) s1"
    and fr: "same_frame s s1" "pending s1 = pending s"
    by (auto simp: same_frame_def)
  from Cons.IH [OF rest s1'] fr show ?case by (auto intro: same_frame_trans)
qed simp

lemma miss_rounds_inv:
  assumes "miss_rounds w reason rs s = (Inr u, s')"
    and "core_inv (next_round_index s) L s" and "next_round_index s + length rs \<le> MAX_SCHEDULE_ROUNDS"
  shows "core_inv (next_round_index s') L s' \<and> pending s' = pending s
    \<and> next_round_index s' = next_round_index s + length rs
    \<and> schedule s' = schedule s \<and> latest_clock_ns s' = latest_clock_ns s"
  using assms
proof (induction rs arbitrary: s)
  case (Cons r rs)
  obtain u' s1 where s1: "miss_nodes r w reason NAV2_LIFECYCLE_NODES s = (Inr u', s1)"
    and rest: "miss_rounds w reason rs (s1\<lparr>next_round_index := next_round_index s1 + 1\<rparr>) = (Inr u, s')"
    using Cons.prems(1) by (auto split: prod.splits sum.splits)
  have "core_inv (Suc (next_round_index s))
      (mset (map (Pair (next_round_index s)) NAV2_LIFECYCLE_NODES) + L) s"
    using Cons.prems(2,3) by (simp add: core_inv_def slots_upto_Suc round_slots_def ac_simps)
  from miss_nodes_inv [OF s1 this]
  have i: "core_inv (Suc (next_round_index s)) L s1" "same_frame s s1" "pending s1 = pending s"
    by auto
  let ?s2 = "s1\<lparr>next_round_index := next_round_index s1 + 1\<rparr>"
  have "core_inv (next_round_index ?s2) L ?s2"
    using i by (simp add: same_frame_def core_inv_def snapshot_samples_def snapshot_errors_def)
  from Cons.IH [OF rest this] i Cons.prems(3) show ?case by (auto simp: same_frame_def)
qed simp

lemma slot_token_inj: "slot_token i n = slot_token j m \<longleftrightarrow> i = j \<and> n = m"
proof
  assume eq: "slot_token i n = slot_token j m"
  have "\<not> is_digit (CHR '':'')" by code_simp
  then have colon: "is_digit c \<Longrightarrow> c \<noteq> CHR '':''" for c by blast
  have digits: "list_all (\<lambda>c. c \<noteq> CHR '':'') (show_int (int k))" for k
    unfolding show_int_def using show_digits_digits [of "int k"] colon by (simp add: list_all_iff)
  have "takeWhile (\<lambda>c. c \<noteq> CHR '':'') (slot_token k v) = show_int (int k)" for k v
    using digits [of k] by (simp add: slot_token_def takeWhile_append2 list_all_iff)
  from this [of i n] this [of j m] have "show_int (int i) = show_int (int j)" using eq by simp
  then have "i = j" using show_int_nonneg_inj [of "int i" "int j"] by simp
  then show "i = j \<and> n = m" using eq by (simp add: slot_token_def)
qed simp

lemma foldl_dict_set_new:
  assumes "distinct (map token due)" and "token ` set due \<inter> fst ` set p = {}"
  shows "foldl (\<lambda>p r. dict_set (token r) r p) p due = p @ map (\<lambda>r. (token r, r)) due"
  using assms
proof (induction due arbitrary: p)
  case (Cons r due)
  have "dict_set (token r) r p = p @ [(token r, r)]" using Cons.prems by (intro dict_set_new) auto
  then show ?case using Cons.prems Cons.IH [of "p @ [(token r, r)]"] by auto
qed simp

lemma pending_slot_bound:
  assumes "core_inv n M s" and "(tok, q) \<in> set (pending s)"
  shows "round_index q < n"
proof -
  have "req_slot q \<in># mset (slots_upto n)"
    using assms unfolding core_inv_def by (metis (no_types, lifting) UnI1 UnI2 image_eqI set_map
        set_mset_mset set_mset_union snd_conv)
  then show ?thesis by (auto simp: slots_upto_def req_slot_def)
qed

lemma dispatch_round_inv:
  assumes "dispatch_round stamp w r s = (due, s')" and "core_inv (next_round_index s) L s"
    and "next_round_index s < MAX_SCHEDULE_ROUNDS"
  shows "core_inv (next_round_index s') L s' \<and> next_round_index s' = Suc (next_round_index s)
    \<and> schedule s' = schedule s \<and> latest_clock_ns s' = latest_clock_ns s \<and> finalized s' = finalized s"
proof -
  let ?i = "next_round_index s"
  have due: "due = map (\<lambda>n. \<lparr>token = slot_token ?i n, round_index = ?i, node = n,
      requested_stamp_ns = r, request_stamp_ns = Some stamp,
      deadline_wall_ns = w + request_timeout_ns s\<rparr>) NAV2_LIFECYCLE_NODES"
    using assms(1) by (simp add: dispatch_round_def Let_def)
  have "distinct NAV2_LIFECYCLE_NODES" by code_simp
  then have dist: "distinct (map token due)"
    by (simp add: due distinct_map comp_def inj_on_def slot_token_inj)
  have new: "token ` set due \<inter> fst ` set (pending s) = {}"
  proof -
    have "fst p \<noteq> slot_token ?i n" if "p \<in> set (pending s)" for p n
      using that pending_slot_bound [OF assms(2), of "fst p" "snd p"] assms(2)
      by (cases p) (auto simp: core_inv_def slot_token_inj)
    then show ?thesis by (fastforce simp: due)
  qed
  have "pending s' = foldl (\<lambda>p r. dict_set (token r) r p) (pending s) due"
    using assms(1) by (auto simp: dispatch_round_def Let_def)
  with foldl_dict_set_new [OF dist new]
  have p: "pending s' = pending s @ map (\<lambda>r. (token r, r)) due" by simp
  have slots: "map (\<lambda>p. req_slot (snd p)) (map (\<lambda>r. (token r, r)) due) = round_slots ?i"
    by (simp add: due round_slots_def req_slot_def)
  have fields: "records s' = records s" "success_count s' = success_count s"
    "error_count s' = error_count s" "sequence s' = sequence s" "next_round_index s' = Suc ?i"
    "schedule s' = schedule s" "latest_clock_ns s' = latest_clock_ns s" "finalized s' = finalized s"
    using assms(1) by (auto simp: dispatch_round_def Let_def)
  have "mset (map (\<lambda>p. req_slot (snd p)) (pending s')) =
      mset (map (\<lambda>p. req_slot (snd p)) (pending s)) + mset (round_slots ?i)"
    unfolding p map_append mset_append slots ..
  moreover have "\<forall>(tok, q)\<in>set (pending s'). tok = slot_token (round_index q) (node q)"
    using assms(2) by (auto simp: p due core_inv_def)
  moreover have "distinct (map fst (pending s'))"
    using assms(2) dist new by (auto simp: p core_inv_def comp_def)
  ultimately show ?thesis using assms(2,3) fields
    by (simp add: core_inv_def snapshot_samples_def snapshot_errors_def slots_upto_Suc ac_simps)
qed

lemma dispatch_due_inv:
  assumes "dispatch_due stamp w rs s = (due, s')" and "core_inv (next_round_index s) L s"
    and "next_round_index s + length rs \<le> MAX_SCHEDULE_ROUNDS"
  shows "core_inv (next_round_index s') L s'
    \<and> next_round_index s \<le> next_round_index s' \<and> next_round_index s' \<le> next_round_index s + length rs
    \<and> schedule s' = schedule s \<and> latest_clock_ns s' = latest_clock_ns s \<and> finalized s' = finalized s"
  using assms
proof (induction rs arbitrary: s due)
  case (Cons r rs)
  show ?case
  proof (cases "r \<le> stamp")
    case True
    obtain d1 s1 where s1: "dispatch_round stamp w r s = (d1, s1)" by fastforce
    obtain d2 where s2: "dispatch_due stamp w rs s1 = (d2, s')"
      using Cons.prems(1) True s1 by (auto split: prod.splits)
    have "next_round_index s < MAX_SCHEDULE_ROUNDS" using Cons.prems(3) by simp
    note r = dispatch_round_inv [OF s1 Cons.prems(2) this]
    have i: "core_inv (next_round_index s1) L s1" using r by blast
    have "next_round_index s1 + length rs \<le> MAX_SCHEDULE_ROUNDS" using r Cons.prems(3) by simp
    from Cons.IH [OF s2 i this] r show ?thesis by simp
  next
    case False
    then show ?thesis using Cons.prems by simp
  qed
qed simp

text \<open>Changing only bookkeeping fields keeps the invariant.\<close>

lemma core_inv_cong:
  assumes "records s' = records s" "pending s' = pending s" "success_count s' = success_count s"
    "error_count s' = error_count s" "sequence s' = sequence s"
  shows "core_inv n M s' = core_inv n M s"
  using assms by (simp add: core_inv_def snapshot_samples_def snapshot_errors_def)

lemma observe_clock_inv:
  assumes "observe_clock t w s = (Inr due, s')" and "sampler_inv L s"
  shows "sampler_inv L s' \<and> schedule s' = schedule s"
proof -
  obtain stamp where stamp: "ls_stamp_ns t ''clock.stamp_ns'' = Inr stamp"
    using assms(1) by (auto simp: observe_clock_def split: sum.splits)
  then have range: "0 \<le> stamp" "stamp \<le> MAX_STAMP_NS"
    by (auto simp: ls_stamp_ns_def split: pyval.splits if_splits)
  obtain wall where wall: "nonneg_int w = Some wall"
    using assms(1) stamp by (auto simp: observe_clock_def split: option.splits)
  define s1 where "s1 = s\<lparr>clock_count := clock_count s + 1\<rparr>"
  consider (closed) "finalized s" "s' = s"
    | (regress) "\<not> finalized s" "s' = s1\<lparr>clock_regression_count := clock_regression_count s1 + 1,
        latest_clock_ns := Some stamp\<rparr>"
    | (advance) "\<not> finalized s" "dispatch_due stamp wall
        (drop (next_round_index s) (requested_stamps_ns (schedule s))) (s1\<lparr>latest_clock_ns := Some stamp\<rparr>)
        = (due, s')"
    using assms(1) stamp wall
    by (auto simp: observe_clock_def s1_def Let_def split: if_splits prod.splits option.splits)
  then show ?thesis
  proof cases
    case closed
    then show ?thesis using assms(2) by simp
  next
    case regress
    then show ?thesis using assms(2) range core_inv_cong [of s' s]
      by (simp add: sampler_inv_def s1_def)
  next
    case advance
    let ?s2 = "s1\<lparr>latest_clock_ns := Some stamp\<rparr>"
    have "core_inv (next_round_index ?s2) L ?s2"
      using assms(2) core_inv_cong [of ?s2 s] by (simp add: sampler_inv_def s1_def)
    from dispatch_due_inv [OF advance(2) this] assms(2) advance(1) range show ?thesis
      by (simp add: sampler_inv_def s1_def)
  qed
qed

lemma finalize_inv:
  assumes "finalize reason w s = (Inr toks, s')" and "sampler_inv L s"
  shows "sampler_inv L s' \<and> schedule s' = schedule s \<and> finalized s'"
proof (cases "finalized s")
  case True
  then show ?thesis using assms by (auto simp: finalize_def split: if_splits pyval.splits)
next
  case False
  let ?e = "''response_pending_on_'' @ reason"
  obtain wall s1 s2 where s1: "record_errors (map fst (pending s)) ?e s = (Inr (), s1)"
    and s2: "miss_rounds wall reason (drop (next_round_index s1) (requested_stamps_ns (schedule s1))) s1
        = (Inr (), s2)"
    and s': "s' = s2\<lparr>finished_steady_wall_ns := Some wall, stop_reason := Some reason, finalized := True\<rparr>"
    using assms(1) False
    by (auto simp: finalize_def Let_def simp del: append_Cons
          split: if_splits pyval.splits prod.splits sum.splits)
  have i: "core_inv (next_round_index s) L s"
    "length (requested_stamps_ns (schedule s)) \<le> MAX_SCHEDULE_ROUNDS"
    "next_round_index s \<le> length (requested_stamps_ns (schedule s))"
    using assms(2) by (auto simp: sampler_inv_def)
  from record_errors_inv [OF s1 i(1)]
  have s1': "core_inv (next_round_index s1) L s1" "same_frame s s1" "pending s1 = []"
    by (auto simp: same_frame_def fold_dict_del_all)
  from miss_rounds_inv [OF s2 s1'(1)] i(2,3) s1'(2,3)
  have "core_inv (next_round_index s2) L s2" "pending s2 = []" "schedule s2 = schedule s"
    "next_round_index s2 = length (requested_stamps_ns (schedule s))"
    "latest_clock_ns s2 = latest_clock_ns s"
    by (auto simp: same_frame_def)
  moreover have "core_inv (next_round_index s2) L s' = core_inv (next_round_index s2) L s2"
    by (rule core_inv_cong) (simp_all add: s')
  ultimately show ?thesis using assms(2) by (simp add: sampler_inv_def s')
qed

lemma sampler_inv_frame:
  assumes "core_inv (next_round_index s) L s'" "same_frame s s'"
    "finalized s \<longrightarrow> pending s' = []" "sampler_inv L s"
  shows "sampler_inv L s' \<and> schedule s' = schedule s"
  using assms by (simp add: sampler_inv_def same_frame_def)

section \<open>Reachable states\<close>

lemma stamps_from_facts:
  "stamps_from k vs = Inr stamps \<Longrightarrow>
     length stamps = length vs \<and> (\<forall>t\<in>set stamps. 0 \<le> t \<and> t \<le> MAX_STAMP_NS)"
proof (induction vs arbitrary: k stamps)
  case (Cons v vs)
  obtain t ts where t: "ls_stamp_ns v (''requested_stamps_ns['' @ show_int (int k) @ '']'') = Inr t"
    and ts: "stamps_from (Suc k) vs = Inr ts" and s: "stamps = t # ts"
    using Cons.prems by (auto simp: bindE_Inr_iff simp del: append_Cons)
  have "0 \<le> t \<and> t \<le> MAX_STAMP_NS"
    using t by (auto simp: ls_stamp_ns_def split: pyval.splits if_splits)
  with Cons.IH [OF ts] s show ?case by auto
qed simp

lemma strictly_increasing_iff: "strictly_increasing xs \<longleftrightarrow> sorted_wrt (<) xs"
  by (induction xs rule: strictly_increasing.induct) (auto dest: less_trans simp: not_le)

lemma validate_schedule_facts:
  assumes "validate_schedule document = Inr sch"
  shows "1 \<le> length (requested_stamps_ns sch)" "length (requested_stamps_ns sch) \<le> MAX_SCHEDULE_ROUNDS"
    "sorted_wrt (<) (requested_stamps_ns sch)"
    "\<forall>t\<in>set (requested_stamps_ns sch). 0 \<le> t \<and> t \<le> MAX_STAMP_NS"
    "run_id sch \<noteq> ''''" "length (run_id sch) \<le> MAX_RUN_ID_BYTES"
proof -
  obtain d where d: "document = PDict d"
    using assms by (cases document) (simp_all add: validate_schedule_def)
  obtain raw where raw: "dget d ''requested_stamps_ns'' = PList raw"
    using assms d by (cases "dget d ''requested_stamps_ns''") (simp_all add: validate_schedule_def bindE_Inr_iff)
  obtain rid stamps where rid: "bounded_text (dget d ''run_id'') ''run_id'' MAX_RUN_ID_BYTES = Inr rid"
    and len: "1 \<le> length raw" "length raw \<le> MAX_SCHEDULE_ROUNDS"
    and stamps: "stamps_from 0 raw = Inr stamps" "strictly_increasing stamps"
    and sch: "sch = \<lparr>run_id = rid, requested_stamps_ns = stamps\<rparr>"
    using assms unfolding d validate_schedule_def
    by (simp add: raw bindE_Inr_iff guardE_Inr_iff del: append_Cons) blast
  have "rid \<noteq> '''' \<and> length rid \<le> MAX_RUN_ID_BYTES"
    using rid by (auto simp: bounded_text_def split: pyval.splits if_splits)
  then show "1 \<le> length (requested_stamps_ns sch)" "length (requested_stamps_ns sch) \<le> MAX_SCHEDULE_ROUNDS"
    "sorted_wrt (<) (requested_stamps_ns sch)"
    "\<forall>t\<in>set (requested_stamps_ns sch). 0 \<le> t \<and> t \<le> MAX_STAMP_NS"
    "run_id sch \<noteq> ''''" "length (run_id sch) \<le> MAX_RUN_ID_BYTES"
    using len stamps stamps_from_facts [OF stamps(1)] by (simp_all add: sch strictly_increasing_iff)
qed

lemma MAX_LIFECYCLE_SAMPLES_pos: "0 < MAX_LIFECYCLE_SAMPLES"
  by (simp add: MAX_LIFECYCLE_SAMPLES_def MAX_SCHEDULE_ROUNDS_def NAV2_LIFECYCLE_NODES_def)

lemma new_sampler_inv:
  assumes "new_sampler sch timeout = Inr s" and "length (requested_stamps_ns sch) \<le> MAX_SCHEDULE_ROUNDS"
  shows "sampler_inv {#} s" "schedule s = sch"
  using assms MAX_LIFECYCLE_SAMPLES_pos
  by (auto simp: new_sampler_def sampler_inv_def core_inv_def buffer_wf_def new_quality_def
        snapshot_samples_def snapshot_errors_def split: pyval.splits if_splits)

section \<open>Finalisation returns\<close>

lemma record_error_total:
  assumes "e \<noteq> ''''" "length e \<le> MAX_ERROR_BYTES"
    and "case t of None \<Rightarrow> True | Some i \<Rightarrow> 0 \<le> i \<and> i \<le> MAX_STAMP_NS"
  shows "\<exists>ok s'. record_error tok e t rcv s = (Inr ok, s')"
proof (cases "map_of (pending s) tok")
  case (Some q)
  obtain s' where "complete_error q e t rcv False (s\<lparr>pending := dict_del tok (pending s)\<rparr>) = (Inr (), s')"
    using complete_error_total [OF assms] by blast
  then show ?thesis using Some by (auto simp: record_error_def)
qed (auto simp: record_error_def)

lemma record_errors_total:
  assumes "e \<noteq> ''''" "length e \<le> MAX_ERROR_BYTES" and "sampler_inv L s"
  shows "\<exists>s'. record_errors toks e s = (Inr (), s')"
  using assms(3)
proof (induction toks arbitrary: s)
  case (Cons tok toks)
  have "case latest_clock_ns s of None \<Rightarrow> True | Some i \<Rightarrow> 0 \<le> i \<and> i \<le> MAX_STAMP_NS"
    and core: "core_inv (next_round_index s) L s"
    using Cons.prems by (simp_all add: sampler_inv_def)
  then obtain ok s1 where s1: "record_error tok e (latest_clock_ns s) False s = (Inr ok, s1)"
    using record_error_total [OF assms(1,2)] by blast
  have "sampler_inv L s1"
    using record_error_inv [OF s1 core] Cons.prems by (auto simp: sampler_inv_def same_frame_def dict_del_def)
  from Cons.IH [OF this] s1 show ?case by auto
qed simp

lemma miss_nodes_total:
  assumes "length (''requested_stamp_not_reached_before_'' @ reason) \<le> MAX_ERROR_BYTES"
    and "case latest_clock_ns s of None \<Rightarrow> True | Some i \<Rightarrow> 0 \<le> i \<and> i \<le> MAX_STAMP_NS"
  shows "\<exists>s'. miss_nodes r w reason ns s = (Inr (), s') \<and> latest_clock_ns s' = latest_clock_ns s"
  using assms(2)
proof (induction ns arbitrary: s)
  case (Cons m ns)
  let ?e = "''requested_stamp_not_reached_before_'' @ reason"
  let ?q = "missed_request (next_round_index s) r w m"
  obtain s1 where s1: "complete_error ?q ?e (latest_clock_ns s) False True s = (Inr (), s1)"
    using complete_error_total [of ?e "latest_clock_ns s" ?q False True s] assms(1) Cons.prems by auto
  have l: "latest_clock_ns s1 = latest_clock_ns s"
    using s1 by (auto simp: complete_error_def append_record_def Let_def simp del: append_Cons
                  split: sum.splits option.splits)
  then show ?case using Cons.IH [of s1] Cons.prems s1 by (simp del: append_Cons)
qed simp

lemma miss_rounds_total:
  assumes "length (''requested_stamp_not_reached_before_'' @ reason) \<le> MAX_ERROR_BYTES"
    and "case latest_clock_ns s of None \<Rightarrow> True | Some i \<Rightarrow> 0 \<le> i \<and> i \<le> MAX_STAMP_NS"
  shows "\<exists>s'. miss_rounds w reason rs s = (Inr (), s')"
  using assms(2)
proof (induction rs arbitrary: s)
  case (Cons r rs)
  obtain s1 where "miss_nodes r w reason NAV2_LIFECYCLE_NODES s = (Inr (), s1)"
    "latest_clock_ns s1 = latest_clock_ns s"
    using miss_nodes_total [OF assms(1) Cons.prems] by blast
  with Cons.IH [of "s1\<lparr>next_round_index := next_round_index s1 + 1\<rparr>"] Cons.prems show ?case by simp
qed simp

lemma allowed_reason_length:
  assumes "reason \<in> allowed_reasons"
  shows "length (''requested_stamp_not_reached_before_'' @ reason) \<le> MAX_ERROR_BYTES"
    "length (''response_pending_on_'' @ reason) \<le> MAX_ERROR_BYTES"
  using assms by (auto simp: allowed_reasons_def MAX_ERROR_BYTES_def)

lemma finalize_total:
  assumes "sampler_inv L s" "\<not> finalized s" "reason \<in> allowed_reasons" "0 \<le> w"
  shows "\<exists>s'. finalize reason (PInt w) s = (Inr (map fst (pending s)), s')"
proof -
  let ?e = "''response_pending_on_'' @ reason"
  have "?e \<noteq> ''''" by simp
  from record_errors_total [OF this allowed_reason_length(2) [OF assms(3)] assms(1)]
  obtain s1 where s1: "record_errors (map fst (pending s)) ?e s = (Inr (), s1)" by blast
  have "core_inv (next_round_index s) L s" using assms(1) by (simp add: sampler_inv_def)
  from record_errors_inv [OF s1 this] assms(1)
  have "case latest_clock_ns s1 of None \<Rightarrow> True | Some i \<Rightarrow> 0 \<le> i \<and> i \<le> MAX_STAMP_NS"
    by (simp add: sampler_inv_def same_frame_def)
  from miss_rounds_total [OF allowed_reason_length(1) [OF assms(3)] this]
  obtain s2 where "miss_rounds w reason (drop (next_round_index s1) (requested_stamps_ns (schedule s1))) s1
      = (Inr (), s2)" by blast
  with s1 assms show ?thesis by (simp add: finalize_def Let_def del: append_Cons)
qed

section \<open>Every call keeps the invariant\<close>

lemma validate_response_text: "validate_response t i l = Inl e \<Longrightarrow> length (error_text e) \<le> 100"
proof -
  have "length (show_int MAX_STAMP_NS) = 19" "length (show_int 256) = 3" by code_simp+
  then show "validate_response t i l = Inl e \<Longrightarrow> ?thesis"
    by (auto simp: validate_response_def bindE_def guardE_def ls_stamp_ns_def bounded_text_def MAX_STATE_LABEL_BYTES_def
        split: sum.splits pyval.splits if_splits)
qed

lemma record_response_total:
  assumes "sampler_inv L s"
  shows "\<exists>ok s'. record_response tok t i l s = (Inr ok, s')"
proof (cases "map_of (pending s) tok")
  case (Some q)
  let ?s1 = "s\<lparr>pending := dict_del tok (pending s)\<rparr>"
  show ?thesis
  proof (cases "validate_response t i l")
    case (Inl e)
    have "length (''invalid_response:'' @ error_text e) \<le> MAX_ERROR_BYTES" "''invalid_response:'' @ error_text e \<noteq> ''''"
      using validate_response_text [OF Inl] by (simp_all add: MAX_ERROR_BYTES_def)
    moreover have "case latest_clock_ns s of None \<Rightarrow> True | Some i \<Rightarrow> 0 \<le> i \<and> i \<le> MAX_STAMP_NS"
      using assms by (simp add: sampler_inv_def)
    ultimately obtain s' where "complete_error q (''invalid_response:'' @ error_text e) (latest_clock_ns s) True False ?s1 = (Inr (), s')"
      using complete_error_total by blast
    then show ?thesis by (auto simp: record_response_def Some Inl simp del: append_Cons)
  qed (auto simp: record_response_def Some Let_def)
qed (auto simp: record_response_def)

lemma expire_requests_cases:
  assumes "expire_requests w s = (r, s')" "sampler_inv L s"
  shows "s' = s \<or> (\<exists>ex e. record_errors ex e s = (Inr (), s'))"
proof -
  have "\<exists>s1. record_errors ex ''request_wall_timeout'' s = (Inr (), s1)" for ex
    by (rule record_errors_total [OF _ _ assms(2)]) (simp_all add: MAX_ERROR_BYTES_def)
  then obtain f where f: "\<And>ex. record_errors ex ''request_wall_timeout'' s = (Inr (), f ex)" by metis
  then show ?thesis
    using assms(1) by (auto simp: expire_requests_def Let_def split: option.splits)
qed

lemma finalize_cases:
  assumes "finalize reason w s = (r, s')" "sampler_inv L s"
  shows "s' = s \<or> (\<exists>toks. r = Inr toks)"
proof (cases "reason \<in> allowed_reasons \<and> \<not> finalized s \<and> (\<exists>i. w = PInt i \<and> \<not> i < 0)")
  case True
  then obtain i where "w = PInt i" "0 \<le> i" "reason \<in> allowed_reasons" "\<not> finalized s" by auto
  with finalize_total [OF assms(2)] obtain s'' where "finalize reason w s = (Inr (map fst (pending s)), s'')"
    by blast
  with assms(1) show ?thesis by auto
qed (use assms(1) in \<open>auto simp: finalize_def split: pyval.splits if_splits\<close>)

lemma sampler_step_inv:
  assumes "sampler_step l s s'" "sampler_inv L s"
  shows "sampler_inv (L + l) s' \<and> schedule s' = schedule s"
  using assms
proof (induction rule: sampler_step.induct)
  case (started t s r s')
  then have "s' = s \<or> (\<exists>x. s' = s\<lparr>started_steady_wall_ns := Some x\<rparr>)"
    by (auto simp: set_started_wall_ns_def split: option.splits if_splits)
  then show ?case using started.prems core_inv_cong [of s' s] by (auto simp: sampler_inv_def)
next
  case (clock t w s r s')
  then have "s' = s \<or> (\<exists>due. observe_clock t w s = (Inr due, s'))"
    by (auto simp: observe_clock_def Let_def split: sum.splits option.splits if_splits prod.splits)
  then show ?case using observe_clock_inv clock.prems by auto
next
  case (response tok t i l s r s')
  then obtain ok where "record_response tok t i l s = (Inr ok, s')" using record_response_total by (metis Pair_inject)
  moreover have "core_inv (next_round_index s) L s" using response.prems by (simp add: sampler_inv_def)
  ultimately have "core_inv (next_round_index s) L s'" "same_frame s s'" "pending s' = dict_del tok (pending s)"
    using record_response_inv by blast+
  then show ?case using response.prems by (simp add: sampler_inv_def same_frame_def dict_del_def)
next
  case (error tok e t rcv s ok s')
  then have "core_inv (next_round_index s) L s" by (simp add: sampler_inv_def)
  from record_error_inv [OF error.hyps this] error.prems show ?case
    by (simp add: sampler_inv_def same_frame_def dict_del_def)
next
  case (error_raised tok e t rcv s x s' q)
  then have "s' = s\<lparr>pending := dict_del tok (pending s)\<rparr>"
    by (auto simp: record_error_def complete_error_def Let_def split: sum.splits option.splits prod.splits)
  moreover have "core_inv (next_round_index s) L s" using error_raised.prems by (simp add: sampler_inv_def)
  ultimately show ?case using pop_inv [OF _ error_raised.hyps(2)] error_raised.prems
    by (auto simp: sampler_inv_def dict_del_def)
next
  case (expire w s r s')
  have core: "core_inv (next_round_index s) L s" using expire.prems by (simp add: sampler_inv_def)
  from expire_requests_cases [OF expire] show ?case
    using record_errors_inv [OF _ core] expire.prems by (auto simp: sampler_inv_def same_frame_def fold_dict_del)
next
  case (mark s e)
  then show ?case using core_inv_cong [of "mark_runtime_error e s" s]
    by (simp add: sampler_inv_def mark_runtime_error_def Let_def)
next
  case (finish reason w s r s')
  with finalize_cases [OF finish] finalize_inv show ?case by fastforce
qed

lemma sampler_reach_inv: "sampler_reach sch L s \<Longrightarrow> sampler_inv L s \<and> schedule s = sch"
proof (induction rule: sampler_reach.induct)
  case (start document sch timeout s)
  then show ?case using validate_schedule_facts(2) new_sampler_inv by blast
next
  case (step sch L s l s')
  then show ?case using sampler_step_inv by blast
qed

lemma finalized_slots:
  assumes "sampler_inv L s" "finalized s"
  shows "mset (map rec_slot (items (records s))) + L = mset (slots_upto (length (requested_stamps_ns (schedule s))))"
    "pending s = []"
    "success_count s + error_count s + int (size L) = expected_sample_count (schedule s)"
proof -
  show p: "pending s = []" using assms by (simp add: sampler_inv_def)
  show m: "mset (map rec_slot (items (records s))) + L = mset (slots_upto (length (requested_stamps_ns (schedule s))))"
    using assms p by (simp add: sampler_inv_def core_inv_def)
  have "length (items (records s)) + size L = length (slots_upto (length (requested_stamps_ns (schedule s))))"
    using arg_cong [OF m, of size] by simp
  moreover have "length (snapshot_samples s) + length (snapshot_errors s) = length (items (records s))"
    by (simp add: snapshot_samples_def snapshot_errors_def sum_length_filter_compl)
  ultimately show "success_count s + error_count s + int (size L) = expected_sample_count (schedule s)"
    using assms by (simp add: sampler_inv_def core_inv_def expected_sample_count_def length_slots_upto
        flip: of_nat_add of_nat_mult)
qed

section \<open>Properties\<close>

text \<open>C9: in every reachable state of the sampler, whatever calls returned or raised, every (round, node) slot of
  the rounds dispatched so far is exactly one of recorded, pending, or lost in a \<open>record_error\<close> call that raised; nothing overflows
  the record buffer, the success and error counters add up to the records, and the collector
  sequence counts them.\<close>

theorem lifecycle_slots_conserved:
  assumes "sampler_reach sch lost s"
  shows "mset (map rec_slot (items (records s))) + mset (map (\<lambda>p. req_slot (snd p)) (pending s)) + lost
        = mset (slots_upto (next_round_index s))
    \<and> next_round_index s \<le> length (requested_stamps_ns sch)
    \<and> \<not> overflowed (quality (records s))
    \<and> success_count s + error_count s = int (length (items (records s)))
    \<and> sequence s = int (length (items (records s)))"
proof -
  have i: "sampler_inv lost s" and sch: "schedule s = sch" using sampler_reach_inv [OF assms] by auto
  have "length (snapshot_samples s) + length (snapshot_errors s) = length (items (records s))"
    by (simp add: snapshot_samples_def snapshot_errors_def sum_length_filter_compl)
  with i sch show ?thesis by (auto simp: sampler_inv_def core_inv_def overflowed_def)
qed

text \<open>C10: \<open>finalize\<close> with an allowed reason always returns from a reachable state that is not
  finalized, cancels exactly the pending requests, and afterwards every slot of the schedule has
  exactly one record, except the slots that were lost in a \<open>record_error\<close> call that raised; successes, errors and lost
  slots add up to the expected sample count.\<close>

theorem lifecycle_finalize_accounts_all:
  assumes "sampler_reach sch lost s" "\<not> finalized s" "reason \<in> allowed_reasons" "0 \<le> w"
  shows "\<exists>s'. finalize reason (PInt w) s = (Inr (map fst (pending s)), s') \<and> finalized s'
    \<and> pending s' = []
    \<and> mset (map rec_slot (items (records s'))) + lost = mset (slots_upto (length (requested_stamps_ns sch)))
    \<and> success_count s' + error_count s' + int (size lost) = expected_sample_count sch"
proof -
  have i: "sampler_inv lost s" and sch: "schedule s = sch" using sampler_reach_inv [OF assms(1)] by auto
  obtain s' where s': "finalize reason (PInt w) s = (Inr (map fst (pending s)), s')"
    using finalize_total [OF i assms(2-4)] by blast
  from finalize_inv [OF s' i] have f: "sampler_inv lost s'" "schedule s' = sch" "finalized s'"
    using sch by auto
  show ?thesis using finalized_slots [OF f(1,3)] f s' by auto
qed

text \<open>When the snapshot of a reachable state says \<open>complete\<close>, no slot was lost: every node of every scheduled
  round has exactly one successful sample, there is no error record and nothing is pending.\<close>

theorem lifecycle_complete_covers_schedule:
  assumes "sampler_reach sch lost s" "snapshot_complete s"
  shows "lost = {#} \<and> mset (map rec_slot (snapshot_samples s)) = mset (slots_upto (length (requested_stamps_ns sch)))
    \<and> snapshot_errors s = [] \<and> pending s = []"
proof -
  have i: "sampler_inv lost s" and sch: "schedule s = sch" using sampler_reach_inv [OF assms(1)] by auto
  have f: "finalized s" and e: "snapshot_errors s = []"
    using assms(2) i by (auto simp: snapshot_complete_def sampler_inv_def core_inv_def)
  then have "snapshot_samples s = items (records s)"
    by (simp add: snapshot_samples_def snapshot_errors_def filter_empty_conv)
  moreover have "lost = {#}" using finalized_slots(3) [OF i f] assms(2) by (simp add: snapshot_complete_def)
  ultimately show ?thesis using finalized_slots [OF i f] e sch by simp
qed

text \<open>An accepted schedule has between one and \<open>MAX_SCHEDULE_ROUNDS\<close> stamps, strictly
  increasing and inside the ROS stamp range, a bounded non-empty run id, and needs no more samples
  than the record buffer holds.\<close>

theorem validate_schedule_bounds:
  assumes "validate_schedule document = Inr sch"
  shows "1 \<le> length (requested_stamps_ns sch) \<and> length (requested_stamps_ns sch) \<le> MAX_SCHEDULE_ROUNDS
    \<and> sorted_wrt (<) (requested_stamps_ns sch)
    \<and> (\<forall>t\<in>set (requested_stamps_ns sch). 0 \<le> t \<and> t \<le> MAX_STAMP_NS)
    \<and> run_id sch \<noteq> '''' \<and> length (run_id sch) \<le> MAX_RUN_ID_BYTES
    \<and> expected_sample_count sch \<le> int MAX_LIFECYCLE_SAMPLES"
proof -
  have "expected_sample_count sch \<le> int MAX_LIFECYCLE_SAMPLES"
    using validate_schedule_facts(2) [OF assms]
    by (simp add: expected_sample_count_def MAX_LIFECYCLE_SAMPLES_def mult_right_mono)
  then show ?thesis using validate_schedule_facts [OF assms] by blast
qed

section \<open>A concrete run\<close>

text \<open>One round at 5 ns, all nine nodes answering \<open>active\<close> at 6 ns, stopped by the stop file.\<close>

definition demo_document :: pyval where
  "demo_document = PDict [(''lifecycle_schedule_schema_version'', PInt 1),
     (''requested_stamps_ns'', PList [PInt 5]), (''run_id'', PStr ''r1'')]"

definition demo_schedule :: lifecycle_schedule where
  "demo_schedule = \<lparr>run_id = ''r1'', requested_stamps_ns = [5]\<rparr>"

fun demo_answers :: "string list \<Rightarrow> sampler \<Rightarrow> bool \<times> sampler" where
  "demo_answers [] s = (True, s)"
| "demo_answers (n # ns) s =
     (case record_response (slot_token 0 n) (PInt 6) (PInt 3) (PStr ''active'') s of
        (Inr ok, s1) \<Rightarrow> demo_answers ns s1 | (Inl e, s1) \<Rightarrow> (False, s1))"

definition demo_start :: sampler where
  "demo_start = (case new_sampler demo_schedule (PInt 1000) of Inr s \<Rightarrow> s)"

definition demo_dispatched :: sampler where
  "demo_dispatched = snd (observe_clock (PInt 5) (PInt 0) demo_start)"

definition demo_answered :: sampler where
  "demo_answered = snd (demo_answers NAV2_LIFECYCLE_NODES demo_dispatched)"

definition demo_stopped :: sampler where
  "demo_stopped = snd (finalize ''stop_file'' (PInt 9) demo_answered)"

lemma sampler_quiet_step: "sampler_reach sch L s \<Longrightarrow> sampler_step {#} s s' \<Longrightarrow> sampler_reach sch L s'"
  using sampler_reach.step [of sch L s "{#}" s'] by simp

lemma demo_answers_reach:
  "demo_answers ns s = (True, s') \<Longrightarrow> sampler_reach sch {#} s \<Longrightarrow> sampler_reach sch {#} s'"
proof (induction ns arbitrary: s)
  case (Cons n ns)
  then obtain ok s1 where
    "record_response (slot_token 0 n) (PInt 6) (PInt 3) (PStr ''active'') s = (Inr ok, s1)"
    and rest: "demo_answers ns s1 = (True, s')"
    by (auto split: prod.splits sum.splits)
  then have "sampler_reach sch {#} s1" using sampler_quiet_step [OF Cons.prems(2) sampler_step.response] by blast
  with Cons.IH rest show ?case by blast
qed simp

lemma demo_valid: "validate_schedule demo_document = Inr demo_schedule"
  by code_simp

lemma demo_start_reach: "sampler_reach demo_schedule {#} demo_start"
proof -
  have "new_sampler demo_schedule (PInt 1000) = Inr demo_start" by (simp add: demo_start_def new_sampler_def)
  with demo_valid show ?thesis by (rule sampler_reach.start)
qed

lemma demo_dispatched_reach: "sampler_reach demo_schedule {#} demo_dispatched"
proof -
  have "isl (fst (observe_clock (PInt 5) (PInt 0) demo_start)) = False" by code_simp
  then obtain due where "observe_clock (PInt 5) (PInt 0) demo_start = (Inr due, demo_dispatched)"
    unfolding demo_dispatched_def by (metis prod.collapse sum.collapse(2))
  from sampler_quiet_step [OF demo_start_reach sampler_step.clock [OF this]] show ?thesis .
qed

lemma demo_answered_reach: "sampler_reach demo_schedule {#} demo_answered"
proof -
  have "fst (demo_answers NAV2_LIFECYCLE_NODES demo_dispatched)" by code_simp
  then have "demo_answers NAV2_LIFECYCLE_NODES demo_dispatched = (True, demo_answered)"
    by (simp add: demo_answered_def prod_eq_iff)
  from demo_answers_reach [OF this demo_dispatched_reach] show ?thesis .
qed

lemma demo_stopped_reach: "sampler_reach demo_schedule {#} demo_stopped"
proof -
  have "isl (fst (finalize ''stop_file'' (PInt 9) demo_answered)) = False" by code_simp
  then obtain toks where "finalize ''stop_file'' (PInt 9) demo_answered = (Inr toks, demo_stopped)"
    unfolding demo_stopped_def by (metis prod.collapse sum.collapse(2))
  from sampler_quiet_step [OF demo_answered_reach sampler_step.finish [OF this]] show ?thesis .
qed

text \<open>The error handler of a node is called with an empty text.\<close>

definition demo_lost :: sampler where
  "demo_lost = snd (record_error (slot_token 0 ''map_server'') '''' None False demo_dispatched)"

lemma demo_lost_reach: "sampler_reach demo_schedule {#(0, ''map_server'')#} demo_lost"
proof -
  have raised: "isl (fst (record_error (slot_token 0 ''map_server'') '''' None False demo_dispatched))"
    and slot: "map_option req_slot (map_of (pending demo_dispatched) (slot_token 0 ''map_server'')) = Some (0, ''map_server'')"
    by code_simp+
  from raised obtain x where "record_error (slot_token 0 ''map_server'') '''' None False demo_dispatched = (Inl x, demo_lost)"
    unfolding demo_lost_def by (metis prod.collapse sum.collapse(1))
  from sampler_step.error_raised [OF this] slot
  have "sampler_step {#(0, ''map_server'')#} demo_dispatched demo_lost" by auto
  from sampler_reach.step [OF demo_dispatched_reach this] show ?thesis by simp
qed

theorem lifecycle_slots_conserved_witness:
  "length (pending demo_lost) = 8 \<and> next_round_index demo_lost = 1 \<and> items (records demo_lost) = []
   \<and> mset (map (\<lambda>p. req_slot (snd p)) (pending demo_lost)) + {#(0, ''map_server'')#} = mset (slots_upto 1)"
proof -
  have "length (pending demo_lost) = 8" "next_round_index demo_lost = 1" "items (records demo_lost) = []" by code_simp+
  then show ?thesis using lifecycle_slots_conserved [OF demo_lost_reach] by simp
qed

theorem lifecycle_finalize_accounts_all_witness:
  "\<exists>s'. finalize ''wall_timeout'' (PInt 7) demo_lost = (Inr (map fst (pending demo_lost)), s')
    \<and> success_count s' + error_count s' + 1 = 9"
proof -
  have "\<not> finalized demo_lost" by code_simp
  moreover have "''wall_timeout'' \<in> allowed_reasons" by (simp add: allowed_reasons_def)
  moreover have "expected_sample_count demo_schedule = 9" by code_simp
  ultimately show ?thesis
    using lifecycle_finalize_accounts_all [OF demo_lost_reach, of "''wall_timeout''" 7] by auto
qed

theorem lifecycle_complete_covers_schedule_witness:
  "snapshot_complete demo_stopped
   \<and> mset (map rec_slot (snapshot_samples demo_stopped)) = mset (slots_upto 1)"
proof -
  have "snapshot_complete demo_stopped" by code_simp
  moreover have "length (requested_stamps_ns demo_schedule) = 1" by (simp add: demo_schedule_def)
  ultimately show ?thesis
    using lifecycle_complete_covers_schedule [OF demo_stopped_reach] by simp
qed

theorem validate_schedule_bounds_witness:
  "validate_schedule demo_document = Inr demo_schedule
   \<and> expected_sample_count demo_schedule \<le> int MAX_LIFECYCLE_SAMPLES"
  using validate_schedule_bounds [OF demo_valid] demo_valid by blast

end
