(* ===== verification/Fault_Schedule.thy ===== *)
theory Fault_Schedule
  imports Sha256 "HOL-Library.Multiset"
begin

text \<open>
  The fault schedule of a mission (\<open>robotest_missions/fault_schedule.py\<close> and the two schedule
  classes of \<open>models.py\<close>): validation of each raw fault, canonical order, rejection of repeated
  identifiers and of overlapping same-target intervals, canonical JSON and its SHA-256 identity.
  The lemmas show what a built schedule guarantees (\<open>schedule_wf\<close>), that the result does not
  depend on the order of the input, and that a built schedule rebuilds to itself.
\<close>

section \<open>Data (\<open>models.py\<close>)\<close>

record fault_spec =
  spec_schema_version :: int
  fault_id :: string
  target :: int
  mode :: int
  start_offset_ns :: int
  duration_ns :: int
  seed :: int
  parameters :: "(string \<times> int) list"

definition fault_spec_as_dict :: "fault_spec \<Rightarrow> pydict" where
  "fault_spec_as_dict f =
    [(''schema_version'', PInt (spec_schema_version f)),
     (''fault_id'', PStr (fault_id f)),
     (''target'', PInt (target f)),
     (''mode'', PInt (mode f)),
     (''start_offset_ns'', PInt (start_offset_ns f)),
     (''duration_ns'', PInt (duration_ns f)),
     (''seed'', PInt (seed f)),
     (''parameters'', PDict (map (\<lambda>(k, i). (k, PInt i)) (parameters f)))]"

record fault_schedule =
  schedule_schema_version :: int
  faults :: "fault_spec list"
  canonical_json :: string
  sha256 :: string

definition earliest_start_offset_ns :: "fault_schedule \<Rightarrow> int option" where
  "earliest_start_offset_ns s =
     (case faults s of [] \<Rightarrow> None | f # _ \<Rightarrow> Some (start_offset_ns f))"

definition fault_schedule_as_dict :: "fault_schedule \<Rightarrow> pydict" where
  "fault_schedule_as_dict s =
    [(''schema_version'', PInt (schedule_schema_version s)),
     (''faults'', PList (map (\<lambda>f. PDict (fault_spec_as_dict f)) (faults s)))]"

section \<open>Validation (\<open>fault_schedule.py\<close>)\<close>

definition MAX_FAULTS :: nat where "MAX_FAULTS = 16"
definition MAX_TIME_NS :: int where "MAX_TIME_NS = 3600000000000"
definition MIN_START_OFFSET_NS :: int where "MIN_START_OFFSET_NS = 500000000"
definition MAX_RATE :: int where "MAX_RATE = 1000000000"
definition UINT64_MAX :: int where "UINT64_MAX = 18446744073709551615"
definition TARGET_SCAN :: int where "TARGET_SCAN = 1"
definition TARGET_ODOM :: int where "TARGET_ODOM = 2"
definition TARGET_IMU :: int where "TARGET_IMU = 3"
definition MODE_PASS_THROUGH :: int where "MODE_PASS_THROUGH = 0"
definition MODE_LIDAR_DROPOUT :: int where "MODE_LIDAR_DROPOUT = 1"
definition MODE_ODOM_DRIFT :: int where "MODE_ODOM_DRIFT = 4"

lemmas schedule_constants =
  MAX_FAULTS_def MAX_TIME_NS_def MIN_START_OFFSET_NS_def MAX_RATE_def UINT64_MAX_def
  TARGET_SCAN_def TARGET_ODOM_def TARGET_IMU_def
  MODE_PASS_THROUGH_def MODE_LIDAR_DROPOUT_def MODE_ODOM_DRIFT_def

text \<open>The two parameter names of an odometry drift.\<close>

definition X_RATE :: string where "X_RATE = ''x_rate_nm_per_s''"
definition YAW_RATE :: string where "YAW_RATE = ''yaw_rate_nrad_per_s''"

datatype fault_schedule_error = FaultScheduleError string

text \<open>\<open>^[A-Za-z0-9][A-Za-z0-9._-]{0,63}$\<close> and \<open>^[0-9a-f]{64}$\<close> under \<open>fullmatch\<close>.\<close>

definition is_alnum :: "char \<Rightarrow> bool" where
  "is_alnum c =
     (CHR ''A'' \<le> c \<and> c \<le> CHR ''Z'' \<or> CHR ''a'' \<le> c \<and> c \<le> CHR ''z''
      \<or> CHR ''0'' \<le> c \<and> c \<le> CHR ''9'')"

definition bounded_identifier :: "nat \<Rightarrow> string \<Rightarrow> bool" where
  "bounded_identifier n s =
     (case s of [] \<Rightarrow> False
      | c # cs \<Rightarrow> is_alnum c \<and> length cs \<le> n
          \<and> list_all (\<lambda>d. is_alnum d \<or> d \<in> set ''._-'') cs)"

definition FAULT_ID_PATTERN :: "string \<Rightarrow> bool" where
  "FAULT_ID_PATTERN = bounded_identifier 63"

definition SHA256_PATTERN :: "string \<Rightarrow> bool" where
  "SHA256_PATTERN s = (length s = 64 \<and> list_all is_lower_hex s)"

definition fs_integer :: "pyval \<Rightarrow> string \<Rightarrow> int \<Rightarrow> int \<Rightarrow> fault_schedule_error + int" where
  "fs_integer v name lo hi =
     (case v of
        PInt i \<Rightarrow>
          if lo \<le> i \<and> i \<le> hi then Inr i
          else Inl (FaultScheduleError
                 (name @ '' must be in ['' @ show_int lo @ '', '' @ show_int hi @ '']''))
      | _ \<Rightarrow> Inl (FaultScheduleError (name @ '' must be an integer'')))"

definition unsupported_pair :: "int \<Rightarrow> int \<Rightarrow> fault_schedule_error" where
  "unsupported_pair t m =
     FaultScheduleError (''unsupported target/mode pair: '' @ show_int t @ ''/'' @ show_int m)"

definition fs_parameters ::
  "int \<Rightarrow> int \<Rightarrow> pyval \<Rightarrow> fault_schedule_error + (string \<times> int) list" where
  "fs_parameters t m v =
     (case v of
        PDict d \<Rightarrow>
          if m = MODE_PASS_THROUGH \<or> m = MODE_LIDAR_DROPOUT then
            (if d \<noteq> [] then Inl (FaultScheduleError
               ''pass-through and LiDAR dropout parameters must be empty'')
             else Inr [])
          else if m = MODE_ODOM_DRIFT \<and> t = TARGET_ODOM then
            (if set (map fst d) \<noteq> {X_RATE, YAW_RATE}
             then Inl (FaultScheduleError ''odometry drift parameters must contain exactly both rates'')
             else
               bindE (fs_integer (dget d X_RATE) X_RATE (- MAX_RATE) MAX_RATE)
               (\<lambda>x_rate.
               bindE (fs_integer (dget d YAW_RATE) YAW_RATE
                        (- MAX_RATE) MAX_RATE)
               (\<lambda>yaw_rate.
               if x_rate = 0 \<and> yaw_rate = 0
               then Inl (FaultScheduleError ''at least one odometry drift rate must be nonzero'')
               else Inr [(X_RATE, x_rate), (YAW_RATE, yaw_rate)])))
          else Inl (unsupported_pair t m)
      | _ \<Rightarrow> Inl (FaultScheduleError ''parameters must be an object''))"

definition valid_pair :: "int \<Rightarrow> int \<Rightarrow> bool" where
  "valid_pair t m =
     (m = MODE_PASS_THROUGH
      \<or> (t = TARGET_SCAN \<and> m = MODE_LIDAR_DROPOUT)
      \<or> (t = TARGET_ODOM \<and> m = MODE_ODOM_DRIFT))"

definition fault_fields :: "string set" where
  "fault_fields =
     {''schema_version'', ''fault_id'', ''target'', ''mode'', ''start_offset_ns'', ''duration_ns'',
      ''seed'', ''parameters''}"

definition fs_fault :: "pyval \<Rightarrow> fault_schedule_error + fault_spec" where
  "fs_fault v =
     (case v of
        PDict d \<Rightarrow>
          bindE (guardE (set (map fst d) = fault_fields)
                  (FaultScheduleError ''fault fields do not match the canonical contract'')) (\<lambda>_.
          bindE (guardE (py_eq (dget d ''schema_version'') (PInt 1))
                  (FaultScheduleError ''fault schema_version must be 1'')) (\<lambda>_.
          bindE (case dget d ''fault_id'' of
                   PStr s \<Rightarrow> if FAULT_ID_PATTERN s then Inr s
                     else Inl (FaultScheduleError ''fault_id does not match the bounded ASCII contract'')
                 | _ \<Rightarrow> Inl (FaultScheduleError ''fault_id does not match the bounded ASCII contract''))
          (\<lambda>fid.
          bindE (fs_integer (dget d ''target'') ''target'' TARGET_SCAN TARGET_IMU) (\<lambda>t.
          bindE (fs_integer (dget d ''mode'') ''mode'' MODE_PASS_THROUGH MODE_ODOM_DRIFT) (\<lambda>m.
          bindE (guardE (valid_pair t m) (unsupported_pair t m)) (\<lambda>_.
          bindE (fs_integer (dget d ''start_offset_ns'') ''start_offset_ns'' 0 MAX_TIME_NS) (\<lambda>start.
          bindE (fs_integer (dget d ''duration_ns'') ''duration_ns'' 1 MAX_TIME_NS) (\<lambda>duration.
          bindE (guardE (\<not> start < MIN_START_OFFSET_NS)
                  (FaultScheduleError ''non-empty fault start_offset_ns must be at least 500000000'')) (\<lambda>_.
          bindE (guardE (\<not> start + duration > MAX_TIME_NS)
                  (FaultScheduleError ''fault interval exceeds the 3600-second horizon'')) (\<lambda>_.
          bindE (fs_integer (dget d ''seed'') ''seed'' 0 UINT64_MAX) (\<lambda>sd.
          bindE (fs_parameters t m (dget d ''parameters'')) (\<lambda>ps.
          Inr \<lparr>spec_schema_version = 1, fault_id = fid, target = t, mode = m,
               start_offset_ns = start, duration_ns = duration, seed = sd, parameters = ps\<rparr>))))))))))))
      | _ \<Rightarrow> Inl (FaultScheduleError ''each fault must be an object''))"

section \<open>Building a schedule\<close>

definition fault_key :: "fault_spec \<Rightarrow> int \<times> int \<times> string" where
  "fault_key f = (start_offset_ns f, target f, fault_id f)"

text \<open>The loop that files each fault under its target and compares it with the last one filed.\<close>

fun check_overlaps ::
  "(int \<Rightarrow> fault_spec list) \<Rightarrow> fault_spec list \<Rightarrow> fault_schedule_error + unit" where
  "check_overlaps by_target [] = Inr ()"
| "check_overlaps by_target (f # fs) =
     (let previous = by_target (target f) in
      if previous \<noteq> []
         \<and> start_offset_ns (last previous) + duration_ns (last previous) > start_offset_ns f
      then Inl (FaultScheduleError ''same-target fault intervals must not overlap'')
      else check_overlaps (by_target(target f := previous @ [f])) fs)"

definition schedule_json :: "fault_spec list \<Rightarrow> string" where
  "schedule_json fs =
     json_dumps (PDict [(''schema_version'', PInt 1),
                        (''faults'', PList (map (\<lambda>f. PDict (fault_spec_as_dict f)) fs))])"

definition check_claim :: "pyval \<Rightarrow> string \<Rightarrow> fault_schedule_error + unit" where
  "check_claim claimed digest =
     (case claimed of
        PNone \<Rightarrow> Inr ()
      | PStr c \<Rightarrow>
          (if \<not> SHA256_PATTERN c
           then Inl (FaultScheduleError ''claimed schedule hash must be lowercase SHA-256'')
           else if c \<noteq> digest
           then Inl (FaultScheduleError
                  (''claimed schedule hash '' @ c @ '' does not match computed '' @ digest))
           else Inr ())
      | _ \<Rightarrow> Inl (FaultScheduleError ''claimed schedule hash must be lowercase SHA-256''))"

definition build_fault_schedule :: "pyval \<Rightarrow> pyval \<Rightarrow> fault_schedule_error + fault_schedule" where
  "build_fault_schedule raw_faults claimed_sha256 =
     (case raw_faults of
        PList raw \<Rightarrow>
          bindE (guardE (\<not> length raw > MAX_FAULTS)
                  (FaultScheduleError (''fault count exceeds '' @ show_int (int MAX_FAULTS)))) (\<lambda>_.
          bindE (traverse fs_fault raw) (\<lambda>specs.
          let fs = sort_key fault_key specs in
          bindE (guardE (distinct (map fault_id fs))
                  (FaultScheduleError ''fault_id values must be unique'')) (\<lambda>_.
          bindE (check_overlaps (\<lambda>_. []) fs) (\<lambda>_.
          let json = schedule_json fs; digest = sha256_hex json in
          bindE (check_claim claimed_sha256 digest) (\<lambda>_.
          Inr \<lparr>schedule_schema_version = 1, faults = fs, canonical_json = json, sha256 = digest\<rparr>)))))
      | _ \<Rightarrow> Inl (FaultScheduleError ''faults must be an array''))"

section \<open>What a valid fault and a built schedule guarantee\<close>

definition params_wf :: "int \<Rightarrow> (string \<times> int) list \<Rightarrow> bool" where
  "params_wf m ps =
     (if m = MODE_ODOM_DRIFT then
        (case ps of
           [(kx, x), (ky, y)] \<Rightarrow>
             kx = X_RATE \<and> ky = YAW_RATE
             \<and> \<bar>x\<bar> \<le> MAX_RATE \<and> \<bar>y\<bar> \<le> MAX_RATE \<and> (x \<noteq> 0 \<or> y \<noteq> 0)
         | _ \<Rightarrow> False)
      else ps = [])"

definition spec_wf :: "fault_spec \<Rightarrow> bool" where
  "spec_wf f \<longleftrightarrow>
     spec_schema_version f = 1 \<and> FAULT_ID_PATTERN (fault_id f)
     \<and> TARGET_SCAN \<le> target f \<and> target f \<le> TARGET_IMU \<and> valid_pair (target f) (mode f)
     \<and> MIN_START_OFFSET_NS \<le> start_offset_ns f \<and> 1 \<le> duration_ns f
     \<and> start_offset_ns f + duration_ns f \<le> MAX_TIME_NS
     \<and> 0 \<le> seed f \<and> seed f \<le> UINT64_MAX \<and> params_wf (mode f) (parameters f)"

text \<open>A later fault of the same target starts no earlier than the former ends.\<close>

definition after_same_target :: "fault_spec \<Rightarrow> fault_spec \<Rightarrow> bool" where
  "after_same_target f g \<longleftrightarrow>
     (target f = target g \<longrightarrow> start_offset_ns f + duration_ns f \<le> start_offset_ns g)"

definition schedule_wf :: "fault_schedule \<Rightarrow> bool" where
  "schedule_wf s \<longleftrightarrow>
     schedule_schema_version s = 1 \<and> length (faults s) \<le> MAX_FAULTS
     \<and> list_all spec_wf (faults s) \<and> sorted (map fault_key (faults s))
     \<and> distinct (map fault_id (faults s)) \<and> sorted_wrt after_same_target (faults s)
     \<and> canonical_json s = schedule_json (faults s) \<and> sha256 s = sha256_hex (canonical_json s)"

definition active_at :: "fault_spec \<Rightarrow> int \<Rightarrow> bool" where
  "active_at f t \<longleftrightarrow> start_offset_ns f \<le> t \<and> t < start_offset_ns f + duration_ns f"

lemma fs_integer_Inr_iff [err_simps]:
  "fs_integer v n lo hi = Inr i \<longleftrightarrow> v = PInt i \<and> lo \<le> i \<and> i \<le> hi"
  by (auto simp: fs_integer_def split: pyval.splits)

lemma valid_pair_cases:
  assumes "valid_pair t m"
  obtains (plain) "m = 0 \<or> m = 1" | (drift) "m = 4" "t = 2"
  using assms by (auto simp: valid_pair_def schedule_constants)

lemma fs_parameters_plain:
  "m = 0 \<or> m = 1 \<Longrightarrow> fs_parameters t m v = Inr ps \<longleftrightarrow> v = PDict [] \<and> ps = []"
  by (cases v) (auto simp: fs_parameters_def schedule_constants)

lemma rate_names_differ [simp]: "X_RATE \<noteq> YAW_RATE" "YAW_RATE \<noteq> X_RATE"
  by (simp_all add: X_RATE_def YAW_RATE_def)

lemma both_rates_Inr_iff:
  "bindE (fs_integer a n1 lo hi) (\<lambda>x. bindE (fs_integer b n2 lo hi) (\<lambda>y.
      if x = 0 \<and> y = 0 then Inl e else Inr (g x y))) = Inr ps \<longleftrightarrow>
   (\<exists>x y. a = PInt x \<and> b = PInt y \<and> lo \<le> x \<and> x \<le> hi \<and> lo \<le> y \<and> y \<le> hi
      \<and> (x \<noteq> 0 \<or> y \<noteq> 0) \<and> ps = g x y)"
  by (auto simp: bindE_Inr_iff fs_integer_Inr_iff)

lemma fs_parameters_drift:
  "fs_parameters 2 4 v = Inr ps \<longleftrightarrow>
     (\<exists>d x y. v = PDict d \<and> set (map fst d) = {X_RATE, YAW_RATE}
        \<and> dget d X_RATE = PInt x \<and> dget d YAW_RATE = PInt y
        \<and> - MAX_RATE \<le> x \<and> x \<le> MAX_RATE \<and> - MAX_RATE \<le> y \<and> y \<le> MAX_RATE \<and> (x \<noteq> 0 \<or> y \<noteq> 0)
        \<and> ps = [(X_RATE, x), (YAW_RATE, y)])"
proof (cases v)
  case (PDict d)
  have modes: "((4::int) = MODE_PASS_THROUGH \<or> (4::int) = MODE_LIDAR_DROPOUT) = False"
    "((4::int) = MODE_ODOM_DRIFT \<and> (2::int) = TARGET_ODOM) = True"
    by (simp_all add: schedule_constants)
  show ?thesis
  proof (cases "set (map fst d) = {X_RATE, YAW_RATE}")
    case True
    show ?thesis
      unfolding fs_parameters_def PDict pyval.case modes if_False if_True both_rates_Inr_iff pyval.inject
      using True by (simp add: both_rates_Inr_iff)
  next
    case False
    then show ?thesis
      unfolding fs_parameters_def PDict pyval.case modes if_False if_True pyval.inject
      by simp
  qed
qed (simp_all add: fs_parameters_def)

lemma params_wf_drift:
  "params_wf 4 ps \<longleftrightarrow>
     (\<exists>x y. ps = [(X_RATE, x), (YAW_RATE, y)]
        \<and> \<bar>x\<bar> \<le> MAX_RATE \<and> \<bar>y\<bar> \<le> MAX_RATE \<and> (x \<noteq> 0 \<or> y \<noteq> 0))"
  by (cases ps; cases "tl ps"; cases "tl (tl ps)") (auto simp: params_wf_def MODE_ODOM_DRIFT_def)

lemma fs_parameters_wf:
  assumes "valid_pair t m" and "fs_parameters t m v = Inr ps"
  shows "params_wf m ps"
  using assms(1)
proof (cases rule: valid_pair_cases)
  case plain
  then show ?thesis using assms(2) by (auto simp: fs_parameters_plain params_wf_def schedule_constants)
next
  case drift
  then obtain x y where "ps = [(X_RATE, x), (YAW_RATE, y)]"
    and "\<bar>x\<bar> \<le> MAX_RATE" "\<bar>y\<bar> \<le> MAX_RATE" "x \<noteq> 0 \<or> y \<noteq> 0"
    using assms(2) unfolding drift fs_parameters_drift abs_le_iff minus_le_iff [of _ MAX_RATE] by blast
  then show ?thesis unfolding drift params_wf_drift by blast
qed

lemma fs_parameters_rebuild:
  assumes "valid_pair t m" and "params_wf m ps"
  shows "fs_parameters t m (PDict (map (\<lambda>(k, i). (k, PInt i)) ps)) = Inr ps"
  using assms(1)
proof (cases rule: valid_pair_cases)
  case plain
  then show ?thesis using assms(2) by (auto simp: fs_parameters_plain params_wf_def schedule_constants)
next
  case drift
  then obtain x y where "ps = [(X_RATE, x), (YAW_RATE, y)]"
    and "\<bar>x\<bar> \<le> MAX_RATE" "\<bar>y\<bar> \<le> MAX_RATE" "x \<noteq> 0 \<or> y \<noteq> 0"
    using assms(2) unfolding drift params_wf_drift by blast
  then show ?thesis unfolding drift fs_parameters_drift by (auto simp: abs_le_iff)
qed

lemma fs_fault_wf: "fs_fault v = Inr f \<Longrightarrow> spec_wf f"
  by (cases v)
     (auto simp: fs_fault_def spec_wf_def bindE_Inr_iff fs_integer_Inr_iff schedule_constants
        fs_parameters_wf split: pyval.splits if_splits)

lemma fault_dict_fields: "set (map fst (fault_spec_as_dict f)) = fault_fields"
  by (simp add: fault_spec_as_dict_def fault_fields_def)

lemma valid_pair_mode: "valid_pair t m \<Longrightarrow> MODE_PASS_THROUGH \<le> m \<and> m \<le> MODE_ODOM_DRIFT"
  by (auto simp: valid_pair_def schedule_constants)

lemma fs_fault_rebuild: "spec_wf f \<Longrightarrow> fs_fault (PDict (fault_spec_as_dict f)) = Inr f"
  unfolding fs_fault_def pyval.case fault_dict_fields
  by (auto simp: spec_wf_def fault_spec_as_dict_def fs_integer_def fs_parameters_rebuild
        dest: valid_pair_mode simp: MIN_START_OFFSET_NS_def)

lemma check_overlaps_iff:
  "sorted (map start_offset_ns fs) \<Longrightarrow>
   check_overlaps bt fs = Inr () \<longleftrightarrow>
     sorted_wrt after_same_target fs \<and>
     (\<forall>f\<in>set fs. bt (target f) \<noteq> [] \<longrightarrow>
        start_offset_ns (last (bt (target f))) + duration_ns (last (bt (target f)))
          \<le> start_offset_ns f)"
proof (induction fs arbitrary: bt)
  case Nil
  then show ?case by simp
next
  case (Cons f fs)
  let ?bt = "bt(target f := bt (target f) @ [f])"
  have later: "start_offset_ns f \<le> start_offset_ns g" if "g \<in> set fs" for g
    using Cons.prems that by simp
  have "sorted (map start_offset_ns fs)" using Cons.prems by simp
  note IH = Cons.IH [OF this, of ?bt]
  have "check_overlaps ?bt fs = Inr () \<longleftrightarrow> sorted_wrt after_same_target fs \<and>
     (\<forall>g\<in>set fs. after_same_target f g) \<and>
     (\<forall>g\<in>set fs. target g \<noteq> target f \<longrightarrow> bt (target g) \<noteq> [] \<longrightarrow>
        start_offset_ns (last (bt (target g))) + duration_ns (last (bt (target g)))
          \<le> start_offset_ns g)"
    unfolding IH by (auto simp: after_same_target_def)
  then have "check_overlaps bt (f # fs) = Inr () \<longleftrightarrow>
     (bt (target f) \<noteq> [] \<longrightarrow> start_offset_ns (last (bt (target f)))
        + duration_ns (last (bt (target f))) \<le> start_offset_ns f) \<and>
     sorted_wrt after_same_target fs \<and> (\<forall>g\<in>set fs. after_same_target f g) \<and>
     (\<forall>g\<in>set fs. target g \<noteq> target f \<longrightarrow> bt (target g) \<noteq> [] \<longrightarrow>
        start_offset_ns (last (bt (target g))) + duration_ns (last (bt (target g)))
          \<le> start_offset_ns g)"
    by (auto simp: Let_def)
  moreover have "start_offset_ns (last (bt (target g))) + duration_ns (last (bt (target g)))
      \<le> start_offset_ns g"
    if "g \<in> set fs" "target g = target f" "start_offset_ns (last (bt (target f)))
        + duration_ns (last (bt (target f))) \<le> start_offset_ns f" for g
    using later [OF that(1)] that(2,3) by simp
  ultimately show ?case by auto
qed

lemma fault_key_start: "fault_key f \<le> fault_key g \<Longrightarrow> start_offset_ns f \<le> start_offset_ns g"
  by (auto simp: fault_key_def less_eq_prod_def)

lemma sorted_key_start: "sorted (map fault_key fs) \<Longrightarrow> sorted (map start_offset_ns fs)"
  unfolding sorted_map by (erule sorted_wrt_mono_rel [rotated]) (auto dest: fault_key_start)

lemma overlaps_rejected_iff:
  "sorted (map fault_key fs) \<Longrightarrow>
   check_overlaps (\<lambda>_. []) fs = Inr () \<longleftrightarrow> sorted_wrt after_same_target fs"
  by (simp add: check_overlaps_iff sorted_key_start)

text \<open>Every outcome that is not an error, in terms of the sorted specifications.\<close>

lemma build_Inr_iff:
  "build_fault_schedule raw c = Inr s \<longleftrightarrow>
     (\<exists>xs specs. raw = PList xs \<and> length xs \<le> MAX_FAULTS \<and> traverse fs_fault xs = Inr specs
        \<and> distinct (map fault_id (sort_key fault_key specs))
        \<and> sorted_wrt after_same_target (sort_key fault_key specs)
        \<and> check_claim c (sha256_hex (schedule_json (sort_key fault_key specs))) = Inr ()
        \<and> s = \<lparr>schedule_schema_version = 1, faults = sort_key fault_key specs,
               canonical_json = schedule_json (sort_key fault_key specs),
               sha256 = sha256_hex (schedule_json (sort_key fault_key specs))\<rparr>)"
  by (cases raw)
     (auto simp: build_fault_schedule_def Let_def bindE_Inr_iff overlaps_rejected_iff)

lemma traverse_Inr_map:
  "traverse f xs = Inr ys \<longleftrightarrow> (\<forall>x\<in>set xs. \<exists>y. f x = Inr y) \<and> ys = map (\<lambda>x. projr (f x)) xs"
  by (induction xs arbitrary: ys) (auto simp: bindE_Inr_iff)

lemma traverse_fs_fault_wf: "traverse fs_fault xs = Inr specs \<Longrightarrow> list_all spec_wf specs"
  by (auto simp: traverse_Inr_map list_all_iff) (metis fs_fault_wf sum.sel(2))

text \<open>Sorting by a key that tells the elements apart forgets the order of the input.\<close>

lemma sort_key_mset_eq:
  assumes "mset xs = mset ys" and "inj_on k (set xs)"
  shows "sort_key k xs = sort_key k ys"
proof -
  have "sort (map k xs) = map k (sort_key k xs)" "sort (map k ys) = map k (sort_key k ys)"
    by (simp_all add: properties_for_sort)
  moreover have "sort (map k xs) = sort (map k ys)"
    using assms(1) by (metis mset_map properties_for_sort mset_sort sorted_sort)
  ultimately have "map k (sort_key k xs) = map k (sort_key k ys)" by simp
  moreover have "set ys = set xs" using assms(1) by (metis set_mset_mset)
  ultimately show ?thesis using assms(2) by (auto dest: map_inj_on)
qed

lemma sort_key_id: "sorted (map k xs) \<Longrightarrow> sort_key k xs = xs"
  by (rule properties_for_sort_key) simp_all

lemma distinct_ids_inj_key: "distinct (map fault_id fs) \<Longrightarrow> inj_on fault_key (set fs)"
  by (auto simp: distinct_map inj_on_def fault_key_def)

lemma claim_of_digest: "check_claim (PStr (sha256_hex j)) (sha256_hex j) = Inr ()"
  by (simp add: check_claim_def SHA256_PATTERN_def sha256_hex_shape)

lemma rebuild_faults:
  assumes "schedule_wf s" and "check_claim c (sha256 s) = Inr ()"
  shows "build_fault_schedule (PList (map (\<lambda>f. PDict (fault_spec_as_dict f)) (faults s))) c = Inr s"
proof -
  have "traverse fs_fault (map (\<lambda>f. PDict (fault_spec_as_dict f)) (faults s)) = Inr (faults s)"
    using assms(1) by (auto simp: traverse_Inr_iff list_all2_conv_all_nth schedule_wf_def list_all_length
        fs_fault_rebuild)
  moreover have "sort_key fault_key (faults s) = faults s"
    using assms(1) by (simp add: schedule_wf_def sort_key_id)
  ultimately show ?thesis using assms by (cases s) (simp add: build_Inr_iff schedule_wf_def)
qed

section \<open>Properties\<close>

text \<open>C1: a schedule that \<open>build_fault_schedule\<close> returns is well formed: at most sixteen faults,
  each within the wire contract, in canonical order, with distinct identifiers, with no two
  intervals of one target overlapping, and identified by the SHA-256 digest of its canonical JSON.\<close>

theorem build_fault_schedule_wf:
  assumes "build_fault_schedule raw c = Inr s"
  shows "schedule_wf s"
proof -
  obtain xs specs where "length xs \<le> MAX_FAULTS" and tr: "traverse fs_fault xs = Inr specs"
    and ids: "distinct (map fault_id (sort_key fault_key specs))"
    and sep: "sorted_wrt after_same_target (sort_key fault_key specs)"
    and s: "s = \<lparr>schedule_schema_version = 1, faults = sort_key fault_key specs,
               canonical_json = schedule_json (sort_key fault_key specs),
               sha256 = sha256_hex (schedule_json (sort_key fault_key specs))\<rparr>"
    using assms unfolding build_Inr_iff by blast
  moreover have "list_all spec_wf (sort_key fault_key specs)"
    using traverse_fs_fault_wf [OF tr] by (simp add: list_all_iff)
  ultimately show ?thesis by (simp add: schedule_wf_def traverse_length [OF tr])
qed

text \<open>C2: the result does not depend on the order in which the raw faults are listed.\<close>

theorem build_fault_schedule_permutation:
  assumes "mset xs = mset ys" and "build_fault_schedule (PList xs) c = Inr s"
  shows "build_fault_schedule (PList ys) c = Inr s"
proof -
  obtain specs where len: "length xs \<le> MAX_FAULTS" and tr: "traverse fs_fault xs = Inr specs"
    and ids: "distinct (map fault_id (sort_key fault_key specs))"
    using assms(2) unfolding build_Inr_iff by blast
  define specs' where "specs' = map (\<lambda>x. projr (fs_fault x)) ys"
  have "set xs = set ys" using assms(1) by (metis set_mset_mset)
  then have tr': "traverse fs_fault ys = Inr specs'"
    using tr by (simp add: traverse_Inr_map specs'_def)
  have "mset specs = mset specs'"
    using tr assms(1) by (simp add: traverse_Inr_map specs'_def)
  moreover have "inj_on fault_key (set specs)" using distinct_ids_inj_key [OF ids] by simp
  ultimately have "sort_key fault_key specs' = sort_key fault_key specs"
    by (metis sort_key_mset_eq)
  moreover have "length ys = length xs" using assms(1) by (metis size_mset)
  ultimately show ?thesis using assms(2) tr tr' len by (auto simp: build_Inr_iff)
qed

text \<open>C3: round trip. Rebuilding a well-formed schedule from the dictionaries of its own faults,
  with its own digest claimed, gives the same schedule; with C1 the well-formed schedules are
  exactly the ones that can be built.\<close>

theorem build_fault_schedule_roundtrip:
  "schedule_wf s \<Longrightarrow>
   build_fault_schedule (PList (map (\<lambda>f. PDict (fault_spec_as_dict f)) (faults s)))
     (PStr (sha256 s)) = Inr s"
  by (rule rebuild_faults) (simp_all add: schedule_wf_def claim_of_digest)

text \<open>C4: at every offset at most one fault of a target is active.\<close>

theorem one_active_fault_per_target:
  assumes "build_fault_schedule raw c = Inr s"
    and "f \<in> set (faults s)" "g \<in> set (faults s)" "target f = target g"
    and "active_at f t" "active_at g t"
  shows "f = g"
proof (rule ccontr)
  assume "f \<noteq> g"
  have "sorted_wrt after_same_target (faults s)"
    using assms(1) unfolding build_Inr_iff by auto
  then have "after_same_target f g \<or> after_same_target g f"
    using assms(2,3) \<open>f \<noteq> g\<close> by (metis in_set_conv_nth linorder_neqE_nat sorted_wrt_nth_less)
  then show False using assms(4-6) by (auto simp: after_same_target_def active_at_def)
qed

text \<open>A claimed hash that is not the digest of the canonical JSON is always rejected.\<close>

theorem wrong_claim_rejected:
  assumes "build_fault_schedule raw PNone = Inr s" and "v \<noteq> PNone" and "v \<noteq> PStr (sha256 s)"
  shows "\<exists>e. build_fault_schedule raw v = Inl e"
proof (cases "build_fault_schedule raw v")
  case (Inr s')
  have "s' = s" using assms(1) Inr unfolding build_Inr_iff by auto
  moreover have "check_claim v (sha256 s') = Inr ()" using Inr unfolding build_Inr_iff by auto
  ultimately show ?thesis using assms(2,3) by (auto simp: check_claim_def split: pyval.splits if_splits)
qed simp

section \<open>Witnesses: the faults of Scenarios 4 and 5\<close>

definition scan_drop_spec :: fault_spec where
  "scan_drop_spec =
     \<lparr>spec_schema_version = 1, fault_id = ''scan_drop'', target = 1, mode = 1,
      start_offset_ns = 10000000000, duration_ns = 2000000000, seed = 42, parameters = []\<rparr>"

definition odom_drift_spec :: fault_spec where
  "odom_drift_spec =
     \<lparr>spec_schema_version = 1, fault_id = ''odom_drift'', target = 2, mode = 4,
      start_offset_ns = 10000000000, duration_ns = 20000000000, seed = 42,
      parameters = [(X_RATE, 10000000), (YAW_RATE, 5000000)]\<rparr>"

definition example_schedule :: fault_schedule where
  "example_schedule =
     (let fs = [scan_drop_spec, odom_drift_spec] in
      \<lparr>schedule_schema_version = 1, faults = fs, canonical_json = schedule_json fs,
       sha256 = sha256_hex (schedule_json fs)\<rparr>)"

lemma example_specs_wf: "spec_wf scan_drop_spec" "spec_wf odom_drift_spec"
proof -
  have "FAULT_ID_PATTERN ''scan_drop''" "FAULT_ID_PATTERN ''odom_drift''" by code_simp+
  then show "spec_wf scan_drop_spec" "spec_wf odom_drift_spec"
    by (simp_all add: spec_wf_def scan_drop_spec_def odom_drift_spec_def valid_pair_def params_wf_def
          schedule_constants)
qed

lemma example_schedule_wf: "schedule_wf example_schedule"
proof -
  have "fault_key scan_drop_spec \<le> fault_key odom_drift_spec"
    by (simp add: fault_key_def scan_drop_spec_def odom_drift_spec_def less_eq_prod_def)
  moreover have "fault_id scan_drop_spec \<noteq> fault_id odom_drift_spec"
    by (simp add: scan_drop_spec_def odom_drift_spec_def)
  moreover have "after_same_target scan_drop_spec odom_drift_spec"
    by (simp add: after_same_target_def scan_drop_spec_def odom_drift_spec_def)
  ultimately show ?thesis
    by (simp add: schedule_wf_def example_schedule_def Let_def example_specs_wf MAX_FAULTS_def)
qed

lemma example_build:
  "build_fault_schedule
     (PList [PDict (fault_spec_as_dict scan_drop_spec), PDict (fault_spec_as_dict odom_drift_spec)])
     PNone = Inr example_schedule"
  using rebuild_faults [OF example_schedule_wf, of PNone]
  by (simp add: check_claim_def example_schedule_def Let_def)

theorem build_fault_schedule_wf_witness: "schedule_wf example_schedule"
  by (rule build_fault_schedule_wf [OF example_build])

theorem build_fault_schedule_permutation_witness:
  "build_fault_schedule
     (PList [PDict (fault_spec_as_dict odom_drift_spec), PDict (fault_spec_as_dict scan_drop_spec)])
     PNone = Inr example_schedule"
  by (rule build_fault_schedule_permutation [OF _ example_build]) simp

theorem build_fault_schedule_roundtrip_witness:
  "build_fault_schedule (PList (map (\<lambda>f. PDict (fault_spec_as_dict f)) (faults example_schedule)))
     (PStr (sha256 example_schedule)) = Inr example_schedule"
  by (rule build_fault_schedule_roundtrip [OF example_schedule_wf])

theorem one_active_fault_per_target_witness:
  "active_at scan_drop_spec 11000000000 \<and> scan_drop_spec = scan_drop_spec"
proof -
  have a: "active_at scan_drop_spec 11000000000" by (simp add: active_at_def scan_drop_spec_def)
  have "scan_drop_spec \<in> set (faults example_schedule)" by (simp add: example_schedule_def Let_def)
  from one_active_fault_per_target [OF example_build this this refl a a] a show ?thesis by simp
qed

theorem wrong_claim_rejected_witness:
  "\<exists>e. build_fault_schedule
     (PList [PDict (fault_spec_as_dict scan_drop_spec), PDict (fault_spec_as_dict odom_drift_spec)])
     (PStr ''0000'') = Inl e"
proof (rule wrong_claim_rejected [OF example_build])
  have "length (sha256 example_schedule) = 64"
    by (simp add: example_schedule_def Let_def sha256_hex_shape)
  then show "PStr ''0000'' \<noteq> PStr (sha256 example_schedule)" by (auto dest: arg_cong [where f = length])
qed simp

end
