(* ===== verification/Mission_Models.thy ===== *)
theory Mission_Models
  imports Fault_Schedule
begin

text \<open>
  The immutable mission input (\<open>robotest_missions/models.py\<close>, \<open>PlanarPose\<close> and \<open>MissionConfig\<close>). The mission
  loader (\<open>schema.py\<close>), YAML parsing and the JSON Schema validator are not modelled.
\<close>

section \<open>Models\<close>

record planar_pose =
  pose_x :: pyfloat
  pose_y :: pyfloat
  pose_yaw :: pyfloat

definition planar_pose_as_dict :: "planar_pose \<Rightarrow> pydict" where
  "planar_pose_as_dict p =
    [(''x'', PFloat (pose_x p)), (''y'', PFloat (pose_y p)), (''yaw'', PFloat (pose_yaw p))]"

record mission_config =
  config_schema_version :: int
  mission_name :: string
  mission_seed :: int
  simulator_seed :: int
  frame_id :: string
  start_pose :: planar_pose
  waypoints :: "planar_pose list"
  mission_timeout_sim_s :: pyfloat
  wall_escape_timeout_s :: pyfloat
  allowed_collision_count :: int
  config_fault_schedule :: "fault_schedule option"
  fault_seed :: "int option"
  expected_outcome :: string
  retries :: int
  scenario_id :: "int option"
  scenario_controller_seed :: "int option"
  scenario_contract :: "pydict option"

definition is_phase3 :: "mission_config \<Rightarrow> bool" where
  "is_phase3 c = (scenario_id c \<noteq> None)"

definition py_opt :: "('a \<Rightarrow> pyval) \<Rightarrow> 'a option \<Rightarrow> pyval" where
  "py_opt f x = (case x of None \<Rightarrow> PNone | Some a \<Rightarrow> f a)"

definition mission_config_as_dict :: "mission_config \<Rightarrow> pydict" where
  "mission_config_as_dict c =
    [(''schema_version'', PInt (config_schema_version c)),
     (''mission_name'', PStr (mission_name c)),
     (''mission_seed'', PInt (mission_seed c)),
     (''simulator_seed'', PInt (simulator_seed c)),
     (''frame_id'', PStr (frame_id c)),
     (''start_pose'', PDict (planar_pose_as_dict (start_pose c))),
     (''waypoints'', PList (map (\<lambda>p. PDict (planar_pose_as_dict p)) (waypoints c))),
     (''mission_timeout_sim_s'', PFloat (mission_timeout_sim_s c)),
     (''wall_escape_timeout_s'', PFloat (wall_escape_timeout_s c)),
     (''allowed_collision_count'', PInt (allowed_collision_count c)),
     (''fault_schedule'', py_opt (\<lambda>s. PDict (fault_schedule_as_dict s)) (config_fault_schedule c)),
     (''fault_seed'', py_opt PInt (fault_seed c)),
     (''expected_outcome'', PStr (expected_outcome c)),
     (''retries'', PInt (retries c)),
     (''scenario_id'', py_opt PInt (scenario_id c)),
     (''scenario_controller_seed'', py_opt PInt (scenario_controller_seed c)),
     (''scenario_contract'', py_opt PDict (scenario_contract c))]"

section \<open>Time predicates (\<open>execution.py\<close>)\<close>

definition is_positive_time_ns :: "pyval \<Rightarrow> bool" where
  "is_positive_time_ns v = (case v of PInt i \<Rightarrow> 0 < i | _ \<Rightarrow> False)"

definition is_nonnegative_time_ns :: "pyval \<Rightarrow> bool" where
  "is_nonnegative_time_ns v = (case v of PInt i \<Rightarrow> 0 \<le> i | _ \<Rightarrow> False)"

definition is_positive_uint64 :: "pyval \<Rightarrow> bool" where
  "is_positive_uint64 v = (case v of PInt i \<Rightarrow> 0 < i \<and> i \<le> 18446744073709551615 | _ \<Rightarrow> False)"

lemma is_positive_time_opt [simp]:
  "is_positive_time_ns (py_opt PInt x) \<longleftrightarrow> (\<exists>i. x = Some i \<and> 0 < i)"
  "is_nonnegative_time_ns (py_opt PInt x) \<longleftrightarrow> (\<exists>i. x = Some i \<and> 0 \<le> i)"
  "is_positive_uint64 (py_opt PInt x) \<longleftrightarrow> (\<exists>i. x = Some i \<and> 0 < i \<and> i \<le> 18446744073709551615)"
  by (cases x; simp add: is_positive_time_ns_def is_nonnegative_time_ns_def is_positive_uint64_def
        py_opt_def)+

lemma is_positive_time_int [simp]:
  "is_positive_time_ns (PInt i) \<longleftrightarrow> 0 < i" "is_nonnegative_time_ns (PInt i) \<longleftrightarrow> 0 \<le> i"
  "is_positive_uint64 (PInt i) \<longleftrightarrow> 0 < i \<and> i \<le> 18446744073709551615"
  by (simp_all add: is_positive_time_ns_def is_nonnegative_time_ns_def is_positive_uint64_def)

end
