(* ===== verification/Exec_Monad.thy ===== *)
theory Exec_Monad
  imports Py_Prelude
begin

text \<open>
  Stateful code that may raise and may not return. An action maps a state to \<open>None\<close> when it never
  returns, and otherwise to the exception or value it ends with and the state it leaves. \<open>loopX\<close> is
  the only loop: its body says whether to go round again, so \<open>while\<close> loops of the sources become
  bodies. Two judgements are used on actions: \<open>hoare\<close>, partial correctness with a postcondition
  for values and one for exceptions, and \<open>returns\<close>, that the action returns and does not set a
  clock back.
\<close>

type_synonym ('s, 'e, 'a) act = "'s \<Rightarrow> (('e + 'a) \<times> 's) option"

named_theorems hoare_rules
named_theorems returns_rules

section \<open>Actions\<close>

definition retX :: "'a \<Rightarrow> ('s, 'e, 'a) act" where
  "retX a s = Some (Inr a, s)"

definition raiseX :: "'e \<Rightarrow> ('s, 'e, 'a) act" where
  "raiseX e s = Some (Inl e, s)"

definition bindX :: "('s, 'e, 'a) act \<Rightarrow> ('a \<Rightarrow> ('s, 'e, 'b) act) \<Rightarrow> ('s, 'e, 'b) act" where
  "bindX m k s = Option.bind (m s) (\<lambda>p. case fst p of Inl e \<Rightarrow> Some (Inl e, snd p) | Inr a \<Rightarrow> k a (snd p))"

definition thenX :: "('s, 'e, unit) act \<Rightarrow> ('s, 'e, 'b) act \<Rightarrow> ('s, 'e, 'b) act" where
  "thenX m n = bindX m (\<lambda>_. n)"

definition catchX :: "('s, 'e, 'a) act \<Rightarrow> ('e \<Rightarrow> ('s, 'e, 'a) act) \<Rightarrow> ('s, 'e, 'a) act" where
  "catchX m h s = Option.bind (m s) (\<lambda>p. case fst p of Inl e \<Rightarrow> h e (snd p) | Inr a \<Rightarrow> Some (Inr a, snd p))"

definition getX :: "('s \<Rightarrow> 'a) \<Rightarrow> ('s, 'e, 'a) act" where
  "getX f s = Some (Inr (f s), s)"

definition modX :: "('s \<Rightarrow> 's) \<Rightarrow> ('s, 'e, unit) act" where
  "modX f s = Some (Inr (), f s)"

definition liftX :: "('s \<Rightarrow> ('e + 'a) \<times> 's) \<Rightarrow> ('s, 'e, 'a) act" where
  "liftX f s = Some (f s)"

text \<open>\<open>if cond: raise e\<close>\<close>

definition raise_if :: "bool \<Rightarrow> 'e \<Rightarrow> ('s, 'e, unit) act" where
  "raise_if b e = (if b then raiseX e else retX ())"

lemma bindX_mono [partial_function_mono]:
  assumes "mono_option (\<lambda>f. m f s)" and "\<And>a s'. mono_option (\<lambda>f. k f a s')"
  shows "mono_option (\<lambda>f. bindX (m f) (k f) s)"
  unfolding bindX_def
proof (rule bind_mono)
  show "mono_option (\<lambda>f. m f s)" by (rule assms(1))
  show "mono_option (\<lambda>f. case fst p of Inl e \<Rightarrow> Some (Inl e, snd p) | Inr a \<Rightarrow> k f a (snd p))" for p
    using assms(2) by (cases "fst p") (simp_all add: monotone_def flat_ord_def)
qed

partial_function (option) loopX :: "('l \<Rightarrow> ('s, 'e, 'l + 'v) act) \<Rightarrow> 'l \<Rightarrow> ('s, 'e, 'v) act" where
  "loopX body l s =
     bindX (body l) (\<lambda>r s'. case r of Inl l' \<Rightarrow> loopX body l' s' | Inr v \<Rightarrow> Some (Inr v, s')) s"

declare loopX.simps [code]

lemma act_simps [simp]:
  "retX a s = Some (Inr a, s)"
  "raiseX e s = Some (Inl e, s)"
  "getX g s = Some (Inr (g s), s)"
  "modX h s = Some (Inr (), h s)"
  "liftX q s = Some (q s)"
  by (simp_all add: retX_def raiseX_def getX_def modX_def liftX_def)

section \<open>Partial correctness\<close>

definition hoare ::
  "('s \<Rightarrow> bool) \<Rightarrow> ('s, 'e, 'a) act \<Rightarrow> ('a \<Rightarrow> 's \<Rightarrow> bool) \<Rightarrow> ('e \<Rightarrow> 's \<Rightarrow> bool) \<Rightarrow> bool" where
  "hoare P m Q R \<longleftrightarrow>
     (\<forall>s r s'. P s \<longrightarrow> m s = Some (r, s') \<longrightarrow> (case r of Inl e \<Rightarrow> R e s' | Inr a \<Rightarrow> Q a s'))"

abbreviation keeps :: "('s \<Rightarrow> bool) \<Rightarrow> ('s, 'e, 'a) act \<Rightarrow> bool" where
  "keeps P m \<equiv> hoare P m (\<lambda>_. P) (\<lambda>_. P)"

lemma hoare_value: "hoare P m Q R \<Longrightarrow> P s \<Longrightarrow> m s = Some (Inr a, s') \<Longrightarrow> Q a s'"
  by (fastforce simp: hoare_def)

lemma hoare_exn: "hoare P m Q R \<Longrightarrow> P s \<Longrightarrow> m s = Some (Inl e, s') \<Longrightarrow> R e s'"
  by (fastforce simp: hoare_def)

lemma hoare_weaken:
  assumes "hoare P' m Q' R'" "\<And>s. P s \<Longrightarrow> P' s" "\<And>a s. Q' a s \<Longrightarrow> Q a s" "\<And>e s. R' e s \<Longrightarrow> R e s"
  shows "hoare P m Q R"
  using assms unfolding hoare_def by (auto split: sum.splits) (metis sum.simps(5,6))+

lemma hoare_pre: "hoare P' m Q R \<Longrightarrow> (\<And>s. P s \<Longrightarrow> P' s) \<Longrightarrow> hoare P m Q R"
  by (rule hoare_weaken)

lemma hoare_conj:
  "hoare P m Q R \<Longrightarrow> hoare P' m Q' R' \<Longrightarrow>
     hoare (\<lambda>s. P s \<and> P' s) m (\<lambda>a s. Q a s \<and> Q' a s) (\<lambda>e s. R e s \<and> R' e s)"
  unfolding hoare_def by (auto split: sum.splits)

lemma hoare_pre_fact: "(c \<Longrightarrow> hoare P m Q R) \<Longrightarrow> hoare (\<lambda>s. c \<and> P s) m Q R"
  by (auto simp: hoare_def)

lemma hoare_ret [hoare_rules]: "(\<And>s. P s \<Longrightarrow> Q a s) \<Longrightarrow> hoare P (retX a) Q R"
  by (simp add: hoare_def)

lemma hoare_raise [hoare_rules]: "(\<And>s. P s \<Longrightarrow> R e s) \<Longrightarrow> hoare P (raiseX e) Q R"
  by (simp add: hoare_def)

lemma hoare_mod [hoare_rules]: "(\<And>s. P s \<Longrightarrow> Q () (f s)) \<Longrightarrow> hoare P (modX f) Q R"
  by (simp add: hoare_def)

lemma hoare_get: "(\<And>s. P s \<Longrightarrow> Q (f s) s) \<Longrightarrow> hoare P (getX f) Q R"
  by (simp add: hoare_def)

lemma hoare_raise_if: "(\<And>s. P s \<Longrightarrow> if b then R e s else Q () s) \<Longrightarrow> hoare P (raise_if b e) Q R"
  by (simp add: hoare_def raise_if_def)

lemma bindX_cases:
  assumes "bindX m k s = Some (r, s')"
  obtains e where "m s = Some (Inl e, s')" "r = Inl e"
    | a s1 where "m s = Some (Inr a, s1)" "k a s1 = Some (r, s')"
proof (cases "m s")
  case None
  then show ?thesis using assms by (simp add: bindX_def)
next
  case (Some p)
  obtain r1 s1 where p: "p = (r1, s1)" by (cases p)
  show ?thesis using assms Some p that by (cases r1) (auto simp: bindX_def)
qed

lemma catchX_cases:
  assumes "catchX m h s = Some (r, s')"
  obtains a where "m s = Some (Inr a, s')" "r = Inr a"
    | e s1 where "m s = Some (Inl e, s1)" "h e s1 = Some (r, s')"
proof (cases "m s")
  case None
  then show ?thesis using assms by (simp add: catchX_def)
next
  case (Some p)
  obtain r1 s1 where p: "p = (r1, s1)" by (cases p)
  show ?thesis using assms Some p that by (cases r1) (auto simp: catchX_def)
qed

lemma hoare_bind:
  assumes "hoare P m Q R" and "\<And>a. hoare (Q a) (k a) Q' R"
  shows "hoare P (bindX m k) Q' R"
  unfolding hoare_def
proof (intro allI impI)
  fix s r s' assume p: "P s" and r: "bindX m k s = Some (r, s')"
  from r show "case r of Inl e \<Rightarrow> R e s' | Inr a \<Rightarrow> Q' a s'"
  proof (cases rule: bindX_cases)
    case (1 e)
    then show ?thesis using hoare_exn [OF assms(1) p] by simp
  next
    case (2 a s1)
    then have "Q a s1" using hoare_value [OF assms(1) p] by simp
    with 2 assms(2) [of a] show ?thesis by (simp add: hoare_def)
  qed
qed

lemma hoare_if: "hoare P m Q R \<Longrightarrow> hoare P n Q R \<Longrightarrow> hoare P (if c then m else n) Q R"
  by simp

lemma hoare_option:
  "(x = None \<Longrightarrow> hoare P m Q R) \<Longrightarrow> (\<And>a. x = Some a \<Longrightarrow> hoare P (k a) Q R)
    \<Longrightarrow> hoare P (case x of None \<Rightarrow> m | Some a \<Rightarrow> k a) Q R"
  by (cases x) simp_all

lemma hoare_ex: "(\<And>k. hoare (P k) m Q R) \<Longrightarrow> hoare (\<lambda>s. \<exists>k. P k s) m Q R"
  by (fastforce simp: hoare_def)

lemma hoare_if_cases:
  "(c \<Longrightarrow> hoare P m Q R) \<Longrightarrow> (\<not> c \<Longrightarrow> hoare P n Q R) \<Longrightarrow> hoare P (if c then m else n) Q R"
  by simp

lemma hoare_then: "hoare P m (\<lambda>_. Q) R \<Longrightarrow> hoare Q n Q' R \<Longrightarrow> hoare P (thenX m n) Q' R"
  unfolding thenX_def by (rule hoare_bind)

lemma hoare_catch:
  assumes "hoare P m Q R" and "\<And>e. hoare (R e) (h e) Q R'"
  shows "hoare P (catchX m h) Q R'"
  unfolding hoare_def
proof (intro allI impI)
  fix s r s' assume p: "P s" and r: "catchX m h s = Some (r, s')"
  from r show "case r of Inl e \<Rightarrow> R' e s' | Inr a \<Rightarrow> Q a s'"
  proof (cases rule: catchX_cases)
    case (1 a)
    then show ?thesis using hoare_value [OF assms(1) p] by simp
  next
    case (2 e s1)
    then have "R e s1" using hoare_exn [OF assms(1) p] by simp
    with 2 assms(2) [of e] show ?thesis by (simp add: hoare_def)
  qed
qed

fun outcome :: "('a \<Rightarrow> 's \<Rightarrow> bool) \<Rightarrow> ('e \<Rightarrow> 's \<Rightarrow> bool) \<Rightarrow> ('e + 'a) \<times> 's \<Rightarrow> bool" where
  "outcome Q R (Inl e, s) = R e s"
| "outcome Q R (Inr a, s) = Q a s"

lemma hoare_outcome: "hoare P m Q R \<longleftrightarrow> (\<forall>s p. P s \<longrightarrow> m s = Some p \<longrightarrow> outcome Q R p)"
proof -
  have "outcome Q R (r, s) = (case r of Inl e \<Rightarrow> R e s | Inr a \<Rightarrow> Q a s)" for r s by (cases r) simp_all
  then show ?thesis by (simp add: hoare_def split_paired_all)
qed

lemma hoare_loop:
  assumes "\<And>l. hoare (I l) (body l) (\<lambda>r s. case r of Inl l' \<Rightarrow> I l' s | Inr v \<Rightarrow> Q v s) R"
  shows "hoare (I l) (loopX body l) Q R"
proof -
  have "b = body \<longrightarrow> I l s \<longrightarrow> outcome Q R p" if "loopX b l s = Some p" for b l s p
    using _ that
  proof (rule loopX.raw_induct [where P = "\<lambda>b l s p. b = body \<longrightarrow> I l s \<longrightarrow> outcome Q R p"])
    fix loop b l s p
    assume IH: "\<And>b l s p. loop b l s = Some p \<Longrightarrow> b = body \<longrightarrow> I l s \<longrightarrow> outcome Q R p"
      and run: "bindX (b l) (\<lambda>r s'. case r of Inl l' \<Rightarrow> loop b l' s' | Inr v \<Rightarrow> Some (Inr v, s')) s = Some p"
    show "b = body \<longrightarrow> I l s \<longrightarrow> outcome Q R p"
    proof (intro impI)
      assume b: "b = body" and i: "I l s"
      have "hoare (I l) (bindX (body l) (\<lambda>r s'. case r of Inl l' \<Rightarrow> loop body l' s' | Inr v \<Rightarrow> Some (Inr v, s'))) Q R"
      proof (rule hoare_bind [OF assms])
        fix r
        show "hoare (\<lambda>s. case r of Inl l' \<Rightarrow> I l' s | Inr v \<Rightarrow> Q v s)
          (\<lambda>s'. case r of Inl l' \<Rightarrow> loop body l' s' | Inr v \<Rightarrow> Some (Inr v, s')) Q R"
          using IH [of body] by (cases r) (auto simp: hoare_outcome)
      qed
      then show "outcome Q R p" using run i unfolding b hoare_outcome by blast
    qed
  qed
  then show ?thesis by (simp add: hoare_outcome)
qed

lemmas keeps_rules = hoare_ret hoare_raise hoare_bind hoare_then hoare_catch

section \<open>Returning\<close>

text \<open>\<open>T\<close> reads an elapsed time off the state; every action keeps it or lets it grow.\<close>

definition returns :: "('s \<Rightarrow> nat) \<Rightarrow> ('s, 'e, 'a) act \<Rightarrow> bool" where
  "returns T m \<longleftrightarrow> (\<forall>s. \<exists>r s'. m s = Some (r, s') \<and> T s \<le> T s')"

lemma returns_ret [returns_rules]: "returns T (retX a)"
  and returns_raise [returns_rules]: "returns T (raiseX e)"
  and returns_get [returns_rules]: "returns T (getX g)"
  and returns_raise_if [returns_rules]: "returns T (raise_if b e)"
  by (simp_all add: returns_def raise_if_def)

lemma returns_mod [returns_rules]: "(\<And>s. T s \<le> T (f s)) \<Longrightarrow> returns T (modX f)"
  by (simp add: returns_def)

lemma returns_bind [returns_rules]:
  assumes "returns T m" and "\<And>a. returns T (k a)"
  shows "returns T (bindX m k)"
  unfolding returns_def
proof
  fix s
  obtain r s1 where m: "m s = Some (r, s1)" "T s \<le> T s1" using assms(1) unfolding returns_def by blast
  show "\<exists>r s'. bindX m k s = Some (r, s') \<and> T s \<le> T s'"
  proof (cases r)
    case (Inl e)
    then show ?thesis using m by (simp add: bindX_def)
  next
    case (Inr a)
    obtain r2 s2 where "k a s1 = Some (r2, s2)" "T s1 \<le> T s2"
      using assms(2) [of a] unfolding returns_def by blast
    then show ?thesis using m Inr by (auto simp: bindX_def)
  qed
qed

lemma returns_then [returns_rules]: "returns T m \<Longrightarrow> returns T n \<Longrightarrow> returns T (thenX m n)"
  unfolding thenX_def by (rule returns_bind)

lemma returns_catch [returns_rules]:
  assumes "returns T m" and "\<And>e. returns T (h e)"
  shows "returns T (catchX m h)"
  unfolding returns_def
proof
  fix s
  obtain r s1 where m: "m s = Some (r, s1)" "T s \<le> T s1" using assms(1) unfolding returns_def by blast
  show "\<exists>r s'. catchX m h s = Some (r, s') \<and> T s \<le> T s'"
  proof (cases r)
    case (Inr a)
    then show ?thesis using m by (simp add: catchX_def)
  next
    case (Inl e)
    obtain r2 s2 where "h e s1 = Some (r2, s2)" "T s1 \<le> T s2"
      using assms(2) [of e] unfolding returns_def by blast
    then show ?thesis using m Inl by (auto simp: catchX_def)
  qed
qed

lemma returns_loop:
  assumes "\<And>l s. \<exists>r s'. body l s = Some (r, s') \<and> T s \<le> T s'
      \<and> (\<forall>l'. r = Inr (Inl l') \<longrightarrow> T s < T s' \<and> T s < B)"
  shows "returns T (loopX body l)"
  unfolding returns_def
proof
  fix s
  show "\<exists>r s'. loopX body l s = Some (r, s') \<and> T s \<le> T s'"
  proof (induction "B - T s" arbitrary: l s rule: less_induct)
    case less
    obtain r s1 where b: "body l s = Some (r, s1)" "T s \<le> T s1"
      "\<And>l'. r = Inr (Inl l') \<Longrightarrow> T s < T s1 \<and> T s < B"
      using assms [of l s] by blast
    show ?case
    proof (cases "\<exists>l'. r = Inr (Inl l')")
      case True
      then obtain l' where r: "r = Inr (Inl l')" by blast
      then have "B - T s1 < B - T s" using b(3) by auto
      from less [OF this, of l'] obtain r2 s2 where "loopX body l' s1 = Some (r2, s2)" "T s1 \<le> T s2"
        by blast
      then show ?thesis using b r by (subst loopX.simps) (auto simp: bindX_def)
    next
      case False
      then show ?thesis using b by (subst loopX.simps) (auto simp: bindX_def split: sum.splits)
    qed
  qed
qed

end
