(* ===== verification/Mission_Execution.thy ===== *)
theory Mission_Execution
  imports Mission_Models Exec_Monad
begin

text \<open>
  The bounded mission state machine (\<open>robotest_missions/execution.py\<close>): \<open>ExecutionRecord\<close> and
  \<open>MissionExecutor\<close>, operation by operation. The two drivers, the clock, the ROS executor spin and
  the liveness test are the protocols of that file: they are functions on an abstract world \<open>'w\<close>,
  collected in a record \<open>'w mission_env\<close>, and every call may change the world. A spin hands over the
  feedback observations it delivered and the exception it raised, if any. The executor's own state is
  \<open>xst\<close>: the world, the execution record, the last fault event sequence and the local flag
  \<open>accepted_goal_active\<close> of \<open>_run_once\<close>.
\<close>

section \<open>Constants and data\<close>

definition ACTION_SERVER_WAIT_WALL_S :: pyfloat where "ACTION_SERVER_WAIT_WALL_S = Fin 30"
definition SIM_TIME_READY_WAIT_WALL_S :: pyfloat where "SIM_TIME_READY_WAIT_WALL_S = Fin 30"
definition GOAL_RESPONSE_TIMEOUT_WALL_S :: pyfloat where "GOAL_RESPONSE_TIMEOUT_WALL_S = Fin 10"
definition ACCEPTED_STATUS_TIMEOUT_WALL_S :: pyfloat where "ACCEPTED_STATUS_TIMEOUT_WALL_S = Fin 10"
definition CANCEL_ACK_TIMEOUT_WALL_S :: pyfloat where "CANCEL_ACK_TIMEOUT_WALL_S = Fin 5"
definition CANCEL_RESULT_TIMEOUT_WALL_S :: pyfloat where "CANCEL_RESULT_TIMEOUT_WALL_S = Fin 10"
definition FEEDBACK_TRACE_CAPACITY :: nat where "FEEDBACK_TRACE_CAPACITY = 4096"
definition MISSION_EVENT_TRACE_CAPACITY :: nat where "MISSION_EVENT_TRACE_CAPACITY = 1024"
definition FAULT_EVENT_TRACE_CAPACITY :: nat where "FAULT_EVENT_TRACE_CAPACITY = 512"
definition FAULT_SERVICE_WAIT_WALL_S :: pyfloat where "FAULT_SERVICE_WAIT_WALL_S = Fin 20"
definition FAULT_RESPONSE_TIMEOUT_WALL_S :: pyfloat where "FAULT_RESPONSE_TIMEOUT_WALL_S = Fin 10"
definition FAULT_EVENT_TIMEOUT_WALL_S :: pyfloat where "FAULT_EVENT_TIMEOUT_WALL_S = Fin 5"
definition MIN_ARM_MARGIN_NS :: int where "MIN_ARM_MARGIN_NS = 500000000"
definition SPIN_POLL_WALL_S :: pyfloat where "SPIN_POLL_WALL_S = fl (5 / 100)"
definition NAV2_ERROR_NONE :: int where "NAV2_ERROR_NONE = 0"
definition ACCEPTED_GOAL_STAMP_SOURCE :: string where
  "ACCEPTED_GOAL_STAMP_SOURCE = ''uuid_matched_action_status_goal_info''"

datatype exit_code_t =
    SUCCESS | VALIDATION_ERROR | INFRASTRUCTURE_ERROR | GOAL_REJECTED | GOAL_ABORTED
  | GOAL_CANCELED | TIMEOUT | ARTIFACT_ERROR

fun exit_value :: "exit_code_t \<Rightarrow> int" where
  "exit_value SUCCESS = 0"
| "exit_value VALIDATION_ERROR = 10"
| "exit_value INFRASTRUCTURE_ERROR = 20"
| "exit_value GOAL_REJECTED = 21"
| "exit_value GOAL_ABORTED = 22"
| "exit_value GOAL_CANCELED = 23"
| "exit_value TIMEOUT = 24"
| "exit_value ARTIFACT_ERROR = 25"

definition GOAL_STATUS_SUCCEEDED :: int where "GOAL_STATUS_SUCCEEDED = 4"
definition GOAL_STATUS_CANCELED :: int where "GOAL_STATUS_CANCELED = 5"
definition GOAL_STATUS_ABORTED :: int where "GOAL_STATUS_ABORTED = 6"

definition GOAL_STATUS_NAMES :: "(int \<times> string) list" where
  "GOAL_STATUS_NAMES = [(0, ''UNKNOWN''), (1, ''ACCEPTED''), (2, ''EXECUTING''), (3, ''CANCELING''),
     (4, ''SUCCEEDED''), (5, ''CANCELED''), (6, ''ABORTED'')]"

definition goal_status_name :: "int \<Rightarrow> string" where
  "goal_status_name code = (case map_of GOAL_STATUS_NAMES code of None \<Rightarrow> ''INVALID'' | Some n \<Rightarrow> n)"

text \<open>\<open>FeedbackTraceOverflowError\<close> and \<open>FaultProtocolError\<close> are subclasses of
  \<open>ActionProtocolError\<close>; \<open>OtherError\<close> stands for any other \<open>Exception\<close>.\<close>

datatype exn =
    FeedbackTraceOverflowError string | FaultProtocolError string | ActionProtocolError string
  | OtherError string

fun exn_text :: "exn \<Rightarrow> string" where
  "exn_text (FeedbackTraceOverflowError m) = m"
| "exn_text (FaultProtocolError m) = m"
| "exn_text (ActionProtocolError m) = m"
| "exn_text (OtherError m) = m"

record goal_response =
  gr_accepted :: bool
  gr_goal_uuid :: "string option"
  gr_response_stamp_ns :: "int option"

record missed_waypoint =
  mw_index :: int
  mw_error_code :: int
  mw_goal :: pydict

definition missed_waypoint_as_dict :: "missed_waypoint \<Rightarrow> pydict" where
  "missed_waypoint_as_dict m =
    [(''index'', PInt (mw_index m)), (''error_code'', PInt (mw_error_code m)), (''goal'', PDict (mw_goal m))]"

record terminal_action_result =
  status_code :: int
  error_code :: int
  error_message :: string
  missed_waypoints :: "missed_waypoint list"

record reset_response =
  rr_success :: bool
  rr_message :: string

record preload_response =
  pr_accepted :: bool
  pr_replayed :: bool
  pr_state :: int
  pr_schedule_hash :: string
  pr_loaded_count :: int
  pr_generation :: int
  pr_message :: string

record arm_response =
  ar_accepted :: bool
  ar_replayed :: bool
  ar_state :: int
  ar_schedule_hash :: string
  ar_generation :: int
  ar_goal_uuid :: string
  ar_accepted_goal_stamp_ns :: int
  ar_arm_commit_stamp_ns :: int
  ar_arm_margin_ns :: int
  ar_message :: string

section \<open>Protocols\<close>

type_synonym ('w, 'a) wop = "'w \<Rightarrow> (exn + 'a) \<times> 'w"

record 'w follow_waypoints_driver =
  driver_action_name :: string
  driver_resolved_action_name :: string
  server_is_ready :: "('w, bool) wop"
  start_goal :: "mission_config \<Rightarrow> int \<Rightarrow> ('w, unit) wop"
  poll_goal_response :: "('w, goal_response option) wop"
  accepted_goal_is_active :: "('w, bool) wop"
  poll_accepted_status_stamp_ns :: "('w, int option) wop"
  poll_terminal_result :: "('w, terminal_action_result option) wop"
  request_cancel :: "('w, unit) wop"
  poll_cancel_acknowledgement :: "('w, bool option) wop"

record 'w fault_control_driver =
  services_are_ready :: "('w, bool) wop"
  start_reset :: "('w, unit) wop"
  poll_reset_response :: "('w, reset_response option) wop"
  start_preload :: "fault_schedule \<Rightarrow> ('w, unit) wop"
  poll_preload_response :: "('w, preload_response option) wop"
  start_arm :: "string \<Rightarrow> int \<Rightarrow> string \<Rightarrow> int \<Rightarrow> ('w, unit) wop"
  poll_arm_response :: "('w, arm_response option) wop"
  drain_events :: "('w, pydict list) wop"
  event_overflow_count :: "('w, int) wop"

record 'w mission_env =
  config :: mission_config
  driver :: "'w follow_waypoints_driver"
  sim_time_ns :: "'w \<Rightarrow> int \<times> 'w"
  steady_time_s :: "'w \<Rightarrow> pyfloat \<times> 'w"
  spin_once :: "pyfloat \<Rightarrow> 'w \<Rightarrow> (int list \<times> exn option) \<times> 'w"
  runtime_ok :: "'w \<Rightarrow> bool \<times> 'w"
  fault_driver :: "'w fault_control_driver option"

section \<open>State\<close>

record mission_event =
  event_kind :: string
  event_sim_stamp_ns :: int
  event_wall_offset_s :: pyfloat
  event_details :: pydict

record feedback_observation =
  fb_current_waypoint :: int
  fb_sim_stamp_ns :: int
  fb_wall_offset_s :: pyfloat
  fb_valid_index :: bool

record execution_record =
  action_name :: string
  resolved_action_name :: string
  started_sim_stamp_ns :: int
  started_steady_s :: pyfloat
  events :: "mission_event list"
  event_trace_overflow :: bool
  event_trace_overflow_count :: int
  feedback_trace :: "feedback_observation list"
  feedback_trace_overflow :: bool
  feedback_trace_overflow_count :: int
  invalid_feedback_count :: int
  goal_submission_stamp_ns :: "int option"
  goal_response_stamp_ns :: "int option"
  accepted_goal_uuid :: "string option"
  accepted_goal_stamp_ns :: "int option"
  accepted_goal_wall_offset_s :: "pyfloat option"
  terminal_action_stamp_ns :: "int option"
  terminal_wall_offset_s :: "pyfloat option"
  terminal_result :: "terminal_action_result option"
  cancellation_requested :: bool
  cancel_acknowledged :: "bool option"
  deadline_kind :: "string option"
  fault_events :: "pydict list"
  fault_event_overflow :: bool
  fault_event_overflow_count :: int
  fault_schedule_hash :: "string option"
  fault_generation :: "int option"
  fault_preload_replayed :: "bool option"
  fault_arm_replayed :: "bool option"
  fault_arm_commit_stamp_ns :: "int option"
  fault_arm_margin_ns :: "int option"
  fault_reset_before_goal :: bool
  fault_reset_after_goal :: bool
  fault_protocol_status :: string
  exit_code :: exit_code_t
  reason :: string

record 'w xst =
  world :: 'w
  xrec :: execution_record
  fault_event_sequence :: "int option"
  accepted_goal_active :: bool

type_synonym ('w, 'a) xact = "('w xst, exn, 'a) act"

section \<open>Calls on the world\<close>

definition world_op :: "('w, 'a) wop \<Rightarrow> ('w, 'a) xact" where
  "world_op f s = (case f (world s) of (r, w) \<Rightarrow> Some (r, s\<lparr>world := w\<rparr>))"

definition read_op :: "('w \<Rightarrow> 'a \<times> 'w) \<Rightarrow> ('w, 'a) xact" where
  "read_op f s = (case f (world s) of (a, w) \<Rightarrow> Some (Inr a, s\<lparr>world := w\<rparr>))"

definition mod_rec :: "(execution_record \<Rightarrow> execution_record) \<Rightarrow> ('w, unit) xact" where
  "mod_rec f = modX (\<lambda>s. s\<lparr>xrec := f (xrec s)\<rparr>)"

definition get_rec :: "(execution_record \<Rightarrow> 'a) \<Rightarrow> ('w, 'a) xact" where
  "get_rec f = getX (\<lambda>s. f (xrec s))"

section \<open>\<open>ExecutionRecord\<close>\<close>

text \<open>\<open>ExecutionRecord.event\<close>: the clock is read only when the event is kept.\<close>

definition record_event ::
  "'w mission_env \<Rightarrow> string \<Rightarrow> int option \<Rightarrow> pydict \<Rightarrow> ('w, unit) xact" where
  "record_event E kind sim_stamp details =
     bindX (get_rec (\<lambda>r. length (events r) \<ge> MISSION_EVENT_TRACE_CAPACITY)) (\<lambda>full.
     if full then mod_rec (\<lambda>r. r\<lparr>event_trace_overflow := True,
            event_trace_overflow_count := event_trace_overflow_count r + 1\<rparr>)
     else
       bindX (case sim_stamp of None \<Rightarrow> read_op (sim_time_ns E) | Some t \<Rightarrow> retX t) (\<lambda>stamp.
       bindX (read_op (steady_time_s E)) (\<lambda>now.
       mod_rec (\<lambda>r. r\<lparr>events := events r @
         [\<lparr>event_kind = kind, event_sim_stamp_ns = stamp,
           event_wall_offset_s = f_max (Fin 0) (f_sub now (started_steady_s r)),
           event_details = details\<rparr>]\<rparr>))))"

definition wall_offset :: "'w mission_env \<Rightarrow> ('w, pyfloat) xact" where
  "wall_offset E =
     bindX (read_op (steady_time_s E)) (\<lambda>now.
     get_rec (\<lambda>r. f_max (Fin 0) (f_sub now (started_steady_s r))))"

section \<open>Feedback\<close>

definition record_feedback :: "'w mission_env \<Rightarrow> int \<Rightarrow> ('w, unit) xact" where
  "record_feedback E current_waypoint =
     bindX (get_rec (\<lambda>r. length (feedback_trace r) \<ge> FEEDBACK_TRACE_CAPACITY)) (\<lambda>full.
     if full then
       thenX (mod_rec (\<lambda>r. r\<lparr>feedback_trace_overflow := True,
                feedback_trace_overflow_count := feedback_trace_overflow_count r + 1\<rparr>))
       (bindX (get_rec (\<lambda>r. (feedback_trace_overflow_count r, int (length (feedback_trace r))))) (\<lambda>(c, n).
        if c = 1 then record_event E ''feedback_trace_overflow'' None
              [(''feedback_trace_capacity'', PInt (int FEEDBACK_TRACE_CAPACITY)),
               (''retained_feedback_count'', PInt n)]
        else retX ()))
     else
       (let valid = (0 \<le> current_waypoint \<and> current_waypoint < int (length (waypoints (config E)))) in
        thenX (if valid then retX ()
               else mod_rec (\<lambda>r. r\<lparr>invalid_feedback_count := invalid_feedback_count r + 1\<rparr>))
        (bindX (read_op (sim_time_ns E)) (\<lambda>stamp.
         bindX (wall_offset E) (\<lambda>offset.
         mod_rec (\<lambda>r. r\<lparr>feedback_trace := feedback_trace r @
           [\<lparr>fb_current_waypoint = current_waypoint, fb_sim_stamp_ns = stamp,
             fb_wall_offset_s = offset, fb_valid_index = valid\<rparr>]\<rparr>))))))"

primrec record_feedbacks :: "'w mission_env \<Rightarrow> int list \<Rightarrow> ('w, unit) xact" where
  "record_feedbacks E [] = retX ()"
| "record_feedbacks E (i # is) = thenX (record_feedback E i) (record_feedbacks E is)"

definition raise_if_feedback_trace_overflow :: "('w, unit) xact" where
  "raise_if_feedback_trace_overflow =
     bindX (get_rec feedback_trace_overflow) (\<lambda>b.
     raise_if b (FeedbackTraceOverflowError ''feedback_trace_overflow''))"

section \<open>Spinning and polling\<close>

text \<open>\<open>self._spin_once(timeout)\<close>, with the feedback callbacks it runs.\<close>

definition spin :: "'w mission_env \<Rightarrow> pyfloat \<Rightarrow> ('w, unit) xact" where
  "spin E timeout =
     bindX (read_op (spin_once E timeout)) (\<lambda>(observations, failure).
     thenX (record_feedbacks E observations)
     (case failure of None \<Rightarrow> retX () | Some e \<Rightarrow> raiseX e))"

definition spin_bounded :: "'w mission_env \<Rightarrow> pyfloat \<Rightarrow> ('w, unit) xact" where
  "spin_bounded E deadline =
     bindX (read_op (steady_time_s E)) (\<lambda>now.
     spin E (f_min SPIN_POLL_WALL_S (f_max (Fin 0) (f_sub deadline now))))"

text \<open>\<open>while self._runtime_ok() and self._clock.steady_time_s() < deadline: body;
  self._spin_bounded(deadline)\<close>. The body either leaves the loop with a value (\<open>Inr\<close>) or goes on with
  new loop variables (\<open>Inl\<close>); \<open>None\<close> says that the condition failed.\<close>

definition poll_body ::
  "'w mission_env \<Rightarrow> pyfloat \<Rightarrow> ('l \<Rightarrow> ('w, 'l + 'v) xact) \<Rightarrow> 'l \<Rightarrow> ('w, 'l + 'v option) xact" where
  "poll_body E deadline body l =
     bindX (read_op (runtime_ok E)) (\<lambda>ok.
     if \<not> ok then retX (Inr None)
     else bindX (read_op (steady_time_s E)) (\<lambda>now.
       if \<not> f_less now deadline then retX (Inr None)
       else bindX (body l) (\<lambda>r.
         case r of
           Inr v \<Rightarrow> retX (Inr (Some v))
         | Inl l' \<Rightarrow> thenX (spin_bounded E deadline) (retX (Inl l')))))"

definition poll_loop ::
  "'w mission_env \<Rightarrow> pyfloat \<Rightarrow> ('l \<Rightarrow> ('w, 'l + 'v) xact) \<Rightarrow> 'l \<Rightarrow> ('w, 'v option) xact" where
  "poll_loop E deadline body l = loopX (poll_body E deadline body) l"

definition deadline_after :: "'w mission_env \<Rightarrow> pyfloat \<Rightarrow> ('w, pyfloat) xact" where
  "deadline_after E timeout = bindX (read_op (steady_time_s E)) (\<lambda>now. retX (f_add now timeout))"

definition capped :: "'w mission_env \<Rightarrow> pyfloat \<Rightarrow> pyfloat" where
  "capped E timeout = f_min timeout (wall_escape_timeout_s (config E))"

definition wait_for_value ::
  "'w mission_env \<Rightarrow> ('w, 'v option) wop \<Rightarrow> pyfloat \<Rightarrow> bool \<Rightarrow> ('w, 'v option) xact" where
  "wait_for_value E poll timeout fail_on_overflow =
     bindX (deadline_after E timeout) (\<lambda>deadline.
     bindX (poll_loop E deadline (\<lambda>_.
       thenX (if fail_on_overflow then raise_if_feedback_trace_overflow else retX ())
       (bindX (world_op poll) (\<lambda>v. retX (case v of None \<Rightarrow> Inl () | Some a \<Rightarrow> Inr a)))) ()) (\<lambda>found.
     case found of
       Some v \<Rightarrow> retX (Some v)
     | None \<Rightarrow>
         thenX (if fail_on_overflow then raise_if_feedback_trace_overflow else retX ())
         (bindX (read_op (runtime_ok E)) (\<lambda>ok. if ok then world_op poll else retX None))))"

definition wait_for_server :: "'w mission_env \<Rightarrow> ('w, bool) xact" where
  "wait_for_server E =
     bindX (deadline_after E (capped E ACTION_SERVER_WAIT_WALL_S)) (\<lambda>deadline.
     bindX (poll_loop E deadline (\<lambda>_.
       bindX (world_op (server_is_ready (driver E))) (\<lambda>ready.
       if ready then thenX (record_event E ''action_server_ready'' None []) (retX (Inr ()))
       else retX (Inl ()))) ()) (\<lambda>found.
     retX (found \<noteq> None)))"

definition wait_for_advancing_positive_sim_time :: "'w mission_env \<Rightarrow> ('w, bool) xact" where
  "wait_for_advancing_positive_sim_time E =
     bindX (deadline_after E (capped E SIM_TIME_READY_WAIT_WALL_S)) (\<lambda>deadline.
     bindX (poll_loop E deadline (\<lambda>first_positive_ns.
       bindX (read_op (sim_time_ns E)) (\<lambda>stamp.
       if is_positive_time_ns (PInt stamp) then
         (case first_positive_ns of
            None \<Rightarrow> retX (Inl (Some stamp))
          | Some first \<Rightarrow>
              if stamp > first then
                thenX (record_event E ''simulation_clock_ready'' (Some stamp)
                        [(''first_positive_stamp_ns'', PInt first),
                         (''second_positive_stamp_ns'', PInt stamp)])
                (retX (Inr ()))
              else retX (Inl (Some first)))
       else retX (Inl first_positive_ns))) None) (\<lambda>found.
     retX (found \<noteq> None)))"

definition wait_for_client_clock_to_reach :: "'w mission_env \<Rightarrow> int \<Rightarrow> int \<Rightarrow> ('w, bool) xact" where
  "wait_for_client_clock_to_reach E accepted_status_stamp local_acceptance_observed =
     bindX (deadline_after E (capped E ACCEPTED_STATUS_TIMEOUT_WALL_S)) (\<lambda>deadline.
     bindX (poll_loop E deadline (\<lambda>_.
       thenX raise_if_feedback_trace_overflow
       (bindX (read_op (sim_time_ns E)) (\<lambda>local_stamp.
        thenX (raise_if (\<not> is_positive_time_ns (PInt local_stamp))
                (ActionProtocolError ''local ROS time became non-positive after acceptance''))
        (thenX (raise_if (local_stamp < local_acceptance_observed)
                 (ActionProtocolError ''local ROS time regressed after goal acceptance''))
         (if local_stamp \<ge> accepted_status_stamp then
            thenX (record_event E ''accepted_stamp_clock_correlated'' None
                    [(''accepted_goal_stamp_ns'', PInt accepted_status_stamp),
                     (''client_observation_stamp_ns'', PInt local_stamp)])
            (retX (Inr ()))
          else retX (Inl ())))))) ()) (\<lambda>found.
     retX (found \<noteq> None)))"

section \<open>Fault events\<close>

text \<open>The checks on one drained event, in the order of the loop body.\<close>

definition collect_event :: "pydict \<Rightarrow> 'w xst \<Rightarrow> (exn + unit) \<times> 'w xst" where
  "collect_event event s =
     (if \<not> py_eq (dget event ''schema_version'') (PInt 2)
      then (Inl (FaultProtocolError ''fault_event_schema_version_invalid''), s)
      else if \<not> (case dget event ''event_type'' of PInt t \<Rightarrow> 1 \<le> t \<and> t \<le> 9 | _ \<Rightarrow> False)
      then (Inl (FaultProtocolError ''fault_event_type_invalid''), s)
      else case dget event ''event_sequence'' of
        PInt sequence \<Rightarrow>
          if \<not> is_positive_uint64 (PInt sequence)
          then (Inl (FaultProtocolError ''fault_event_sequence_invalid''), s)
          else if (case fault_event_sequence s of None \<Rightarrow> False | Some previous \<Rightarrow> sequence \<noteq> previous + 1)
          then (Inl (FaultProtocolError ''fault_event_sequence_gap''), s)
          else if length (fault_events (xrec s)) \<ge> FAULT_EVENT_TRACE_CAPACITY
          then (Inl (FaultProtocolError ''fault_event_trace_overflow''),
                s\<lparr>fault_event_sequence := Some sequence,
                  xrec := (xrec s)\<lparr>fault_event_overflow := True,
                    fault_event_overflow_count := fault_event_overflow_count (xrec s) + 1\<rparr>\<rparr>)
          else (Inr (), s\<lparr>fault_event_sequence := Some sequence,
                  xrec := (xrec s)\<lparr>fault_events := fault_events (xrec s) @ [event]\<rparr>\<rparr>)
      | _ \<Rightarrow> (Inl (FaultProtocolError ''fault_event_sequence_invalid''), s))"

primrec collect_events :: "pydict list \<Rightarrow> ('w, unit) xact" where
  "collect_events [] = retX ()"
| "collect_events (event # rest) = thenX (liftX (collect_event event)) (collect_events rest)"

definition collect_fault_events :: "'w mission_env \<Rightarrow> ('w, unit) xact" where
  "collect_fault_events E =
     (case fault_driver E of
        None \<Rightarrow> retX ()
      | Some fd \<Rightarrow>
          bindX (world_op (drain_events fd)) (\<lambda>drained.
          thenX (collect_events drained)
          (bindX (world_op (event_overflow_count fd)) (\<lambda>overflow.
           if overflow \<noteq> 0 then
             thenX (mod_rec (\<lambda>r. r\<lparr>fault_event_overflow := True,
                      fault_event_overflow_count := overflow\<rparr>))
             (raiseX (FaultProtocolError ''fault_event_subscriber_overflow''))
           else retX ()))))"

definition find_event :: "nat \<Rightarrow> int \<Rightarrow> execution_record \<Rightarrow> pydict option" where
  "find_event start event_type r =
     find (\<lambda>e. py_eq (dget e ''event_type'') (PInt event_type)) (drop start (fault_events r))"

definition wait_for_fault_event :: "'w mission_env \<Rightarrow> int \<Rightarrow> ('w, pydict) xact" where
  "wait_for_fault_event E event_type =
     bindX (deadline_after E (capped E FAULT_EVENT_TIMEOUT_WALL_S)) (\<lambda>deadline.
     bindX (get_rec (\<lambda>r. length (fault_events r))) (\<lambda>start.
     bindX (poll_loop E deadline (\<lambda>_.
       thenX (collect_fault_events E)
       (bindX (get_rec (find_event start event_type)) (\<lambda>found.
        retX (case found of None \<Rightarrow> Inl () | Some e \<Rightarrow> Inr e)))) ()) (\<lambda>found.
     case found of
       Some e \<Rightarrow> retX e
     | None \<Rightarrow>
         thenX (collect_fault_events E)
         (bindX (get_rec (find_event start event_type)) (\<lambda>found.
          case found of
            Some e \<Rightarrow> retX e
          | None \<Rightarrow> raiseX (FaultProtocolError
              (''fault_event_'' @ show_int event_type @ ''_timeout'')))))))"

definition require_fault_contract ::
  "'w mission_env \<Rightarrow> ('w, fault_schedule \<times> 'w fault_control_driver) xact" where
  "require_fault_contract E =
     (case (config_fault_schedule (config E), fault_driver E) of
        (Some schedule, Some fd) \<Rightarrow> retX (schedule, fd)
      | _ \<Rightarrow> raiseX (FaultProtocolError ''phase3_fault_control_driver_unavailable''))"

definition reset_faults :: "'w mission_env \<Rightarrow> bool \<Rightarrow> ('w, bool) xact" where
  "reset_faults E before_goal =
     (case fault_driver E of
        None \<Rightarrow> retX False
      | Some fd \<Rightarrow>
          thenX (world_op (start_reset fd))
          (bindX (wait_for_value E (poll_reset_response fd) (capped E FAULT_RESPONSE_TIMEOUT_WALL_S) False)
          (\<lambda>response.
           if (case response of None \<Rightarrow> True | Some r \<Rightarrow> \<not> rr_success r) then retX False
           else bindX (wait_for_fault_event E 3) (\<lambda>event.
             if \<not> truthy (dget event ''accepted'') \<or> \<not> py_eq (dget event ''state_after'') (PInt 0)
             then retX False
             else
               thenX (mod_rec (\<lambda>r.
                 if before_goal
                 then r\<lparr>fault_reset_before_goal := True, fault_protocol_status := ''RESET_CONFIRMED''\<rparr>
                 else r\<lparr>fault_reset_after_goal := True,
                        fault_protocol_status := ''RESET_CONFIRMED_AFTER_GOAL''\<rparr>))
               (thenX (record_event E ''fault_reset_confirmed'' None
                  [(''phase'', PStr (if before_goal then ''before_goal'' else ''after_goal''))])
               (retX True))))))"

definition preload_mismatch :: "fault_schedule \<Rightarrow> preload_response \<Rightarrow> bool" where
  "preload_mismatch schedule response \<longleftrightarrow>
     \<not> pr_accepted response \<or> pr_state response \<noteq> 1
     \<or> pr_schedule_hash response \<noteq> sha256 schedule
     \<or> pr_loaded_count response \<noteq> int (length (faults schedule))
     \<or> \<not> is_positive_uint64 (PInt (pr_generation response))"

definition preload_event_mismatch :: "fault_schedule \<Rightarrow> preload_response \<Rightarrow> pydict \<Rightarrow> bool" where
  "preload_event_mismatch schedule response event \<longleftrightarrow>
     \<not> truthy (dget event ''accepted'')
     \<or> truthy (dget event ''replayed'') \<noteq> pr_replayed response
     \<or> \<not> py_eq (dget event ''state_after'') (PInt 1)
     \<or> \<not> py_eq (dget event ''requested_schedule_hash'') (PStr (sha256 schedule))
     \<or> \<not> py_eq (dget event ''committed_schedule_hash'') (PStr (sha256 schedule))
     \<or> \<not> py_eq (dget event ''requested_fault_count'') (PInt (int (length (faults schedule))))
     \<or> \<not> py_eq (dget event ''committed_generation'') (PInt (pr_generation response))
     \<or> \<not> py_eq (dget event ''committed_fault_count'') (PInt (int (length (faults schedule))))"

definition prepare_fault_schedule :: "'w mission_env \<Rightarrow> ('w, unit) xact" where
  "prepare_fault_schedule E =
     bindX (require_fault_contract E) (\<lambda>(schedule, fd).
     bindX (deadline_after E (capped E FAULT_SERVICE_WAIT_WALL_S)) (\<lambda>deadline.
     bindX (poll_loop E deadline (\<lambda>_.
       thenX (collect_fault_events E)
       (bindX (world_op (services_are_ready fd)) (\<lambda>ready.
        retX (if ready then Inr () else Inl ())))) ()) (\<lambda>found.
     thenX (raise_if (found = None) (FaultProtocolError ''fault_control_services_unavailable''))
     (bindX (reset_faults E True) (\<lambda>reset_ok.
     thenX (raise_if (\<not> reset_ok) (FaultProtocolError ''fault_pre_goal_reset_failed''))
     (thenX (world_op (start_preload fd schedule))
     (bindX (wait_for_value E (poll_preload_response fd) (capped E FAULT_RESPONSE_TIMEOUT_WALL_S) False)
     (\<lambda>answer.
      case answer of
        None \<Rightarrow> raiseX (FaultProtocolError ''fault_preload_response_timeout'')
      | Some response \<Rightarrow>
          thenX (raise_if (preload_mismatch schedule response)
                  (FaultProtocolError ''fault_preload_response_mismatch''))
          (bindX (wait_for_fault_event E 1) (\<lambda>event.
           thenX (raise_if (preload_event_mismatch schedule response event)
                   (FaultProtocolError ''fault_preload_event_mismatch''))
           (thenX (mod_rec (\<lambda>r. r\<lparr>fault_schedule_hash := Some (sha256 schedule),
                      fault_generation := Some (pr_generation response),
                      fault_preload_replayed := Some (pr_replayed response),
                      fault_protocol_status := ''PREPARED''\<rparr>))
           (record_event E ''fault_schedule_prepared'' None
              [(''schedule_hash'', PStr (sha256 schedule)),
               (''generation'', PInt (pr_generation response)),
               (''loaded_count'', PInt (pr_loaded_count response)),
               (''replayed'', PBool (pr_replayed response))]))))))))))))"

definition arm_mismatch :: "fault_schedule \<Rightarrow> int \<Rightarrow> string \<Rightarrow> int \<Rightarrow> arm_response \<Rightarrow> bool" where
  "arm_mismatch schedule generation goal_uuid accepted_stamp response \<longleftrightarrow>
     \<not> ar_accepted response \<or> ar_state response \<noteq> 2
     \<or> ar_schedule_hash response \<noteq> sha256 schedule
     \<or> ar_generation response \<noteq> generation
     \<or> ar_goal_uuid response \<noteq> goal_uuid
     \<or> ar_accepted_goal_stamp_ns response \<noteq> accepted_stamp
     \<or> \<not> is_positive_time_ns (PInt (ar_arm_commit_stamp_ns response))
     \<or> ar_arm_commit_stamp_ns response < accepted_stamp"

definition arm_margin_error :: "fault_schedule \<Rightarrow> int \<Rightarrow> arm_response \<Rightarrow> exn option" where
  "arm_margin_error schedule accepted_stamp response =
     (case earliest_start_offset_ns schedule of
        None \<Rightarrow>
          if ar_arm_margin_ns response \<noteq> 0
          then Some (FaultProtocolError ''empty_fault_schedule_arm_margin_must_be_zero'') else None
      | Some earliest \<Rightarrow>
          if ar_arm_margin_ns response < MIN_ARM_MARGIN_NS
          then Some (FaultProtocolError ''fault_arm_margin_below_500ms'')
          else if ar_arm_margin_ns response \<noteq> accepted_stamp + earliest - ar_arm_commit_stamp_ns response
          then Some (FaultProtocolError ''fault_arm_margin_calculation_mismatch'') else None)"

definition arm_event_mismatch ::
  "fault_schedule \<Rightarrow> int \<Rightarrow> string \<Rightarrow> int \<Rightarrow> arm_response \<Rightarrow> pydict \<Rightarrow> bool" where
  "arm_event_mismatch schedule generation goal_uuid accepted_stamp response event \<longleftrightarrow>
     \<not> truthy (dget event ''accepted'')
     \<or> truthy (dget event ''replayed'') \<noteq> ar_replayed response
     \<or> \<not> py_eq (dget event ''state_after'') (PInt 2)
     \<or> \<not> py_eq (dget event ''requested_schedule_hash'') (PStr (sha256 schedule))
     \<or> \<not> py_eq (dget event ''committed_schedule_hash'') (PStr (sha256 schedule))
     \<or> \<not> py_eq (dget event ''requested_generation'') (PInt generation)
     \<or> \<not> py_eq (dget event ''committed_generation'') (PInt generation)
     \<or> \<not> py_eq (dget event ''requested_goal_uuid'') (PStr goal_uuid)
     \<or> \<not> py_eq (dget event ''bound_goal_uuid'') (PStr goal_uuid)
     \<or> \<not> py_eq (dget event ''requested_t0_ns'') (PInt accepted_stamp)
     \<or> \<not> py_eq (dget event ''bound_t0_ns'') (PInt accepted_stamp)
     \<or> \<not> py_eq (dget event ''arm_commit_stamp_ns'') (PInt (ar_arm_commit_stamp_ns response))
     \<or> \<not> py_eq (dget event ''arm_margin_ns'') (PInt (ar_arm_margin_ns response))
     \<or> \<not> py_eq (dget event ''actual_stamp_ns'') (PInt (ar_arm_commit_stamp_ns response))
     \<or> \<not> py_eq (dget event ''header_stamp_ns'') (PInt (ar_arm_commit_stamp_ns response))"

definition arm_fault_schedule :: "'w mission_env \<Rightarrow> string \<Rightarrow> int \<Rightarrow> ('w, unit) xact" where
  "arm_fault_schedule E goal_uuid accepted_stamp =
     bindX (require_fault_contract E) (\<lambda>(schedule, fd).
     bindX (get_rec fault_generation) (\<lambda>gen.
     case gen of
       None \<Rightarrow> raiseX (FaultProtocolError ''fault_generation_unavailable'')
     | Some generation \<Rightarrow>
     thenX (raise_if (\<not> is_positive_uint64 (PInt generation))
             (FaultProtocolError ''fault_generation_unavailable''))
     (thenX (world_op (start_arm fd (sha256 schedule) generation goal_uuid accepted_stamp))
     (bindX (wait_for_value E (poll_arm_response fd) (capped E FAULT_RESPONSE_TIMEOUT_WALL_S) False)
     (\<lambda>answer.
      case answer of
        None \<Rightarrow> raiseX (FaultProtocolError ''fault_arm_response_timeout'')
      | Some response \<Rightarrow>
          thenX (raise_if (arm_mismatch schedule generation goal_uuid accepted_stamp response)
                  (FaultProtocolError ''fault_arm_response_mismatch''))
          (thenX (case arm_margin_error schedule accepted_stamp response of
                    None \<Rightarrow> retX () | Some e \<Rightarrow> raiseX e)
          (bindX (wait_for_fault_event E 7) (\<lambda>event.
           thenX (raise_if (arm_event_mismatch schedule generation goal_uuid accepted_stamp response event)
                   (FaultProtocolError ''fault_arm_event_mismatch''))
           (thenX (mod_rec (\<lambda>r. r\<lparr>fault_arm_replayed := Some (ar_replayed response),
                      fault_arm_commit_stamp_ns := Some (ar_arm_commit_stamp_ns response),
                      fault_arm_margin_ns := Some (ar_arm_margin_ns response),
                      fault_protocol_status := ''ARMED''\<rparr>))
           (record_event E ''fault_schedule_armed'' None
              [(''schedule_hash'', PStr (sha256 schedule)),
               (''generation'', PInt generation),
               (''goal_uuid'', PStr goal_uuid),
               (''accepted_goal_stamp_ns'', PInt accepted_stamp),
               (''arm_commit_stamp_ns'', PInt (ar_arm_commit_stamp_ns response)),
               (''arm_margin_ns'', PInt (ar_arm_margin_ns response)),
               (''replayed'', PBool (ar_replayed response))]))))))))))"

section \<open>Finishing\<close>

definition finish_record :: "exit_code_t \<Rightarrow> string \<Rightarrow> execution_record \<Rightarrow> execution_record" where
  "finish_record code why r =
     (if event_trace_overflow r
      then r\<lparr>exit_code := INFRASTRUCTURE_ERROR, reason := ''mission_event_trace_overflow''\<rparr>
      else r\<lparr>exit_code := code, reason := why\<rparr>)"

definition finish :: "exit_code_t \<Rightarrow> string \<Rightarrow> ('w, unit) xact" where
  "finish code why = mod_rec (finish_record code why)"

definition capture_terminal :: "'w mission_env \<Rightarrow> terminal_action_result \<Rightarrow> ('w, unit) xact" where
  "capture_terminal E terminal =
     thenX (mod_rec (\<lambda>r. r\<lparr>terminal_result := Some terminal\<rparr>))
     (bindX (read_op (sim_time_ns E)) (\<lambda>stamp.
     thenX (mod_rec (\<lambda>r. r\<lparr>terminal_action_stamp_ns := Some stamp\<rparr>))
     (bindX (wall_offset E) (\<lambda>offset.
     thenX (mod_rec (\<lambda>r. r\<lparr>terminal_wall_offset_s := Some offset\<rparr>))
     (record_event E ''terminal_result'' None
        [(''goal_status_code'', PInt (status_code terminal)),
         (''goal_status'', PStr (goal_status_name (status_code terminal))),
         (''nav2_error_code'', PInt (error_code terminal)),
         (''missed_waypoint_count'', PInt (int (length (missed_waypoints terminal))))])))))"

text \<open>The exit code and reason \<open>_finish_from_terminal\<close> chooses once the terminal result is
  captured.\<close>

definition terminal_verdict :: "terminal_action_result \<Rightarrow> execution_record \<Rightarrow> exit_code_t \<times> string" where
  "terminal_verdict terminal r =
     (if (case (accepted_goal_stamp_ns r, terminal_action_stamp_ns r) of
            (Some accepted, Some stamp) \<Rightarrow> stamp < accepted | _ \<Rightarrow> False)
      then (INFRASTRUCTURE_ERROR, ''terminal_stamp_precedes_accepted_goal_stamp'')
      else if status_code terminal = GOAL_STATUS_SUCCEEDED then
        if error_code terminal \<noteq> NAV2_ERROR_NONE then (GOAL_ABORTED, ''succeeded_with_nav2_error'')
        else if missed_waypoints terminal \<noteq> [] then (GOAL_ABORTED, ''succeeded_with_missed_waypoints'')
        else if invalid_feedback_count r \<noteq> 0 then (INFRASTRUCTURE_ERROR, ''invalid_feedback_observed'')
        else (SUCCESS, ''succeeded'')
      else if status_code terminal = GOAL_STATUS_ABORTED then (GOAL_ABORTED, ''goal_aborted'')
      else if status_code terminal = GOAL_STATUS_CANCELED then (GOAL_CANCELED, ''goal_canceled'')
      else (INFRASTRUCTURE_ERROR, ''nonterminal_goal_status_'' @ show_int (status_code terminal)))"

definition finish_from_terminal :: "'w mission_env \<Rightarrow> terminal_action_result \<Rightarrow> ('w, unit) xact" where
  "finish_from_terminal E terminal =
     thenX (capture_terminal E terminal)
     (bindX (get_rec (terminal_verdict terminal)) (\<lambda>(code, why). finish code why))"

definition cancel_and_await_terminal :: "'w mission_env \<Rightarrow> exit_code_t \<Rightarrow> string \<Rightarrow> ('w, unit) xact" where
  "cancel_and_await_terminal E completed_exit_code why =
     thenX (mod_rec (\<lambda>r. r\<lparr>cancellation_requested := True\<rparr>))
     (thenX (world_op (request_cancel (driver E)))
     (thenX (record_event E ''cancel_requested'' None [])
     (bindX (wait_for_value E (poll_cancel_acknowledgement (driver E)) CANCEL_ACK_TIMEOUT_WALL_S False)
     (\<lambda>acknowledged.
      thenX (mod_rec (\<lambda>r. r\<lparr>cancel_acknowledged := acknowledged\<rparr>))
      (if acknowledged \<noteq> Some True then
         thenX (record_event E ''cancel_not_acknowledged'' None [])
         (finish INFRASTRUCTURE_ERROR (why @ '': cancellation_not_acknowledged''))
       else
         thenX (record_event E ''cancel_acknowledged'' None [])
         (bindX (wait_for_value E (poll_terminal_result (driver E)) CANCEL_RESULT_TIMEOUT_WALL_S False)
         (\<lambda>terminal.
          case terminal of
            None \<Rightarrow> finish INFRASTRUCTURE_ERROR (why @ '': cancellation_result_timeout'')
          | Some t \<Rightarrow> thenX (capture_terminal E t) (finish completed_exit_code why))))))))"

definition cancel_after_deadline :: "'w mission_env \<Rightarrow> string \<Rightarrow> ('w, unit) xact" where
  "cancel_after_deadline E kind =
     thenX (mod_rec (\<lambda>r. r\<lparr>deadline_kind := Some kind\<rparr>))
     (thenX (record_event E ''deadline_reached'' None [(''deadline_kind'', PStr kind)])
     (cancel_and_await_terminal E TIMEOUT kind))"

definition fail_closed_after_acceptance :: "'w mission_env \<Rightarrow> string \<Rightarrow> ('w, unit) xact" where
  "fail_closed_after_acceptance E why =
     catchX (cancel_and_await_terminal E INFRASTRUCTURE_ERROR why) (\<lambda>e.
       thenX (record_event E ''fail_closed_cancellation_error'' None [(''message'', PStr (exn_text e))])
       (finish INFRASTRUCTURE_ERROR (why @ '': fail_closed_cancellation_error: '' @ exn_text e)))"

section \<open>The accepted goal\<close>

text \<open>The body of the \<open>while\<close> of \<open>_wait_for_terminal_or_deadline\<close>.\<close>

definition terminal_poll :: "'w mission_env \<Rightarrow> int \<Rightarrow> pyfloat \<Rightarrow> int \<Rightarrow> ('w, unit + unit) xact" where
  "terminal_poll E local_observed_ns local_observed_wall accepted_status_stamp =
     thenX raise_if_feedback_trace_overflow
     (thenX (collect_fault_events E)
     (bindX (world_op (poll_accepted_status_stamp_ns (driver E))) (\<lambda>observed.
     thenX (raise_if (observed \<noteq> Some accepted_status_stamp)
             (ActionProtocolError ''action-status acceptance stamp became unavailable or changed''))
     (bindX (world_op (poll_terminal_result (driver E))) (\<lambda>result.
      case result of
        Some terminal \<Rightarrow> thenX (finish_from_terminal E terminal) (retX (Inr ()))
      | None \<Rightarrow>
          bindX (read_op (sim_time_ns E)) (\<lambda>now_ns.
          if now_ns - local_observed_ns < 0
          then thenX (finish INFRASTRUCTURE_ERROR ''simulation_clock_regressed'') (retX (Inr ()))
          else
            case int_of_float (f_mul (mission_timeout_sim_s (config E)) (Fin 1000000000)) of
              None \<Rightarrow> raiseX (OtherError ''cannot convert float to integer'')
            | Some limit_ns \<Rightarrow>
                if now_ns - local_observed_ns \<ge> limit_ns
                then thenX (cancel_after_deadline E ''simulation_timeout'') (retX (Inr ()))
                else
                  bindX (read_op (steady_time_s E)) (\<lambda>now.
                  if f_le (wall_escape_timeout_s (config E)) (f_sub now local_observed_wall)
                  then thenX (cancel_after_deadline E ''wall_escape_timeout'') (retX (Inr ()))
                  else thenX (spin E SPIN_POLL_WALL_S) (retX (Inl ())))))))))"

definition terminal_body :: "'w mission_env \<Rightarrow> int \<Rightarrow> pyfloat \<Rightarrow> int \<Rightarrow> unit \<Rightarrow> ('w, unit + unit) xact" where
  "terminal_body E local_observed_ns local_observed_wall accepted_status_stamp u =
     bindX (read_op (runtime_ok E)) (\<lambda>ok.
     if \<not> ok then thenX (finish INFRASTRUCTURE_ERROR ''rclpy_context_stopped'') (retX (Inr ()))
     else terminal_poll E local_observed_ns local_observed_wall accepted_status_stamp)"

definition wait_for_terminal_or_deadline ::
  "'w mission_env \<Rightarrow> int \<Rightarrow> pyfloat \<Rightarrow> int \<Rightarrow> ('w, unit) xact" where
  "wait_for_terminal_or_deadline E local_observed_ns local_observed_wall accepted_status_stamp =
     thenX (raise_if (\<not> is_positive_time_ns (PInt local_observed_ns)) (OtherError ''''))
     (loopX (terminal_body E local_observed_ns local_observed_wall accepted_status_stamp) ())"

text \<open>From the accepted status stamp on.\<close>

definition run_accepted ::
  "'w mission_env \<Rightarrow> string \<Rightarrow> int \<Rightarrow> int \<Rightarrow> pyfloat \<Rightarrow> int \<Rightarrow> ('w, unit) xact" where
  "run_accepted E goal_uuid response_stamp local_observed_ns local_observed_wall status_stamp =
     thenX (mod_rec (\<lambda>r. r\<lparr>accepted_goal_stamp_ns := Some status_stamp\<rparr>))
     (thenX (record_event E ''goal_accepted'' (Some status_stamp)
              [(''goal_uuid'', PStr goal_uuid), (''evidence_source'', PStr ACCEPTED_GOAL_STAMP_SOURCE)])
     (thenX (raise_if (response_stamp > 0 \<and> response_stamp \<noteq> status_stamp)
              (ActionProtocolError
                ''nonzero goal response stamp does not match action-status acceptance stamp''))
     (bindX (wait_for_client_clock_to_reach E status_stamp local_observed_ns) (\<lambda>reached.
      if \<not> reached then
        thenX (record_event E ''accepted_stamp_clock_catchup_timeout'' None [])
        (fail_closed_after_acceptance E ''client_clock_did_not_reach_accepted_goal_stamp'')
      else
        thenX (if is_phase3 (config E) then arm_fault_schedule E goal_uuid status_stamp else retX ())
        (wait_for_terminal_or_deadline E local_observed_ns local_observed_wall status_stamp)))))"

text \<open>From an accepting goal response on.\<close>

definition run_response :: "'w mission_env \<Rightarrow> int \<Rightarrow> goal_response \<Rightarrow> ('w, unit) xact" where
  "run_response E submission_stamp response =
     (case gr_goal_uuid response of
        None \<Rightarrow> fail_closed_after_acceptance E ''accepted_goal_missing_uuid''
      | Some goal_uuid \<Rightarrow>
     if goal_uuid = '''' then fail_closed_after_acceptance E ''accepted_goal_missing_uuid''
     else
     case gr_response_stamp_ns response of
        None \<Rightarrow> raiseX (ActionProtocolError ''goal response stamp must be a non-negative integer'')
      | Some response_stamp \<Rightarrow>
     thenX (raise_if (\<not> is_nonnegative_time_ns (PInt response_stamp))
             (ActionProtocolError ''goal response stamp must be a non-negative integer''))
     (bindX (read_op (sim_time_ns E)) (\<lambda>local_observed_ns.
     thenX (raise_if (\<not> is_positive_time_ns (PInt local_observed_ns))
             (ActionProtocolError ''local ROS time was not positive at goal acceptance''))
     (thenX (raise_if (local_observed_ns < submission_stamp)
              (ActionProtocolError ''local ROS time regressed after goal submission''))
     (bindX (read_op (steady_time_s E)) (\<lambda>local_observed_wall.
     thenX (mod_rec (\<lambda>r. r\<lparr>accepted_goal_uuid := Some goal_uuid,
              goal_response_stamp_ns := Some response_stamp\<rparr>))
     (bindX (wall_offset E) (\<lambda>offset.
     thenX (mod_rec (\<lambda>r. r\<lparr>accepted_goal_wall_offset_s := Some offset\<rparr>))
     (thenX (record_event E ''goal_response_accepted'' None
              [(''goal_uuid'', PStr goal_uuid), (''response_stamp_ns'', PInt response_stamp)])
     (thenX raise_if_feedback_trace_overflow
     (bindX (wait_for_value E (poll_accepted_status_stamp_ns (driver E))
               (capped E ACCEPTED_STATUS_TIMEOUT_WALL_S) True) (\<lambda>status.
      if \<not> is_positive_time_ns (py_opt PInt status) then
        thenX (record_event E ''accepted_status_proof_timeout'' None [])
        (fail_closed_after_acceptance E ''accepted_goal_status_proof_timeout'')
      else run_accepted E goal_uuid response_stamp local_observed_ns local_observed_wall (the status)))))))))))))"

text \<open>The body of the \<open>try\<close> of \<open>_run_once\<close>.\<close>

definition run_goal :: "'w mission_env \<Rightarrow> ('w, unit) xact" where
  "run_goal E =
     bindX (wait_for_advancing_positive_sim_time E) (\<lambda>clock_ready.
     if \<not> clock_ready then finish INFRASTRUCTURE_ERROR ''simulation_clock_unavailable''
     else
     thenX (if is_phase3 (config E) then prepare_fault_schedule E else retX ())
     (bindX (wait_for_server E) (\<lambda>server_ready.
     if \<not> server_ready then finish INFRASTRUCTURE_ERROR ''action_server_unavailable''
     else
     bindX (read_op (sim_time_ns E)) (\<lambda>submission_stamp.
     thenX (mod_rec (\<lambda>r. r\<lparr>goal_submission_stamp_ns := Some submission_stamp\<rparr>))
     (thenX (raise_if (\<not> is_positive_time_ns (PInt submission_stamp))
              (ActionProtocolError ''goal submission requires positive ROS time''))
     (thenX (record_event E ''goal_submitted'' None [])
     (thenX (world_op (start_goal (driver E) (config E) submission_stamp))
     (bindX (wait_for_value E (poll_goal_response (driver E)) GOAL_RESPONSE_TIMEOUT_WALL_S False)
     (\<lambda>answer.
      case answer of
        None \<Rightarrow> finish INFRASTRUCTURE_ERROR ''goal_response_timeout''
      | Some response \<Rightarrow>
          if \<not> gr_accepted response then
            thenX (record_event E ''goal_rejected'' None [])
            (finish GOAL_REJECTED ''goal_rejected'')
          else
            thenX (modX (\<lambda>s. s\<lparr>accepted_goal_active := True\<rparr>))
            (run_response E submission_stamp response))))))))))"

definition close_failed :: "'w mission_env \<Rightarrow> string \<Rightarrow> ('w, unit) xact" where
  "close_failed E why =
     bindX (getX accepted_goal_active) (\<lambda>active.
     bindX (if active then retX True else world_op (accepted_goal_is_active (driver E))) (\<lambda>must_cancel.
     if must_cancel then fail_closed_after_acceptance E why
     else finish INFRASTRUCTURE_ERROR why))"

fun handle_failure :: "'w mission_env \<Rightarrow> exn \<Rightarrow> ('w, unit) xact" where
  "handle_failure E (FeedbackTraceOverflowError m) =
     bindX (get_rec feedback_trace_overflow_count) (\<lambda>n.
     thenX (record_event E ''feedback_trace_overflow_failure'' None
              [(''feedback_trace_capacity'', PInt (int FEEDBACK_TRACE_CAPACITY)),
               (''feedback_trace_overflow_count'', PInt n)])
     (close_failed E ''feedback_trace_overflow''))"
| "handle_failure E (OtherError m) =
     thenX (record_event E ''infrastructure_error'' None [(''message'', PStr m)])
     (close_failed E (''infrastructure_error: '' @ m))"
| "handle_failure E e =
     thenX (record_event E ''action_protocol_error'' None [(''message'', PStr (exn_text e))])
     (close_failed E (''action_protocol_error: '' @ exn_text e))"

definition run_once :: "'w mission_env \<Rightarrow> ('w, unit) xact" where
  "run_once E =
     thenX (modX (\<lambda>s. s\<lparr>accepted_goal_active := False\<rparr>)) (catchX (run_goal E) (handle_failure E))"

definition teardown_failure :: "string \<Rightarrow> execution_record \<Rightarrow> execution_record" where
  "teardown_failure why r = r\<lparr>exit_code := INFRASTRUCTURE_ERROR, reason := reason r @ '': '' @ why\<rparr>"

definition run_teardown :: "'w mission_env \<Rightarrow> ('w, unit) xact" where
  "run_teardown E =
     bindX (catchX (reset_faults E False) (\<lambda>e.
              thenX (record_event E ''fault_teardown_error'' None [(''message'', PStr (exn_text e))])
              (retX False))) (\<lambda>reset_ok.
     thenX (if reset_ok then retX () else mod_rec (teardown_failure ''fault_teardown_reset_failed''))
     (catchX (collect_fault_events E) (\<lambda>e.
        case e of FaultProtocolError m \<Rightarrow> mod_rec (teardown_failure m) | _ \<Rightarrow> raiseX e)))"

definition run :: "'w mission_env \<Rightarrow> ('w, execution_record) xact" where
  "run E =
     thenX (run_once E)
     (thenX (if is_phase3 (config E) then run_teardown E else retX ()) (get_rec (\<lambda>r. r)))"

text \<open>\<open>__init__\<close>\<close>

definition new_record :: "'w mission_env \<Rightarrow> int \<Rightarrow> pyfloat \<Rightarrow> execution_record" where
  "new_record E stamp now =
    \<lparr>action_name = driver_action_name (driver E),
     resolved_action_name = driver_resolved_action_name (driver E),
     started_sim_stamp_ns = stamp, started_steady_s = now,
     events = [], event_trace_overflow = False, event_trace_overflow_count = 0,
     feedback_trace = [], feedback_trace_overflow = False, feedback_trace_overflow_count = 0,
     invalid_feedback_count = 0, goal_submission_stamp_ns = None, goal_response_stamp_ns = None,
     accepted_goal_uuid = None, accepted_goal_stamp_ns = None, accepted_goal_wall_offset_s = None,
     terminal_action_stamp_ns = None, terminal_wall_offset_s = None, terminal_result = None,
     cancellation_requested = False, cancel_acknowledged = None, deadline_kind = None,
     fault_events = [], fault_event_overflow = False, fault_event_overflow_count = 0,
     fault_schedule_hash = None, fault_generation = None, fault_preload_replayed = None,
     fault_arm_replayed = None, fault_arm_commit_stamp_ns = None, fault_arm_margin_ns = None,
     fault_reset_before_goal = False, fault_reset_after_goal = False,
     fault_protocol_status = ''NOT_APPLICABLE'', exit_code = INFRASTRUCTURE_ERROR,
     reason = ''mission_not_started''\<rparr>"

definition new_executor :: "'w mission_env \<Rightarrow> 'w \<Rightarrow> 'w xst" where
  "new_executor E w =
     (let (stamp, w1) = sim_time_ns E w; (now, w2) = steady_time_s E w1
      in \<lparr>world = w2, xrec = new_record E stamp now, fault_event_sequence = None,
          accepted_goal_active = False\<rparr>)"

definition execute :: "'w mission_env \<Rightarrow> 'w \<Rightarrow> ((exn + execution_record) \<times> 'w xst) option" where
  "execute E w = run E (new_executor E w)"

end
