(* ===== verification/Mission_Safety.thy ===== *)
theory Mission_Safety
  imports Mission_Execution
begin

text \<open>
  Safety of the mission state machine. Four locales, each extending the one before, collect the laws under
  which a predicate survives parts of a run: \<open>silent\<close> for clock reads, driver calls, events and fault
  events, \<open>quiet\<close> for feedback too and so for the polling loops, \<open>quiet_open\<close> for every
  operation that does not report success, and \<open>quiet_run\<close> for whole runs. \<open>quiet_run\<close> is interpreted
  on the trace invariant, which then holds of every run, and \<open>quiet\<close> on all predicates of the record without
  its traces, which carry the facts of one phase of a run over the waits to the next; \<open>quiet_open\<close> and
  \<open>silent\<close> on \<open>unsuccessful\<close> and \<open>unflooded\<close>, from which a success is known to have a
  feedback trace that did not overflow.
\<close>

section \<open>Quiet predicates\<close>

lemma xst_commute: "s\<lparr>xrec := r, world := w\<rparr> = s\<lparr>world := w, xrec := r\<rparr>" for s :: "'w xst"
  by (cases s) simp

lemma hoare_read: "(\<And>s w. P s \<Longrightarrow> P (s\<lparr>world := w\<rparr>)) \<Longrightarrow> hoare P (read_op f) (\<lambda>_. P) R"
  by (auto simp: hoare_def read_op_def split: prod.splits)

lemma keeps_world: "(\<And>s w. P s \<Longrightarrow> P (s\<lparr>world := w\<rparr>)) \<Longrightarrow> keeps P (world_op f)"
  by (auto simp: hoare_def world_op_def split: prod.splits sum.splits)

lemma hoare_world_value:
  assumes "\<And>s w. P s \<Longrightarrow> P (s\<lparr>world := w\<rparr>)"
  shows "hoare P (world_op f) (\<lambda>v s. P s \<and> (\<exists>w w'. f w = (Inr v, w'))) (\<lambda>_. P)"
  using assms by (auto simp: hoare_def world_op_def split: prod.splits sum.splits)

lemma hoare_mod_rec: "(\<And>s. P s \<Longrightarrow> Q (s\<lparr>xrec := f (xrec s)\<rparr>)) \<Longrightarrow> hoare P (mod_rec f) (\<lambda>_. Q) R"
  by (simp add: hoare_def mod_rec_def)

lemma hoare_get_rec: "hoare P (get_rec f) (\<lambda>a s. P s \<and> f (xrec s) = a) R"
  by (simp add: hoare_def get_rec_def)

text \<open>The outcomes of one drained event: nothing changes, the full trace is flagged, or the event is
  kept.\<close>

lemma int_case_outcome:
  assumes "p = (if a then (x1, s) else if b then (x2, s) else case v of PInt q \<Rightarrow> g q | _ \<Rightarrow> (x3, s))"
  shows "snd p = s \<or> (\<not> a \<and> \<not> b \<and> (\<exists>q. v = PInt q \<and> p = g q))"
  using assms by (cases v) (auto split: if_splits)

lemma if_chain_outcome:
  assumes "p = (if a then (x1, s) else if b then (x2, s) else if c then (x3, s1) else (x4, s2))"
  shows "snd p = s \<or> (\<not> b \<and> c \<and> snd p = s1) \<or> (\<not> b \<and> \<not> c \<and> snd p = s2)"
  using assms by (auto split: if_splits)

lemma collect_event_cases:
  obtains (same) "snd (collect_event d s) = s"
  | (full) q where "FAULT_EVENT_TRACE_CAPACITY \<le> length (fault_events (xrec s))"
      "snd (collect_event d s) = s\<lparr>fault_event_sequence := Some q, xrec := (xrec s)\<lparr>fault_event_overflow := True,
         fault_event_overflow_count := fault_event_overflow_count (xrec s) + 1\<rparr>\<rparr>"
  | (keep) t q where
      "snd (collect_event d s) = s\<lparr>fault_event_sequence := Some q,
         xrec := (xrec s)\<lparr>fault_events := fault_events (xrec s) @ [d]\<rparr>\<rparr>"
      "length (fault_events (xrec s)) < FAULT_EVENT_TRACE_CAPACITY"
      "py_eq (dget d ''schema_version'') (PInt 2)" "dget d ''event_type'' = PInt t" "1 \<le> t" "t \<le> 9"
      "dget d ''event_sequence'' = PInt q"
      "fault_event_sequence s = None \<or> fault_event_sequence s = Some (q - 1)"
proof (cases "snd (collect_event d s) = s")
  case True
  then show ?thesis by (rule same)
next
  case changed: False
  from int_case_outcome [OF collect_event_def [of d s]] changed
  obtain q where v: "py_eq (dget d ''schema_version'') (PInt 2)"
    and ty: "case dget d ''event_type'' of PInt t \<Rightarrow> 1 \<le> t \<and> t \<le> 9 | _ \<Rightarrow> False"
    and q: "dget d ''event_sequence'' = PInt q"
    and tail: "collect_event d s =
         (if \<not> is_positive_uint64 (PInt q)
          then (Inl (FaultProtocolError ''fault_event_sequence_invalid''), s)
          else if (case fault_event_sequence s of None \<Rightarrow> False | Some previous \<Rightarrow> q \<noteq> previous + 1)
          then (Inl (FaultProtocolError ''fault_event_sequence_gap''), s)
          else if length (fault_events (xrec s)) \<ge> FAULT_EVENT_TRACE_CAPACITY
          then (Inl (FaultProtocolError ''fault_event_trace_overflow''),
                s\<lparr>fault_event_sequence := Some q,
                  xrec := (xrec s)\<lparr>fault_event_overflow := True,
                    fault_event_overflow_count := fault_event_overflow_count (xrec s) + 1\<rparr>\<rparr>)
          else (Inr (), s\<lparr>fault_event_sequence := Some q,
                  xrec := (xrec s)\<lparr>fault_events := fault_events (xrec s) @ [d]\<rparr>\<rparr>))"
    by blast
  obtain t where t: "dget d ''event_type'' = PInt t" "1 \<le> t" "t \<le> 9"
    using ty by (cases "dget d ''event_type''") simp_all
  from if_chain_outcome [OF tail] changed show ?thesis
  proof (elim disjE conjE)
    assume f: "FAULT_EVENT_TRACE_CAPACITY \<le> length (fault_events (xrec s))"
      and r: "snd (collect_event d s) = s\<lparr>fault_event_sequence := Some q,
                  xrec := (xrec s)\<lparr>fault_event_overflow := True,
                    fault_event_overflow_count := fault_event_overflow_count (xrec s) + 1\<rparr>\<rparr>"
    from full [OF f r] show ?thesis .
  next
    assume f: "\<not> FAULT_EVENT_TRACE_CAPACITY \<le> length (fault_events (xrec s))"
      and g: "\<not> (case fault_event_sequence s of None \<Rightarrow> False | Some previous \<Rightarrow> q \<noteq> previous + 1)"
      and r: "snd (collect_event d s) = s\<lparr>fault_event_sequence := Some q,
                  xrec := (xrec s)\<lparr>fault_events := fault_events (xrec s) @ [d]\<rparr>\<rparr>"
    have "fault_event_sequence s = None \<or> fault_event_sequence s = Some (q - 1)"
      using g by (cases "fault_event_sequence s") simp_all
    then show ?thesis using keep [OF r _ v t q] f by simp
  qed simp
qed

locale silent =
  fixes P :: "'w xst \<Rightarrow> bool" and E :: "'w mission_env"
  assumes quiet_world: "P s \<Longrightarrow> P (s\<lparr>world := w\<rparr>)"
    and quiet_event_drop: "P s \<Longrightarrow> MISSION_EVENT_TRACE_CAPACITY \<le> length (events (xrec s)) \<Longrightarrow>
      P (s\<lparr>xrec := (xrec s)\<lparr>event_trace_overflow := True,
           event_trace_overflow_count := event_trace_overflow_count (xrec s) + 1\<rparr>\<rparr>)"
    and quiet_event_keep: "P s \<Longrightarrow> length (events (xrec s)) < MISSION_EVENT_TRACE_CAPACITY \<Longrightarrow>
      P (s\<lparr>xrec := (xrec s)\<lparr>events := events (xrec s) @ [ev]\<rparr>\<rparr>)"
    and quiet_fault_drop: "P s \<Longrightarrow> fault_driver E = Some fd \<Longrightarrow>
      event_overflow_count fd w = (Inr n, w') \<Longrightarrow> n \<noteq> 0 \<Longrightarrow>
      P (s\<lparr>xrec := (xrec s)\<lparr>fault_event_overflow := True, fault_event_overflow_count := n\<rparr>\<rparr>)"
    and quiet_fault_keep: "P s \<Longrightarrow> length (fault_events (xrec s)) < FAULT_EVENT_TRACE_CAPACITY \<Longrightarrow>
      py_eq (dget d ''schema_version'') (PInt 2) \<Longrightarrow>
      dget d ''event_type'' = PInt t \<Longrightarrow> 1 \<le> t \<Longrightarrow> t \<le> 9 \<Longrightarrow>
      dget d ''event_sequence'' = PInt q \<Longrightarrow>
      fault_event_sequence s = None \<or> fault_event_sequence s = Some (q - 1) \<Longrightarrow>
      P (s\<lparr>fault_event_sequence := Some q, xrec := (xrec s)\<lparr>fault_events := fault_events (xrec s) @ [d]\<rparr>\<rparr>)"
    and quiet_fault_full: "P s \<Longrightarrow> FAULT_EVENT_TRACE_CAPACITY \<le> length (fault_events (xrec s)) \<Longrightarrow>
      P (s\<lparr>fault_event_sequence := Some q, xrec := (xrec s)\<lparr>fault_event_overflow := True,
           fault_event_overflow_count := fault_event_overflow_count (xrec s) + 1\<rparr>\<rparr>)"
begin

lemma keep_read: "keeps P (read_op f)"
  using quiet_world by (rule hoare_read)

lemma keep_world: "keeps P (world_op f)"
  using quiet_world by (rule keeps_world)

lemma keep_get: "keeps P (getX f)"
  by (simp add: hoare_def)

lemma keep_get_rec: "keeps P (get_rec f)"
  by (simp add: hoare_def get_rec_def)

lemma keep_ret: "keeps P (retX a)"
  by (simp add: hoare_def)

lemma keep_raise: "keeps P (raiseX e)"
  by (simp add: hoare_def)

lemma keep_raise_if: "keeps P (raise_if b e)"
  by (simp add: hoare_def raise_if_def)

lemma keep_bind: "keeps P m \<Longrightarrow> (\<And>a. keeps P (k a)) \<Longrightarrow> keeps P (bindX m k)"
  by (rule hoare_bind)

lemma keep_then: "keeps P m \<Longrightarrow> keeps P n \<Longrightarrow> keeps P (thenX m n)"
  by (rule hoare_then)

lemma keep_catch: "keeps P m \<Longrightarrow> (\<And>e. keeps P (h e)) \<Longrightarrow> keeps P (catchX m h)"
  by (rule hoare_catch)

lemma keep_if: "keeps P m \<Longrightarrow> keeps P n \<Longrightarrow> keeps P (if b then m else n)"
  by simp

lemma keep_option: "keeps P m \<Longrightarrow> (\<And>a. keeps P (k a)) \<Longrightarrow> keeps P (case x of None \<Rightarrow> m | Some a \<Rightarrow> k a)"
  by (cases x) simp_all

lemma keep_sum: "(\<And>a. keeps P (k a)) \<Longrightarrow> (\<And>b. keeps P (h b)) \<Longrightarrow> keeps P (case x of Inl a \<Rightarrow> k a | Inr b \<Rightarrow> h b)"
  by (cases x) simp_all

lemma keep_prod: "(\<And>a b. keeps P (k a b)) \<Longrightarrow> keeps P (case x of (a, b) \<Rightarrow> k a b)"
  by (cases x) simp

lemmas keep_rules = keep_read keep_world keep_get keep_get_rec keep_ret keep_raise keep_raise_if
  keep_then keep_catch keep_bind keep_if keep_option keep_sum keep_prod

lemma keep_event: "keeps P (record_event E kind t details)"
  unfolding record_event_def
proof (rule hoare_bind [OF hoare_get_rec])
  fix full
  let ?ev = "\<lambda>r stamp now. \<lparr>event_kind = kind, event_sim_stamp_ns = stamp,
    event_wall_offset_s = f_max (Fin 0) (f_sub now (started_steady_s r)), event_details = details\<rparr>"
  let ?drop = "mod_rec (\<lambda>r. r\<lparr>event_trace_overflow := True,
    event_trace_overflow_count := event_trace_overflow_count r + 1\<rparr>)"
  let ?keep = "bindX (case t of None \<Rightarrow> read_op (sim_time_ns E) | Some t \<Rightarrow> retX t) (\<lambda>stamp.
    bindX (read_op (steady_time_s E)) (\<lambda>now.
    mod_rec (\<lambda>r. r\<lparr>events := events r @ [?ev r stamp now]\<rparr>)))"
  let ?room = "\<lambda>s. P s \<and> length (events (xrec s)) < MISSION_EVENT_TRACE_CAPACITY"
  have "hoare ?room ?keep (\<lambda>_. P) (\<lambda>_. ?room)"
  proof (rule hoare_bind)
    show "keeps ?room (case t of None \<Rightarrow> read_op (sim_time_ns E) | Some t \<Rightarrow> retX t)"
      using quiet_world by (cases t) (auto intro: hoare_read hoare_ret)
    show "hoare ?room (bindX (read_op (steady_time_s E)) (\<lambda>now.
        mod_rec (\<lambda>r. r\<lparr>events := events r @ [?ev r stamp now]\<rparr>))) (\<lambda>_. P) (\<lambda>_. ?room)" for stamp
      using quiet_world quiet_event_keep
      by (intro hoare_bind [OF hoare_read] hoare_mod_rec) auto
  qed
  then have "hoare ?room ?keep (\<lambda>_. P) (\<lambda>_. P)" by (rule hoare_weaken) auto
  moreover have "hoare (\<lambda>s. P s \<and> MISSION_EVENT_TRACE_CAPACITY \<le> length (events (xrec s))) ?drop (\<lambda>_. P) (\<lambda>_. P)"
    using quiet_event_drop by (intro hoare_mod_rec) auto
  ultimately show "hoare (\<lambda>s. P s \<and> (MISSION_EVENT_TRACE_CAPACITY \<le> length (events (xrec s))) = full)
      (if full then ?drop else ?keep) (\<lambda>_. P) (\<lambda>_. P)"
    by (cases full) (auto elim!: hoare_pre)
qed

lemma keep_wall_offset: "keeps P (wall_offset E)"
  unfolding wall_offset_def by (intro keep_rules)

lemma keep_raise_if_feedback_trace_overflow: "keeps P raise_if_feedback_trace_overflow"
  unfolding raise_if_feedback_trace_overflow_def by (intro keep_rules)

lemma keep_deadline_after: "keeps P (deadline_after E timeout)"
  unfolding deadline_after_def by (intro keep_rules)

lemma keep_collect_event: "keeps P (liftX (collect_event d))"
proof -
  have "P (snd (collect_event d s))" if P: "P s" for s
    using collect_event_cases [of d s]
  proof cases
    case same
    then show ?thesis using P by simp
  next
    case (full q)
    then show ?thesis using quiet_fault_full [OF P] by simp
  next
    case (keep t q)
    then show ?thesis using quiet_fault_keep [OF P keep(2)] by simp
  qed
  then show ?thesis by (simp add: hoare_def split: sum.splits) (metis snd_conv)
qed

lemma keep_collect_events: "keeps P (collect_events evs)"
proof (induction evs)
  case Nil
  show ?case unfolding collect_events.simps by (rule keep_ret)
next
  case (Cons d evs)
  then show ?case unfolding collect_events.simps by (intro keep_then keep_collect_event)
qed

lemma keep_subscriber_overflow:
  assumes "fault_driver E = Some fd"
  shows "keeps P (bindX (world_op (event_overflow_count fd)) (\<lambda>overflow.
    if overflow \<noteq> 0 then
      thenX (mod_rec (\<lambda>r. r\<lparr>fault_event_overflow := True, fault_event_overflow_count := overflow\<rparr>))
      (raiseX (FaultProtocolError ''fault_event_subscriber_overflow''))
    else retX ()))"
proof (rule hoare_bind [OF hoare_world_value])
  fix n
  let ?pre = "\<lambda>s. P s \<and> (\<exists>w w'. event_overflow_count fd w = (Inr n, w'))"
  have mark: "hoare ?pre (mod_rec (\<lambda>r. r\<lparr>fault_event_overflow := True, fault_event_overflow_count := n\<rparr>))
      (\<lambda>_. P) (\<lambda>_. P)" if "n \<noteq> 0"
    using quiet_fault_drop [OF _ assms _ that] by (intro hoare_mod_rec) blast
  show "hoare ?pre
      (if n \<noteq> 0 then
         thenX (mod_rec (\<lambda>r. r\<lparr>fault_event_overflow := True, fault_event_overflow_count := n\<rparr>))
         (raiseX (FaultProtocolError ''fault_event_subscriber_overflow''))
       else retX ()) (\<lambda>_. P) (\<lambda>_. P)"
  proof (cases "n = 0")
    case True
    then show ?thesis by (simp add: hoare_def)
  next
    case False
    then show ?thesis using hoare_then [OF mark [OF False] keep_raise] by simp
  qed
qed (rule quiet_world)

lemma keep_collect_fault_events: "keeps P (collect_fault_events E)"
proof (cases "fault_driver E")
  case None
  then show ?thesis unfolding collect_fault_events_def by (simp only: option.case) (rule keep_ret)
next
  case (Some fd)
  then show ?thesis unfolding collect_fault_events_def
    by (simp only: option.case) (intro keep_bind keep_world keep_then keep_collect_events keep_subscriber_overflow)
qed

lemma keep_require_fault_contract: "keeps P (require_fault_contract E)"
  unfolding require_fault_contract_def by (intro keep_rules)

lemmas keep_observations = keep_rules keep_event keep_wall_offset keep_raise_if_feedback_trace_overflow
  keep_deadline_after keep_collect_fault_events keep_require_fault_contract

end

text \<open>With the laws of the feedback callbacks, a predicate also survives the waits.\<close>

locale quiet = silent +
  assumes quiet_feedback_drop: "P s \<Longrightarrow> FEEDBACK_TRACE_CAPACITY \<le> length (feedback_trace (xrec s)) \<Longrightarrow>
      P (s\<lparr>xrec := (xrec s)\<lparr>feedback_trace_overflow := True,
           feedback_trace_overflow_count := feedback_trace_overflow_count (xrec s) + 1\<rparr>\<rparr>)"
    and quiet_feedback_keep: "P s \<Longrightarrow> length (feedback_trace (xrec s)) < FEEDBACK_TRACE_CAPACITY \<Longrightarrow>
      P (s\<lparr>xrec := (xrec s)\<lparr>
           invalid_feedback_count := invalid_feedback_count (xrec s) + (if fb_valid_index fb then 0 else 1),
           feedback_trace := feedback_trace (xrec s) @ [fb]\<rparr>\<rparr>)"
begin

lemma keep_feedback_room:
  fixes waypoint :: int
  defines "valid n \<equiv> 0 \<le> waypoint \<and> waypoint < int n"
  shows "hoare (\<lambda>s. P s \<and> length (feedback_trace (xrec s)) < FEEDBACK_TRACE_CAPACITY)
    (thenX (if valid n then retX () else mod_rec (\<lambda>r. r\<lparr>invalid_feedback_count := invalid_feedback_count r + 1\<rparr>))
     (bindX (read_op (sim_time_ns E)) (\<lambda>stamp.
      bindX (wall_offset E) (\<lambda>offset.
      mod_rec (\<lambda>r. r\<lparr>feedback_trace := feedback_trace r @
        [\<lparr>fb_current_waypoint = waypoint, fb_sim_stamp_ns = stamp, fb_wall_offset_s = offset,
          fb_valid_index = valid n\<rparr>]\<rparr>)))))
    (\<lambda>_. P) (\<lambda>_. P)"
proof -
  define d :: int where "d = (if valid n then 0 else 1)"
  let ?J = "\<lambda>s. P (s\<lparr>xrec := (xrec s)\<lparr>invalid_feedback_count := invalid_feedback_count (xrec s) - d\<rparr>\<rparr>)
    \<and> length (feedback_trace (xrec s)) < FEEDBACK_TRACE_CAPACITY"
  have J_world: "?J (s\<lparr>world := w\<rparr>)" if "?J s" for s w
    using that quiet_world [of "s\<lparr>xrec := (xrec s)\<lparr>invalid_feedback_count := invalid_feedback_count (xrec s) - d\<rparr>\<rparr>" w]
    by (simp add: xst_commute)
  have push: "P (s\<lparr>xrec := (xrec s)\<lparr>feedback_trace := feedback_trace (xrec s) @
      [\<lparr>fb_current_waypoint = waypoint, fb_sim_stamp_ns = stamp, fb_wall_offset_s = offset,
        fb_valid_index = valid n\<rparr>]\<rparr>\<rparr>)" if "?J s" for s stamp offset
    using quiet_feedback_keep [of "s\<lparr>xrec := (xrec s)\<lparr>invalid_feedback_count := invalid_feedback_count (xrec s) - d\<rparr>\<rparr>"
        "\<lparr>fb_current_waypoint = waypoint, fb_sim_stamp_ns = stamp, fb_wall_offset_s = offset, fb_valid_index = valid n\<rparr>"]
      that by (simp add: d_def)
  have offset: "hoare ?J (wall_offset E) (\<lambda>_. ?J) (\<lambda>_. P)"
    unfolding wall_offset_def
    by (rule hoare_bind, rule hoare_read, rule J_world, assumption) (simp add: hoare_def get_rec_def)
  have "hoare ?J (bindX (read_op (sim_time_ns E)) (\<lambda>stamp.
      bindX (wall_offset E) (\<lambda>offset.
      mod_rec (\<lambda>r. r\<lparr>feedback_trace := feedback_trace r @
        [\<lparr>fb_current_waypoint = waypoint, fb_sim_stamp_ns = stamp, fb_wall_offset_s = offset,
          fb_valid_index = valid n\<rparr>]\<rparr>)))) (\<lambda>_. P) (\<lambda>_. P)"
    by (rule hoare_bind, rule hoare_read, rule J_world, assumption, rule hoare_bind, rule offset,
        rule hoare_mod_rec, rule push)
  moreover have "hoare (\<lambda>s. P s \<and> length (feedback_trace (xrec s)) < FEEDBACK_TRACE_CAPACITY)
      (if valid n then retX () else mod_rec (\<lambda>r. r\<lparr>invalid_feedback_count := invalid_feedback_count r + 1\<rparr>))
      (\<lambda>_. ?J) (\<lambda>_. P)"
    by (simp add: hoare_def mod_rec_def d_def)
  ultimately show ?thesis by (rule_tac hoare_then)
qed

lemma keep_feedback: "keeps P (record_feedback E waypoint)"
  unfolding record_feedback_def
proof (rule hoare_bind [OF hoare_get_rec])
  fix full
  let ?drop = "mod_rec (\<lambda>r. r\<lparr>feedback_trace_overflow := True,
    feedback_trace_overflow_count := feedback_trace_overflow_count r + 1\<rparr>)"
  have drop: "hoare (\<lambda>s. P s \<and> FEEDBACK_TRACE_CAPACITY \<le> length (feedback_trace (xrec s))) ?drop (\<lambda>_. P) (\<lambda>_. P)"
    using quiet_feedback_drop by (intro hoare_mod_rec) auto
  show "hoare (\<lambda>s. P s \<and> (FEEDBACK_TRACE_CAPACITY \<le> length (feedback_trace (xrec s))) = full)
     (if full then thenX ?drop
       (bindX (get_rec (\<lambda>r. (feedback_trace_overflow_count r, int (length (feedback_trace r))))) (\<lambda>(c, n).
        if c = 1 then record_event E ''feedback_trace_overflow'' None
              [(''feedback_trace_capacity'', PInt (int FEEDBACK_TRACE_CAPACITY)),
               (''retained_feedback_count'', PInt n)]
        else retX ()))
      else
       (let valid = (0 \<le> waypoint \<and> waypoint < int (length (waypoints (config E)))) in
        thenX (if valid then retX ()
               else mod_rec (\<lambda>r. r\<lparr>invalid_feedback_count := invalid_feedback_count r + 1\<rparr>))
        (bindX (read_op (sim_time_ns E)) (\<lambda>stamp.
         bindX (wall_offset E) (\<lambda>offset.
         mod_rec (\<lambda>r. r\<lparr>feedback_trace := feedback_trace r @
           [\<lparr>fb_current_waypoint = waypoint, fb_sim_stamp_ns = stamp,
             fb_wall_offset_s = offset, fb_valid_index = valid\<rparr>]\<rparr>)))))) (\<lambda>_. P) (\<lambda>_. P)"
  proof (cases full)
    case True
    have "keeps P (bindX (get_rec (\<lambda>r. (feedback_trace_overflow_count r, int (length (feedback_trace r))))) (\<lambda>(c, n).
        if c = 1 then record_event E ''feedback_trace_overflow'' None
              [(''feedback_trace_capacity'', PInt (int FEEDBACK_TRACE_CAPACITY)),
               (''retained_feedback_count'', PInt n)]
        else retX ()))"
      by (intro keep_rules keep_event)
    from hoare_then [OF drop this] True show ?thesis by (simp only: if_True) (erule hoare_pre, simp)
  next
    case False
    then show ?thesis
      by (simp only: if_False Let_def) (rule hoare_pre [OF keep_feedback_room], simp)
  qed
qed

lemma keep_feedbacks: "keeps P (record_feedbacks E obs)"
proof (induction obs)
  case Nil
  show ?case unfolding record_feedbacks.simps by (rule keep_ret)
next
  case (Cons i obs)
  then show ?case unfolding record_feedbacks.simps by (intro keep_then keep_feedback)
qed

lemma keep_spin: "keeps P (spin E timeout)"
  unfolding spin_def by (intro keep_rules keep_feedbacks)

lemma keep_spin_bounded: "keeps P (spin_bounded E deadline)"
  unfolding spin_bounded_def by (intro keep_rules keep_spin)

lemma keep_poll_loop:
  assumes "\<And>l. keeps P (body l)"
  shows "keeps P (poll_loop E deadline body l)"
  unfolding poll_loop_def
proof (rule hoare_loop)
  have *: "keeps P (poll_body E deadline body l)" for l
    unfolding poll_body_def by (intro keep_rules keep_spin_bounded assms)
  show "hoare P (poll_body E deadline body l) (\<lambda>r s. case r of Inl l' \<Rightarrow> P s | Inr v \<Rightarrow> P s) (\<lambda>_. P)" for l
    by (rule hoare_weaken [OF *]) (auto split: sum.splits)
qed

lemmas keep_ops = keep_rules keep_event keep_wall_offset keep_spin keep_spin_bounded keep_poll_loop
  keep_raise_if_feedback_trace_overflow keep_deadline_after

lemma keep_wait_for_value: "keeps P (wait_for_value E poll timeout fail_on_overflow)"
  unfolding wait_for_value_def by (intro keep_ops)

lemma keep_wait_for_server: "keeps P (wait_for_server E)"
  unfolding wait_for_server_def by (intro keep_ops)

lemma keep_wait_for_advancing: "keeps P (wait_for_advancing_positive_sim_time E)"
  unfolding wait_for_advancing_positive_sim_time_def by (intro keep_ops)

lemma keep_wait_for_client_clock: "keeps P (wait_for_client_clock_to_reach E a b)"
  unfolding wait_for_client_clock_to_reach_def by (intro keep_ops)

lemma keep_wait_for_fault_event: "keeps P (wait_for_fault_event E t)"
  unfolding wait_for_fault_event_def by (intro keep_ops keep_collect_fault_events)

lemmas keep_waits = keep_wait_for_value keep_wait_for_server keep_wait_for_advancing
  keep_wait_for_client_clock keep_collect_fault_events keep_wait_for_fault_event
  keep_require_fault_contract

end

section \<open>Predicates of the traces\<close>

definition traces :: "execution_record \<Rightarrow>
   mission_event list \<times> bool \<times> int \<times> feedback_observation list \<times> bool \<times> int \<times> int \<times> pydict list \<times> bool \<times> int" where
  "traces r = (events r, event_trace_overflow r, event_trace_overflow_count r, feedback_trace r,
     feedback_trace_overflow r, feedback_trace_overflow_count r, invalid_feedback_count r,
     fault_events r, fault_event_overflow r, fault_event_overflow_count r)"

locale quiet_open = quiet +
  assumes quiet_other: "P s \<Longrightarrow> traces r = traces (xrec s) \<Longrightarrow> exit_code r = exit_code (xrec s) \<Longrightarrow>
      P (s\<lparr>xrec := r\<rparr>)"
    and quiet_flag: "P s \<Longrightarrow> P (s\<lparr>accepted_goal_active := b\<rparr>)"
    and quiet_failed: "P s \<Longrightarrow> code \<noteq> SUCCESS \<Longrightarrow>
      P (s\<lparr>xrec := (xrec s)\<lparr>exit_code := code, reason := why\<rparr>\<rparr>)"
begin

lemma keep_mod: "(\<And>r. traces (f r) = traces r \<and> exit_code (f r) = exit_code r) \<Longrightarrow> keeps P (mod_rec f)"
  using quiet_other by (intro hoare_mod_rec) blast

lemma keep_flag: "keeps P (modX (\<lambda>s. s\<lparr>accepted_goal_active := b\<rparr>))"
  using quiet_flag by (intro hoare_mod)

lemma keep_finish: "code \<noteq> SUCCESS \<Longrightarrow> keeps P (finish code why)"
  unfolding finish_def using quiet_failed by (intro hoare_mod_rec) (simp add: finish_record_def)

lemma keep_reset_faults: "keeps P (reset_faults E b)"
  unfolding reset_faults_def by (intro keep_ops keep_waits keep_mod) (simp add: traces_def)

lemma keep_prepare_fault_schedule: "keeps P (prepare_fault_schedule E)"
  unfolding prepare_fault_schedule_def
  by (intro keep_ops keep_waits keep_reset_faults keep_mod) (simp add: traces_def)

lemma keep_arm_fault_schedule: "keeps P (arm_fault_schedule E u t)"
  unfolding arm_fault_schedule_def by (intro keep_ops keep_waits keep_mod) (simp add: traces_def)

lemma keep_capture_terminal: "keeps P (capture_terminal E t)"
  unfolding capture_terminal_def by (intro keep_ops keep_mod) (simp_all add: traces_def)

lemma keep_cancel_and_await_terminal: "code \<noteq> SUCCESS \<Longrightarrow> keeps P (cancel_and_await_terminal E code why)"
  unfolding cancel_and_await_terminal_def
  by (intro keep_ops keep_waits keep_mod keep_capture_terminal keep_finish) (simp_all add: traces_def)

lemma keep_cancel_after_deadline: "keeps P (cancel_after_deadline E kind)"
  unfolding cancel_after_deadline_def
  by (intro keep_ops keep_mod keep_cancel_and_await_terminal) (simp_all add: traces_def)

lemma keep_fail_closed: "keeps P (fail_closed_after_acceptance E why)"
  unfolding fail_closed_after_acceptance_def
  by (intro keep_ops keep_cancel_and_await_terminal keep_finish) simp_all

lemma keep_close_failed: "keeps P (close_failed E why)"
  unfolding close_failed_def by (intro keep_ops keep_fail_closed keep_finish) simp

lemma keep_handle_failure: "keeps P (handle_failure E e)"
  by (induction e; unfold handle_failure.simps; intro keep_ops keep_close_failed)

lemma keep_teardown_failure: "keeps P (mod_rec (teardown_failure why))"
  using quiet_failed by (intro hoare_mod_rec) (simp add: teardown_failure_def)

lemma keep_run_teardown: "keeps P (run_teardown E)"
proof -
  have "keeps P (case e of FaultProtocolError m \<Rightarrow> mod_rec (teardown_failure m) | _ \<Rightarrow> raiseX e)" for e
    by (cases e) (simp_all only: exn.case keep_teardown_failure keep_raise)
  then show ?thesis unfolding run_teardown_def
    by (intro keep_ops keep_waits keep_reset_faults keep_teardown_failure)
qed

end

text \<open>A predicate that also survives the success verdict holds of every run.\<close>

locale quiet_run = quiet_open +
  assumes quiet_success: "P s \<Longrightarrow> P (s\<lparr>xrec := (xrec s)\<lparr>exit_code := SUCCESS, reason := why\<rparr>\<rparr>)"
begin

lemma keep_finish_any: "keeps P (finish code why)"
  unfolding finish_def using quiet_failed quiet_success
  by (cases "code = SUCCESS") (auto intro!: hoare_mod_rec simp: finish_record_def)

lemma keep_finish_from_terminal: "keeps P (finish_from_terminal E t)"
  unfolding finish_from_terminal_def by (intro keep_ops keep_capture_terminal keep_finish_any)

lemma keep_wait_for_terminal: "keeps P (wait_for_terminal_or_deadline E a b c)"
  unfolding wait_for_terminal_or_deadline_def
proof (intro keep_then keep_raise_if hoare_loop)
  have *: "keeps P (terminal_body E a b c u)" for u
    unfolding terminal_body_def terminal_poll_def
    by (intro keep_ops keep_waits keep_finish_any keep_finish_from_terminal keep_cancel_after_deadline)
  show "hoare P (terminal_body E a b c u) (\<lambda>r s. case r of Inl l' \<Rightarrow> P s | Inr v \<Rightarrow> P s) (\<lambda>_. P)" for u
    by (rule hoare_weaken [OF *]) (auto split: sum.splits)
qed

lemma keep_run_accepted: "keeps P (run_accepted E u a b c d)"
  unfolding run_accepted_def
  by (intro keep_ops keep_waits keep_mod keep_fail_closed keep_arm_fault_schedule keep_wait_for_terminal)
    (simp add: traces_def)

lemma keep_run_response: "keeps P (run_response E t resp)"
  unfolding run_response_def
  by (intro keep_ops keep_waits keep_mod keep_fail_closed keep_run_accepted) (simp_all add: traces_def)

lemma keep_run_goal: "keeps P (run_goal E)"
  unfolding run_goal_def
  by (intro keep_ops keep_waits keep_mod keep_flag keep_finish_any keep_prepare_fault_schedule keep_run_response)
    (simp add: traces_def)

lemma keep_run: "keeps P (run E)"
  unfolding run_def run_once_def
  by (intro keep_ops keep_flag keep_run_goal keep_handle_failure keep_run_teardown)

lemma execute_keeps: "P (new_executor E w) \<Longrightarrow> execute E w = Some (res, s) \<Longrightarrow> P s"
  using keep_run unfolding execute_def by (cases res) (auto dest: hoare_value hoare_exn)

end

section \<open>The trace invariant\<close>

definition event_seq :: "pydict \<Rightarrow> pyval" where
  "event_seq d = dget d ''event_sequence''"

definition consecutive :: "pydict list \<Rightarrow> int \<Rightarrow> bool" where
  "consecutive ds first \<longleftrightarrow> map event_seq ds = map (\<lambda>i. PInt (first + int i)) [0..<length ds]"

definition fault_event_ok :: "pydict \<Rightarrow> bool" where
  "fault_event_ok d \<longleftrightarrow> py_eq (dget d ''schema_version'') (PInt 2)
     \<and> (\<exists>t. dget d ''event_type'' = PInt t \<and> 1 \<le> t \<and> t \<le> 9)"

definition record_trace_inv :: "execution_record \<Rightarrow> bool" where
  "record_trace_inv r \<longleftrightarrow>
     length (events r) \<le> MISSION_EVENT_TRACE_CAPACITY
     \<and> 0 \<le> event_trace_overflow_count r
     \<and> (event_trace_overflow r \<longleftrightarrow> 0 < event_trace_overflow_count r)
     \<and> (event_trace_overflow r \<longrightarrow> length (events r) = MISSION_EVENT_TRACE_CAPACITY)
     \<and> length (feedback_trace r) \<le> FEEDBACK_TRACE_CAPACITY
     \<and> 0 \<le> feedback_trace_overflow_count r
     \<and> (feedback_trace_overflow r \<longleftrightarrow> 0 < feedback_trace_overflow_count r)
     \<and> (feedback_trace_overflow r \<longrightarrow> length (feedback_trace r) = FEEDBACK_TRACE_CAPACITY)
     \<and> invalid_feedback_count r = int (length (filter (\<lambda>o'. \<not> fb_valid_index o') (feedback_trace r)))
     \<and> length (fault_events r) \<le> FAULT_EVENT_TRACE_CAPACITY
     \<and> (fault_event_overflow_count r \<noteq> 0 \<longrightarrow> fault_event_overflow r)
     \<and> list_all fault_event_ok (fault_events r)
     \<and> (\<exists>first. consecutive (fault_events r) first)"

definition sequence_inv :: "pydict list \<Rightarrow> int option \<Rightarrow> bool" where
  "sequence_inv fe sequence \<longleftrightarrow>
     (\<exists>first. consecutive fe first
        \<and> (length fe < FAULT_EVENT_TRACE_CAPACITY \<longrightarrow>
             sequence = (if fe = [] then None else Some (first + int (length fe) - 1))))"

text \<open>What \<open>event_overflow_count\<close> of the fault-control protocol reports is a count.\<close>

definition counts_overflow :: "'w fault_control_driver \<Rightarrow> bool" where
  "counts_overflow fd \<longleftrightarrow> (\<forall>w n w'. event_overflow_count fd w = (Inr n, w') \<longrightarrow> 0 \<le> n)"

definition overflow_counted :: "'w mission_env \<Rightarrow> bool" where
  "overflow_counted E \<longleftrightarrow> (\<forall>fd. fault_driver E = Some fd \<longrightarrow> counts_overflow fd)"

definition trace_inv :: "'w mission_env \<Rightarrow> 'w xst \<Rightarrow> bool" where
  "trace_inv E s \<longleftrightarrow> record_trace_inv (xrec s) \<and> sequence_inv (fault_events (xrec s)) (fault_event_sequence s)
     \<and> (overflow_counted E \<longrightarrow> 0 \<le> fault_event_overflow_count (xrec s)
          \<and> (fault_event_overflow (xrec s) \<longleftrightarrow> 0 < fault_event_overflow_count (xrec s)))"

lemma consecutive_snoc:
  assumes "consecutive ds first" "event_seq d = PInt (first + int (length ds))"
  shows "consecutive (ds @ [d]) first"
  using assms by (simp add: consecutive_def)

lemma consecutive_single: "event_seq d = PInt q \<Longrightarrow> consecutive [d] q"
  by (simp add: consecutive_def)

lemma sequence_inv_push:
  assumes "sequence_inv fe sequence" and "length fe < FAULT_EVENT_TRACE_CAPACITY"
    and q: "event_seq d = PInt q" and seq: "sequence = None \<or> sequence = Some (q - 1)"
  shows "sequence_inv (fe @ [d]) (Some q)"
proof -
  obtain first where first: "consecutive fe first"
    "sequence = (if fe = [] then None else Some (first + int (length fe) - 1))"
    using assms(1,2) unfolding sequence_inv_def by blast
  have "consecutive (fe @ [d]) (q - int (length fe))"
  proof (cases "fe = []")
    case True
    then show ?thesis using consecutive_single [OF q] by simp
  next
    case False
    then have "q = first + int (length fe)" using first(2) seq by auto
    with consecutive_snoc [OF first(1)] q show ?thesis by simp
  qed
  then show ?thesis unfolding sequence_inv_def by (intro exI [of _ "q - int (length fe)"]) simp
qed

lemma sequence_inv_full:
  "sequence_inv fe sequence \<Longrightarrow> FAULT_EVENT_TRACE_CAPACITY \<le> length fe \<Longrightarrow> sequence_inv fe sequence'"
  by (auto simp: sequence_inv_def)

lemma sequence_inv_consecutive: "sequence_inv fe sequence \<Longrightarrow> \<exists>first. consecutive fe first"
  by (auto simp: sequence_inv_def)

lemma trace_inv_fault_keep:
  assumes "trace_inv E s" and room: "length (fault_events (xrec s)) < FAULT_EVENT_TRACE_CAPACITY"
    and ok: "fault_event_ok d" and q: "event_seq d = PInt q"
    and seq: "fault_event_sequence s = None \<or> fault_event_sequence s = Some (q - 1)"
  shows "trace_inv E (s\<lparr>fault_event_sequence := Some q,
    xrec := (xrec s)\<lparr>fault_events := fault_events (xrec s) @ [d]\<rparr>\<rparr>)"
proof -
  have "sequence_inv (fault_events (xrec s) @ [d]) (Some q)"
    using sequence_inv_push [OF _ room q seq] assms(1) by (simp add: trace_inv_def)
  then show ?thesis using assms(1) room ok sequence_inv_consecutive
    by (auto simp: trace_inv_def record_trace_inv_def)
qed

interpretation trace: quiet_run "trace_inv E" E for E :: "'w mission_env"
proof
  fix s :: "'w xst" and w ev fb n d t q r b code why fd w0 w0'
  assume i: "trace_inv E s"
  then have r: "record_trace_inv (xrec s)" and q': "sequence_inv (fault_events (xrec s)) (fault_event_sequence s)"
    by (simp_all add: trace_inv_def)
  show "trace_inv E (s\<lparr>world := w\<rparr>)" "trace_inv E (s\<lparr>accepted_goal_active := b\<rparr>)"
    using i by (simp_all add: trace_inv_def)
  show "trace_inv E (s\<lparr>xrec := (xrec s)\<lparr>fault_event_overflow := True, fault_event_overflow_count := n\<rparr>\<rparr>)"
    if "fault_driver E = Some fd" "event_overflow_count fd w0 = (Inr n, w0')" "n \<noteq> 0"
  proof -
    have "0 < n \<and> 0 \<le> n" if "overflow_counted E"
      using that \<open>fault_driver E = Some fd\<close> \<open>event_overflow_count fd w0 = (Inr n, w0')\<close> \<open>n \<noteq> 0\<close>
      unfolding overflow_counted_def counts_overflow_def by fastforce
    then show ?thesis using r q' by (simp add: trace_inv_def record_trace_inv_def)
  qed
  show "trace_inv E (s\<lparr>xrec := r\<rparr>)" if "traces r = traces (xrec s)" for r
    using that i by (simp add: trace_inv_def record_trace_inv_def traces_def)
  show "trace_inv E (s\<lparr>xrec := (xrec s)\<lparr>exit_code := code, reason := why\<rparr>\<rparr>)"
    "trace_inv E (s\<lparr>xrec := (xrec s)\<lparr>exit_code := SUCCESS, reason := why\<rparr>\<rparr>)"
    using i by (simp_all add: trace_inv_def record_trace_inv_def)
  show "trace_inv E (s\<lparr>xrec := (xrec s)\<lparr>event_trace_overflow := True,
      event_trace_overflow_count := event_trace_overflow_count (xrec s) + 1\<rparr>\<rparr>)"
    if "MISSION_EVENT_TRACE_CAPACITY \<le> length (events (xrec s))"
    using that i by (simp add: trace_inv_def record_trace_inv_def)
  show "trace_inv E (s\<lparr>xrec := (xrec s)\<lparr>events := events (xrec s) @ [ev]\<rparr>\<rparr>)"
    if "length (events (xrec s)) < MISSION_EVENT_TRACE_CAPACITY"
    using that i by (auto simp add: trace_inv_def record_trace_inv_def)
  show "trace_inv E (s\<lparr>xrec := (xrec s)\<lparr>feedback_trace_overflow := True,
      feedback_trace_overflow_count := feedback_trace_overflow_count (xrec s) + 1\<rparr>\<rparr>)"
    if "FEEDBACK_TRACE_CAPACITY \<le> length (feedback_trace (xrec s))"
    using that i by (simp add: trace_inv_def record_trace_inv_def)
  show "trace_inv E (s\<lparr>xrec := (xrec s)\<lparr>
      invalid_feedback_count := invalid_feedback_count (xrec s) + (if fb_valid_index fb then 0 else 1),
      feedback_trace := feedback_trace (xrec s) @ [fb]\<rparr>\<rparr>)"
    if "length (feedback_trace (xrec s)) < FEEDBACK_TRACE_CAPACITY"
    using that i by (auto simp: trace_inv_def record_trace_inv_def)
  show "trace_inv E (s\<lparr>fault_event_sequence := Some q, xrec := (xrec s)\<lparr>fault_event_overflow := True,
      fault_event_overflow_count := fault_event_overflow_count (xrec s) + 1\<rparr>\<rparr>)"
    if "FAULT_EVENT_TRACE_CAPACITY \<le> length (fault_events (xrec s))"
    using that i sequence_inv_full [OF q' that] by (simp add: trace_inv_def record_trace_inv_def)
  show "trace_inv E (s\<lparr>fault_event_sequence := Some q,
      xrec := (xrec s)\<lparr>fault_events := fault_events (xrec s) @ [d]\<rparr>\<rparr>)"
    if "length (fault_events (xrec s)) < FAULT_EVENT_TRACE_CAPACITY"
      "py_eq (dget d ''schema_version'') (PInt 2)" "dget d ''event_type'' = PInt t" "1 \<le> t" "t \<le> 9"
      "dget d ''event_sequence'' = PInt q"
      "fault_event_sequence s = None \<or> fault_event_sequence s = Some (q - 1)"
  proof (rule trace_inv_fault_keep [OF i that(1) _ _ that(7)])
    show "fault_event_ok d" unfolding fault_event_ok_def using that(2-5) by blast
    show "event_seq d = PInt q" unfolding event_seq_def by (rule that(6))
  qed
qed

lemma trace_inv_new: "trace_inv E (new_executor E w)"
proof -
  have "sequence_inv [] None" "consecutive [] 0" by (simp_all add: sequence_inv_def consecutive_def)
  then show ?thesis
    by (auto simp: new_executor_def new_record_def trace_inv_def record_trace_inv_def split: prod.splits)
qed

section \<open>Feedback of a successful run\<close>

definition unsuccessful :: "'w xst \<Rightarrow> bool" where
  "unsuccessful s \<longleftrightarrow> exit_code (xrec s) \<noteq> SUCCESS"

definition unflooded :: "'w xst \<Rightarrow> bool" where
  "unflooded s \<longleftrightarrow> unsuccessful s \<and> \<not> feedback_trace_overflow (xrec s)"

definition clean_success :: "'w xst \<Rightarrow> bool" where
  "clean_success s \<longleftrightarrow> (exit_code (xrec s) = SUCCESS \<longrightarrow> \<not> feedback_trace_overflow (xrec s))"

interpretation open_run: quiet_open unsuccessful E for E :: "'w mission_env"
  by unfold_locales (simp_all add: unsuccessful_def)

interpretation dry: silent unflooded E for E :: "'w mission_env"
  by unfold_locales (simp_all add: unflooded_def unsuccessful_def)

lemma unflooded_unsuccessful: "unflooded s \<Longrightarrow> unsuccessful s"
  by (simp add: unflooded_def)

lemma unsuccessful_clean: "unsuccessful s \<Longrightarrow> clean_success s"
  by (simp add: unsuccessful_def clean_success_def)

text \<open>The guard of the wait for the terminal result: past it, the trace has not overflowed.\<close>

lemma overflow_guard:
  "hoare unsuccessful raise_if_feedback_trace_overflow (\<lambda>_. unflooded) (\<lambda>_. unsuccessful)"
  by (simp add: hoare_def raise_if_feedback_trace_overflow_def bindX_def get_rec_def raise_if_def unflooded_def)

lemma dry_step:
  "keeps unflooded m \<Longrightarrow> hoare unflooded m (\<lambda>_. unflooded) (\<lambda>_. unsuccessful)"
  by (erule hoare_weaken) (auto intro: unflooded_unsuccessful)

lemma dry_mod: "(\<And>r. exit_code (f r) = exit_code r \<and> feedback_trace_overflow (f r) = feedback_trace_overflow r)
    \<Longrightarrow> keeps unflooded (mod_rec f)"
  by (rule hoare_mod_rec) (simp add: unflooded_def unsuccessful_def)

lemma finish_from_terminal_clean:
  "hoare unflooded (finish_from_terminal E t) (\<lambda>_. clean_success) (\<lambda>_. unsuccessful)"
proof -
  have "keeps unflooded (capture_terminal E t)"
    unfolding capture_terminal_def by (intro dry.keep_observations dry_mod) simp_all
  moreover have "hoare unflooded (bindX (get_rec (terminal_verdict t)) (\<lambda>(code, why). finish code why))
      (\<lambda>_. clean_success) (\<lambda>_. unsuccessful)"
    by (auto simp: hoare_def bindX_def get_rec_def finish_def mod_rec_def finish_record_def clean_success_def
        unflooded_def split: prod.splits)
  ultimately show ?thesis unfolding finish_from_terminal_def by (blast intro: hoare_then dry_step)
qed

lemma last_step: "keeps unsuccessful m \<Longrightarrow> hoare unsuccessful m (\<lambda>_. clean_success) (\<lambda>_. unsuccessful)"
  by (erule hoare_weaken) (auto intro: unsuccessful_clean)

lemma leave_loop:
  "hoare P m (\<lambda>_. Q) R \<Longrightarrow> hoare P (thenX m (retX (Inr u))) (\<lambda>r s. case r of Inl l \<Rightarrow> P' s | Inr v \<Rightarrow> Q s) R"
  by (erule hoare_then) (simp add: hoare_def)

lemma terminal_poll_clean:
  "hoare unsuccessful (terminal_poll E a b c) (\<lambda>r s. case r of Inl l \<Rightarrow> unsuccessful s | Inr v \<Rightarrow> clean_success s)
     (\<lambda>_. unsuccessful)"
proof -
  let ?Q = "\<lambda>r s. case r of Inl l \<Rightarrow> unsuccessful s | Inr v \<Rightarrow> clean_success s"
  have go_on: "hoare unsuccessful (thenX m (retX (Inl u))) ?Q (\<lambda>_. unsuccessful)"
    if "keeps unsuccessful m" for m :: "('a, unit) xact" and u
    by (rule hoare_then [OF that]) (simp add: hoare_def)
  have stop: "hoare unsuccessful (thenX m (retX (Inr u))) ?Q (\<lambda>_. unsuccessful)"
    if "keeps unsuccessful m" for m :: "('a, unit) xact" and u
    by (rule leave_loop [OF last_step [OF that]])
  show ?thesis unfolding terminal_poll_def
    apply (rule hoare_then [OF overflow_guard])
    apply (rule hoare_then [OF dry_step [OF dry.keep_collect_fault_events]])
    apply (rule hoare_bind [OF dry_step [OF dry.keep_world]])
    apply (rule hoare_then [OF dry_step [OF dry.keep_raise_if]])
    apply (rule hoare_bind [OF dry_step [OF dry.keep_world]])
    apply (rule hoare_option)
     prefer 2
     apply (rule leave_loop [OF finish_from_terminal_clean])
    apply (rule hoare_pre [where P' = unsuccessful])
     prefer 2
     apply (erule unflooded_unsuccessful)
    apply (rule hoare_bind [OF open_run.keep_read])
    apply (rule hoare_if)
     apply (rule stop, rule open_run.keep_finish, simp)
    apply (rule hoare_option)
     apply (simp add: hoare_def)
    apply (rule hoare_if)
     apply (rule stop, rule open_run.keep_cancel_after_deadline)
    apply (rule hoare_bind [OF open_run.keep_read])
    apply (rule hoare_if)
     apply (rule stop, rule open_run.keep_cancel_after_deadline)
    apply (rule go_on, rule open_run.keep_spin)
    done
qed

lemma wait_for_terminal_clean:
  "hoare unsuccessful (wait_for_terminal_or_deadline E a b c) (\<lambda>_. clean_success) (\<lambda>_. unsuccessful)"
  unfolding wait_for_terminal_or_deadline_def
proof (rule hoare_then [OF open_run.keep_raise_if hoare_loop])
  show "hoare unsuccessful (terminal_body E a b c u)
      (\<lambda>r s. case r of Inl l \<Rightarrow> unsuccessful s | Inr v \<Rightarrow> clean_success s) (\<lambda>_. unsuccessful)" for u
    unfolding terminal_body_def
    by (rule hoare_bind [OF open_run.keep_read hoare_if [OF leave_loop [OF last_step] terminal_poll_clean]])
      (rule open_run.keep_finish, simp)
qed

lemmas open_steps = hoare_bind [OF open_run.keep_read] hoare_bind [OF open_run.keep_wall_offset]
  hoare_bind [OF open_run.keep_wait_for_value] hoare_then [OF open_run.keep_event]
  hoare_then [OF open_run.keep_raise_if] hoare_then [OF open_run.keep_world]
  hoare_then [OF open_run.keep_raise_if_feedback_trace_overflow] hoare_then [OF open_run.keep_mod]

lemma run_accepted_clean:
  "hoare unsuccessful (run_accepted E u a b c d) (\<lambda>_. clean_success) (\<lambda>_. unsuccessful)"
proof -
  have arm: "keeps unsuccessful (if is_phase3 (config E) then arm_fault_schedule E u d else retX ())"
    by (intro open_run.keep_if open_run.keep_arm_fault_schedule open_run.keep_ret)
  show ?thesis unfolding run_accepted_def
    by (intro open_steps hoare_bind [OF open_run.keep_wait_for_client_clock] hoare_if
        last_step [OF open_run.keep_fail_closed] hoare_then [OF arm wait_for_terminal_clean])
      (simp add: traces_def)
qed

lemma run_response_clean:
  "hoare unsuccessful (run_response E t resp) (\<lambda>_. clean_success) (\<lambda>_. unsuccessful)"
  unfolding run_response_def
  by (intro open_steps hoare_option hoare_if last_step [OF open_run.keep_fail_closed]
      last_step [OF open_run.keep_raise] run_accepted_clean) (simp_all add: traces_def)

lemma run_goal_clean:
  "hoare unsuccessful (run_goal E) (\<lambda>_. clean_success) (\<lambda>_. unsuccessful)"
proof -
  have prep: "keeps unsuccessful (if is_phase3 (config E) then prepare_fault_schedule E else retX ())"
    by (intro open_run.keep_if open_run.keep_prepare_fault_schedule open_run.keep_ret)
  show ?thesis unfolding run_goal_def
    by (intro open_steps hoare_bind [OF open_run.keep_wait_for_advancing] hoare_then [OF prep]
        hoare_bind [OF open_run.keep_wait_for_server] hoare_option hoare_if last_step [OF open_run.keep_finish]
        hoare_then [OF open_run.keep_flag] run_response_clean) (simp_all add: traces_def)
qed

lemma run_once_clean:
  "hoare unsuccessful (run_once E) (\<lambda>_. clean_success) (\<lambda>_. unsuccessful)"
  unfolding run_once_def
  by (rule hoare_then [OF open_run.keep_flag hoare_catch [OF run_goal_clean last_step [OF open_run.keep_handle_failure]]])

lemma execute_clean_success:
  assumes "execute E w = Some (Inr r, s)" and "\<not> is_phase3 (config E)"
  shows "exit_code r = SUCCESS \<Longrightarrow> \<not> feedback_trace_overflow r"
proof -
  have "unsuccessful (new_executor E w)"
    by (simp add: unsuccessful_def new_executor_def new_record_def split: prod.splits)
  moreover have "hoare unsuccessful (run E) (\<lambda>r s. clean_success s \<and> r = xrec s) (\<lambda>_ _. True)"
    unfolding run_def if_not_P [OF assms(2)]
  proof (rule hoare_then)
    show "hoare unsuccessful (run_once E) (\<lambda>_. clean_success) (\<lambda>_ _. True)"
      by (rule hoare_weaken [OF run_once_clean]) simp_all
  qed (simp add: hoare_def thenX_def bindX_def get_rec_def)
  ultimately have "clean_success s \<and> r = xrec s"
    using assms(1) unfolding execute_def by (auto dest: hoare_value)
  then show "exit_code r = SUCCESS \<Longrightarrow> \<not> feedback_trace_overflow r" by (simp add: clean_success_def)
qed

text \<open>C13: however the drivers, the clock and the executor behave, the record a mission run leaves
  (also when it ends in an exception) keeps its traces inside their capacities; the overflow flags of the
  event and feedback traces agree with their counters and are set only on a full trace; a nonzero
  fault-event overflow counter is always flagged, and when the fault driver reports its overflow as a
  count, the fault-event flag is set exactly when the counter is positive; the invalid feedback count is the number
  of invalid observations; and the retained fault events are schema 2, of a known type, and
  numbered without a gap.\<close>

theorem mission_traces_bounded:
  assumes "execute E w = Some (res, s)"
  shows "record_trace_inv (xrec s)
    \<and> (overflow_counted E \<longrightarrow>
        (fault_event_overflow (xrec s) \<longleftrightarrow> 0 < fault_event_overflow_count (xrec s)))"
  using trace.execute_keeps [OF trace_inv_new assms] by (auto simp: trace_inv_def)

end
