(* ===== verification/Mission_Verdict.thy ===== *)
theory Mission_Verdict
  imports Mission_Safety
begin

text \<open>
  What the exit code of a mission run says. A predicate \<open>onE p\<close> speaks of the execution record
  without its traces and of the flag \<open>accepted_goal_active\<close>; observing never changes it, so the facts
  of each phase (\<open>fresh\<close>, \<open>prepared\<close>, \<open>submitted\<close>, \<open>accepted\<close>, \<open>stamped\<close>, \<open>armed\<close>) carry over the waits
  to \<open>verdict\<close>, the postcondition of \<open>_run_once\<close>.
\<close>

section \<open>Records without their traces\<close>

definition erase :: "execution_record \<Rightarrow> execution_record" where
  "erase r = r\<lparr>events := [], event_trace_overflow := False, event_trace_overflow_count := 0,
     feedback_trace := [], feedback_trace_overflow := False, feedback_trace_overflow_count := 0,
     invalid_feedback_count := 0, fault_events := [], fault_event_overflow := False,
     fault_event_overflow_count := 0\<rparr>"

definition onE :: "(execution_record \<Rightarrow> bool \<Rightarrow> bool) \<Rightarrow> 'w xst \<Rightarrow> bool" where
  "onE p s = p (erase (xrec s)) (accepted_goal_active s)"

interpretation frame: quiet "onE p" E for p and E :: "'w mission_env"
  by unfold_locales (simp_all add: onE_def erase_def)

lemma erase_fields [simp]:
  "goal_submission_stamp_ns (erase r) = goal_submission_stamp_ns r"
  "goal_response_stamp_ns (erase r) = goal_response_stamp_ns r"
  "accepted_goal_uuid (erase r) = accepted_goal_uuid r"
  "accepted_goal_stamp_ns (erase r) = accepted_goal_stamp_ns r"
  "terminal_action_stamp_ns (erase r) = terminal_action_stamp_ns r"
  "terminal_result (erase r) = terminal_result r"
  "cancellation_requested (erase r) = cancellation_requested r"
  "cancel_acknowledged (erase r) = cancel_acknowledged r"
  "deadline_kind (erase r) = deadline_kind r"
  "fault_schedule_hash (erase r) = fault_schedule_hash r"
  "fault_generation (erase r) = fault_generation r"
  "fault_arm_commit_stamp_ns (erase r) = fault_arm_commit_stamp_ns r"
  "fault_arm_margin_ns (erase r) = fault_arm_margin_ns r"
  "fault_reset_before_goal (erase r) = fault_reset_before_goal r"
  "fault_reset_after_goal (erase r) = fault_reset_after_goal r"
  "exit_code (erase r) = exit_code r"
  "reason (erase r) = reason r"
  by (simp_all add: erase_def)

text \<open>One step of a phase: a quiet action keeps the phase, and an exception leaves \<open>q\<close>.\<close>

lemma quiet_step:
  assumes "keeps (onE p) m" and "\<And>a. hoare (onE p) (k a) Q (\<lambda>_. onE q)" and "\<And>r b. p r b \<Longrightarrow> q r b"
  shows "hoare (onE p) (bindX m k) Q (\<lambda>_. onE q)"
proof (rule hoare_bind)
  show "hoare (onE p) m (\<lambda>_. onE p) (\<lambda>_. onE q)"
    by (rule hoare_weaken [OF assms(1)]) (auto simp: onE_def intro: assms(3))
qed (rule assms(2))

lemma quiet_then:
  assumes "keeps (onE p) m" and "hoare (onE p) n Q (\<lambda>_. onE q)" and "\<And>r b. p r b \<Longrightarrow> q r b"
  shows "hoare (onE p) (thenX m n) Q (\<lambda>_. onE q)"
  unfolding thenX_def by (rule quiet_step [OF assms(1) _ assms(3)]) (rule assms(2))

lemma check_then:
  assumes "\<not> c \<Longrightarrow> hoare (onE p) n Q (\<lambda>_. onE q)" and "\<And>r b. p r b \<Longrightarrow> q r b"
  shows "hoare (onE p) (thenX (raise_if c e) n) Q (\<lambda>_. onE q)"
  using assms by (cases c) (auto simp: hoare_def thenX_def bindX_def raise_if_def onE_def)

lemma option_then:
  assumes "x = None \<Longrightarrow> hoare (onE p) n Q (\<lambda>_. onE q)" and "\<And>r b. p r b \<Longrightarrow> q r b"
  shows "hoare (onE p) (thenX (case x of None \<Rightarrow> retX () | Some e \<Rightarrow> raiseX e) n) Q (\<lambda>_. onE q)"
  using assms by (cases x) (auto simp: hoare_def thenX_def bindX_def onE_def)

lemma update_then:
  assumes "\<And>r b. p (erase r) b \<Longrightarrow> p' (erase (f r)) b" and "hoare (onE p') n Q (\<lambda>_. onE q)"
  shows "hoare (onE p) (thenX (mod_rec f) n) Q (\<lambda>_. onE q)"
  by (rule hoare_then [OF hoare_mod_rec assms(2)]) (simp add: onE_def assms(1))

lemma raise_step: "(\<And>r b. p r b \<Longrightarrow> q r b) \<Longrightarrow> hoare (onE p) (raiseX e) Q (\<lambda>_. onE q)"
  by (simp add: hoare_def onE_def)

lemma finish_step:
  assumes "\<And>r b. p (erase r) b \<Longrightarrow> v (erase (finish_record code why r)) b"
  shows "hoare (onE p) (finish code why) (\<lambda>_. onE v) R"
  unfolding finish_def by (rule hoare_mod_rec) (simp add: onE_def assms)

section \<open>Phases\<close>

definition failing :: "execution_record \<Rightarrow> bool \<Rightarrow> bool" where
  "failing r b \<longleftrightarrow> exit_code r = INFRASTRUCTURE_ERROR \<and> (accepted_goal_uuid r \<noteq> None \<longrightarrow> b)"

definition fresh :: "execution_record \<Rightarrow> bool \<Rightarrow> bool" where
  "fresh r b \<longleftrightarrow> exit_code r = INFRASTRUCTURE_ERROR \<and> accepted_goal_uuid r = None
     \<and> \<not> cancellation_requested r \<and> deadline_kind r = None"

definition prepared :: "mission_config \<Rightarrow> execution_record \<Rightarrow> bool \<Rightarrow> bool" where
  "prepared c r b \<longleftrightarrow> fresh r b \<and>
     (is_phase3 c \<longrightarrow> fault_reset_before_goal r
        \<and> (\<exists>sch. config_fault_schedule c = Some sch \<and> fault_schedule_hash r = Some (sha256 sch))
        \<and> (\<exists>g. fault_generation r = Some g \<and> 0 < g \<and> g \<le> 18446744073709551615))"

definition submitted :: "mission_config \<Rightarrow> int \<Rightarrow> execution_record \<Rightarrow> bool \<Rightarrow> bool" where
  "submitted c t r b \<longleftrightarrow> prepared c r b \<and> goal_submission_stamp_ns r = Some t"

definition accepted :: "mission_config \<Rightarrow> execution_record \<Rightarrow> bool \<Rightarrow> bool" where
  "accepted c r b \<longleftrightarrow> b \<and> exit_code r = INFRASTRUCTURE_ERROR
     \<and> \<not> cancellation_requested r \<and> deadline_kind r = None
     \<and> (\<exists>u. accepted_goal_uuid r = Some u \<and> u \<noteq> '''')
     \<and> (\<exists>t. goal_submission_stamp_ns r = Some t \<and> 0 < t)
     \<and> (is_phase3 c \<longrightarrow> fault_reset_before_goal r
        \<and> (\<exists>sch. config_fault_schedule c = Some sch \<and> fault_schedule_hash r = Some (sha256 sch))
        \<and> (\<exists>g. fault_generation r = Some g \<and> 0 < g \<and> g \<le> 18446744073709551615))"

definition stamped :: "mission_config \<Rightarrow> int \<Rightarrow> execution_record \<Rightarrow> bool \<Rightarrow> bool" where
  "stamped c t r b \<longleftrightarrow> accepted c r b \<and> accepted_goal_stamp_ns r = Some t \<and> 0 < t"

text \<open>The arm law: the fault control committed at or after T0, and left the margin it reports,
  at least 500 ms before the first fault; an empty schedule has margin 0.\<close>

definition arm_law :: "fault_schedule \<Rightarrow> int \<Rightarrow> execution_record \<Rightarrow> bool" where
  "arm_law sch t0 r \<longleftrightarrow>
     (\<exists>commit margin. fault_arm_commit_stamp_ns r = Some commit \<and> fault_arm_margin_ns r = Some margin
        \<and> t0 \<le> commit
        \<and> (case earliest_start_offset_ns sch of
             None \<Rightarrow> margin = 0
           | Some earliest \<Rightarrow> margin = t0 + earliest - commit \<and> MIN_ARM_MARGIN_NS \<le> margin))"

definition armed :: "mission_config \<Rightarrow> int \<Rightarrow> execution_record \<Rightarrow> bool \<Rightarrow> bool" where
  "armed c t r b \<longleftrightarrow> stamped c t r b \<and>
     (is_phase3 c \<longrightarrow> (\<exists>sch. config_fault_schedule c = Some sch \<and> arm_law sch t r))"

lemma phase_failing:
  "fresh r b \<Longrightarrow> failing r b" "prepared c r b \<Longrightarrow> failing r b" "submitted c t r b \<Longrightarrow> failing r b"
  "accepted c r b \<Longrightarrow> failing r b" "stamped c t r b \<Longrightarrow> failing r b" "armed c t r b \<Longrightarrow> failing r b"
  by (simp_all add: fresh_def prepared_def submitted_def accepted_def stamped_def armed_def failing_def)

section \<open>The verdict\<close>

definition success_facts :: "mission_config \<Rightarrow> execution_record \<Rightarrow> bool" where
  "success_facts c r \<longleftrightarrow>
     (\<exists>terminal t0 stamp. terminal_result r = Some terminal
        \<and> status_code terminal = GOAL_STATUS_SUCCEEDED \<and> error_code terminal = NAV2_ERROR_NONE
        \<and> missed_waypoints terminal = []
        \<and> accepted_goal_stamp_ns r = Some t0 \<and> 0 < t0
        \<and> terminal_action_stamp_ns r = Some stamp \<and> t0 \<le> stamp
        \<and> (\<exists>u. accepted_goal_uuid r = Some u \<and> u \<noteq> '''')
        \<and> (\<exists>t. goal_submission_stamp_ns r = Some t \<and> 0 < t)
        \<and> \<not> cancellation_requested r \<and> deadline_kind r = None
        \<and> (is_phase3 c \<longrightarrow> fault_reset_before_goal r
           \<and> (\<exists>sch g. config_fault_schedule c = Some sch \<and> fault_schedule_hash r = Some (sha256 sch)
                \<and> fault_generation r = Some g \<and> 0 < g \<and> g \<le> 18446744073709551615
                \<and> arm_law sch t0 r)))"

definition timeout_facts :: "execution_record \<Rightarrow> bool" where
  "timeout_facts r \<longleftrightarrow>
     deadline_kind r \<in> {Some ''simulation_timeout'', Some ''wall_escape_timeout''}
     \<and> cancellation_requested r \<and> cancel_acknowledged r = Some True \<and> terminal_result r \<noteq> None"

definition uncancelled_reasons :: "string set" where
  "uncancelled_reasons = {''simulation_clock_regressed'', ''rclpy_context_stopped'',
     ''mission_event_trace_overflow''}"

definition closed_facts :: "execution_record \<Rightarrow> bool" where
  "closed_facts r \<longleftrightarrow>
     accepted_goal_uuid r = None \<or> terminal_result r \<noteq> None \<or> cancellation_requested r
     \<or> reason r \<in> uncancelled_reasons"

definition verdict :: "mission_config \<Rightarrow> execution_record \<Rightarrow> bool \<Rightarrow> bool" where
  "verdict c r b \<longleftrightarrow>
     (exit_code r = SUCCESS \<longrightarrow> success_facts c r)
     \<and> (exit_code r = TIMEOUT \<longrightarrow> timeout_facts r)
     \<and> closed_facts r"

section \<open>Triples for the operations\<close>

lemma quiet_last: "keeps (onE p) m \<Longrightarrow> (\<And>r b. p r b \<Longrightarrow> q r b) \<Longrightarrow> hoare (onE p) m (\<lambda>_. onE p) (\<lambda>_. onE q)"
  by (erule hoare_weaken) (auto simp: onE_def)

lemma weaken_post: "hoare P m Q (\<lambda>_. onE p) \<Longrightarrow> (\<And>a s. Q a s \<Longrightarrow> Q' a s) \<Longrightarrow> (\<And>r b. p r b \<Longrightarrow> q r b)
    \<Longrightarrow> hoare P m Q' (\<lambda>_. onE q)"
  by (erule hoare_weaken) (auto simp: onE_def)

lemma strengthen_pre: "hoare (onE p') m Q R \<Longrightarrow> (\<And>r b. p r b \<Longrightarrow> p' r b) \<Longrightarrow> hoare (onE p) m Q R"
  by (erule hoare_pre) (auto simp: onE_def)

lemma contract_step:
  assumes "\<And>sch fd. config_fault_schedule (config E) = Some sch \<Longrightarrow> fault_driver E = Some fd
      \<Longrightarrow> hoare (onE p) (k (sch, fd)) Q (\<lambda>_. onE q)"
    and "\<And>r b. p r b \<Longrightarrow> q r b"
  shows "hoare (onE p) (bindX (require_fault_contract E) k) Q (\<lambda>_. onE q)"
proof (cases "\<exists>sch fd. config_fault_schedule (config E) = Some sch \<and> fault_driver E = Some fd")
  case False
  then have "require_fault_contract E = raiseX (FaultProtocolError ''phase3_fault_control_driver_unavailable'')"
    by (auto simp: require_fault_contract_def split: option.splits)
  then show ?thesis using assms(2) by (simp add: hoare_def bindX_def onE_def)
next
  case True
  then obtain sch fd where c: "config_fault_schedule (config E) = Some sch" "fault_driver E = Some fd" by blast
  then have "bindX (require_fault_contract E) k = k (sch, fd)"
    by (simp add: require_fault_contract_def bindX_def fun_eq_iff)
  with assms(1) [OF c] show ?thesis by simp
qed

lemma ret_step: "(\<And>r b. p r b \<Longrightarrow> v a r b) \<Longrightarrow> hoare (onE p) (retX a) (\<lambda>a. onE (v a)) R"
  by (simp add: hoare_def onE_def)

definition reset_mark :: "bool \<Rightarrow> execution_record \<Rightarrow> execution_record" where
  "reset_mark before_goal r =
     (if before_goal
      then r\<lparr>fault_reset_before_goal := True, fault_protocol_status := ''RESET_CONFIRMED''\<rparr>
      else r\<lparr>fault_reset_after_goal := True, fault_protocol_status := ''RESET_CONFIRMED_AFTER_GOAL''\<rparr>)"

definition reset_done :: "bool \<Rightarrow> execution_record \<Rightarrow> bool" where
  "reset_done before_goal r = (if before_goal then fault_reset_before_goal r else fault_reset_after_goal r)"

lemma erase_reset_mark: "erase (reset_mark before_goal r) = reset_mark before_goal (erase r)"
  by (simp add: reset_mark_def erase_def)

lemma reset_triple:
  assumes "\<And>r b. p r b \<Longrightarrow> p (reset_mark before_goal r) b"
  shows "hoare (onE p) (reset_faults E before_goal)
    (\<lambda>ok. onE (\<lambda>r b. p r b \<and> (ok \<longrightarrow> reset_done before_goal r))) (\<lambda>_. onE p)"
proof (cases "fault_driver E")
  case None
  then show ?thesis unfolding reset_faults_def by (simp only: option.case) (rule ret_step, simp)
next
  case (Some fd)
  have no: "hoare (onE p) (retX False) (\<lambda>ok. onE (\<lambda>r b. p r b \<and> (ok \<longrightarrow> reset_done before_goal r))) (\<lambda>_. onE p)"
    by (rule ret_step) simp
  have yes: "hoare (onE p) (thenX (mod_rec (reset_mark before_goal))
      (thenX (record_event E ''fault_reset_confirmed'' None
         [(''phase'', PStr (if before_goal then ''before_goal'' else ''after_goal''))]) (retX True)))
    (\<lambda>ok. onE (\<lambda>r b. p r b \<and> (ok \<longrightarrow> reset_done before_goal r))) (\<lambda>_. onE p)"
  proof (rule update_then)
    show "p (erase r) b \<Longrightarrow> (\<lambda>r b. p r b \<and> reset_done before_goal r) (erase (reset_mark before_goal r)) b" for r b
      unfolding erase_reset_mark using assms by (simp add: reset_done_def reset_mark_def)
    show "hoare (onE (\<lambda>r b. p r b \<and> reset_done before_goal r))
       (thenX (record_event E ''fault_reset_confirmed'' None
         [(''phase'', PStr (if before_goal then ''before_goal'' else ''after_goal''))]) (retX True))
       (\<lambda>ok. onE (\<lambda>r b. p r b \<and> (ok \<longrightarrow> reset_done before_goal r))) (\<lambda>_. onE p)"
      by (rule quiet_then [OF frame.keep_event ret_step]) simp_all
  qed
  note yes' = yes [unfolded reset_mark_def]
  show ?thesis unfolding reset_faults_def Some option.case
    apply (rule quiet_then [OF frame.keep_world])
     apply (rule quiet_step [OF frame.keep_wait_for_value])
      apply (rule hoare_if [OF no])
      apply (rule quiet_step [OF frame.keep_wait_for_fault_event])
       apply (rule hoare_if [OF no yes'])
      apply simp_all
    done
qed

lemma prepare_triple:
  assumes "is_phase3 (config E)"
  shows "hoare (onE fresh) (prepare_fault_schedule E) (\<lambda>_. onE (prepared (config E))) (\<lambda>_. onE failing)"
proof -
  have fail: "fresh r b \<Longrightarrow> failing r b" for r b by (rule phase_failing)
  let ?ready = "\<lambda>r b. fresh r b \<and> fault_reset_before_goal r"
  have ready_fail: "?ready r b \<Longrightarrow> failing r b" for r b using fail by blast
  have last: "hoare (onE ?ready)
     (thenX (mod_rec (\<lambda>r. r\<lparr>fault_schedule_hash := Some (sha256 sch), fault_generation := Some (pr_generation resp),
          fault_preload_replayed := Some (pr_replayed resp), fault_protocol_status := ''PREPARED''\<rparr>))
        (record_event E k t d)) (\<lambda>_. onE (prepared (config E))) (\<lambda>_. onE failing)"
    if "config_fault_schedule (config E) = Some sch" "\<not> preload_mismatch sch resp" for sch resp k t d
  proof (rule update_then)
    show "?ready (erase r) b \<Longrightarrow> prepared (config E) (erase (r\<lparr>fault_schedule_hash := Some (sha256 sch),
       fault_generation := Some (pr_generation resp), fault_preload_replayed := Some (pr_replayed resp),
       fault_protocol_status := ''PREPARED''\<rparr>)) b" for r b
      using that by (simp add: prepared_def fresh_def preload_mismatch_def)
    show "hoare (onE (prepared (config E))) (record_event E k t d) (\<lambda>_. onE (prepared (config E))) (\<lambda>_. onE failing)"
      by (rule quiet_last [OF frame.keep_event phase_failing(2)])
  qed
  have reset: "hoare (onE fresh) (reset_faults E True)
      (\<lambda>ok. onE (\<lambda>r b. fresh r b \<and> (ok \<longrightarrow> reset_done True r))) (\<lambda>_. onE failing)"
    by (rule weaken_post [OF reset_triple [where p = fresh]]) (simp_all add: fresh_def reset_mark_def failing_def)
  show ?thesis unfolding prepare_fault_schedule_def
    apply (rule contract_step [OF _ fail])
     apply (unfold prod.case)
     apply (rule quiet_step [OF frame.keep_deadline_after _ fail])
      apply (rule quiet_step [OF frame.keep_poll_loop _ fail])
        apply (intro frame.keep_ops frame.keep_waits)
       apply (rule check_then [OF _ fail])
        apply (rule hoare_bind [OF reset])
        apply (rule check_then)
         apply (rule strengthen_pre [where p' = ?ready])
          apply (rule quiet_then [OF frame.keep_world _ ready_fail])
           apply (rule quiet_step [OF frame.keep_wait_for_value _ ready_fail])
            apply (rule hoare_option)
             apply (rule raise_step [OF ready_fail], assumption)
            apply (rule check_then [OF _ ready_fail])
             apply (rule quiet_step [OF frame.keep_wait_for_fault_event _ ready_fail])
              apply (rule check_then [OF _ ready_fail])
               apply (rule last, assumption+)
    apply (simp_all add: reset_done_def fail)
    done
qed

lemma arm_triple:
  assumes "is_phase3 (config E)"
  shows "hoare (onE (stamped (config E) t)) (arm_fault_schedule E u t) (\<lambda>_. onE (armed (config E) t)) (\<lambda>_. onE failing)"
proof -
  have fail: "stamped (config E) t r b \<Longrightarrow> failing r b" for r b by (rule phase_failing)
  have last: "hoare (onE (stamped (config E) t))
     (thenX (mod_rec (\<lambda>r. r\<lparr>fault_arm_replayed := Some (ar_replayed resp),
          fault_arm_commit_stamp_ns := Some (ar_arm_commit_stamp_ns resp),
          fault_arm_margin_ns := Some (ar_arm_margin_ns resp), fault_protocol_status := ''ARMED''\<rparr>))
        (record_event E k st d)) (\<lambda>_. onE (armed (config E) t)) (\<lambda>_. onE failing)"
    if "config_fault_schedule (config E) = Some sch" "\<not> arm_mismatch sch g u t resp"
      "arm_margin_error sch t resp = None" for sch g resp k st d
  proof (rule update_then)
    show "stamped (config E) t (erase r) b \<Longrightarrow> armed (config E) t (erase (r\<lparr>fault_arm_replayed := Some (ar_replayed resp),
          fault_arm_commit_stamp_ns := Some (ar_arm_commit_stamp_ns resp),
          fault_arm_margin_ns := Some (ar_arm_margin_ns resp), fault_protocol_status := ''ARMED''\<rparr>)) b" for r b
      using that by (auto simp: armed_def stamped_def accepted_def arm_law_def arm_mismatch_def
          arm_margin_error_def split: option.splits if_splits)
    show "hoare (onE (armed (config E) t)) (record_event E k st d) (\<lambda>_. onE (armed (config E) t)) (\<lambda>_. onE failing)"
      by (rule quiet_last [OF frame.keep_event phase_failing(6)])
  qed
  show ?thesis unfolding arm_fault_schedule_def
    apply (rule contract_step [OF _ fail])
     apply (unfold prod.case)
     apply (rule quiet_step [OF frame.keep_get_rec _ fail])
      apply (rule hoare_option)
       apply (rule raise_step [OF fail], assumption)
      apply (rule check_then [OF _ fail])
       apply (rule quiet_then [OF frame.keep_world _ fail])
        apply (rule quiet_step [OF frame.keep_wait_for_value _ fail])
         apply (rule hoare_option)
          apply (rule raise_step [OF fail], assumption)
         apply (rule check_then [OF _ fail])
          apply (rule option_then)
           apply (rule quiet_step [OF frame.keep_wait_for_fault_event _ fail])
            apply (rule check_then [OF _ fail])
             apply (rule last, assumption+)
    apply (simp_all add: fail)
    done
qed

lemma capture_triple:
  assumes "\<And>r b x y z. p r b \<Longrightarrow> p (r\<lparr>terminal_result := x, terminal_action_stamp_ns := y, terminal_wall_offset_s := z\<rparr>) b"
    and "\<And>r b. p r b \<Longrightarrow> q r b"
  shows "hoare (onE p) (capture_terminal E terminal)
    (\<lambda>_. onE (\<lambda>r b. p r b \<and> terminal_result r = Some terminal \<and> (\<exists>st. terminal_action_stamp_ns r = Some st)))
    (\<lambda>_. onE q)"
proof -
  have self: "r\<lparr>terminal_result := x\<rparr> = r\<lparr>terminal_result := x,
      terminal_action_stamp_ns := terminal_action_stamp_ns r, terminal_wall_offset_s := terminal_wall_offset_s r\<rparr>"
    "r\<lparr>terminal_action_stamp_ns := y\<rparr> = r\<lparr>terminal_result := terminal_result r,
      terminal_action_stamp_ns := y, terminal_wall_offset_s := terminal_wall_offset_s r\<rparr>"
    "r\<lparr>terminal_wall_offset_s := z\<rparr> = r\<lparr>terminal_result := terminal_result r,
      terminal_action_stamp_ns := terminal_action_stamp_ns r, terminal_wall_offset_s := z\<rparr>" for r x y z
    by simp_all
  have one: "p r b \<Longrightarrow> p (r\<lparr>terminal_result := x\<rparr>) b" "p r b \<Longrightarrow> p (r\<lparr>terminal_action_stamp_ns := y\<rparr>) b"
    "p r b \<Longrightarrow> p (r\<lparr>terminal_wall_offset_s := z\<rparr>) b" for r b x y z
    by (subst self, rule assms(1), assumption)+
  have erased: "erase (r\<lparr>terminal_result := x\<rparr>) = (erase r)\<lparr>terminal_result := x\<rparr>"
    "erase (r\<lparr>terminal_action_stamp_ns := y\<rparr>) = (erase r)\<lparr>terminal_action_stamp_ns := y\<rparr>"
    "erase (r\<lparr>terminal_wall_offset_s := z\<rparr>) = (erase r)\<lparr>terminal_wall_offset_s := z\<rparr>" for r x y z
    by (simp_all add: erase_def)
  let ?p1 = "\<lambda>r b. p r b \<and> terminal_result r = Some terminal"
  let ?p2 = "\<lambda>r b. ?p1 r b \<and> (\<exists>st. terminal_action_stamp_ns r = Some st)"
  have "hoare (onE p) (capture_terminal E terminal) (\<lambda>_. onE ?p2) (\<lambda>_. onE q)"
    unfolding capture_terminal_def
    apply (rule update_then [where p' = ?p1])
     apply (unfold erased)
     apply (simp add: one)
    apply (rule quiet_step [OF frame.keep_read])
     apply (rule update_then [where p' = ?p2])
      apply (unfold erased)
      apply (simp add: one)
     apply (rule quiet_step [OF frame.keep_wall_offset])
      apply (rule update_then [where p' = ?p2])
       apply (unfold erased)
       apply (simp add: one)
      apply (rule quiet_last [OF frame.keep_event])
    apply (auto intro: assms(2))
    done
  then show ?thesis by (rule weaken_post) (auto simp: onE_def)
qed

lemma terminal_verdict_success:
  "fst (terminal_verdict terminal r) = SUCCESS \<Longrightarrow>
     status_code terminal = GOAL_STATUS_SUCCEEDED \<and> error_code terminal = NAV2_ERROR_NONE
     \<and> missed_waypoints terminal = []
     \<and> (\<forall>t st. accepted_goal_stamp_ns r = Some t \<longrightarrow> terminal_action_stamp_ns r = Some st \<longrightarrow> t \<le> st)"
  by (auto simp: terminal_verdict_def split: if_splits option.splits)

lemma terminal_verdict_timeout: "fst (terminal_verdict terminal r) \<noteq> TIMEOUT"
  by (simp add: terminal_verdict_def)

lemma finish_from_terminal_triple:
  "hoare (onE (armed c t)) (finish_from_terminal E terminal) (\<lambda>_. onE (verdict c)) (\<lambda>_. onE failing)"
proof -
  let ?cap = "\<lambda>r b. armed c t r b \<and> terminal_result r = Some terminal \<and> (\<exists>st. terminal_action_stamp_ns r = Some st)"
  have verdict: "verdict c (erase (finish_record (fst (terminal_verdict terminal r)) (snd (terminal_verdict terminal r)) r)) b"
    if "?cap (erase r) b" for r b
    using that terminal_verdict_success [of terminal r] terminal_verdict_timeout [of terminal r]
    by (auto simp: verdict_def finish_record_def success_facts_def closed_facts_def armed_def stamped_def
        accepted_def arm_law_def)
  have "hoare (onE ?cap) (bindX (get_rec (terminal_verdict terminal)) (\<lambda>(code, why). finish code why))
      (\<lambda>_. onE (verdict c)) (\<lambda>_. onE failing)"
    using verdict by (auto simp: hoare_def bindX_def get_rec_def finish_def mod_rec_def onE_def split_beta)
  moreover have "hoare (onE (armed c t)) (capture_terminal E terminal) (\<lambda>_. onE ?cap) (\<lambda>_. onE failing)"
    by (rule capture_triple [OF _ phase_failing(6)])
      (auto simp: armed_def stamped_def accepted_def arm_law_def)
  ultimately show ?thesis unfolding finish_from_terminal_def by (rule_tac hoare_then)
qed

lemma record_event_no_raise: "record_event E kind t details s \<noteq> Some (Inl e, s')"
  by (auto simp: record_event_def bindX_def get_rec_def read_op_def mod_rec_def
      split: prod.splits option.splits if_splits)

section \<open>Cancellation\<close>

definition cancelling :: "string option \<Rightarrow> execution_record \<Rightarrow> bool \<Rightarrow> bool" where
  "cancelling k r b \<longleftrightarrow> failing r b \<and> deadline_kind r = k \<and> cancellation_requested r"

definition cancelled :: "exit_code_t \<Rightarrow> string option \<Rightarrow> execution_record \<Rightarrow> bool \<Rightarrow> bool" where
  "cancelled code k r b \<longleftrightarrow> deadline_kind r = k \<and> cancellation_requested r
     \<and> (exit_code r = INFRASTRUCTURE_ERROR
        \<or> exit_code r = code \<and> cancel_acknowledged r = Some True \<and> terminal_result r \<noteq> None)"

lemma finish_cancelled:
  "(cancelling k) (erase r) b \<Longrightarrow> cancelled code k (erase (finish_record INFRASTRUCTURE_ERROR why r)) b"
  "cancelling k (erase r) b \<and> cancel_acknowledged (erase r) = Some True \<and> terminal_result (erase r) \<noteq> None
    \<Longrightarrow> cancelled code k (erase (finish_record code why r)) b"
  by (simp_all add: cancelling_def cancelled_def finish_record_def)

lemma cancel_triple:
  "hoare (onE (\<lambda>r b. failing r b \<and> deadline_kind r = k)) (cancel_and_await_terminal E code why)
     (\<lambda>_. onE (cancelled code k)) (\<lambda>_. onE (cancelling k))"
proof -
  let ?ack = "\<lambda>r b. cancelling k r b \<and> cancel_acknowledged r = Some True"
  have fail: "cancelling k r b \<Longrightarrow> cancelling k r b" "?ack r b \<Longrightarrow> cancelling k r b" for r b
    by simp_all
  have capture: "hoare (onE ?ack) (thenX (capture_terminal E t) (finish code why))
      (\<lambda>_. onE (cancelled code k)) (\<lambda>_. onE (cancelling k))" for t
  proof (rule hoare_then)
    show "hoare (onE ?ack) (capture_terminal E t)
      (\<lambda>_. onE (\<lambda>r b. ?ack r b \<and> terminal_result r = Some t \<and> (\<exists>st. terminal_action_stamp_ns r = Some st)))
      (\<lambda>_. onE (cancelling k))"
      by (rule capture_triple [OF _ fail(2)]) (simp_all add: cancelling_def failing_def)
    show "hoare (onE (\<lambda>r b. ?ack r b \<and> terminal_result r = Some t \<and> (\<exists>st. terminal_action_stamp_ns r = Some st)))
      (finish code why) (\<lambda>_. onE (cancelled code k)) (\<lambda>_. onE (cancelling k))"
      by (rule finish_step, rule finish_cancelled(2)) simp
  qed
  have ack_none: "hoare (onE ?ack) (finish INFRASTRUCTURE_ERROR w) (\<lambda>_. onE (cancelled code k)) (\<lambda>_. onE (cancelling k))" for w
    by (rule finish_step, rule finish_cancelled(1)) simp
  have answered: "hoare (onE (\<lambda>r b. cancelling k r b \<and> cancel_acknowledged r = a))
      (if a \<noteq> Some True then thenX (record_event E ''cancel_not_acknowledged'' None [])
         (finish INFRASTRUCTURE_ERROR (why @ '': cancellation_not_acknowledged''))
       else thenX (record_event E ''cancel_acknowledged'' None [])
         (bindX (wait_for_value E (poll_terminal_result (driver E)) CANCEL_RESULT_TIMEOUT_WALL_S False)
         (\<lambda>terminal. case terminal of
            None \<Rightarrow> finish INFRASTRUCTURE_ERROR (why @ '': cancellation_result_timeout'')
          | Some t \<Rightarrow> thenX (capture_terminal E t) (finish code why))))
      (\<lambda>_. onE (cancelled code k)) (\<lambda>_. onE (cancelling k))" for a
  proof (cases "a = Some True")
    case True
    show ?thesis unfolding True
      by (simp only: simp_thms if_False)
        (rule quiet_then [OF frame.keep_event quiet_step [OF frame.keep_wait_for_value hoare_option]],
          rule ack_none, rule capture, simp_all)
  next
    case False
    have "hoare (onE (\<lambda>r b. cancelling k r b \<and> cancel_acknowledged r = a))
       (finish INFRASTRUCTURE_ERROR w) (\<lambda>_. onE (cancelled code k)) (\<lambda>_. onE (cancelling k))" for w
      by (rule finish_step, rule finish_cancelled(1)) simp
    with False show ?thesis
      by (simp only: simp_thms if_True) (rule quiet_then [OF frame.keep_event], simp_all add: cancelling_def)
  qed
  show ?thesis unfolding cancel_and_await_terminal_def
    apply (rule update_then [where p' = "cancelling k"])
     apply (simp add: cancelling_def failing_def)
    apply (rule quiet_then [OF frame.keep_world _ fail(1)])
     apply (rule quiet_then [OF frame.keep_event _ fail(1)])
      apply (rule quiet_step [OF frame.keep_wait_for_value _ fail(1)])
       apply (rule update_then [where p' = "\<lambda>r b. cancelling k r b \<and> cancel_acknowledged r = a" for a])
        prefer 2
        apply (rule answered)
       apply (simp_all add: cancelling_def failing_def)
    done
qed

lemma fail_closed_triple:
  "hoare (onE failing) (fail_closed_after_acceptance E why) (\<lambda>_. onE (verdict c)) R"
proof -
  have verdict: "cancelling k (erase r) b \<Longrightarrow> verdict c (erase (finish_record INFRASTRUCTURE_ERROR w r)) b" for k r b w
    by (simp add: cancelling_def verdict_def finish_record_def closed_facts_def)
  have "hoare (onE (\<lambda>r b. failing r b \<and> deadline_kind r = k))
      (fail_closed_after_acceptance E why) (\<lambda>_. onE (verdict c)) (\<lambda>_ _. False)" for k
    unfolding fail_closed_after_acceptance_def
  proof (rule hoare_catch)
    show "hoare (onE (\<lambda>r b. failing r b \<and> deadline_kind r = k))
        (cancel_and_await_terminal E INFRASTRUCTURE_ERROR why) (\<lambda>_. onE (verdict c)) (\<lambda>_. onE (cancelling k))"
      by (rule weaken_post [OF cancel_triple])
        (auto simp: onE_def cancelled_def verdict_def closed_facts_def)
    fix e
    have "hoare (onE (cancelling k)) (record_event E kd t d) (\<lambda>_. onE (cancelling k)) (\<lambda>_ _. False)" for kd t d
      using frame.keep_event [of "cancelling k"] record_event_no_raise
      by (fastforce simp: hoare_def split: sum.splits)
    then show "hoare (onE (cancelling k))
       (thenX (record_event E ''fail_closed_cancellation_error'' None [(''message'', PStr (exn_text e))])
         (finish INFRASTRUCTURE_ERROR (why @ '': fail_closed_cancellation_error: '' @ exn_text e)))
       (\<lambda>_. onE (verdict c)) (\<lambda>_ _. False)"
      by (rule hoare_then) (rule finish_step, rule verdict)
  qed
  then have "hoare (\<lambda>s. \<exists>k. onE (\<lambda>r b. failing r b \<and> deadline_kind r = k) s)
      (fail_closed_after_acceptance E why) (\<lambda>_. onE (verdict c)) (\<lambda>_ _. False)"
    by (rule hoare_ex)
  then show ?thesis by (rule hoare_weaken) (auto simp: onE_def)
qed

lemma cancel_after_deadline_triple:
  assumes "kind \<in> {''simulation_timeout'', ''wall_escape_timeout''}"
  shows "hoare (onE (armed c t)) (cancel_after_deadline E kind) (\<lambda>_. onE (verdict c)) (\<lambda>_. onE failing)"
  unfolding cancel_after_deadline_def
proof (rule update_then)
  let ?p = "\<lambda>r b. failing r b \<and> deadline_kind r = Some kind"
  show "armed c t (erase r) b \<Longrightarrow> ?p (erase (r\<lparr>deadline_kind := Some kind\<rparr>)) b" for r b
    by (simp add: armed_def stamped_def accepted_def failing_def)
  have "cancelled TIMEOUT (Some kind) r b \<Longrightarrow> verdict c r b" for r b
    using assms by (auto simp: cancelled_def verdict_def closed_facts_def timeout_facts_def)
  then have "hoare (onE ?p) (cancel_and_await_terminal E TIMEOUT kind) (\<lambda>_. onE (verdict c)) (\<lambda>_. onE failing)"
    by (rule_tac weaken_post [OF cancel_triple]) (auto simp: onE_def cancelling_def)
  then show "hoare (onE ?p) (thenX (record_event E ''deadline_reached'' None [(''deadline_kind'', PStr kind)])
      (cancel_and_await_terminal E TIMEOUT kind)) (\<lambda>_. onE (verdict c)) (\<lambda>_. onE failing)"
    by (rule quiet_then [OF frame.keep_event]) simp
qed

section \<open>The whole run\<close>

lemma return_then: "hoare (onE p) m (\<lambda>_. onE v) R \<Longrightarrow> hoare (onE p) (thenX m (retX a)) (\<lambda>_. onE v) R"
  by (rule hoare_then, assumption) (simp add: hoare_def)

lemma terminal_body_triple:
  "hoare (onE (armed c t)) (terminal_body E a w t' u)
     (\<lambda>r s. case r of Inl _ \<Rightarrow> onE (armed c t) s | Inr _ \<Rightarrow> onE (verdict c) s) (\<lambda>_. onE failing)"
proof -
  let ?Q = "\<lambda>r s. case r of Inl _ \<Rightarrow> onE (armed c t) s | Inr _ \<Rightarrow> onE (verdict c) s"
  have stop: "hoare (onE (armed c t)) (thenX m (retX (Inr ()))) ?Q (\<lambda>_. onE failing)"
    if "hoare (onE (armed c t)) m (\<lambda>_. onE (verdict c)) (\<lambda>_. onE failing)" for m
    by (rule hoare_then [OF that]) (simp add: hoare_def)
  have fin: "hoare (onE (armed c t)) (thenX (finish INFRASTRUCTURE_ERROR why) (retX (Inr ()))) ?Q (\<lambda>_. onE failing)"
    if "why \<in> uncancelled_reasons" for why
    by (rule stop, rule finish_step)
      (use that in \<open>simp add: verdict_def finish_record_def closed_facts_def uncancelled_reasons_def\<close>)
  have spin: "hoare (onE (armed c t)) (thenX (spin E d) (retX (Inl ()))) ?Q (\<lambda>_. onE failing)" for d
    by (rule quiet_then [OF frame.keep_spin _ phase_failing(6)]) (simp_all add: hoare_def)
  note fail = phase_failing(6)
  show ?thesis unfolding terminal_body_def terminal_poll_def
    apply (rule quiet_step [OF frame.keep_read _ fail])
     apply (rule hoare_if, rule fin, simp add: uncancelled_reasons_def)
     apply (rule quiet_then [OF frame.keep_raise_if_feedback_trace_overflow _ fail])
      apply (rule quiet_then [OF frame.keep_collect_fault_events _ fail])
       apply (rule quiet_step [OF frame.keep_world _ fail])
        apply (rule check_then [OF _ fail])
         apply (rule quiet_step [OF frame.keep_world _ fail])
          apply (rule hoare_option)
           apply (rule quiet_step [OF frame.keep_read _ fail])
            apply (rule hoare_if, rule fin, simp add: uncancelled_reasons_def)
            apply (rule hoare_option)
             apply (rule raise_step [OF fail], assumption)
            apply (rule hoare_if, rule stop, rule cancel_after_deadline_triple, simp)
            apply (rule quiet_step [OF frame.keep_read _ fail])
             apply (rule hoare_if, rule stop, rule cancel_after_deadline_triple, simp)
             apply (rule spin)
            apply assumption+
          apply (rule stop, rule finish_from_terminal_triple)
         apply assumption+
    done
qed

lemma wait_for_terminal_triple:
  "hoare (onE (armed c t)) (wait_for_terminal_or_deadline E a w t') (\<lambda>_. onE (verdict c)) (\<lambda>_. onE failing)"
  unfolding wait_for_terminal_or_deadline_def
  by (rule check_then [OF _ phase_failing(6)], rule hoare_loop [OF terminal_body_triple]) assumption

lemma run_accepted_triple:
  assumes "0 < t"
  shows "hoare (onE (accepted (config E))) (run_accepted E u a b w t) (\<lambda>_. onE (verdict (config E))) (\<lambda>_. onE failing)"
proof -
  note fail = phase_failing(5)
  let ?c = "config E"
  have failed: "hoare (onE (stamped ?c t)) (fail_closed_after_acceptance E why) (\<lambda>_. onE (verdict ?c)) (\<lambda>_. onE failing)" for why
    by (rule strengthen_pre [OF fail_closed_triple fail])
  have arm: "hoare (onE (stamped ?c t)) (if is_phase3 ?c then arm_fault_schedule E u t else retX ())
      (\<lambda>_. onE (armed ?c t)) (\<lambda>_. onE failing)"
  proof (cases "is_phase3 ?c")
    case True
    then show ?thesis using arm_triple by simp
  next
    case False
    then show ?thesis by (simp only: if_False) (rule ret_step, simp add: armed_def)
  qed
  show ?thesis unfolding run_accepted_def
    apply (rule update_then [where p' = "stamped ?c t"])
     apply (simp add: stamped_def accepted_def assms)
    apply (rule quiet_then [OF frame.keep_event _ fail])
     apply (rule check_then [OF _ fail])
      apply (rule quiet_step [OF frame.keep_wait_for_client_clock _ fail])
       apply (rule hoare_if)
        apply (rule quiet_then [OF frame.keep_event failed fail], assumption)
       apply (rule hoare_then [OF arm wait_for_terminal_triple])
      apply assumption+
    done
qed

lemma run_response_triple:
  assumes "0 < t"
  shows "hoare (onE (\<lambda>r b. submitted (config E) t r b \<and> b)) (run_response E t response)
    (\<lambda>_. onE (verdict (config E))) (\<lambda>_. onE failing)"
proof -
  let ?c = "config E"
  let ?p = "\<lambda>r b. submitted ?c t r b \<and> b"
  have fail: "?p r b \<Longrightarrow> failing r b" for r b using phase_failing(3) by blast
  note fail' = phase_failing(4)
  have failed: "hoare (onE ?p) (fail_closed_after_acceptance E why) (\<lambda>_. onE (verdict ?c)) (\<lambda>_. onE failing)" for why
    by (rule strengthen_pre [OF fail_closed_triple fail])
  have failed': "hoare (onE (accepted ?c)) (fail_closed_after_acceptance E why) (\<lambda>_. onE (verdict ?c)) (\<lambda>_. onE failing)" for why
    by (rule strengthen_pre [OF fail_closed_triple fail'])
  show ?thesis unfolding run_response_def
    apply (rule hoare_option, rule failed)
    apply (rule hoare_if_cases, rule failed)
    apply (rule hoare_option)
     apply (rule raise_step [OF fail], assumption)
    apply (rule check_then [OF _ fail])
     apply (rule quiet_step [OF frame.keep_read _ fail])
      apply (rule check_then [OF _ fail])
       apply (rule check_then [OF _ fail])
        apply (rule quiet_step [OF frame.keep_read _ fail])
         apply (rule update_then [where p' = "accepted ?c"])
          apply (simp add: submitted_def prepared_def fresh_def accepted_def assms)
         apply (rule quiet_step [OF frame.keep_wall_offset _ fail'])
          apply (rule update_then [where p' = "accepted ?c"])
           apply (simp add: accepted_def)
          apply (rule quiet_then [OF frame.keep_event _ fail'])
           apply (rule quiet_then [OF frame.keep_raise_if_feedback_trace_overflow _ fail'])
            apply (rule quiet_step [OF frame.keep_wait_for_value _ fail'])
             apply (rule hoare_if_cases)
              apply (rule quiet_then [OF frame.keep_event failed' fail'], assumption)
             apply (rule run_accepted_triple, force)
            apply assumption+
    done
qed

lemma run_goal_triple:
  "hoare (onE (\<lambda>r b. fresh r b \<and> \<not> b)) (run_goal E) (\<lambda>_. onE (verdict (config E))) (\<lambda>_. onE failing)"
proof -
  let ?c = "config E"
  note fail = phase_failing(1) and fail2 = phase_failing(2)
  have fin: "hoare (onE fresh) (finish code why) (\<lambda>_. onE (verdict ?c)) R"
    "hoare (onE (prepared ?c)) (finish code why) (\<lambda>_. onE (verdict ?c)) R"
    "hoare (onE (submitted ?c t)) (finish code why) (\<lambda>_. onE (verdict ?c)) R"
    if "code \<noteq> SUCCESS" "code \<noteq> TIMEOUT" for code why R t
    by (rule finish_step, use that in \<open>simp add: verdict_def finish_record_def closed_facts_def
          submitted_def prepared_def fresh_def\<close>)+
  have prep: "hoare (onE fresh) (if is_phase3 ?c then prepare_fault_schedule E else retX ())
      (\<lambda>_. onE (prepared ?c)) (\<lambda>_. onE failing)"
  proof (cases "is_phase3 ?c")
    case True
    then show ?thesis using prepare_triple by simp
  next
    case False
    then show ?thesis by (simp only: if_False) (rule ret_step, simp add: prepared_def)
  qed
  have respond: "hoare (onE (submitted ?c t)) (thenX (modX (\<lambda>s. s\<lparr>accepted_goal_active := True\<rparr>)) (run_response E t resp))
      (\<lambda>_. onE (verdict ?c)) (\<lambda>_. onE failing)" if "0 < t" for t resp
  proof (rule hoare_then)
    show "hoare (onE (submitted ?c t)) (modX (\<lambda>s. s\<lparr>accepted_goal_active := True\<rparr>))
        (\<lambda>_. onE (\<lambda>r b. submitted ?c t r b \<and> b)) (\<lambda>_. onE failing)"
      by (simp add: hoare_def onE_def submitted_def prepared_def fresh_def)
  qed (rule run_response_triple [OF that])
  have "hoare (onE fresh) (run_goal E) (\<lambda>_. onE (verdict ?c)) (\<lambda>_. onE failing)"
    unfolding run_goal_def
    apply (rule quiet_step [OF frame.keep_wait_for_advancing _ fail])
     apply (rule hoare_if, rule fin(1), simp, simp)
     apply (rule hoare_then [OF prep])
     apply (rule quiet_step [OF frame.keep_wait_for_server _ fail2])
      apply (rule hoare_if, rule fin(2), simp, simp)
      apply (rule quiet_step [OF frame.keep_read _ fail2])
       apply (rule update_then [where p' = "submitted ?c t" for t])
        prefer 2
        apply (rule check_then [OF _ phase_failing(3)])
         apply (rule quiet_then [OF frame.keep_event _ phase_failing(3)])
          apply (rule quiet_then [OF frame.keep_world _ phase_failing(3)])
           apply (rule quiet_step [OF frame.keep_wait_for_value _ phase_failing(3)])
            apply (rule hoare_option, rule fin(3), simp, simp)
            apply (rule hoare_if_cases)
             apply (rule quiet_then [OF frame.keep_event fin(3) phase_failing(3)], simp, simp, assumption)
            apply (rule respond, simp)
           apply assumption+
       apply (simp add: submitted_def prepared_def fresh_def)
      apply assumption+
    done
  then show ?thesis by (rule strengthen_pre) blast
qed

lemma close_failed_triple:
  "hoare (onE failing) (close_failed E why) (\<lambda>_. onE (verdict c)) (\<lambda>_. onE failing)"
proof -
  have finish: "hoare (onE (\<lambda>r b. failing r b \<and> \<not> b)) (finish INFRASTRUCTURE_ERROR why) (\<lambda>_. onE (verdict c)) R" for R
    by (rule finish_step) (auto simp: verdict_def finish_record_def closed_facts_def failing_def)
  have act: "hoare (onE (\<lambda>r b. failing r b \<and> b = active))
      (bindX (if active then retX True else world_op (accepted_goal_is_active (driver E))) (\<lambda>must_cancel.
         if must_cancel then fail_closed_after_acceptance E why else finish INFRASTRUCTURE_ERROR why))
      (\<lambda>_. onE (verdict c)) (\<lambda>_. onE failing)" for active
  proof (cases active)
    case True
    have "bindX (if active then retX True else world_op (accepted_goal_is_active (driver E))) k = k True"
      for k :: "bool \<Rightarrow> ('a, unit) xact"
      using True by (simp add: bindX_def fun_eq_iff)
    then show ?thesis by (simp only: if_True) (rule strengthen_pre [OF fail_closed_triple], simp)
  next
    case False
    have "hoare (onE (\<lambda>r b. failing r b \<and> \<not> b))
       (if must_cancel then fail_closed_after_acceptance E why else finish INFRASTRUCTURE_ERROR why)
       (\<lambda>_. onE (verdict c)) (\<lambda>_. onE failing)" for must_cancel
      by (rule hoare_if [OF strengthen_pre [OF fail_closed_triple] finish]) blast
    then show ?thesis unfolding if_not_P [OF False]
      using False by (simp only: simp_thms) (rule quiet_step [OF frame.keep_world], assumption, blast)
  qed
  show ?thesis unfolding close_failed_def
  proof (rule hoare_bind)
    show "hoare (onE failing) (getX accepted_goal_active)
        (\<lambda>active. onE (\<lambda>r b. failing r b \<and> b = active)) (\<lambda>_. onE failing)"
      by (simp add: hoare_def onE_def)
  qed (rule act)
qed

lemma handle_failure_triple:
  "hoare (onE failing) (handle_failure E e) (\<lambda>_. onE (verdict c)) (\<lambda>_. onE failing)"
proof -
  have tail: "hoare (onE failing) (thenX (record_event E k t d) (close_failed E why))
      (\<lambda>_. onE (verdict c)) (\<lambda>_. onE failing)" for k t d why
    by (rule quiet_then [OF frame.keep_event close_failed_triple])
  show ?thesis
    by (induction e; unfold handle_failure.simps; (rule quiet_step [OF frame.keep_get_rec])?; (rule tail)?)
qed

lemma run_once_triple:
  "hoare (onE (\<lambda>r b. fresh r b)) (run_once E) (\<lambda>_. onE (verdict (config E))) (\<lambda>_. onE failing)"
  unfolding run_once_def
proof (rule hoare_then)
  show "hoare (onE fresh) (modX (\<lambda>s. s\<lparr>accepted_goal_active := False\<rparr>))
      (\<lambda>_. onE (\<lambda>r b. fresh r b \<and> \<not> b)) (\<lambda>_. onE failing)"
    by (simp add: hoare_def onE_def fresh_def)
  show "hoare (onE (\<lambda>r b. fresh r b \<and> \<not> b)) (catchX (run_goal E) (handle_failure E))
      (\<lambda>_. onE (verdict (config E))) (\<lambda>_. onE failing)"
    by (rule hoare_catch [OF run_goal_triple handle_failure_triple])
qed

text \<open>After the teardown of a phase 3 run the reason may carry a suffix, and success also
  means that the faults were reset.\<close>

definition final_verdict :: "mission_config \<Rightarrow> execution_record \<Rightarrow> bool" where
  "final_verdict c r \<longleftrightarrow>
     (exit_code r = SUCCESS \<longrightarrow> success_facts c r \<and> (is_phase3 c \<longrightarrow> fault_reset_after_goal r))
     \<and> (exit_code r = TIMEOUT \<longrightarrow> timeout_facts r)
     \<and> (\<not> is_phase3 c \<longrightarrow> closed_facts r)"

definition ran :: "mission_config \<Rightarrow> execution_record \<Rightarrow> bool \<Rightarrow> bool" where
  "ran c r b \<longleftrightarrow> (exit_code r = SUCCESS \<longrightarrow> success_facts c r) \<and> (exit_code r = TIMEOUT \<longrightarrow> timeout_facts r)"

definition torn_down :: "mission_config \<Rightarrow> execution_record \<Rightarrow> bool \<Rightarrow> bool" where
  "torn_down c r b \<longleftrightarrow> ran c r b \<and> (exit_code r = SUCCESS \<longrightarrow> fault_reset_after_goal r)"

lemma ran_reset: "ran c r b \<Longrightarrow> ran c (reset_mark False r) b"
  by (simp add: ran_def reset_mark_def success_facts_def timeout_facts_def arm_law_def)

lemma teardown_failure_step:
  "hoare (onE (ran c)) (mod_rec (teardown_failure why)) (\<lambda>_. onE (torn_down c)) R"
  "hoare (onE (torn_down c)) (mod_rec (teardown_failure why)) (\<lambda>_. onE (torn_down c)) R"
  by (rule hoare_mod_rec, simp add: onE_def torn_down_def ran_def teardown_failure_def)+

lemma run_teardown_triple:
  "hoare (onE (ran c)) (run_teardown E) (\<lambda>_. onE (torn_down c)) (\<lambda>_. onE (ran c))"
  unfolding run_teardown_def
proof (rule hoare_bind)
  let ?Q = "\<lambda>ok. onE (\<lambda>r b. ran c r b \<and> (ok \<longrightarrow> reset_done False r))"
  have handler: "hoare (onE (ran c)) (thenX (record_event E k t d) (retX False)) ?Q (\<lambda>_. onE (ran c))" for k t d
    by (rule quiet_then [OF frame.keep_event ret_step]) simp_all
  have reset: "hoare (onE (ran c)) (reset_faults E False) ?Q (\<lambda>_. onE (ran c))"
    by (rule reset_triple [where p = "ran c"]) (rule ran_reset)
  show "hoare (onE (ran c)) (catchX (reset_faults E False) (\<lambda>e.
      thenX (record_event E ''fault_teardown_error'' None [(''message'', PStr (exn_text e))]) (retX False)))
      ?Q (\<lambda>_. onE (ran c))"
    by (rule hoare_catch [OF reset handler])
  have collect: "hoare (onE (torn_down c)) (catchX (collect_fault_events E) (\<lambda>e.
      case e of FaultProtocolError m \<Rightarrow> mod_rec (teardown_failure m) | _ \<Rightarrow> raiseX e))
      (\<lambda>_. onE (torn_down c)) (\<lambda>_. onE (ran c))"
  proof (rule hoare_catch [OF frame.keep_collect_fault_events])
    show "hoare (onE (torn_down c)) (case e of FaultProtocolError m \<Rightarrow> mod_rec (teardown_failure m) | _ \<Rightarrow> raiseX e)
        (\<lambda>_. onE (torn_down c)) (\<lambda>_. onE (ran c))" for e
      using raise_step [of "torn_down c" "ran c"] teardown_failure_step(2)
      by (cases e) (simp_all add: torn_down_def)
  qed
  have mark: "hoare (onE (\<lambda>r b. ran c r b \<and> (ok \<longrightarrow> reset_done False r)))
      (if ok then retX () else mod_rec (teardown_failure why)) (\<lambda>_. onE (torn_down c)) (\<lambda>_. onE (ran c))" for ok why
  proof (cases ok)
    case True
    then show ?thesis by (simp only: if_True) (rule ret_step, simp add: torn_down_def reset_done_def)
  next
    case False
    then show ?thesis by (simp only: if_False) (rule strengthen_pre [OF teardown_failure_step(1)], simp)
  qed
  show "hoare (?Q ok)
     (thenX (if ok then retX () else mod_rec (teardown_failure ''fault_teardown_reset_failed''))
       (catchX (collect_fault_events E) (\<lambda>e.
         case e of FaultProtocolError m \<Rightarrow> mod_rec (teardown_failure m) | _ \<Rightarrow> raiseX e)))
     (\<lambda>_. onE (torn_down c)) (\<lambda>_. onE (ran c))" for ok
    by (rule hoare_then [OF mark collect])
qed

lemma run_verdict:
  "hoare (onE fresh) (run E) (\<lambda>r s. final_verdict (config E) r \<and> r = xrec s) (\<lambda>_ _. True)"
  unfolding run_def
proof (rule hoare_then)
  show "hoare (onE fresh) (run_once E) (\<lambda>_. onE (verdict (config E))) (\<lambda>_ _. True)"
    by (rule hoare_weaken [OF run_once_triple]) simp_all
  let ?c = "config E"
  have get: "hoare (\<lambda>s. final_verdict ?c (xrec s)) (get_rec (\<lambda>r. r)) (\<lambda>r s. final_verdict ?c r \<and> r = xrec s) (\<lambda>_ _. True)"
    by (simp add: hoare_def get_rec_def)
  have facts: "success_facts ?c (erase r) = success_facts ?c r" "timeout_facts (erase r) = timeout_facts r"
    "closed_facts (erase r) = closed_facts r" for r
    by (simp_all add: success_facts_def timeout_facts_def closed_facts_def arm_law_def)
  have "hoare (onE (verdict ?c)) (if is_phase3 ?c then run_teardown E else retX ())
      (\<lambda>_ s. final_verdict ?c (xrec s)) (\<lambda>_ _. True)"
  proof (cases "is_phase3 ?c")
    case True
    have "hoare (onE (verdict ?c)) (run_teardown E) (\<lambda>_ s. final_verdict ?c (xrec s)) (\<lambda>_ _. True)"
      by (rule hoare_weaken [OF run_teardown_triple [of ?c]])
        (auto simp: onE_def verdict_def ran_def torn_down_def final_verdict_def facts True)
    with True show ?thesis by simp
  next
    case False
    then show ?thesis by (auto simp: hoare_def onE_def verdict_def final_verdict_def facts)
  qed
  from hoare_then [OF this get]
  show "hoare (onE (verdict ?c)) (thenX (if is_phase3 ?c then run_teardown E else retX ()) (get_rec (\<lambda>r. r)))
      (\<lambda>r s. final_verdict ?c r \<and> r = xrec s) (\<lambda>_ _. True)" .
qed

lemma execute_verdict:
  assumes "execute E w = Some (Inr r, s)"
  shows "final_verdict (config E) r" "r = xrec s"
proof -
  have "onE fresh (new_executor E w)"
    by (simp add: onE_def fresh_def new_executor_def new_record_def split: prod.splits)
  from hoare_value [OF run_verdict this] assms
  show "final_verdict (config E) r" "r = xrec s" by (auto simp: execute_def)
qed

section \<open>Properties\<close>

text \<open>C14: a run that exits with \<open>SUCCESS\<close> holds the complete evidence of success: a captured
  terminal result with status \<open>SUCCEEDED\<close>, no Nav2 error and no missed waypoint, for a goal with a
  non-empty identifier, a positive submission stamp and a positive acceptance stamp that does not
  come after the terminal stamp; no cancellation was requested and no deadline was reached.\<close>

theorem mission_success_sound:
  assumes "execute E w = Some (Inr r, s)" and "exit_code r = SUCCESS"
  shows "\<exists>terminal t0 stamp. terminal_result r = Some terminal
    \<and> status_code terminal = GOAL_STATUS_SUCCEEDED \<and> error_code terminal = NAV2_ERROR_NONE
    \<and> missed_waypoints terminal = []
    \<and> accepted_goal_stamp_ns r = Some t0 \<and> 0 < t0
    \<and> terminal_action_stamp_ns r = Some stamp \<and> t0 \<le> stamp
    \<and> (\<exists>u. accepted_goal_uuid r = Some u \<and> u \<noteq> '''')
    \<and> (\<exists>t. goal_submission_stamp_ns r = Some t \<and> 0 < t)
    \<and> \<not> cancellation_requested r \<and> deadline_kind r = None"
  using execute_verdict(1) [OF assms(1)] assms(2)
  unfolding final_verdict_def success_facts_def by blast

text \<open>C15: a phase 3 run that exits with \<open>SUCCESS\<close> reset the fault control before and after the
  goal, committed the configured schedule under a positive generation, and obeys the arm law: the
  schedule was armed at or after T0, with the margin T0 + earliest offset - commit, at least 500 ms
  (0 for an empty schedule).\<close>

theorem mission_phase3_success_sound:
  assumes "execute E w = Some (Inr r, s)" and "exit_code r = SUCCESS" and "is_phase3 (config E)"
  shows "fault_reset_before_goal r \<and> fault_reset_after_goal r
    \<and> (\<exists>sch g t0. config_fault_schedule (config E) = Some sch \<and> fault_schedule_hash r = Some (sha256 sch)
         \<and> fault_generation r = Some g \<and> 0 < g \<and> g \<le> UINT64_MAX
         \<and> accepted_goal_stamp_ns r = Some t0 \<and> arm_law sch t0 r)"
  using execute_verdict(1) [OF assms(1)] assms(2,3)
  unfolding final_verdict_def success_facts_def UINT64_MAX_def by blast

text \<open>C16: a run that exits with \<open>TIMEOUT\<close> reached one of its two deadlines, requested the
  cancellation of the goal, saw it acknowledged and captured the terminal result.\<close>

theorem mission_timeout_sound:
  assumes "execute E w = Some (Inr r, s)" and "exit_code r = TIMEOUT"
  shows "deadline_kind r \<in> {Some ''simulation_timeout'', Some ''wall_escape_timeout''}
    \<and> cancellation_requested r \<and> cancel_acknowledged r = Some True \<and> terminal_result r \<noteq> None"
  using execute_verdict(1) [OF assms(1)] assms(2)
  unfolding final_verdict_def timeout_facts_def by blast

text \<open>C17: fail closed. A phase 2 run that returns after its goal was accepted has a terminal
  result or has requested cancellation, unless its reason is one of the three that stop without it:
  the simulation clock regressed, the ROS context stopped, or the event trace overflowed.\<close>

theorem mission_fails_closed:
  assumes "execute E w = Some (Inr r, s)" and "\<not> is_phase3 (config E)"
    and "accepted_goal_uuid r \<noteq> None"
  shows "terminal_result r \<noteq> None \<or> cancellation_requested r
    \<or> reason r \<in> {''simulation_clock_regressed'', ''rclpy_context_stopped'', ''mission_event_trace_overflow''}"
  using execute_verdict(1) [OF assms(1)] assms(2,3)
  unfolding final_verdict_def closed_facts_def uncancelled_reasons_def by blast

end
