(* ===== verification/Mission_Progress.thy ===== *)
theory Mission_Progress
  imports Mission_Execution
begin

text \<open>
  Every mission run ends. The hypothesis \<open>clock_progress\<close> is what the code relies on: an elapsed time
  \<open>T\<close> can be read off the world, no call sets it back, every spin lets it grow, and after enough of it
  either the ROS context has stopped or the steady clock has passed any deadline computed from one
  of its readings. Under it every wait, the loop of \<open>_wait_for_terminal_or_deadline\<close> and the whole run
  return, whatever the drivers answer.
\<close>

section \<open>The hypothesis\<close>

definition never_back :: "('w \<Rightarrow> nat) \<Rightarrow> ('w \<Rightarrow> 'a \<times> 'w) \<Rightarrow> bool" where
  "never_back T f \<longleftrightarrow> (\<forall>w. T w \<le> T (snd (f w)))"

definition driver_never_back :: "('w \<Rightarrow> nat) \<Rightarrow> 'w follow_waypoints_driver \<Rightarrow> bool" where
  "driver_never_back T d \<longleftrightarrow>
     never_back T (server_is_ready d) \<and> (\<forall>c t. never_back T (start_goal d c t))
     \<and> never_back T (poll_goal_response d) \<and> never_back T (accepted_goal_is_active d)
     \<and> never_back T (poll_accepted_status_stamp_ns d) \<and> never_back T (poll_terminal_result d)
     \<and> never_back T (request_cancel d) \<and> never_back T (poll_cancel_acknowledgement d)"

definition fault_driver_never_back :: "('w \<Rightarrow> nat) \<Rightarrow> 'w fault_control_driver \<Rightarrow> bool" where
  "fault_driver_never_back T d \<longleftrightarrow>
     never_back T (services_are_ready d) \<and> never_back T (start_reset d)
     \<and> never_back T (poll_reset_response d) \<and> (\<forall>sch. never_back T (start_preload d sch))
     \<and> never_back T (poll_preload_response d) \<and> (\<forall>h g u t. never_back T (start_arm d h g u t))
     \<and> never_back T (poll_arm_response d) \<and> never_back T (drain_events d)
     \<and> never_back T (event_overflow_count d)"

definition passes :: "'w mission_env \<Rightarrow> ('w \<Rightarrow> nat) \<Rightarrow> pyfloat \<Rightarrow> pyfloat \<Rightarrow> nat \<Rightarrow> bool" where
  "passes E T reading d B \<longleftrightarrow>
     (\<forall>w. B \<le> T w \<longrightarrow> \<not> fst (runtime_ok E w))
     \<or> (\<forall>w. B \<le> T w \<longrightarrow> \<not> f_less (fst (steady_time_s E w)) (f_add reading d)
            \<and> f_le d (f_sub (fst (steady_time_s E w)) reading))"

definition clock_progress :: "'w mission_env \<Rightarrow> ('w \<Rightarrow> nat) \<Rightarrow> bool" where
  "clock_progress E T \<longleftrightarrow>
     never_back T (sim_time_ns E) \<and> never_back T (steady_time_s E) \<and> never_back T (runtime_ok E)
     \<and> (\<forall>d w. T w < T (snd (spin_once E d w)))
     \<and> driver_never_back T (driver E)
     \<and> (case fault_driver E of None \<Rightarrow> True | Some fd \<Rightarrow> fault_driver_never_back T fd)
     \<and> (\<forall>w d. f_isfinite d \<longrightarrow> (\<exists>B. passes E T (fst (steady_time_s E w)) d B))"

section \<open>Straight-line operations\<close>

definition elapsed :: "('w \<Rightarrow> nat) \<Rightarrow> 'w xst \<Rightarrow> nat" where
  "elapsed T s = T (world s)"

abbreviation ends :: "('w \<Rightarrow> nat) \<Rightarrow> ('w, 'a) xact \<Rightarrow> bool" where
  "ends T m \<equiv> returns (elapsed T) m"

lemma ends_world: "never_back T f \<Longrightarrow> ends T (world_op f)"
  unfolding returns_def world_op_def elapsed_def never_back_def
  by (auto split: prod.splits) (metis snd_conv surj_pair)

lemma ends_read: "never_back T f \<Longrightarrow> ends T (read_op f)"
  unfolding returns_def read_op_def elapsed_def never_back_def
  by (auto split: prod.splits) (metis snd_conv surj_pair)

lemma ends_bind_read:
  fixes f :: "'w \<Rightarrow> 'a \<times> 'w" and k :: "'a \<Rightarrow> ('w, 'b) xact"
  assumes "never_back T f" and "\<And>w. ends T (k (fst (f w)))"
  shows "ends T (bindX (read_op f) k)"
  unfolding returns_def
proof
  fix s :: "'w xst"
  obtain a w where f: "f (world s) = (a, w)" by (cases "f (world s)")
  have le: "T (world s) \<le> T w" using assms(1) f unfolding never_back_def by (metis snd_conv)
  have "ends T (k a)" using assms(2) [of "world s"] f by simp
  then obtain r s' where "k a (s\<lparr>world := w\<rparr>) = Some (r, s')"
    "elapsed T (s\<lparr>world := w\<rparr>) \<le> elapsed T s'" unfolding returns_def by blast
  then show "\<exists>r s'. bindX (read_op f) k s = Some (r, s') \<and> elapsed T s \<le> elapsed T s'"
    using f le by (auto simp: bindX_def read_op_def elapsed_def)
qed

lemma ends_mod_rec: "ends T (mod_rec f)"
  by (simp add: mod_rec_def returns_def elapsed_def)

lemma ends_get_rec: "ends T (get_rec f)"
  by (simp add: get_rec_def returns_def)

lemma ends_flag: "ends T (modX (\<lambda>s. s\<lparr>accepted_goal_active := b\<rparr>))"
  by (simp add: returns_def elapsed_def)

lemma ends_if: "ends T m \<Longrightarrow> ends T n \<Longrightarrow> ends T (if c then m else n)"
  by simp

lemma ends_option: "ends T m \<Longrightarrow> (\<And>a. ends T (k a)) \<Longrightarrow> ends T (case x of None \<Rightarrow> m | Some a \<Rightarrow> k a)"
  by (cases x) simp_all

lemma ends_sum: "(\<And>a. ends T (k a)) \<Longrightarrow> (\<And>b. ends T (h b)) \<Longrightarrow> ends T (case x of Inl a \<Rightarrow> k a | Inr b \<Rightarrow> h b)"
  by (cases x) simp_all

lemma ends_prod: "(\<And>a b. ends T (k a b)) \<Longrightarrow> ends T (case x of (a, b) \<Rightarrow> k a b)"
  by (cases x) simp

lemmas ends_rules = returns_ret returns_raise returns_get returns_raise_if ends_mod_rec ends_get_rec ends_flag
  returns_then returns_catch returns_bind ends_if ends_option ends_sum ends_prod

lemma progress_reads:
  assumes "clock_progress E T"
  shows "ends T (read_op (sim_time_ns E))" "ends T (read_op (steady_time_s E))" "ends T (read_op (runtime_ok E))"
    "ends T (read_op (spin_once E d))"
  using assms ends_read unfolding clock_progress_def
  by (auto simp: never_back_def intro!: ends_read less_imp_le)

lemma progress_driver:
  assumes "clock_progress E T"
  shows "ends T (world_op (server_is_ready (driver E)))" "ends T (world_op (start_goal (driver E) c t))"
    "ends T (world_op (accepted_goal_is_active (driver E)))"
    "ends T (world_op (poll_accepted_status_stamp_ns (driver E)))"
    "ends T (world_op (poll_terminal_result (driver E)))" "ends T (world_op (request_cancel (driver E)))"
  using assms unfolding clock_progress_def driver_never_back_def by (simp_all add: ends_world)

lemma progress_fault_driver:
  assumes "clock_progress E T" and "fault_driver E = Some fd"
  shows "fault_driver_never_back T fd"
  using assms unfolding clock_progress_def by simp

lemma ends_record_event: "clock_progress E T \<Longrightarrow> ends T (record_event E kind t d)"
  unfolding record_event_def by (intro ends_rules progress_reads)

lemma ends_wall_offset: "clock_progress E T \<Longrightarrow> ends T (wall_offset E)"
  unfolding wall_offset_def by (intro ends_rules progress_reads)

lemma ends_record_feedback: "clock_progress E T \<Longrightarrow> ends T (record_feedback E i)"
  unfolding record_feedback_def Let_def by (intro ends_rules progress_reads ends_record_event ends_wall_offset)

lemma ends_record_feedbacks:
  assumes "clock_progress E T"
  shows "ends T (record_feedbacks E is)"
proof (induction "is")
  case Nil
  show ?case unfolding record_feedbacks.simps by (rule returns_ret)
next
  case (Cons i "is")
  then show ?case unfolding record_feedbacks.simps by (intro returns_then ends_record_feedback assms)
qed

lemma spin_advances:
  assumes "clock_progress E T"
  shows "\<exists>r s'. spin E d s = Some (r, s') \<and> elapsed T s < elapsed T s'"
proof -
  obtain fs e w where sp: "spin_once E d (world s) = ((fs, e), w)" by (metis surj_pair)
  have lt: "T (world s) < T w" using assms sp unfolding clock_progress_def by (metis snd_conv)
  have "ends T (thenX (record_feedbacks E fs) (case e of None \<Rightarrow> retX () | Some e \<Rightarrow> raiseX e))"
    by (intro ends_rules ends_record_feedbacks assms)
  then obtain r s' where "thenX (record_feedbacks E fs) (case e of None \<Rightarrow> retX () | Some e \<Rightarrow> raiseX e)
      (s\<lparr>world := w\<rparr>) = Some (r, s')" "elapsed T (s\<lparr>world := w\<rparr>) \<le> elapsed T s'"
    unfolding returns_def by blast
  then show ?thesis using sp lt by (auto simp: spin_def bindX_def read_op_def elapsed_def)
qed

section \<open>Polling loops\<close>

lemma spin_bounded_advances:
  assumes "clock_progress E T"
  shows "\<exists>r s'. spin_bounded E deadline s = Some (r, s') \<and> elapsed T s < elapsed T s'"
proof -
  obtain now w where now: "steady_time_s E (world s) = (now, w)" by (metis surj_pair)
  have "T (world s) \<le> T w" using assms now unfolding clock_progress_def never_back_def by (metis snd_conv)
  moreover obtain r s' where "spin E (f_min SPIN_POLL_WALL_S (f_max (Fin 0) (f_sub deadline now))) (s\<lparr>world := w\<rparr>)
      = Some (r, s')" "elapsed T (s\<lparr>world := w\<rparr>) < elapsed T s'"
    using spin_advances [OF assms] by blast
  ultimately show ?thesis using now by (auto simp: spin_bounded_def bindX_def read_op_def elapsed_def)
qed

text \<open>One turn of a polling loop: it goes round again only before the deadline, and later.\<close>

lemma poll_body_turn:
  assumes cp: "clock_progress E T" and B: "passes E T reading d B" and body: "ends T (body l)"
  shows "\<exists>r s'. poll_body E (f_add reading d) body l s = Some (r, s') \<and> elapsed T s \<le> elapsed T s'
    \<and> (\<forall>l'. r = Inr (Inl l') \<longrightarrow> elapsed T s < elapsed T s' \<and> elapsed T s < B)"
proof -
  obtain ok w1 where ok: "runtime_ok E (world s) = (ok, w1)" by (metis surj_pair)
  obtain now w2 where now: "steady_time_s E w1 = (now, w2)" by (metis surj_pair)
  have le: "T (world s) \<le> T w1" "T w1 \<le> T w2"
    using cp ok now unfolding clock_progress_def never_back_def by (metis snd_conv)+
  show ?thesis
  proof (cases "ok \<and> f_less now (f_add reading d)")
    case False
    then show ?thesis using ok now le by (auto simp: poll_body_def bindX_def read_op_def elapsed_def)
  next
    case True
    have early: "elapsed T s < B"
    proof (rule ccontr)
      assume "\<not> elapsed T s < B"
      then have "B \<le> T (world s)" "B \<le> T w1" using le by (simp_all add: elapsed_def)
      then show False using B True ok now unfolding passes_def by (metis fst_conv)
    qed
    obtain r3 s3 where r3: "body l (s\<lparr>world := w2\<rparr>) = Some (r3, s3)" "elapsed T (s\<lparr>world := w2\<rparr>) \<le> elapsed T s3"
      using body unfolding returns_def by blast
    have le3: "elapsed T s \<le> elapsed T s3" using r3(2) le by (simp add: elapsed_def)
    show ?thesis
    proof (cases "\<exists>l'. r3 = Inr (Inl l')")
      case go: True
      then obtain l' where l': "r3 = Inr (Inl l')" by blast
      obtain r4 s4 where r4: "spin_bounded E (f_add reading d) s3 = Some (r4, s4)" "elapsed T s3 < elapsed T s4"
        using spin_bounded_advances [OF cp] by blast
      then show ?thesis using ok now True r3 l' le3 early
        by (cases r4) (auto simp: poll_body_def bindX_def thenX_def read_op_def)
    next
      case stop: False
      then show ?thesis using ok now True r3 le3
        by (cases r3) (auto simp: poll_body_def bindX_def read_op_def split: sum.splits)
    qed
  qed
qed

lemma ends_poll_loop:
  assumes "clock_progress E T" and "f_isfinite d" and "\<And>l. ends T (body l)"
  shows "ends T (poll_loop E (f_add (fst (steady_time_s E w)) d) body l)"
proof -
  obtain B where "passes E T (fst (steady_time_s E w)) d B"
    using assms(1,2) unfolding clock_progress_def by blast
  then show ?thesis unfolding poll_loop_def
    by (intro returns_loop) (rule poll_body_turn [OF assms(1) _ assms(3)])
qed

lemma ends_deadline:
  assumes "clock_progress E T" and "\<And>w. ends T (k (f_add (fst (steady_time_s E w)) d))"
  shows "ends T (bindX (deadline_after E d) k)"
proof -
  have "bindX (deadline_after E d) k = bindX (read_op (steady_time_s E)) (\<lambda>now. k (f_add now d))"
    by (simp add: deadline_after_def bindX_def read_op_def fun_eq_iff split: prod.splits)
  moreover have "never_back T (steady_time_s E)" using assms(1) by (simp add: clock_progress_def)
  ultimately show ?thesis by (simp add: ends_bind_read assms(2))
qed

section \<open>The operations of the executor\<close>

definition bounded_env :: "'w mission_env \<Rightarrow> ('w \<Rightarrow> nat) \<Rightarrow> bool" where
  "bounded_env E T \<longleftrightarrow> clock_progress E T \<and> f_isfinite (wall_escape_timeout_s (config E))"

lemma bounded_progress: "bounded_env E T \<Longrightarrow> clock_progress E T"
  by (simp add: bounded_env_def)

lemmas bounded_reads = progress_reads [OF bounded_progress]
lemmas bounded_driver = progress_driver [OF bounded_progress]
lemmas bounded_event = ends_record_event [OF bounded_progress]
lemmas bounded_offset = ends_wall_offset [OF bounded_progress]
lemmas bounded_deadline = ends_deadline [OF bounded_progress]
lemmas bounded_poll_loop = ends_poll_loop [OF bounded_progress]

lemma f_isfinite_iff: "f_isfinite x \<longleftrightarrow> (\<exists>q. x = Fin q)"
  by (cases x) simp_all

lemma finite_capped: "bounded_env E T \<Longrightarrow> f_isfinite d \<Longrightarrow> f_isfinite (capped E d)"
  by (simp add: bounded_env_def capped_def f_min_def)

lemma finite_waits:
  "f_isfinite ACTION_SERVER_WAIT_WALL_S" "f_isfinite SIM_TIME_READY_WAIT_WALL_S"
  "f_isfinite GOAL_RESPONSE_TIMEOUT_WALL_S" "f_isfinite ACCEPTED_STATUS_TIMEOUT_WALL_S"
  "f_isfinite CANCEL_ACK_TIMEOUT_WALL_S" "f_isfinite CANCEL_RESULT_TIMEOUT_WALL_S"
  "f_isfinite FAULT_SERVICE_WAIT_WALL_S" "f_isfinite FAULT_RESPONSE_TIMEOUT_WALL_S"
  "f_isfinite FAULT_EVENT_TIMEOUT_WALL_S"
  by (simp_all add: ACTION_SERVER_WAIT_WALL_S_def SIM_TIME_READY_WAIT_WALL_S_def
      GOAL_RESPONSE_TIMEOUT_WALL_S_def ACCEPTED_STATUS_TIMEOUT_WALL_S_def CANCEL_ACK_TIMEOUT_WALL_S_def
      CANCEL_RESULT_TIMEOUT_WALL_S_def FAULT_SERVICE_WAIT_WALL_S_def FAULT_RESPONSE_TIMEOUT_WALL_S_def
      FAULT_EVENT_TIMEOUT_WALL_S_def)

lemma ends_overflow_check: "ends T raise_if_feedback_trace_overflow"
  unfolding raise_if_feedback_trace_overflow_def by (intro ends_rules)

lemmas ends_ops = bounded_reads bounded_event bounded_offset bounded_deadline bounded_poll_loop
  finite_capped finite_waits ends_overflow_check ends_rules

lemma ends_wait_for_value:
  "bounded_env E T \<Longrightarrow> never_back T poll \<Longrightarrow> f_isfinite d \<Longrightarrow> ends T (wait_for_value E poll d b)"
  unfolding wait_for_value_def by (intro ends_ops ends_world)

lemma ends_wait_for_server: "bounded_env E T \<Longrightarrow> ends T (wait_for_server E)"
  unfolding wait_for_server_def by (intro ends_ops bounded_driver)

lemma ends_wait_for_advancing: "bounded_env E T \<Longrightarrow> ends T (wait_for_advancing_positive_sim_time E)"
  unfolding wait_for_advancing_positive_sim_time_def by (intro ends_ops)

lemma ends_wait_for_client_clock: "bounded_env E T \<Longrightarrow> ends T (wait_for_client_clock_to_reach E a b)"
  unfolding wait_for_client_clock_to_reach_def by (intro ends_ops)

lemma ends_collect_events: "ends T (collect_events evs)"
proof (induction evs)
  case Nil
  show ?case unfolding collect_events.simps by (rule returns_ret)
next
  case (Cons d evs)
  have "world (snd (collect_event d s)) = world s" for s :: "'w xst"
    by (simp add: collect_event_def split: pyval.split)
  then have "ends T (liftX (collect_event d))"
    unfolding returns_def elapsed_def by (metis act_simps(5) le_refl prod.collapse)
  then show ?case unfolding collect_events.simps by (intro returns_then Cons.IH)
qed

lemma ends_collect_fault_events: "bounded_env E T \<Longrightarrow> ends T (collect_fault_events E)"
proof (cases "fault_driver E")
  case None
  then show ?thesis unfolding collect_fault_events_def by (simp only: option.case) (rule returns_ret)
next
  case (Some fd)
  assume "bounded_env E T"
  then have "fault_driver_never_back T fd" using Some progress_fault_driver bounded_progress by blast
  then show ?thesis unfolding collect_fault_events_def Some option.case fault_driver_never_back_def
    by (intro ends_rules ends_world ends_collect_events) simp_all
qed

lemma ends_wait_for_fault_event: "bounded_env E T \<Longrightarrow> ends T (wait_for_fault_event E t)"
  unfolding wait_for_fault_event_def by (intro ends_ops ends_collect_fault_events)

lemma ends_reset_faults: "bounded_env E T \<Longrightarrow> ends T (reset_faults E b)"
proof (cases "fault_driver E")
  case None
  then show ?thesis unfolding reset_faults_def by (simp only: option.case) (rule returns_ret)
next
  case (Some fd)
  assume env: "bounded_env E T"
  then have "fault_driver_never_back T fd" using Some progress_fault_driver bounded_progress by blast
  then have "never_back T (start_reset fd)" "never_back T (poll_reset_response fd)"
    by (simp_all add: fault_driver_never_back_def)
  with env show ?thesis unfolding reset_faults_def Some option.case
    by (intro ends_ops ends_world ends_wait_for_value ends_wait_for_fault_event)
qed

lemma ends_contract:
  assumes "bounded_env E T"
    and "\<And>sch fd. fault_driver_never_back T fd \<Longrightarrow> ends T (k (sch, fd))"
  shows "ends T (bindX (require_fault_contract E) k)"
proof (cases "\<exists>sch fd. config_fault_schedule (config E) = Some sch \<and> fault_driver E = Some fd")
  case False
  then have "require_fault_contract E = raiseX (FaultProtocolError ''phase3_fault_control_driver_unavailable'')"
    by (auto simp: require_fault_contract_def split: option.splits)
  then show ?thesis by (simp add: returns_def bindX_def)
next
  case True
  then obtain sch fd where c: "config_fault_schedule (config E) = Some sch" "fault_driver E = Some fd" by blast
  then have "bindX (require_fault_contract E) k = k (sch, fd)"
    by (simp add: require_fault_contract_def bindX_def fun_eq_iff)
  moreover have "fault_driver_never_back T fd"
    using c(2) progress_fault_driver bounded_progress [OF assms(1)] by blast
  ultimately show ?thesis using assms(2) by simp
qed

lemma never_back_fault_ops:
  assumes "fault_driver_never_back T fd"
  shows "never_back T (services_are_ready fd)" "never_back T (start_preload fd sch)"
    "never_back T (poll_preload_response fd)" "never_back T (start_arm fd h g u t)"
    "never_back T (poll_arm_response fd)"
  using assms by (simp_all add: fault_driver_never_back_def)

lemma ends_prepare: "bounded_env E T \<Longrightarrow> ends T (prepare_fault_schedule E)"
  unfolding prepare_fault_schedule_def
  by (rule ends_contract, assumption, unfold prod.case)
    (intro ends_ops ends_world ends_wait_for_value ends_wait_for_fault_event ends_reset_faults
      ends_collect_fault_events never_back_fault_ops; assumption)

lemma ends_arm: "bounded_env E T \<Longrightarrow> ends T (arm_fault_schedule E u t)"
  unfolding arm_fault_schedule_def
  by (rule ends_contract, assumption, unfold prod.case)
    (intro ends_ops ends_world ends_wait_for_value ends_wait_for_fault_event never_back_fault_ops; assumption)

lemma ends_finish: "ends T (finish code why)"
  unfolding finish_def by (rule ends_mod_rec)

lemma ends_capture_terminal: "bounded_env E T \<Longrightarrow> ends T (capture_terminal E t)"
  unfolding capture_terminal_def by (intro ends_ops)

lemma ends_finish_from_terminal: "bounded_env E T \<Longrightarrow> ends T (finish_from_terminal E t)"
  unfolding finish_from_terminal_def by (intro ends_ops ends_capture_terminal ends_finish)

lemma never_back_driver_ops:
  assumes "bounded_env E T"
  shows "never_back T (poll_goal_response (driver E))" "never_back T (poll_accepted_status_stamp_ns (driver E))"
    "never_back T (poll_terminal_result (driver E))" "never_back T (poll_cancel_acknowledgement (driver E))"
  using assms by (simp_all add: bounded_env_def clock_progress_def driver_never_back_def)

lemma ends_cancel: "bounded_env E T \<Longrightarrow> ends T (cancel_and_await_terminal E code why)"
  unfolding cancel_and_await_terminal_def
  by (intro ends_ops bounded_driver ends_wait_for_value never_back_driver_ops ends_capture_terminal ends_finish)

lemma ends_cancel_after_deadline: "bounded_env E T \<Longrightarrow> ends T (cancel_after_deadline E kind)"
  unfolding cancel_after_deadline_def by (intro ends_ops ends_cancel)

lemma ends_fail_closed: "bounded_env E T \<Longrightarrow> ends T (fail_closed_after_acceptance E why)"
  unfolding fail_closed_after_acceptance_def by (intro ends_ops ends_cancel ends_finish)

section \<open>The loop on the accepted goal\<close>

text \<open>A turn that goes round again moved the elapsed time forward, from a time that satisfies \<open>P\<close>.\<close>

definition turn :: "('w \<Rightarrow> nat) \<Rightarrow> (nat \<Rightarrow> bool) \<Rightarrow> ('w, 'l + 'v) xact \<Rightarrow> bool" where
  "turn T P m \<longleftrightarrow> (\<forall>s. \<exists>r s'. m s = Some (r, s') \<and> elapsed T s \<le> elapsed T s'
     \<and> (\<forall>l'. r = Inr (Inl l') \<longrightarrow> elapsed T s < elapsed T s' \<and> P (elapsed T s)))"

lemma turn_bind:
  assumes "ends T m" and "\<And>a. turn T P (k a)" and down: "\<And>i j. i \<le> j \<Longrightarrow> P j \<Longrightarrow> P i"
  shows "turn T P (bindX m k)"
  unfolding turn_def
proof
  fix s
  obtain r1 s1 where m: "m s = Some (r1, s1)" "elapsed T s \<le> elapsed T s1"
    using assms(1) unfolding returns_def by blast
  show "\<exists>r s'. bindX m k s = Some (r, s') \<and> elapsed T s \<le> elapsed T s'
     \<and> (\<forall>l'. r = Inr (Inl l') \<longrightarrow> elapsed T s < elapsed T s' \<and> P (elapsed T s))"
  proof (cases r1)
    case (Inl e)
    then show ?thesis using m by (simp add: bindX_def)
  next
    case (Inr a)
    obtain r s' where k: "k a s1 = Some (r, s')" "elapsed T s1 \<le> elapsed T s'"
      "\<forall>l'. r = Inr (Inl l') \<longrightarrow> elapsed T s1 < elapsed T s' \<and> P (elapsed T s1)"
      using assms(2) [of a] unfolding turn_def by blast
    have "bindX m k s = Some (r, s')" using m k Inr by (simp add: bindX_def)
    moreover have "elapsed T s < elapsed T s' \<and> P (elapsed T s)" if "r = Inr (Inl l')" for l'
      using k(3) that m(2) down [OF m(2)] by auto
    ultimately show ?thesis using m(2) k(2) by (blast intro: le_trans)
  qed
qed

lemma turn_then: "ends T m \<Longrightarrow> turn T P n \<Longrightarrow> (\<And>i j. i \<le> j \<Longrightarrow> P j \<Longrightarrow> P i) \<Longrightarrow> turn T P (thenX m n)"
  unfolding thenX_def by (rule turn_bind)

lemma turn_stop:
  assumes "ends T m"
  shows "turn T P (thenX m (retX (Inr v)))"
  unfolding turn_def
proof
  fix s
  obtain r1 s1 where "m s = Some (r1, s1)" "elapsed T s \<le> elapsed T s1"
    using assms unfolding returns_def by blast
  then show "\<exists>r s'. thenX m (retX (Inr v)) s = Some (r, s') \<and> elapsed T s \<le> elapsed T s'
     \<and> (\<forall>l'. r = Inr (Inl l') \<longrightarrow> elapsed T s < elapsed T s' \<and> P (elapsed T s))"
    by (cases r1) (auto simp: thenX_def bindX_def)
qed

lemma turn_raise: "turn T P (raiseX e)"
  by (simp add: turn_def)

lemma turn_if: "turn T P m \<Longrightarrow> turn T P n \<Longrightarrow> turn T P (if c then m else n)"
  by simp

lemma turn_option: "turn T P m \<Longrightarrow> (\<And>a. turn T P (k a)) \<Longrightarrow> turn T P (case x of None \<Rightarrow> m | Some a \<Rightarrow> k a)"
  by (cases x) simp_all

lemmas turn_rules = turn_then turn_bind turn_stop turn_raise turn_if turn_option

text \<open>The last step of a turn: past the wall deadline the loop is left, before it the spin advances.\<close>

lemma wall_turn:
  fixes E :: "'w mission_env"
  assumes env: "bounded_env E T" and stop: "ends T m"
    and late: "\<And>w. \<not> f_le d (f_sub (fst (steady_time_s E w)) l) \<Longrightarrow> P (T w)"
  shows "turn T P (bindX (read_op (steady_time_s E)) (\<lambda>now.
     if f_le d (f_sub now l) then thenX m (retX (Inr ())) else thenX (spin E t) (retX (Inl ()))))"
  unfolding turn_def
proof
  fix s :: "'w xst"
  obtain now w where now: "steady_time_s E (world s) = (now, w)" by (metis surj_pair)
  have le: "T (world s) \<le> T w"
    using bounded_progress [OF env] now unfolding clock_progress_def never_back_def by (metis snd_conv)
  let ?k = "if f_le d (f_sub now l) then thenX m (retX (Inr ())) else thenX (spin E t) (retX (Inl ()))"
  have "\<exists>r s'. ?k (s\<lparr>world := w\<rparr>) = Some (r, s') \<and> elapsed T (s\<lparr>world := w\<rparr>) \<le> elapsed T s'
     \<and> (\<forall>l'. r = Inr (Inl l') \<longrightarrow> elapsed T (s\<lparr>world := w\<rparr>) < elapsed T s' \<and> P (elapsed T s))"
  proof (cases "f_le d (f_sub now l)")
    case True
    obtain r1 s1 where "m (s\<lparr>world := w\<rparr>) = Some (r1, s1)" "elapsed T (s\<lparr>world := w\<rparr>) \<le> elapsed T s1"
      using stop unfolding returns_def by blast
    with True show ?thesis by (cases r1) (auto simp: thenX_def bindX_def)
  next
    case False
    have "P (elapsed T s)" using late [of "world s"] False now by (simp add: elapsed_def)
    moreover obtain r1 s1 where "spin E t (s\<lparr>world := w\<rparr>) = Some (r1, s1)"
      "elapsed T (s\<lparr>world := w\<rparr>) < elapsed T s1"
      using spin_advances [OF bounded_progress [OF env]] by blast
    ultimately show ?thesis using False by (cases r1) (auto simp: thenX_def bindX_def)
  qed
  then obtain r s' where "?k (s\<lparr>world := w\<rparr>) = Some (r, s')" "elapsed T (s\<lparr>world := w\<rparr>) \<le> elapsed T s'"
    "\<forall>l'. r = Inr (Inl l') \<longrightarrow> elapsed T (s\<lparr>world := w\<rparr>) < elapsed T s' \<and> P (elapsed T s)" by blast
  moreover have "elapsed T s \<le> elapsed T (s\<lparr>world := w\<rparr>)" using le by (simp add: elapsed_def)
  ultimately show "\<exists>r s'. bindX (read_op (steady_time_s E)) (\<lambda>now.
       if f_le d (f_sub now l) then thenX m (retX (Inr ())) else thenX (spin E t) (retX (Inl ()))) s
       = Some (r, s') \<and> elapsed T s \<le> elapsed T s'
     \<and> (\<forall>l'. r = Inr (Inl l') \<longrightarrow> elapsed T s < elapsed T s' \<and> P (elapsed T s))"
    using now by (intro exI [of _ r] exI [of _ s']) (auto simp: bindX_def read_op_def)
qed

lemma terminal_poll_turn:
  assumes env: "bounded_env E T" and down: "\<And>i j. i \<le> j \<Longrightarrow> P j \<Longrightarrow> P i"
    and late: "\<And>w. \<not> f_le (wall_escape_timeout_s (config E)) (f_sub (fst (steady_time_s E w)) l) \<Longrightarrow> P (T w)"
  shows "turn T P (terminal_poll E a l stamp)"
  unfolding terminal_poll_def
  by (intro turn_option turn_if turn_stop turn_raise wall_turn [OF env] turn_then turn_bind
      ends_overflow_check ends_collect_fault_events bounded_driver bounded_reads returns_raise_if
      ends_finish_from_terminal ends_finish ends_cancel_after_deadline env; (erule (1) down | erule late))

lemma terminal_body_turn:
  fixes E :: "'w mission_env"
  assumes env: "bounded_env E T" and B: "passes E T l (wall_escape_timeout_s (config E)) B"
  shows "turn T (\<lambda>n. n < B) (terminal_body E a l stamp u)"
  using B unfolding passes_def
proof
  assume clock: "\<forall>w. B \<le> T w \<longrightarrow> \<not> f_less (fst (steady_time_s E w)) (f_add l (wall_escape_timeout_s (config E)))
      \<and> f_le (wall_escape_timeout_s (config E)) (f_sub (fst (steady_time_s E w)) l)"
  have "turn T (\<lambda>n. n < B) (terminal_poll E a l stamp)"
  proof (rule terminal_poll_turn [OF env])
    show "T w < B" if "\<not> f_le (wall_escape_timeout_s (config E)) (f_sub (fst (steady_time_s E w)) l)" for w
      using clock that not_le by blast
  qed auto
  then show ?thesis unfolding terminal_body_def
    by (intro turn_bind turn_if turn_stop ends_finish bounded_reads env) auto
next
  assume stopped: "\<forall>w. B \<le> T w \<longrightarrow> \<not> fst (runtime_ok E w)"
  have poll: "turn T (\<lambda>n. True) (terminal_poll E a l stamp)"
    by (rule terminal_poll_turn [OF env]) auto
  show ?thesis unfolding turn_def
  proof
    fix s :: "'w xst"
    obtain ok w where ok: "runtime_ok E (world s) = (ok, w)" by (metis surj_pair)
    have le: "T (world s) \<le> T w"
      using bounded_progress [OF env] ok unfolding clock_progress_def never_back_def by (metis snd_conv)
    show "\<exists>r s'. terminal_body E a l stamp u s = Some (r, s') \<and> elapsed T s \<le> elapsed T s'
      \<and> (\<forall>l'. r = Inr (Inl l') \<longrightarrow> elapsed T s < elapsed T s' \<and> elapsed T s < B)"
    proof (cases ok)
      case False
      then show ?thesis using ok le
        by (simp add: terminal_body_def bindX_def read_op_def thenX_def finish_def mod_rec_def elapsed_def)
    next
      case True
      then have "elapsed T s < B" using stopped ok by (metis elapsed_def fst_conv not_le)
      moreover obtain r s' where "terminal_poll E a l stamp (s\<lparr>world := w\<rparr>) = Some (r, s')"
        "elapsed T (s\<lparr>world := w\<rparr>) \<le> elapsed T s'"
        "\<forall>l'. r = Inr (Inl l') \<longrightarrow> elapsed T (s\<lparr>world := w\<rparr>) < elapsed T s'"
        using poll unfolding turn_def by blast
      ultimately show ?thesis using True ok le
        by (intro exI [of _ r] exI [of _ s']) (auto simp: terminal_body_def bindX_def read_op_def elapsed_def)
    qed
  qed
qed

lemma ends_wait_for_terminal:
  assumes "bounded_env E T"
  shows "ends T (wait_for_terminal_or_deadline E a (fst (steady_time_s E w)) stamp)"
proof -
  obtain B where "passes E T (fst (steady_time_s E w)) (wall_escape_timeout_s (config E)) B"
    using assms unfolding bounded_env_def clock_progress_def by blast
  from terminal_body_turn [OF assms this] show ?thesis
    unfolding wait_for_terminal_or_deadline_def turn_def
    by (intro returns_then returns_raise_if returns_loop) blast
qed

lemma ends_run_accepted:
  assumes "bounded_env E T"
  shows "ends T (run_accepted E u a b (fst (steady_time_s E w)) t)"
  unfolding run_accepted_def
  by (intro ends_ops ends_wait_for_client_clock ends_fail_closed ends_arm ends_wait_for_terminal assms)

lemma ends_run_response:
  assumes "bounded_env E T"
  shows "ends T (run_response E t resp)"
proof -
  have "never_back T (steady_time_s E)" using bounded_progress [OF assms] by (simp add: clock_progress_def)
  note read = ends_bind_read [OF this]
  note tail = ends_wait_for_value [OF assms] never_back_driver_ops [OF assms] finite_capped [OF assms] finite_waits
    ends_overflow_check bounded_event [OF assms] bounded_offset [OF assms] ends_fail_closed [OF assms]
    ends_run_accepted [OF assms] ends_rules
  show ?thesis unfolding run_response_def
    apply (intro ends_option ends_if ends_fail_closed [OF assms] returns_raise returns_then returns_raise_if)
    apply (rule returns_bind [OF bounded_reads(1) [OF assms]])
    apply (intro returns_then returns_raise_if)
    apply (rule read)
    apply (intro tail)
    done
qed

lemma ends_run: "bounded_env E T \<Longrightarrow> ends T (run E)"
proof -
  assume env: "bounded_env E T"
  have goal: "ends T (run_goal E)" unfolding run_goal_def
    by (intro ends_ops ends_wait_for_advancing ends_prepare ends_wait_for_server bounded_driver
        ends_wait_for_value never_back_driver_ops ends_finish ends_run_response env)
  have close: "ends T (close_failed E why)" for why unfolding close_failed_def
    by (intro ends_ops bounded_driver ends_fail_closed ends_finish env)
  have failure: "ends T (handle_failure E e)" for e
    by (induction e; unfold handle_failure.simps; intro ends_ops close env)
  have "ends T (case e of FaultProtocolError m \<Rightarrow> mod_rec (teardown_failure m) | _ \<Rightarrow> raiseX e)" for e
    by (cases e) (simp_all only: exn.case ends_mod_rec returns_raise)
  then have teardown: "ends T (run_teardown E)" unfolding run_teardown_def
    by (intro ends_ops ends_reset_faults ends_collect_fault_events env)
  show ?thesis unfolding run_def run_once_def by (intro ends_rules goal failure teardown)
qed

text \<open>C18: every mission run returns. If no call sets the elapsed time back, every spin lets it
  grow, and after enough of it the ROS context has stopped or the steady clock has passed any finite
  deadline set from one of its readings, then the run ends with a record or an exception, whatever
  the drivers answer.\<close>

theorem mission_run_returns:
  assumes "clock_progress E T" and "f_isfinite (wall_escape_timeout_s (config E))"
  shows "\<exists>res s. execute E w = Some (res, s)"
proof -
  have "bounded_env E T" using assms by (simp add: bounded_env_def)
  then have "ends T (run E)" by (rule ends_run)
  then show ?thesis unfolding execute_def returns_def by blast
qed

end
