(* ===== verification/Mission_Demo.thy ===== *)
theory Mission_Demo
  imports Mission_Verdict Mission_Progress
begin

text \<open>
  Three concrete mission runs, evaluated in the logic: a phase 2 success, a phase 2 run that reaches
  its simulation deadline, and a phase 3 success with an empty schedule. They instantiate the
  theorems of \<open>Mission_Safety\<close>, \<open>Mission_Verdict\<close> and \<open>Mission_Progress\<close>.
\<close>

section \<open>Scripted drivers\<close>

definition demo_config :: mission_config where
  "demo_config = \<lparr>config_schema_version = 1, mission_name = ''demo'', mission_seed = 1, simulator_seed = 1,
     frame_id = ''map'', start_pose = \<lparr>pose_x = Fin 0, pose_y = Fin 0, pose_yaw = Fin 0\<rparr>,
     waypoints = [\<lparr>pose_x = Fin 1, pose_y = Fin 0, pose_yaw = Fin 0\<rparr>],
     mission_timeout_sim_s = Fin 0, wall_escape_timeout_s = Fin 120, allowed_collision_count = 0,
     config_fault_schedule = None, fault_seed = None, expected_outcome = ''SUCCEEDED'', retries = 0,
     scenario_id = None, scenario_controller_seed = None, scenario_contract = None\<rparr>"

definition demo_terminal :: terminal_action_result where
  "demo_terminal = \<lparr>status_code = 4, error_code = 0, error_message = '''', missed_waypoints = []\<rparr>"

text \<open>A driver that accepts at once; \<open>ready w\<close> says whether the terminal result is there.\<close>

definition demo_driver :: "('w \<Rightarrow> bool) \<Rightarrow> ('w \<Rightarrow> 'w) \<Rightarrow> 'w follow_waypoints_driver" where
  "demo_driver ready cancel = \<lparr>driver_action_name = ''follow_waypoints'',
     driver_resolved_action_name = ''/follow_waypoints'',
     server_is_ready = (\<lambda>w. (Inr True, w)),
     start_goal = (\<lambda>c t w. (Inr (), w)),
     poll_goal_response = (\<lambda>w. (Inr (Some \<lparr>gr_accepted = True, gr_goal_uuid = Some ''aa'',
        gr_response_stamp_ns = Some 0\<rparr>), w)),
     accepted_goal_is_active = (\<lambda>w. (Inr True, w)),
     poll_accepted_status_stamp_ns = (\<lambda>w. (Inr (Some 5), w)),
     poll_terminal_result = (\<lambda>w. (Inr (if ready w then Some demo_terminal else None), w)),
     request_cancel = (\<lambda>w. (Inr (), cancel w)),
     poll_cancel_acknowledgement = (\<lambda>w. (Inr (Some True), w))\<rparr>"

text \<open>A clock whose every simulation reading is one tick later; the context stops after 1000 ticks.\<close>

definition demo_env :: "nat mission_env" where
  "demo_env = \<lparr>config = demo_config, driver = demo_driver (\<lambda>w. True) (\<lambda>w. w),
     sim_time_ns = (\<lambda>w. (int w, w + 1)), steady_time_s = (\<lambda>w. (Fin (of_nat w), w)),
     spin_once = (\<lambda>d w. (([], None), w + 1)), runtime_ok = (\<lambda>w. (w < 1000, w)), fault_driver = None\<rparr>"

definition timeout_env :: "(nat \<times> bool) mission_env" where
  "timeout_env = \<lparr>config = demo_config, driver = demo_driver snd (\<lambda>(n, c). (n, True)),
     sim_time_ns = (\<lambda>(n, c). (int n, (n + 1, c))), steady_time_s = (\<lambda>(n, c). (Fin (of_nat n), (n, c))),
     spin_once = (\<lambda>d (n, c). (([], None), (n + 1, c))), runtime_ok = (\<lambda>(n, c). (True, (n, c))),
     fault_driver = None\<rparr>"

lemmas monad_eval = bindX_def thenX_def catchX_def raise_if_def world_op_def read_op_def mod_rec_def get_rec_def

lemmas mission_eval = execute_def run_def run_once_def run_goal_def run_response_def run_accepted_def
  wait_for_advancing_positive_sim_time_def wait_for_server_def wait_for_value_def
  wait_for_client_clock_to_reach_def wait_for_terminal_or_deadline_def terminal_body_def terminal_poll_def
  finish_from_terminal_def terminal_verdict_def capture_terminal_def finish_def finish_record_def
  cancel_after_deadline_def cancel_and_await_terminal_def
  collect_fault_events_def raise_if_feedback_trace_overflow_def
  poll_loop_def poll_body_def deadline_after_def capped_def spin_bounded_def spin_def record_event_def wall_offset_def
  new_executor_def new_record_def is_phase3_def f_min_def f_max_def f_sub_def f_le_def loopX.simps
  MISSION_EVENT_TRACE_CAPACITY_def ACTION_SERVER_WAIT_WALL_S_def SIM_TIME_READY_WAIT_WALL_S_def
  GOAL_RESPONSE_TIMEOUT_WALL_S_def ACCEPTED_STATUS_TIMEOUT_WALL_S_def CANCEL_ACK_TIMEOUT_WALL_S_def
  CANCEL_RESULT_TIMEOUT_WALL_S_def GOAL_STATUS_SUCCEEDED_def NAV2_ERROR_NONE_def

definition observed :: "((exn + execution_record) \<times> 'w xst) option \<Rightarrow> (exit_code_t \<times> bool \<times> string option) option" where
  "observed res = (case res of Some (Inr r, s) \<Rightarrow> Some (exit_code r, cancellation_requested r, accepted_goal_uuid r) | _ \<Rightarrow> None)"

lemma demo_observed: "observed (execute demo_env 1) = Some (SUCCESS, False, Some ''aa'')"
  by (simp add: observed_def monad_eval mission_eval demo_env_def demo_config_def demo_driver_def demo_terminal_def)

lemma timeout_observed: "observed (execute timeout_env (1, False)) = Some (TIMEOUT, True, Some ''aa'')"
  by (simp add: observed_def monad_eval mission_eval timeout_env_def demo_config_def demo_driver_def
      demo_terminal_def rat_trunc_def)

lemma observedE:
  assumes "observed res = Some (code, c, u)"
  obtains r s where "res = Some (Inr r, s)" "exit_code r = code" "cancellation_requested r = c"
    "accepted_goal_uuid r = u"
  using assms by (auto simp: observed_def split: option.splits prod.splits sum.splits)

theorem mission_success_sound_witness:
  "\<exists>r s. execute demo_env 1 = Some (Inr r, s) \<and> exit_code r = SUCCESS \<and> \<not> cancellation_requested r
    \<and> (\<exists>terminal. terminal_result r = Some terminal \<and> status_code terminal = GOAL_STATUS_SUCCEEDED)"
proof -
  obtain r s where "execute demo_env 1 = Some (Inr r, s)" "exit_code r = SUCCESS"
    using observedE [OF demo_observed] .
  then show ?thesis using mission_success_sound [of demo_env 1 r s] by blast
qed

theorem mission_timeout_sound_witness:
  "\<exists>r s. execute timeout_env (1, False) = Some (Inr r, s) \<and> exit_code r = TIMEOUT
    \<and> cancel_acknowledged r = Some True"
proof -
  obtain r s where "execute timeout_env (1, False) = Some (Inr r, s)" "exit_code r = TIMEOUT"
    using observedE [OF timeout_observed] .
  then show ?thesis using mission_timeout_sound [of timeout_env "(1, False)" r s] by blast
qed

theorem mission_fails_closed_witness:
  "\<exists>r s. execute timeout_env (1, False) = Some (Inr r, s) \<and> accepted_goal_uuid r = Some ''aa''
    \<and> (terminal_result r \<noteq> None \<or> cancellation_requested r
       \<or> reason r \<in> {''simulation_clock_regressed'', ''rclpy_context_stopped'', ''mission_event_trace_overflow''})"
proof -
  obtain r s where r: "execute timeout_env (1, False) = Some (Inr r, s)" "accepted_goal_uuid r = Some ''aa''"
    using observedE [OF timeout_observed] .
  have p: "\<not> is_phase3 (config timeout_env)" by (simp add: is_phase3_def timeout_env_def demo_config_def)
  have "accepted_goal_uuid r \<noteq> None" using r(2) by simp
  from mission_fails_closed [OF r(1) p this] r show ?thesis by blast
qed

theorem mission_run_returns_witness: "\<exists>res s. execute demo_env 1 = Some (res, s)"
proof (rule mission_run_returns [of _ "\<lambda>w. w"])
  show "clock_progress demo_env (\<lambda>w. w)"
    unfolding clock_progress_def
    by (auto simp: never_back_def driver_never_back_def demo_env_def demo_driver_def passes_def
        intro!: exI [of _ 1000])
  show "f_isfinite (wall_escape_timeout_s (config demo_env))" by (simp add: demo_env_def demo_config_def)
qed

section \<open>A phase 3 run\<close>

type_synonym demo_world = "nat \<times> int \<times> pydict list"

definition demo_schedule3 :: fault_schedule where
  "demo_schedule3 = \<lparr>schedule_schema_version = 1, faults = [], canonical_json = '''', sha256 = ''h''\<rparr>"

definition demo_event :: "int \<Rightarrow> int \<Rightarrow> int \<Rightarrow> pydict \<Rightarrow> pydict" where
  "demo_event kind state q extra =
     [(''schema_version'', PInt 2), (''event_type'', PInt kind), (''event_sequence'', PInt q),
      (''accepted'', PBool True), (''state_after'', PInt state)] @ extra"

definition emit :: "(int \<Rightarrow> pydict) \<Rightarrow> demo_world \<Rightarrow> (exn + unit) \<times> demo_world" where
  "emit ev w = (case w of (n, q, evs) \<Rightarrow> (Inr (), (n, q + 1, evs @ [ev q])))"

definition demo_fault_driver :: "demo_world fault_control_driver" where
  "demo_fault_driver = \<lparr>services_are_ready = (\<lambda>w. (Inr True, w)),
     start_reset = emit (\<lambda>q. demo_event 3 0 q []),
     poll_reset_response = (\<lambda>w. (Inr (Some \<lparr>rr_success = True, rr_message = ''''\<rparr>), w)),
     start_preload = (\<lambda>sch. emit (\<lambda>q. demo_event 1 1 q
        [(''requested_schedule_hash'', PStr ''h''), (''committed_schedule_hash'', PStr ''h''),
         (''requested_fault_count'', PInt 0), (''committed_generation'', PInt 1), (''committed_fault_count'', PInt 0)])),
     poll_preload_response = (\<lambda>w. (Inr (Some \<lparr>pr_accepted = True, pr_replayed = False, pr_state = 1,
        pr_schedule_hash = ''h'', pr_loaded_count = 0, pr_generation = 1, pr_message = ''''\<rparr>), w)),
     start_arm = (\<lambda>h g u t. emit (\<lambda>q. demo_event 7 2 q
        [(''requested_schedule_hash'', PStr ''h''), (''committed_schedule_hash'', PStr ''h''),
         (''requested_generation'', PInt 1), (''committed_generation'', PInt 1),
         (''requested_goal_uuid'', PStr ''aa''), (''bound_goal_uuid'', PStr ''aa''),
         (''requested_t0_ns'', PInt 5), (''bound_t0_ns'', PInt 5), (''arm_commit_stamp_ns'', PInt 6),
         (''arm_margin_ns'', PInt 0), (''actual_stamp_ns'', PInt 6), (''header_stamp_ns'', PInt 6)])),
     poll_arm_response = (\<lambda>w. (Inr (Some \<lparr>ar_accepted = True, ar_replayed = False, ar_state = 2,
        ar_schedule_hash = ''h'', ar_generation = 1, ar_goal_uuid = ''aa'', ar_accepted_goal_stamp_ns = 5,
        ar_arm_commit_stamp_ns = 6, ar_arm_margin_ns = 0, ar_message = ''''\<rparr>), w)),
     drain_events = (\<lambda>(n, q, evs). (Inr evs, (n, q, []))),
     event_overflow_count = (\<lambda>w. (Inr 0, w))\<rparr>"

definition demo_env3 :: "demo_world mission_env" where
  "demo_env3 = \<lparr>config = demo_config\<lparr>scenario_id := Some 1, config_fault_schedule := Some demo_schedule3\<rparr>,
     driver = demo_driver (\<lambda>w. True) (\<lambda>w. w),
     sim_time_ns = (\<lambda>(n, x). (int n, (n + 1, x))), steady_time_s = (\<lambda>(n, x). (Fin (of_nat n), (n, x))),
     spin_once = (\<lambda>d (n, x). (([], None), (n + 1, x))), runtime_ok = (\<lambda>w. (True, w)),
     fault_driver = Some demo_fault_driver\<rparr>"

lemmas mission3_eval = prepare_fault_schedule_def require_fault_contract_def reset_faults_def
  wait_for_fault_event_def find_event_def collect_event_def preload_mismatch_def preload_event_mismatch_def
  arm_fault_schedule_def arm_mismatch_def arm_margin_error_def arm_event_mismatch_def run_teardown_def
  earliest_start_offset_ns_def dget_def demo_event_def emit_def
  FAULT_SERVICE_WAIT_WALL_S_def FAULT_RESPONSE_TIMEOUT_WALL_S_def FAULT_EVENT_TIMEOUT_WALL_S_def
  FAULT_EVENT_TRACE_CAPACITY_def

lemma demo3_observed: "observed (execute demo_env3 (1, 1, [])) = Some (SUCCESS, False, Some ''aa'')"
  by (simp add: observed_def monad_eval mission_eval mission3_eval demo_env3_def demo_config_def demo_driver_def
      demo_terminal_def demo_fault_driver_def demo_schedule3_def)

theorem mission_phase3_success_sound_witness:
  "\<exists>r s. execute demo_env3 (1, 1, []) = Some (Inr r, s) \<and> fault_reset_before_goal r \<and> fault_reset_after_goal r
    \<and> fault_schedule_hash r = Some ''h''"
proof -
  obtain r s where r: "execute demo_env3 (1, 1, []) = Some (Inr r, s)" "exit_code r = SUCCESS"
    using observedE [OF demo3_observed] .
  have "is_phase3 (config demo_env3)" "config_fault_schedule (config demo_env3) = Some demo_schedule3"
    "sha256 demo_schedule3 = ''h''"
    by (simp_all add: is_phase3_def demo_env3_def demo_schedule3_def)
  with mission_phase3_success_sound [OF r] r show ?thesis by auto
qed

theorem mission_traces_bounded_witness:
  "\<exists>res s. execute demo_env3 (1, 1, []) = Some (res, s) \<and> record_trace_inv (xrec s)
     \<and> (fault_event_overflow (xrec s) \<longleftrightarrow> 0 < fault_event_overflow_count (xrec s))"
proof -
  have "overflow_counted demo_env3"
    by (simp add: overflow_counted_def counts_overflow_def demo_env3_def demo_fault_driver_def)
  moreover obtain r s where "execute demo_env3 (1, 1, []) = Some (Inr r, s)" using observedE [OF demo3_observed] .
  ultimately show ?thesis using mission_traces_bounded [of demo_env3 "(1, 1, [])"] by blast
qed

end
