(* ===== verification/Mission_Artifacts.thy ===== *)
theory Mission_Artifacts
  imports Mission_Execution
begin

text \<open>
  The canonical mission artifacts (\<open>robotest_missions/artifacts.py\<close>): the result dictionary that
  \<open>build_result\<close> makes of a mission document and an execution record, its one-row CSV projection, the
  CSV text, its readback and the reconciliation of the two files. Paths, file-system calls and
  the JSON parser are left out: the functions here are what is computed between them, and the readback
  takes the outcome of \<open>json.loads\<close> as an argument. Text is ASCII where
  \<open>json.dumps\<close> escapes it and \<open>str.upper\<close> changes it.
\<close>

section \<open>Data\<close>

record mission_document =
  document_config :: mission_config
  source_path :: string
  source_sha256 :: string
  schema_sha256 :: string

datatype artifact_exn =
    ArtifactError string | AssertionFailed | KeyMissing string | NotJson | NoAttribute | CsvError

definition ACTION_TYPE :: string where "ACTION_TYPE = ''nav2_msgs/action/FollowWaypoints''"
definition SCENARIO1_NOT_EVALUATED :: string where
  "SCENARIO1_NOT_EVALUATED = ''NOT_EVALUATED_PHASE2_MISSION_ACTION_ONLY''"
definition PHASE3_BENCHMARK_NOT_EVALUATED :: string where
  "PHASE3_BENCHMARK_NOT_EVALUATED = ''NOT_EVALUATED_COMPONENT_ARTIFACT_ONLY''"
definition MAX_JSON_BYTES :: int where "MAX_JSON_BYTES = 32 * 1024 * 1024"
definition MAX_CSV_BYTES :: int where "MAX_CSV_BYTES = 1024 * 1024"

definition CSV_FIELDS :: "string list" where
  "CSV_FIELDS =
    [
     ''run_id'', ''created_utc'', ''mission_name'', ''mission_file'', ''mission_sha256'',
     ''mission_seed'', ''simulator_seed'', ''fault_schedule_hash'', ''fault_seed'',
     ''scenario_id'', ''scenario_controller_seed'', ''candidate_id'', ''repetition_index'',
     ''suite_index'', ''action_name'', ''resolved_action_name'', ''waypoint_count'',
     ''goal_submission_stamp_ns'', ''accepted_goal_uuid'', ''accepted_goal_stamp_source'',
     ''goal_response_stamp_ns'', ''accepted_goal_stamp_ns'', ''terminal_action_stamp_ns'',
     ''completion_time_sim_s'', ''mission_wall_duration_s'', ''feedback_count'',
     ''feedback_trace_capacity'', ''feedback_trace_overflow'', ''feedback_trace_overflow_count'',
     ''mission_event_count'', ''mission_event_trace_capacity'', ''mission_event_trace_overflow'',
     ''fault_generation'', ''fault_preload_replayed'', ''fault_arm_replayed'',
     ''fault_arm_commit_stamp_ns'', ''fault_arm_margin_ns'', ''fault_reset_before_goal'',
     ''fault_reset_after_goal'', ''fault_event_count'', ''fault_event_trace_capacity'',
     ''fault_event_overflow'', ''fault_event_overflow_count'', ''fault_protocol_status'',
     ''completed_waypoint_count'', ''missed_waypoint_count'', ''goal_status_code'',
     ''goal_status'', ''nav2_error_code'', ''nav2_error_message'', ''cancellation_requested'',
     ''cancel_acknowledged'', ''terminal_result_observed'', ''deadline_kind'',
     ''expected_outcome'', ''expected_outcome_met'', ''phase2_action_integration_status'',
     ''scenario1_acceptance_status'', ''exit_code'', ''reason'']"

definition artifact_stamp :: "int option \<Rightarrow> pyval" where
  "artifact_stamp stamp =
     (case stamp of
        None \<Rightarrow> PNone
      | Some ns \<Rightarrow> PDict [(''sec'', PInt (ns div 1000000000)), (''nanosec'', PInt (ns mod 1000000000)),
                         (''nanoseconds'', PInt ns)])"

definition goal_status :: "execution_record \<Rightarrow> int option \<times> string option" where
  "goal_status r =
     (case terminal_result r of
        None \<Rightarrow> (None, None)
      | Some t \<Rightarrow> (Some (status_code t), Some (goal_status_name (status_code t))))"

definition completed_waypoint_count :: "mission_document \<Rightarrow> execution_record \<Rightarrow> int option" where
  "completed_waypoint_count document r =
     (case terminal_result r of
        None \<Rightarrow> None
      | Some t \<Rightarrow>
          if status_code t = GOAL_STATUS_SUCCEEDED \<and> missed_waypoints t = []
          then Some (int (length (waypoints (document_config document)))) else None)"

definition mission_event_as_dict :: "mission_event \<Rightarrow> pyval" where
  "mission_event_as_dict e = PDict
    [(''kind'', PStr (event_kind e)), (''sim_stamp_ns'', PInt (event_sim_stamp_ns e)),
     (''wall_offset_s'', PFloat (event_wall_offset_s e)), (''details'', PDict (event_details e))]"

definition feedback_as_dict :: "feedback_observation \<Rightarrow> pyval" where
  "feedback_as_dict o' = PDict
    [(''current_waypoint'', PInt (fb_current_waypoint o')), (''sim_stamp_ns'', PInt (fb_sim_stamp_ns o')),
     (''wall_offset_s'', PFloat (fb_wall_offset_s o')), (''valid_index'', PBool (fb_valid_index o'))]"

definition upper_char :: "char \<Rightarrow> char" where
  "upper_char c = (if CHR ''a'' \<le> c \<and> c \<le> CHR ''z'' then char_of (of_char c - 32 :: int) else c)"

definition str_upper :: "string \<Rightarrow> string" where
  "str_upper s = map upper_char s"

section \<open>\<open>build_result\<close>\<close>

text \<open>The consistency checks at its start, in their order.\<close>

definition check_feedback :: "execution_record \<Rightarrow> artifact_exn + unit" where
  "check_feedback r =
     bindE (guardE (\<not> length (feedback_trace r) > FEEDBACK_TRACE_CAPACITY)
             (ArtifactError ''feedback trace exceeds its fixed capacity'')) (\<lambda>_.
     if feedback_trace_overflow r then
       guardE (\<not> (length (feedback_trace r) \<noteq> FEEDBACK_TRACE_CAPACITY \<or> feedback_trace_overflow_count r < 1))
         (ArtifactError ''feedback overflow evidence is internally inconsistent'')
     else
       guardE (feedback_trace_overflow_count r = 0)
         (ArtifactError ''feedback overflow count requires an overflow verdict''))"

definition check_success :: "execution_record \<Rightarrow> artifact_exn + unit" where
  "check_success r =
     guardE (\<not> (exit_code r = SUCCESS \<and>
          ((case (accepted_goal_stamp_ns r, terminal_action_stamp_ns r) of
              (Some accepted, Some stamp) \<Rightarrow> stamp < accepted | _ \<Rightarrow> True)
           \<or> feedback_trace_overflow r)))
       (ArtifactError ''successful execution requires ordered timestamps and a bounded feedback trace'')"

definition check_phase3 :: "mission_config \<Rightarrow> execution_record \<Rightarrow> pydict option \<Rightarrow> artifact_exn + unit" where
  "check_phase3 c r trial_identity =
     (if is_phase3 c then
        bindE (guardE (trial_identity \<noteq> None)
                (ArtifactError ''Phase 3 result requires exact trial identity'')) (\<lambda>_.
        case config_fault_schedule c of
          None \<Rightarrow> Inl AssertionFailed
        | Some sch \<Rightarrow>
            guardE (\<not> (exit_code r = SUCCESS \<and>
                (\<not> fault_reset_before_goal r \<or> \<not> fault_reset_after_goal r
                 \<or> fault_protocol_status r \<noteq> ''RESET_CONFIRMED_AFTER_GOAL''
                 \<or> fault_schedule_hash r \<noteq> Some (sha256 sch)
                 \<or> (case fault_generation r of None \<Rightarrow> True | Some g \<Rightarrow> g \<le> 0)
                 \<or> fault_preload_replayed r = None \<or> fault_arm_replayed r = None
                 \<or> fault_arm_commit_stamp_ns r = None \<or> fault_arm_margin_ns r = None
                 \<or> fault_event_overflow r \<or> event_trace_overflow r)))
              (ArtifactError ''successful Phase 3 execution requires complete bounded fault proof''))
      else
        guardE (trial_identity = None)
          (ArtifactError ''Phase 2 result cannot contain Phase 3 trial identity''))"

definition completion_time_sim_s :: "execution_record \<Rightarrow> pyfloat option" where
  "completion_time_sim_s r =
     (case (accepted_goal_stamp_ns r, terminal_action_stamp_ns r) of
        (Some accepted, Some stamp) \<Rightarrow>
          if stamp - accepted \<ge> 0 then Some (int_truediv (stamp - accepted) 1000000000) else None
      | _ \<Rightarrow> None)"

definition mission_wall_duration_s :: "execution_record \<Rightarrow> pyfloat option" where
  "mission_wall_duration_s r =
     (case (accepted_goal_wall_offset_s r, terminal_wall_offset_s r) of
        (Some accepted, Some terminal) \<Rightarrow> Some (f_max (Fin 0) (f_sub terminal accepted))
      | _ \<Rightarrow> None)"

definition trial_field :: "pydict option \<Rightarrow> string \<Rightarrow> artifact_exn + pyval" where
  "trial_field trial_identity key =
     (case trial_identity of
        None \<Rightarrow> Inr PNone
      | Some d \<Rightarrow> (case map_of d key of None \<Rightarrow> Inl (KeyMissing key) | Some v \<Rightarrow> Inr v))"

definition scenario_status :: "mission_config \<Rightarrow> string" where
  "scenario_status c = (if is_phase3 c then PHASE3_BENCHMARK_NOT_EVALUATED else SCENARIO1_NOT_EVALUATED)"

definition result_identity ::
  "mission_document \<Rightarrow> execution_record \<Rightarrow> string \<Rightarrow> string \<Rightarrow> pyval \<Rightarrow> pyval \<Rightarrow> pyval \<Rightarrow> pydict" where
  "result_identity document r run_id created_utc candidate_id repetition_index suite_index =
     (let c = document_config document in
    [(''action_name'', PStr (action_name r)), (''action_type'', PStr ACTION_TYPE),
     (''created_utc'', PStr created_utc),
     (''fault_schedule_hash'', py_opt (\<lambda>s. PStr (sha256 s)) (config_fault_schedule c)),
     (''fault_seed'', py_opt PInt (fault_seed c)),
     (''mission_file'', PStr (source_path document)), (''mission_name'', PStr (mission_name c)),
     (''mission_seed'', PInt (mission_seed c)), (''mission_sha256'', PStr (source_sha256 document)),
     (''resolved_action_name'', PStr (resolved_action_name r)), (''run_id'', PStr run_id),
     (''candidate_id'', candidate_id), (''repetition_index'', repetition_index),
     (''scenario_controller_seed'', py_opt PInt (scenario_controller_seed c)),
     (''scenario_id'', py_opt PInt (scenario_id c)), (''suite_index'', suite_index),
     (''schema_sha256'', PStr (schema_sha256 document)), (''simulator_seed'', PInt (simulator_seed c)),
     (''verification_level'', PStr ''L3 bounded local simulation action observation'')])"

definition result_targets :: "mission_config \<Rightarrow> pydict" where
  "result_targets c =
    [(''action_server_wait_wall_s'', PFloat ACTION_SERVER_WAIT_WALL_S),
     (''allowed_collision_count'', PInt (allowed_collision_count c)),
     (''accepted_status_timeout_wall_s'', PFloat ACCEPTED_STATUS_TIMEOUT_WALL_S),
     (''cancel_ack_timeout_wall_s'', PFloat CANCEL_ACK_TIMEOUT_WALL_S),
     (''cancel_result_timeout_wall_s'', PFloat CANCEL_RESULT_TIMEOUT_WALL_S),
     (''expected_outcome'', PStr (expected_outcome c)),
     (''feedback_trace_capacity'', PInt (int FEEDBACK_TRACE_CAPACITY)),
     (''fault_event_trace_capacity'', PInt (int FAULT_EVENT_TRACE_CAPACITY)),
     (''frame_id'', PStr (frame_id c)), (''goal_index'', PInt 0),
     (''goal_response_timeout_wall_s'', PFloat GOAL_RESPONSE_TIMEOUT_WALL_S),
     (''mission_timeout_sim_s'', PFloat (mission_timeout_sim_s c)),
     (''mission_event_trace_capacity'', PInt (int MISSION_EVENT_TRACE_CAPACITY)),
     (''number_of_loops'', PInt 0), (''retries'', PInt (retries c)),
     (''sim_time_ready_wait_wall_s'', PFloat SIM_TIME_READY_WAIT_WALL_S),
     (''start_pose'', PDict (planar_pose_as_dict (start_pose c))),
     (''wall_escape_timeout_s'', PFloat (wall_escape_timeout_s c)),
     (''waypoint_count'', PInt (int (length (waypoints c)))),
     (''waypoints'', PList (map (\<lambda>p. PDict (planar_pose_as_dict p)) (waypoints c))),
     (''scenario_contract'', py_opt PDict (scenario_contract c))]"

definition missed_dicts :: "execution_record \<Rightarrow> pyval list" where
  "missed_dicts r =
     (case terminal_result r of None \<Rightarrow> [] | Some t \<Rightarrow> map (\<lambda>m. PDict (missed_waypoint_as_dict m)) (missed_waypoints t))"

definition result_measurements :: "mission_document \<Rightarrow> execution_record \<Rightarrow> pydict" where
  "result_measurements document r =
    [(''accepted_goal_stamp'', artifact_stamp (accepted_goal_stamp_ns r)),
     (''accepted_goal_stamp_ns'', py_opt PInt (accepted_goal_stamp_ns r)),
     (''accepted_goal_stamp_source'',
        if accepted_goal_stamp_ns r \<noteq> None then PStr ACCEPTED_GOAL_STAMP_SOURCE else PNone),
     (''accepted_goal_uuid'', py_opt PStr (accepted_goal_uuid r)),
     (''actual_path_length_m'', PNone), (''collision_count'', PNone),
     (''completed_waypoint_count'', py_opt PInt (completed_waypoint_count document r)),
     (''completion_time_sim_s'', py_opt PFloat (completion_time_sim_s r)),
     (''feedback_count'', PInt (int (length (feedback_trace r)))),
     (''feedback_trace'', PList (map feedback_as_dict (feedback_trace r))),
     (''goal_status'', py_opt PStr (snd (goal_status r))),
     (''goal_status_code'', py_opt PInt (fst (goal_status r))),
     (''goal_response_stamp'', artifact_stamp (goal_response_stamp_ns r)),
     (''goal_response_stamp_ns'', py_opt PInt (goal_response_stamp_ns r)),
     (''goal_submission_stamp'', artifact_stamp (goal_submission_stamp_ns r)),
     (''goal_submission_stamp_ns'', py_opt PInt (goal_submission_stamp_ns r)),
     (''mission_wall_duration_s'', py_opt PFloat (mission_wall_duration_s r)),
     (''missed_waypoint_count'', PInt (int (length (missed_dicts r)))),
     (''missed_waypoints'', PList (missed_dicts r)),
     (''nav2_error_code'', py_opt (\<lambda>t. PInt (error_code t)) (terminal_result r)),
     (''nav2_error_message'', py_opt (\<lambda>t. PStr (error_message t)) (terminal_result r)),
     (''path_efficiency'', PNone),
     (''runner_wall_duration_s'', py_opt PFloat (terminal_wall_offset_s r)),
     (''terminal_action_stamp'', artifact_stamp (terminal_action_stamp_ns r)),
     (''terminal_action_stamp_ns'', py_opt PInt (terminal_action_stamp_ns r))]"

definition result_quality :: "mission_config \<Rightarrow> execution_record \<Rightarrow> pydict" where
  "result_quality c r =
    [(''artifact_projection_contract'', PStr ''canonical_json_with_matching_one_row_csv''),
     (''cancel_acknowledged'', py_opt PBool (cancel_acknowledged r)),
     (''cancellation_requested'', PBool (cancellation_requested r)),
     (''deadline_kind'', py_opt PStr (deadline_kind r)),
     (''event_trace_overflow'', PBool (event_trace_overflow r)),
     (''event_trace_overflow_count'', PInt (event_trace_overflow_count r)),
     (''fault_event_overflow'', PBool (fault_event_overflow r)),
     (''fault_event_overflow_count'', PInt (fault_event_overflow_count r)),
     (''fault_protocol_status'', PStr (fault_protocol_status r)),
     (''fault_schedule_active'',
        PBool (case config_fault_schedule c of None \<Rightarrow> False | Some s \<Rightarrow> faults s \<noteq> [])),
     (''goal_accepted'', PBool (accepted_goal_uuid r \<noteq> None)),
     (''feedback_trace_overflow'', PBool (feedback_trace_overflow r)),
     (''feedback_trace_overflow_count'', PInt (feedback_trace_overflow_count r)),
     (''invalid_feedback_count'', PInt (invalid_feedback_count r)),
     (''metrics_scope'', PStr ''mission_action_only''),
     (''scenario1_metrics_status'', PStr (scenario_status c)),
     (''terminal_result_observed'', PBool (terminal_result r \<noteq> None))]"

definition result_verdict :: "mission_config \<Rightarrow> execution_record \<Rightarrow> pydict" where
  "result_verdict c r =
    [(''exit_code'', PInt (exit_value (exit_code r))),
     (''expected_outcome_met'', PBool (exit_code r = SUCCESS)),
     (''mission_status'',
        PStr (case snd (goal_status r) of
                None \<Rightarrow> str_upper (reason r) | Some n \<Rightarrow> if n = '''' then str_upper (reason r) else n)),
     (''phase2_action_integration_status'', PStr (if exit_code r = SUCCESS then ''PASS'' else ''FAIL'')),
     (''reason'', PStr (reason r)), (''scenario1_acceptance_status'', PStr (scenario_status c))]"

definition result_fault :: "fault_schedule \<Rightarrow> execution_record \<Rightarrow> pydict" where
  "result_fault sch r =
    [(''schedule'', PDict
       [(''canonical_json'', PStr (canonical_json sch)), (''fault_count'', PInt (int (length (faults sch)))),
        (''faults'', PList (map (\<lambda>f. PDict (fault_spec_as_dict f)) (faults sch))),
        (''schema_version'', PInt (schedule_schema_version sch)), (''sha256'', PStr (sha256 sch))]),
     (''control'', PDict
       [(''arm_commit_stamp_ns'', py_opt PInt (fault_arm_commit_stamp_ns r)),
        (''arm_margin_ns'', py_opt PInt (fault_arm_margin_ns r)),
        (''arm_replayed'', py_opt PBool (fault_arm_replayed r)),
        (''event_count'', PInt (int (length (fault_events r)))),
        (''event_trace_capacity'', PInt (int FAULT_EVENT_TRACE_CAPACITY)),
        (''event_trace_overflow'', PBool (fault_event_overflow r)),
        (''event_trace_overflow_count'', PInt (fault_event_overflow_count r)),
        (''generation'', py_opt PInt (fault_generation r)),
        (''preload_replayed'', py_opt PBool (fault_preload_replayed r)),
        (''protocol_status'', PStr (fault_protocol_status r)),
        (''reset_after_goal'', PBool (fault_reset_after_goal r)),
        (''reset_before_goal'', PBool (fault_reset_before_goal r))]),
     (''events'', PList (map PDict (fault_events r)))]"

definition result_base ::
  "mission_document \<Rightarrow> execution_record \<Rightarrow> string \<Rightarrow> string \<Rightarrow> pyval \<Rightarrow> pyval \<Rightarrow> pyval \<Rightarrow> pydict" where
  "result_base document r run_id created_utc candidate_id repetition_index suite_index =
    [(''identity'', PDict (result_identity document r run_id created_utc candidate_id repetition_index suite_index)),
     (''targets'', PDict (result_targets (document_config document))),
     (''measurements'', PDict (result_measurements document r)),
     (''events'', PList (map mission_event_as_dict (events r))),
     (''quality'', PDict (result_quality (document_config document) r)),
     (''verdict'', PDict (result_verdict (document_config document) r))]"

definition result_dict ::
  "mission_document \<Rightarrow> execution_record \<Rightarrow> string \<Rightarrow> string \<Rightarrow> pyval \<Rightarrow> pyval \<Rightarrow> pyval \<Rightarrow> artifact_exn + pydict" where
  "result_dict document r run_id created_utc candidate_id repetition_index suite_index =
     (let c = document_config document;
          result = result_base document r run_id created_utc candidate_id repetition_index suite_index
      in if is_phase3 c then
           (case config_fault_schedule c of
              None \<Rightarrow> Inl AssertionFailed
            | Some sch \<Rightarrow> Inr (result @ [(''fault'', PDict (result_fault sch r))]))
         else Inr result)"

definition build_result ::
  "mission_document \<Rightarrow> execution_record \<Rightarrow> string \<Rightarrow> string \<Rightarrow> pydict option \<Rightarrow> artifact_exn + pydict" where
  "build_result document r run_id created_utc trial_identity =
     bindE (check_feedback r) (\<lambda>_.
     bindE (check_success r) (\<lambda>_.
     bindE (check_phase3 (document_config document) r trial_identity) (\<lambda>_.
     bindE (trial_field trial_identity ''candidate_id'') (\<lambda>candidate_id.
     bindE (trial_field trial_identity ''repetition_index'') (\<lambda>repetition_index.
     bindE (trial_field trial_identity ''suite_index'') (\<lambda>suite_index.
     bindE (result_dict document r run_id created_utc candidate_id repetition_index suite_index) (\<lambda>result.
     bindE (guardE (json_finite (PDict result)) NotJson) (\<lambda>_.
     Inr result))))))))"

section \<open>The CSV projection\<close>

definition csv_scalar :: "pyval \<Rightarrow> string" where
  "csv_scalar v =
     (case v of
        PNone \<Rightarrow> ''''
      | PBool b \<Rightarrow> if b then ''true'' else ''false''
      | PStr s \<Rightarrow> s
      | _ \<Rightarrow> py_repr v)"

text \<open>The expressions of the \<open>values\<close> dictionary: a key of one of the five sections, the length of
  the event list, or a key of the optional fault control block.\<close>

datatype accessor = Field string string | EventCount | Control string

definition FLATTEN_VALUES :: "(string \<times> accessor) list" where
  "FLATTEN_VALUES =
    [
     (''run_id'', Field ''identity'' ''run_id''),
     (''created_utc'', Field ''identity'' ''created_utc''),
     (''mission_name'', Field ''identity'' ''mission_name''),
     (''mission_file'', Field ''identity'' ''mission_file''),
     (''mission_sha256'', Field ''identity'' ''mission_sha256''),
     (''mission_seed'', Field ''identity'' ''mission_seed''),
     (''simulator_seed'', Field ''identity'' ''simulator_seed''),
     (''fault_schedule_hash'', Field ''identity'' ''fault_schedule_hash''),
     (''fault_seed'', Field ''identity'' ''fault_seed''),
     (''scenario_id'', Field ''identity'' ''scenario_id''),
     (''scenario_controller_seed'', Field ''identity'' ''scenario_controller_seed''),
     (''candidate_id'', Field ''identity'' ''candidate_id''),
     (''repetition_index'', Field ''identity'' ''repetition_index''),
     (''suite_index'', Field ''identity'' ''suite_index''),
     (''action_name'', Field ''identity'' ''action_name''),
     (''resolved_action_name'', Field ''identity'' ''resolved_action_name''),
     (''waypoint_count'', Field ''targets'' ''waypoint_count''),
     (''goal_submission_stamp_ns'', Field ''measurements'' ''goal_submission_stamp_ns''),
     (''accepted_goal_uuid'', Field ''measurements'' ''accepted_goal_uuid''),
     (''accepted_goal_stamp_source'', Field ''measurements'' ''accepted_goal_stamp_source''),
     (''goal_response_stamp_ns'', Field ''measurements'' ''goal_response_stamp_ns''),
     (''accepted_goal_stamp_ns'', Field ''measurements'' ''accepted_goal_stamp_ns''),
     (''terminal_action_stamp_ns'', Field ''measurements'' ''terminal_action_stamp_ns''),
     (''completion_time_sim_s'', Field ''measurements'' ''completion_time_sim_s''),
     (''mission_wall_duration_s'', Field ''measurements'' ''mission_wall_duration_s''),
     (''feedback_count'', Field ''measurements'' ''feedback_count''),
     (''feedback_trace_capacity'', Field ''targets'' ''feedback_trace_capacity''),
     (''feedback_trace_overflow'', Field ''quality'' ''feedback_trace_overflow''),
     (''feedback_trace_overflow_count'', Field ''quality'' ''feedback_trace_overflow_count''),
     (''mission_event_count'', EventCount),
     (''mission_event_trace_capacity'', Field ''targets'' ''mission_event_trace_capacity''),
     (''mission_event_trace_overflow'', Field ''quality'' ''event_trace_overflow''),
     (''fault_generation'', Control ''generation''),
     (''fault_preload_replayed'', Control ''preload_replayed''),
     (''fault_arm_replayed'', Control ''arm_replayed''),
     (''fault_arm_commit_stamp_ns'', Control ''arm_commit_stamp_ns''),
     (''fault_arm_margin_ns'', Control ''arm_margin_ns''),
     (''fault_reset_before_goal'', Control ''reset_before_goal''),
     (''fault_reset_after_goal'', Control ''reset_after_goal''),
     (''fault_event_count'', Control ''event_count''),
     (''fault_event_trace_capacity'', Field ''targets'' ''fault_event_trace_capacity''),
     (''fault_event_overflow'', Field ''quality'' ''fault_event_overflow''),
     (''fault_event_overflow_count'', Field ''quality'' ''fault_event_overflow_count''),
     (''fault_protocol_status'', Field ''quality'' ''fault_protocol_status''),
     (''completed_waypoint_count'', Field ''measurements'' ''completed_waypoint_count''),
     (''missed_waypoint_count'', Field ''measurements'' ''missed_waypoint_count''),
     (''goal_status_code'', Field ''measurements'' ''goal_status_code''),
     (''goal_status'', Field ''measurements'' ''goal_status''),
     (''nav2_error_code'', Field ''measurements'' ''nav2_error_code''),
     (''nav2_error_message'', Field ''measurements'' ''nav2_error_message''),
     (''cancellation_requested'', Field ''quality'' ''cancellation_requested''),
     (''cancel_acknowledged'', Field ''quality'' ''cancel_acknowledged''),
     (''terminal_result_observed'', Field ''quality'' ''terminal_result_observed''),
     (''deadline_kind'', Field ''quality'' ''deadline_kind''),
     (''expected_outcome'', Field ''targets'' ''expected_outcome''),
     (''expected_outcome_met'', Field ''verdict'' ''expected_outcome_met''),
     (''phase2_action_integration_status'', Field ''verdict'' ''phase2_action_integration_status''),
     (''scenario1_acceptance_status'', Field ''verdict'' ''scenario1_acceptance_status''),
     (''exit_code'', Field ''verdict'' ''exit_code''), (''reason'', Field ''verdict'' ''reason'')]"

definition sub :: "pydict \<Rightarrow> string \<Rightarrow> artifact_exn + pyval" where
  "sub d k = (case map_of d k of None \<Rightarrow> Inl (KeyMissing k) | Some v \<Rightarrow> Inr v)"

definition sub_dict :: "pydict \<Rightarrow> string \<Rightarrow> artifact_exn + pydict" where
  "sub_dict d k = bindE (sub d k) (\<lambda>v. case v of PDict e \<Rightarrow> Inr e | _ \<Rightarrow> Inl NoAttribute)"

definition get_dict :: "pydict \<Rightarrow> string \<Rightarrow> artifact_exn + pydict" where
  "get_dict d k = (case map_of d k of None \<Rightarrow> Inr [] | Some (PDict e) \<Rightarrow> Inr e | Some _ \<Rightarrow> Inl NoAttribute)"

fun access :: "pydict \<Rightarrow> accessor \<Rightarrow> artifact_exn + pyval" where
  "access result (Field section key) = bindE (sub_dict result section) (\<lambda>d. sub d key)"
| "access result EventCount =
     bindE (sub result ''events'') (\<lambda>v. case v of PList es \<Rightarrow> Inr (PInt (int (length es))) | _ \<Rightarrow> Inl NoAttribute)"
| "access result (Control key) =
     bindE (get_dict result ''fault'') (\<lambda>f. bindE (get_dict f ''control'') (\<lambda>ctl. Inr (dget ctl key)))"

definition flatten_result :: "pydict \<Rightarrow> artifact_exn + (string \<times> string) list" where
  "flatten_result result =
     bindE (traverse (sub_dict result) [''identity'', ''targets'', ''measurements'', ''quality'', ''verdict'']) (\<lambda>_.
     bindE (traverse (\<lambda>(name, a). bindE (access result a) (\<lambda>v. Inr (name, v))) FLATTEN_VALUES) (\<lambda>values.
     bindE (traverse (\<lambda>name. bindE (sub values name) (\<lambda>v. Inr (name, csv_scalar v))) CSV_FIELDS) (\<lambda>row.
     bindE (guardE (map fst row = CSV_FIELDS) (ArtifactError ''internal CSV field order mismatch'')) (\<lambda>_.
     Inr row))))"

section \<open>CSV text\<close>

text \<open>\<open>csv.DictWriter\<close> with the excel dialect and \<open>lineterminator='\n'\<close>: a field is quoted when it
  contains the delimiter, the quote character or the line terminator.\<close>

definition csv_special :: "char \<Rightarrow> bool" where
  "csv_special c \<longleftrightarrow> c = CHR '','' \<or> c = CHR 0x22 \<or> c = CHR 0x0A"

definition csv_quote_char :: "char \<Rightarrow> string" where
  "csv_quote_char c = (if c = CHR 0x22 then [CHR 0x22, CHR 0x22] else [c])"

definition csv_field :: "string \<Rightarrow> string" where
  "csv_field s =
     (if list_ex csv_special s then [CHR 0x22] @ concat (map csv_quote_char s) @ [CHR 0x22] else s)"

definition csv_line :: "string list \<Rightarrow> string" where
  "csv_line row = join_with '','' (map csv_field row) @ [CHR 0x0A]"

definition csv_text :: "(string \<times> string) list \<Rightarrow> string" where
  "csv_text row =
     csv_line CSV_FIELDS @
     csv_line (map (\<lambda>name. case map_of row name of None \<Rightarrow> '''' | Some v \<Rightarrow> v) CSV_FIELDS)"


text \<open>\<open>csv.reader\<close> with the excel dialect (not strict): the lines of the file, which keep their ends,
  are fed to a state machine character by character, each followed by an end-of-line mark (\<open>None\<close>).
  The machine keeps its state, the field read so far and the fields read so far.
  (The field limit counts characters; on text outside ASCII the byte count here is the larger one.)\<close>

datatype csv_mode = StartRecord | StartField | InField | InQuotedField | QuoteInQuotedField | EatCrNl

record csv_reader =
  csv_mode :: csv_mode
  csv_cur :: string
  csv_done :: "string list"

definition FIELD_SIZE_LIMIT :: nat where "FIELD_SIZE_LIMIT = 131072"

abbreviation reader_new :: csv_reader where
  "reader_new \<equiv> \<lparr>csv_mode = StartRecord, csv_cur = [], csv_done = []\<rparr>"

definition save_field :: "csv_mode \<Rightarrow> csv_reader \<Rightarrow> artifact_exn + csv_reader" where
  "save_field m r = Inr \<lparr>csv_mode = m, csv_cur = [], csv_done = csv_done r @ [csv_cur r]\<rparr>"

definition add_char :: "csv_mode \<Rightarrow> char \<Rightarrow> csv_reader \<Rightarrow> artifact_exn + csv_reader" where
  "add_char m c r =
     (if length (csv_cur r) \<ge> FIELD_SIZE_LIMIT then Inl CsvError
      else Inr (r\<lparr>csv_mode := m, csv_cur := csv_cur r @ [c]\<rparr>))"

definition is_newline :: "char option \<Rightarrow> bool" where
  "is_newline oc \<longleftrightarrow> oc = None \<or> oc = Some (CHR 0x0A) \<or> oc = Some (CHR 0x0D)"

definition after_newline :: "char option \<Rightarrow> csv_mode" where
  "after_newline oc = (if oc = None then StartRecord else EatCrNl)"

definition start_field :: "char option \<Rightarrow> csv_reader \<Rightarrow> artifact_exn + csv_reader" where
  "start_field oc r =
     (if is_newline oc then save_field (after_newline oc) r
      else if oc = Some (CHR 0x22) then Inr (r\<lparr>csv_mode := InQuotedField\<rparr>)
      else if oc = Some (CHR '','') then save_field StartField r
      else add_char InField (the oc) r)"

definition process_char :: "char option \<Rightarrow> csv_reader \<Rightarrow> artifact_exn + csv_reader" where
  "process_char oc r =
     (case csv_mode r of
        StartRecord \<Rightarrow>
          if oc = None then Inr r
          else if is_newline oc then Inr (r\<lparr>csv_mode := EatCrNl\<rparr>)
          else start_field oc r
      | StartField \<Rightarrow> start_field oc r
      | InField \<Rightarrow>
          if is_newline oc then save_field (after_newline oc) r
          else if oc = Some (CHR '','') then save_field StartField r
          else add_char InField (the oc) r
      | InQuotedField \<Rightarrow>
          if oc = None then Inr r
          else if oc = Some (CHR 0x22) then Inr (r\<lparr>csv_mode := QuoteInQuotedField\<rparr>)
          else add_char InQuotedField (the oc) r
      | QuoteInQuotedField \<Rightarrow>
          if oc = Some (CHR 0x22) then add_char InQuotedField (CHR 0x22) r
          else if oc = Some (CHR '','') then save_field StartField r
          else if is_newline oc then save_field (after_newline oc) r
          else add_char InField (the oc) r
      | EatCrNl \<Rightarrow>
          if oc = None then Inr (r\<lparr>csv_mode := StartRecord\<rparr>)
          else if is_newline oc then Inr r
          else Inl CsvError)"

fun process_chars :: "char option list \<Rightarrow> csv_reader \<Rightarrow> artifact_exn + csv_reader" where
  "process_chars [] r = Inr r"
| "process_chars (oc # ocs) r = bindE (process_char oc r) (process_chars ocs)"

text \<open>The iterator of a text file opened with \<open>newline=''\<close>: lines end at \<open>\n\<close>, \<open>\r\<close> or \<open>\r\n\<close>.\<close>

fun file_lines :: "string \<Rightarrow> string \<Rightarrow> string list" where
  "file_lines cur [] = (if cur = [] then [] else [cur])"
| "file_lines cur (c # cs) =
     (if c = CHR 0x0A then (cur @ [c]) # file_lines [] cs
      else if c = CHR 0x0D then
        (case cs of
           [] \<Rightarrow> [cur @ [c]]
         | d # ds \<Rightarrow> if d = CHR 0x0A then (cur @ [c, d]) # file_lines [] ds else (cur @ [c]) # file_lines [] cs)
      else file_lines (cur @ [c]) cs)"

text \<open>\<open>list(reader)\<close>: a record is complete when the machine is back in \<open>StartRecord\<close> after a line.\<close>

fun read_records :: "csv_reader \<Rightarrow> string list \<Rightarrow> artifact_exn + string list list" where
  "read_records r [] =
     Inr (if csv_cur r \<noteq> [] \<or> csv_mode r = InQuotedField then [csv_done r @ [csv_cur r]] else [])"
| "read_records r (l # ls) =
     bindE (process_chars (map Some l @ [None]) r) (\<lambda>r'.
     if csv_mode r' = StartRecord
     then bindE (read_records reader_new ls) (\<lambda>rows. Inr (csv_done r' # rows))
     else read_records r' ls)"




section \<open>Reconciliation\<close>




text \<open>The texts that \<open>write_result_artifacts\<close> puts on disk, with the size limits that it checks before
  it writes the first file.\<close>

fun sort_keys :: "pyval \<Rightarrow> pyval" where
  "sort_keys (PList vs) = PList (map sort_keys vs)"
| "sort_keys (PDict d) = PDict (sort_key fst (map (\<lambda>(k, v). (k, sort_keys v)) d))"
| "sort_keys v = v"

definition artifact_texts :: "pydict \<Rightarrow> artifact_exn + (string \<times> string)" where
  "artifact_texts result =
     bindE (flatten_result result) (\<lambda>row.
     bindE (guardE (json_finite (PDict result)) NotJson) (\<lambda>_.
     let json_text = json_dumps (sort_keys (PDict result)) @ [CHR 0x0A];
         text = csv_text row in
     bindE (guardE (\<not> int (length json_text) > MAX_JSON_BYTES)
       (ArtifactError (''canonical JSON exceeds '' @ show_int MAX_JSON_BYTES @ '' bytes''))) (\<lambda>_.
     bindE (guardE (\<not> int (length text) > MAX_CSV_BYTES)
       (ArtifactError (''canonical CSV exceeds '' @ show_int MAX_CSV_BYTES @ '' bytes''))) (\<lambda>_.
     Inr (json_text, text)))))"

section \<open>Reading back what was written\<close>

text \<open>A reader that consumes the text itself, without the detour over lines: an end-of-line mark
  follows every line feed, and every carriage return that no line feed follows.\<close>

definition ends_here :: "char \<Rightarrow> string \<Rightarrow> bool" where
  "ends_here c cs \<longleftrightarrow> c = CHR 0x0A \<or> c = CHR 0x0D \<and> (cs = [] \<or> hd cs \<noteq> CHR 0x0A)"

fun read_text :: "csv_reader \<Rightarrow> string \<Rightarrow> artifact_exn + string list list" where
  "read_text r [] = read_records r []"
| "read_text r (c # cs) =
     bindE (process_char (Some c) r) (\<lambda>r'.
     if ends_here c cs then
       bindE (process_char None r') (\<lambda>r''.
       if csv_mode r'' = StartRecord
       then bindE (read_text reader_new cs) (\<lambda>rows. Inr (csv_done r'' # rows))
       else read_text r'' cs)
     else read_text r' cs)"

definition ends_line :: "string \<Rightarrow> bool" where
  "ends_line t \<longleftrightarrow> t = [] \<or> List.last t = CHR 0x0A"

lemma file_lines_step:
  "file_lines cur (c # cs) =
     (if ends_here c cs then (cur @ [c]) # file_lines [] cs else file_lines (cur @ [c]) cs)"
  by (cases cs) (auto simp: ends_here_def)

lemma process_chars_append:
  "process_chars (xs @ ys) r = bindE (process_chars xs r) (process_chars ys)"
  by (induction xs arbitrary: r) (auto simp: bindE_def split: sum.splits)

lemma bindE_assoc: "bindE (bindE m f) g = bindE m (\<lambda>x. bindE (f x) g)"
  by (simp add: bindE_def split: sum.splits)

lemma read_records_as_text:
  assumes "ends_line t" "t = [] \<Longrightarrow> cur = []"
  shows "read_records r (file_lines cur t) =
         bindE (process_chars (map Some cur) r) (\<lambda>r'. read_text r' t)"
  using assms
proof (induction t arbitrary: cur r)
  case Nil
  then show ?case by simp
next
  case (Cons c cs)
  have cs: "ends_line cs" using Cons.prems(1) by (auto simp: ends_line_def split: if_splits)
  show ?case
  proof (cases "ends_here c cs")
    case True
    have ih: "read_records q (file_lines [] cs) = read_text q cs" for q
      using Cons.IH [of "[]" q] cs by simp
    show ?thesis using True
      by (simp add: file_lines_step process_chars_append bindE_assoc ih del: file_lines.simps cong: if_cong)
  next
    case False
    with Cons.prems have "cs \<noteq> []" by (auto simp: ends_line_def ends_here_def)
    then show ?thesis using False Cons.IH [of "cur @ [c]"] cs
      by (simp add: file_lines_step process_chars_append bindE_assoc del: file_lines.simps)
  qed
qed

text \<open>A cell that can be read back: it is not too long, and a carriage return in it comes with a character
  that makes the writer quote the cell.\<close>

definition csv_clean :: "string \<Rightarrow> bool" where
  "csv_clean s \<longleftrightarrow> (CHR 0x0D \<in> set s \<longrightarrow> list_ex csv_special s) \<and> length s \<le> FIELD_SIZE_LIMIT"

text \<open>The reader holds \<open>s\<close> as a finished but unsaved field.\<close>

definition holds_field :: "csv_reader \<Rightarrow> string \<Rightarrow> string list \<Rightarrow> bool" where
  "holds_field r s before \<longleftrightarrow> csv_cur r = s \<and> csv_done r = before \<and>
     (csv_mode r = InField \<or> csv_mode r = QuoteInQuotedField \<or>
      s = [] \<and> (csv_mode r = StartField \<or> csv_mode r = StartRecord \<and> before = []))"

lemma csv_mode_same [simp]:
  "csv_mode r = m \<Longrightarrow> r\<lparr>csv_mode := m, csv_cur := x\<rparr> = r\<lparr>csv_cur := x\<rparr>"
  by (cases r) simp

lemma read_unquoted:
  assumes "\<not> list_ex csv_special s" "CHR 0x0D \<notin> set s"
    and "length (csv_cur r) + length s \<le> FIELD_SIZE_LIMIT" "csv_mode r = InField"
  shows "read_text r (s @ rest) = read_text (r\<lparr>csv_cur := csv_cur r @ s\<rparr>) rest"
  using assms
proof (induction s arbitrary: r)
  case (Cons c cs)
  then have "process_char (Some c) r = Inr (r\<lparr>csv_cur := csv_cur r @ [c]\<rparr>)"
    by (auto simp: process_char_def is_newline_def csv_special_def add_char_def)
  with Cons show ?case by (auto simp: csv_special_def ends_here_def)
qed simp

lemma read_quoted:
  assumes "length (csv_cur r) + length s \<le> FIELD_SIZE_LIMIT" "csv_mode r = InQuotedField"
  shows "read_text r (concat (map csv_quote_char s) @ rest) = read_text (r\<lparr>csv_cur := csv_cur r @ s\<rparr>) rest"
  using assms
proof (induction s arbitrary: r)
  case (Cons c cs)
  let ?r = "r\<lparr>csv_cur := csv_cur r @ [c]\<rparr>"
  have q: "process_char (Some c) r = Inr ?r" if "c \<noteq> CHR 0x22"
    using that Cons.prems by (simp add: process_char_def add_char_def)
  have "read_text r (csv_quote_char c @ ts) = read_text ?r ts" for ts
  proof (cases "c = CHR 0x22")
    case True
    then show ?thesis using Cons.prems
      by (simp add: csv_quote_char_def process_char_def add_char_def ends_here_def)
  next
    case False
    then show ?thesis using Cons.prems q
      by (simp add: csv_quote_char_def) (simp add: process_char_def)
  qed
  with Cons.IH [of ?r] Cons.prems show ?case by simp
qed simp

lemma read_field:
  assumes "csv_clean s" "csv_cur r = []"
    and "csv_mode r = StartField \<or> csv_mode r = StartRecord \<and> csv_done r = []"
  shows "\<exists>r'. read_text r (csv_field s @ rest) = read_text r' rest \<and> holds_field r' s (csv_done r)"
proof (cases "list_ex csv_special s")
  case True
  let ?q = "r\<lparr>csv_mode := InQuotedField\<rparr>"
  have "process_char (Some (CHR 0x22)) r = Inr ?q"
    using assms(3) by (auto simp: process_char_def start_field_def is_newline_def)
  then have "read_text r (csv_field s @ rest) =
      read_text ?q (concat (map csv_quote_char s) @ CHR 0x22 # rest)"
    using True by (simp add: csv_field_def ends_here_def)
  also have "\<dots> = read_text (?q\<lparr>csv_cur := s\<rparr>) (CHR 0x22 # rest)"
    using read_quoted [of ?q s] assms by (simp add: csv_clean_def)
  also have "\<dots> = read_text (r\<lparr>csv_mode := QuoteInQuotedField, csv_cur := s\<rparr>) rest"
    by (cases r) (simp add: process_char_def ends_here_def)
  finally show ?thesis
    by (intro exI [of _ "r\<lparr>csv_mode := QuoteInQuotedField, csv_cur := s\<rparr>"]) (simp add: holds_field_def)
next
  case False
  show ?thesis
  proof (cases s)
    case Nil
    with False assms show ?thesis
      by (intro exI [of _ r]) (auto simp: csv_field_def holds_field_def)
  next
    case (Cons c cs)
    let ?f = "r\<lparr>csv_mode := InField, csv_cur := [c]\<rparr>"
    have "process_char (Some c) r = Inr ?f"
      using assms False Cons
      by (auto simp: process_char_def start_field_def is_newline_def csv_special_def add_char_def
          csv_clean_def FIELD_SIZE_LIMIT_def)
    then have "read_text r (csv_field s @ rest) = read_text ?f (cs @ rest)"
      using False Cons assms(1) by (auto simp: csv_field_def csv_special_def csv_clean_def ends_here_def)
    also have "\<dots> = read_text (?f\<lparr>csv_cur := s\<rparr>) rest"
      using read_unquoted [of cs ?f] False Cons assms(1) by (simp add: csv_clean_def)
    finally show ?thesis
      by (intro exI [of _ "r\<lparr>csv_mode := InField, csv_cur := s\<rparr>"]) (simp add: holds_field_def)
  qed
qed

lemma read_comma:
  assumes "holds_field r s before"
  shows "read_text r (CHR '','' # rest) =
         read_text \<lparr>csv_mode = StartField, csv_cur = [], csv_done = before @ [s]\<rparr> rest"
  using assms
  by (auto simp: holds_field_def process_char_def start_field_def save_field_def is_newline_def ends_here_def)

lemma read_line_feed:
  assumes "holds_field r s before" "before \<noteq> []"
  shows "read_text r (CHR 0x0A # rest) =
         bindE (read_text reader_new rest) (\<lambda>rows. Inr ((before @ [s]) # rows))"
  using assms
  by (auto simp: holds_field_def process_char_def start_field_def save_field_def is_newline_def
      after_newline_def ends_here_def)

lemma read_fields:
  assumes "list_all csv_clean ss" "ss \<noteq> []" "before \<noteq> []"
  shows "read_text \<lparr>csv_mode = StartField, csv_cur = [], csv_done = before\<rparr> (csv_line ss @ rest) =
         bindE (read_text reader_new rest) (\<lambda>rows. Inr ((before @ ss) # rows))"
  using assms
proof (induction ss arbitrary: before)
  case (Cons s ss)
  let ?r = "\<lparr>csv_mode = StartField, csv_cur = [], csv_done = before\<rparr>"
  have field: "\<exists>r'. read_text ?r (csv_field s @ ts) = read_text r' ts \<and> holds_field r' s before" for ts
    using read_field [of s ?r ts] Cons.prems by simp
  show ?case
  proof (cases ss)
    case Nil
    obtain r' where r': "read_text ?r (csv_field s @ CHR 0x0A # rest) = read_text r' (CHR 0x0A # rest)"
      "holds_field r' s before" using field by blast
    with Nil show ?thesis
      by (simp add: csv_line_def read_line_feed [OF r'(2) Cons.prems(3)] del: read_text.simps)
  next
    case (Cons s' ss')
    obtain r' where r': "read_text ?r (csv_field s @ CHR '','' # csv_line ss @ rest) =
        read_text r' (CHR '','' # csv_line ss @ rest)" "holds_field r' s before"
      using field by blast
    have line: "csv_line (s # ss) @ rest = csv_field s @ CHR '','' # csv_line ss @ rest"
      using Cons by (simp add: csv_line_def)
    show ?thesis
      unfolding line r'(1) read_comma [OF r'(2)]
      using Cons.IH [of "before @ [s]"] Cons.prems \<open>ss = s' # ss'\<close> by simp
  qed
qed simp

lemma read_line:
  assumes "list_all csv_clean ss" "2 \<le> length ss"
  shows "read_text reader_new (csv_line ss @ rest) =
         bindE (read_text reader_new rest) (\<lambda>rows. Inr (ss # rows))"
proof -
  obtain s s' ss' where ss: "ss = s # s' # ss'"
    using assms(2) by (cases ss; cases "tl ss") auto
  obtain r' where r': "read_text reader_new (csv_field s @ CHR '','' # csv_line (s' # ss') @ rest) =
      read_text r' (CHR '','' # csv_line (s' # ss') @ rest)" "holds_field r' s []"
    using read_field [of s reader_new] assms(1) ss by (auto simp del: read_text.simps)
  then show ?thesis using assms(1) ss read_comma [OF r'(2)] read_fields [of "s' # ss'" "[s]" rest]
    by (simp add: csv_line_def del: read_text.simps)
qed

lemma csv_line_ends [simp]: "csv_line ss \<noteq> []" "List.last (csv_line ss) = CHR 0x0A"
  by (simp_all add: csv_line_def)

lemma concat_lines_end: "ends_line (concat (map csv_line rows))"
  by (induction rows rule: rev_induct) (auto simp: ends_line_def)

lemma read_lines:
  assumes "list_all (\<lambda>ss. list_all csv_clean ss \<and> 2 \<le> length ss) rows"
  shows "read_text reader_new (concat (map csv_line rows)) = Inr rows"
  using assms by (induction rows) (simp_all add: read_line del: read_text.simps(2))

lemma csv_reads:
  assumes "list_all (\<lambda>ss. list_all csv_clean ss \<and> 2 \<le> length ss) rows"
  shows "read_records reader_new (file_lines [] (concat (map csv_line rows))) = Inr rows"
  using read_records_as_text [of "concat (map csv_line rows)" "[]" reader_new]
      concat_lines_end read_lines [OF assms] by simp


lemma CSV_FIELDS_facts: "distinct CSV_FIELDS" "list_all csv_clean CSV_FIELDS" "length CSV_FIELDS = 60"
  by (simp_all add: CSV_FIELDS_def csv_clean_def FIELD_SIZE_LIMIT_def)





























section \<open>The projection of a built result\<close>

lemmas result_sections =
  result_identity_def result_targets_def result_measurements_def result_quality_def result_verdict_def
  result_fault_def

definition fault_section :: "fault_schedule option \<Rightarrow> execution_record \<Rightarrow> pydict" where
  "fault_section sch r = (case sch of None \<Rightarrow> [] | Some s \<Rightarrow> [(''fault'', PDict (result_fault s r))])"

lemma build_result_iff:
  "build_result document r run_id created_utc trial_identity = Inr result \<longleftrightarrow>
     check_feedback r = Inr () \<and> check_success r = Inr () \<and>
     check_phase3 (document_config document) r trial_identity = Inr () \<and>
     (\<exists>c i j. trial_field trial_identity ''candidate_id'' = Inr c \<and>
        trial_field trial_identity ''repetition_index'' = Inr i \<and>
        trial_field trial_identity ''suite_index'' = Inr j \<and>
        result_dict document r run_id created_utc c i j = Inr result \<and> json_finite (PDict result))"
  by (simp add: build_result_def bindE_Inr_iff del: json_finite.simps)

lemma result_dict_sections:
  assumes "result_dict document r run_id created_utc c i j = Inr result"
  shows "\<exists>sch. result = result_base document r run_id created_utc c i j @ fault_section sch r"
proof (cases "is_phase3 (document_config document)")
  case True
  with assms obtain sch where "result = result_base document r run_id created_utc c i j @ fault_section (Some sch) r"
    by (auto simp: result_dict_def Let_def fault_section_def split: option.splits)
  then show ?thesis by blast
next
  case False
  with assms have "result = result_base document r run_id created_utc c i j @ fault_section None r"
    by (simp add: result_dict_def fault_section_def)
  then show ?thesis by blast
qed

definition flat_value :: "pydict \<Rightarrow> accessor \<Rightarrow> pyval" where
  "flat_value result a = (case access result a of Inl _ \<Rightarrow> PNone | Inr v \<Rightarrow> v)"

lemma flat_valueI: "access result a = Inr v \<Longrightarrow> access result a = Inr (flat_value result a)"
  by (simp add: flat_value_def)

definition SECTION_KEYS :: "(string \<times> string list) list" where
  "SECTION_KEYS =
    [(''identity'',
      [''action_name'', ''action_type'', ''created_utc'', ''fault_schedule_hash'', ''fault_seed'',
       ''mission_file'', ''mission_name'', ''mission_seed'', ''mission_sha256'',
       ''resolved_action_name'', ''run_id'', ''candidate_id'', ''repetition_index'',
       ''scenario_controller_seed'', ''scenario_id'', ''suite_index'', ''schema_sha256'',
       ''simulator_seed'', ''verification_level'']),
     (''targets'',
      [''action_server_wait_wall_s'', ''allowed_collision_count'', ''accepted_status_timeout_wall_s'',
       ''cancel_ack_timeout_wall_s'', ''cancel_result_timeout_wall_s'', ''expected_outcome'',
       ''feedback_trace_capacity'', ''fault_event_trace_capacity'', ''frame_id'', ''goal_index'',
       ''goal_response_timeout_wall_s'', ''mission_timeout_sim_s'', ''mission_event_trace_capacity'',
       ''number_of_loops'', ''retries'', ''sim_time_ready_wait_wall_s'', ''start_pose'',
       ''wall_escape_timeout_s'', ''waypoint_count'', ''waypoints'', ''scenario_contract'']),
     (''measurements'',
      [''accepted_goal_stamp'', ''accepted_goal_stamp_ns'', ''accepted_goal_stamp_source'',
       ''accepted_goal_uuid'', ''actual_path_length_m'', ''collision_count'',
       ''completed_waypoint_count'', ''completion_time_sim_s'', ''feedback_count'', ''feedback_trace'',
       ''goal_status'', ''goal_status_code'', ''goal_response_stamp'', ''goal_response_stamp_ns'',
       ''goal_submission_stamp'', ''goal_submission_stamp_ns'', ''mission_wall_duration_s'',
       ''missed_waypoint_count'', ''missed_waypoints'', ''nav2_error_code'', ''nav2_error_message'',
       ''path_efficiency'', ''runner_wall_duration_s'', ''terminal_action_stamp'',
       ''terminal_action_stamp_ns'']),
     (''quality'',
      [''artifact_projection_contract'', ''cancel_acknowledged'', ''cancellation_requested'',
       ''deadline_kind'', ''event_trace_overflow'', ''event_trace_overflow_count'',
       ''fault_event_overflow'', ''fault_event_overflow_count'', ''fault_protocol_status'',
       ''fault_schedule_active'', ''goal_accepted'', ''feedback_trace_overflow'',
       ''feedback_trace_overflow_count'', ''invalid_feedback_count'', ''metrics_scope'',
       ''scenario1_metrics_status'', ''terminal_result_observed'']),
     (''verdict'',
      [''exit_code'', ''expected_outcome_met'', ''mission_status'',
       ''phase2_action_integration_status'', ''reason'', ''scenario1_acceptance_status''])]"

text \<open>The keys that the projection reads are keys of the sections.\<close>

definition listed :: "accessor \<Rightarrow> bool" where
  "listed a = (case a of
     Field sec key \<Rightarrow> list_ex (\<lambda>(s, keys). s = sec \<and> key \<in> set keys) SECTION_KEYS | _ \<Rightarrow> True)"

lemma flatten_listed: "list_all (\<lambda>(name, a). listed a) FLATTEN_VALUES"
  by code_simp

lemma section_keys:
  "list_all (\<lambda>(sec, keys). \<exists>d. map_of (result_base document r x y c i j @ fault_section sch r) sec = Some (PDict d)
      \<and> map fst d = keys) SECTION_KEYS"
  by (simp add: SECTION_KEYS_def result_base_def result_sections Let_def)

lemma base_other:
  "map_of (result_base document r x y c i j @ fault_section sch r) ''events'' =
     Some (PList (map mission_event_as_dict (events r)))"
  "map_of (result_base document r x y c i j @ fault_section sch r) ''fault'' =
     map_option (\<lambda>s. PDict (result_fault s r)) sch"
  by (simp_all add: result_base_def fault_section_def split: option.splits)

lemma access_listed:
  assumes "listed a"
  shows "\<exists>v. access (result_base document r x y c i j @ fault_section sch r) a = Inr v"
proof (cases a)
  case (Field sec key)
  with assms obtain keys where keys: "(sec, keys) \<in> set SECTION_KEYS" "key \<in> set keys"
    by (auto simp: listed_def list_ex_iff)
  then obtain d where d: "map_of (result_base document r x y c i j @ fault_section sch r) sec = Some (PDict d)"
      "map fst d = keys"
    using bspec [OF section_keys [of document r x y c i j sch, unfolded list_all_iff] keys(1)]
    by (simp only: prod.case) blast
  with keys(2) obtain v where "map_of d key = Some v"
    by (metis map_of_eq_None_iff not_None_eq set_map)
  with d Field show ?thesis by (simp add: sub_dict_def sub_def)
next
  case EventCount
  then show ?thesis by (simp add: sub_def base_other del: map_of_append)
next
  case (Control key)
  show ?thesis
  proof (cases sch)
    case (Some s)
    obtain e where "map_of (result_fault s r) ''control'' = Some (PDict e)"
      by (simp add: result_fault_def)
    then show ?thesis using Control Some by (simp add: get_dict_def base_other del: map_of_append)
  qed (use Control in \<open>simp add: get_dict_def base_other del: map_of_append\<close>)
qed

lemma traverse_over_map: "traverse f (map g xs) = traverse (f \<circ> g) xs"
  by (induction xs) simp_all

lemma traverse_lookup:
  assumes "distinct (map fst vs)"
  shows "traverse (\<lambda>name. bindE (sub vs name) (\<lambda>v. Inr (name, f v))) (map fst vs) =
    Inr (map (\<lambda>(name, v). (name, f v)) vs)"
  unfolding traverse_over_map
  by (rule traverse_map_total) (use assms in \<open>auto simp: sub_def map_of_is_SomeI\<close>)

lemma flatten_names: "map fst FLATTEN_VALUES = CSV_FIELDS"
  by (simp add: FLATTEN_VALUES_def CSV_FIELDS_def)

lemma traverse_sub_dicts:
  "\<exists>ds. traverse (sub_dict (result_base document r x y c i j @ fault_section sch r))
     [''identity'', ''targets'', ''measurements'', ''quality'', ''verdict''] = Inr ds"
  by (simp add: sub_dict_def sub_def result_base_def)

lemma build_flattens:
  assumes "build_result document r run_id created_utc trial_identity = Inr result"
  shows "flatten_result result =
    Inr (map (\<lambda>(name, a). (name, csv_scalar (flat_value result a))) FLATTEN_VALUES)"
proof -
  from assms obtain x y c i j where "result_dict document r x y c i j = Inr result"
    unfolding build_result_iff by blast
  then obtain sch where res: "result = result_base document r x y c i j @ fault_section sch r"
    using result_dict_sections by blast
  let ?vs = "map (\<lambda>(name, a). (name, flat_value result a)) FLATTEN_VALUES"
  have "traverse (\<lambda>(name, a). bindE (access result a) (\<lambda>v. Inr (name, v))) FLATTEN_VALUES = Inr ?vs"
  proof (rule traverse_map_total, clarify)
    fix name a assume "(name, a) \<in> set FLATTEN_VALUES"
    then have "listed a" using flatten_listed by (auto simp: list_all_iff)
    then obtain v where "access result a = Inr v" using access_listed res by blast
    then show "bindE (access result a) (\<lambda>v. Inr (name, v)) = Inr (name, flat_value result a)"
      by (simp add: flat_value_def)
  qed
  moreover have names: "map fst ?vs = CSV_FIELDS"
    using flatten_names by (simp add: comp_def split_beta)
  moreover have "traverse (\<lambda>name. bindE (sub ?vs name) (\<lambda>v. Inr (name, csv_scalar v))) (map fst ?vs) =
      Inr (map (\<lambda>(name, v). (name, csv_scalar v)) ?vs)"
    by (rule traverse_lookup) (simp only: names CSV_FIELDS_facts(1))
  ultimately show ?thesis
    using traverse_sub_dicts [of document r x y c i j sch]
    by (auto simp: flatten_result_def res comp_def split_beta)
qed

text \<open>Every built result has its projection: \<open>flatten_result\<close> raises no \<open>KeyError\<close> on a result
  of \<open>build_result\<close>, the row has exactly the canonical fields in their order, and each cell is the
  rendered value that the projection table names for it.\<close>

theorem built_result_flattens:
  assumes "build_result document r run_id created_utc trial_identity = Inr result"
  shows "flatten_result result =
    Inr (map (\<lambda>(name, a). (name, csv_scalar (flat_value result a))) FLATTEN_VALUES)"
  using assms by (rule build_flattens)

section \<open>A concrete artifact\<close>

definition art_document :: mission_document where
  "art_document = \<lparr>document_config =
     \<lparr>config_schema_version = 1, mission_name = ''m'', mission_seed = 1, simulator_seed = 1,
      frame_id = ''map'', start_pose = \<lparr>pose_x = Fin 0, pose_y = Fin 0, pose_yaw = Fin 0\<rparr>, waypoints = [],
      mission_timeout_sim_s = Fin 0, wall_escape_timeout_s = Fin 120, allowed_collision_count = 0,
      config_fault_schedule = None, fault_seed = None, expected_outcome = ''SUCCEEDED'', retries = 0,
      scenario_id = None, scenario_controller_seed = None, scenario_contract = None\<rparr>,
     source_path = ''m.yaml'', source_sha256 = ''s'', schema_sha256 = ''t''\<rparr>"

definition art_record :: execution_record where
  "art_record =
    \<lparr>action_name = ''a'', resolved_action_name = ''/a'', started_sim_stamp_ns = 0, started_steady_s = Fin 0,
     events = [], event_trace_overflow = False, event_trace_overflow_count = 0,
     feedback_trace = [], feedback_trace_overflow = False, feedback_trace_overflow_count = 0,
     invalid_feedback_count = 0, goal_submission_stamp_ns = None, goal_response_stamp_ns = None,
     accepted_goal_uuid = None, accepted_goal_stamp_ns = None, accepted_goal_wall_offset_s = None,
     terminal_action_stamp_ns = None, terminal_wall_offset_s = None, terminal_result = None,
     cancellation_requested = False, cancel_acknowledged = None, deadline_kind = None,
     fault_events = [], fault_event_overflow = False, fault_event_overflow_count = 0,
     fault_schedule_hash = None, fault_generation = None, fault_preload_replayed = None,
     fault_arm_replayed = None, fault_arm_commit_stamp_ns = None, fault_arm_margin_ns = None,
     fault_reset_before_goal = False, fault_reset_after_goal = False,
     fault_protocol_status = ''NOT_APPLICABLE'', exit_code = INFRASTRUCTURE_ERROR,
     reason = ''mission_not_started''\<rparr>"

definition art_result :: pydict where
  "art_result = result_base art_document art_record ''run'' ''now'' PNone PNone PNone"

lemma art_finite: "json_finite (PDict art_result)"
  by (simp add: art_result_def result_base_def result_sections Let_def art_document_def art_record_def
      artifact_stamp_def py_opt_def missed_dicts_def planar_pose_as_dict_def completed_waypoint_count_def
      completion_time_sim_s_def mission_wall_duration_s_def goal_status_def
      ACTION_SERVER_WAIT_WALL_S_def ACCEPTED_STATUS_TIMEOUT_WALL_S_def CANCEL_ACK_TIMEOUT_WALL_S_def
      CANCEL_RESULT_TIMEOUT_WALL_S_def GOAL_RESPONSE_TIMEOUT_WALL_S_def SIM_TIME_READY_WAIT_WALL_S_def)

lemma art_built: "build_result art_document art_record ''run'' ''now'' None = Inr art_result"
proof -
  have "\<not> is_phase3 (document_config art_document)" by (simp add: is_phase3_def art_document_def)
  then have "result_dict art_document art_record ''run'' ''now'' PNone PNone PNone = Inr art_result"
      "check_phase3 (document_config art_document) art_record None = Inr ()"
    by (simp_all add: result_dict_def art_result_def check_phase3_def)
  moreover have "check_feedback art_record = Inr ()" "check_success art_record = Inr ()"
    by (simp_all add: check_feedback_def check_success_def art_record_def)
  ultimately show ?thesis
    using art_finite by (simp add: build_result_iff trial_field_def del: json_finite.simps)
qed

theorem built_result_flattens_witness:
  "flatten_result art_result =
     Inr (map (\<lambda>(name, a). (name, csv_scalar (flat_value art_result a))) FLATTEN_VALUES)"
  by (rule built_result_flattens [OF art_built])


end
