(* ===== verification/Mission_Report.thy ===== *)
theory Mission_Report
  imports Mission_Demo Mission_Artifacts
begin

text \<open>
  The executor and the artifact writer together: what a mission run leaves in its record is accepted
  by \<open>build_result\<close>, and a published PASS means what it says.
\<close>

lemma run_check_feedback:
  assumes "execute E w = Some (Inr r, s)"
  shows "check_feedback r = Inr ()"
proof -
  have "record_trace_inv (xrec s)"
    using trace.execute_keeps [OF trace_inv_new assms] by (simp add: trace_inv_def)
  moreover have "r = xrec s" by (rule execute_verdict(2) [OF assms])
  ultimately show ?thesis by (auto simp: check_feedback_def record_trace_inv_def)
qed

lemma run_success_facts:
  assumes "execute E w = Some (Inr r, s)" and "exit_code r = SUCCESS"
  shows "success_facts (config E) r"
  using execute_verdict(1) [OF assms(1)] assms(2) by (simp add: final_verdict_def)

lemma run_check_success:
  assumes "execute E w = Some (Inr r, s)" and "\<not> is_phase3 (config E)"
  shows "check_success r = Inr ()"
  using run_success_facts [OF assms(1)] execute_clean_success [OF assms] by (auto simp: check_success_def success_facts_def)

text \<open>C22. The artifact writer accepts what the executor produces: for the record of any phase 2 run,
  \<open>build_result\<close> passes all its consistency checks, also the one that a success has a
  feedback trace that did not overflow, and only a non-finite number in the result can make it fail.\<close>

theorem build_result_accepts_run:
  assumes "execute E w = Some (Inr r, s)" and "document_config document = config E"
    and "\<not> is_phase3 (config E)"
  shows "build_result document r run_id created_utc None =
    (let result = result_base document r run_id created_utc PNone PNone PNone
     in if json_finite (PDict result) then Inr result else Inl NotJson)"
  using run_check_feedback [OF assms(1)] run_check_success [OF assms(1,3)] assms(2,3)
  by (simp add: build_result_def check_phase3_def trial_field_def result_dict_def Let_def guardE_def
      del: json_finite.simps)

lemma base_lookup:
  "sub_dict (result_base document r x y c i j @ fault_section sch r) ''verdict'' =
     Inr (result_verdict (document_config document) r)"
  "sub_dict (result_base document r x y c i j @ fault_section sch r) ''measurements'' =
     Inr (result_measurements document r)"
  by (simp_all add: sub_dict_def sub_def result_base_def)

lemma verdict_pass:
  "map_of (result_verdict c r) ''phase2_action_integration_status'' = Some (PStr ''PASS'') \<longleftrightarrow> exit_code r = SUCCESS"
  by (simp add: result_verdict_def)

lemma measurement_lookup:
  "map_of (result_measurements document r) ''goal_status'' = Some (py_opt PStr (snd (goal_status r)))"
  "map_of (result_measurements document r) ''completed_waypoint_count'' =
     Some (py_opt PInt (completed_waypoint_count document r))"
  "map_of (result_measurements document r) ''missed_waypoint_count'' = Some (PInt (int (length (missed_dicts r))))"
  "map_of (result_measurements document r) ''nav2_error_code'' =
     Some (py_opt (\<lambda>t. PInt (error_code t)) (terminal_result r))"
  "map_of (result_measurements document r) ''completion_time_sim_s'' = Some (py_opt PFloat (completion_time_sim_s r))"
  by (simp_all add: result_measurements_def)

text \<open>C23. A published PASS is earned: when the result built from an executed mission's record says
  PASS, the same result says that the goal status is SUCCEEDED, that all waypoints of the mission
  were completed and none missed, that Nav2 reported no error, and that the completion time is the
  duration from acceptance to the terminal stamp.\<close>

theorem published_pass_sound:
  assumes "execute E w = Some (Inr r, s)" and "document_config document = config E"
    and "build_result document r run_id created_utc trial = Inr result"
    and "sub_dict result ''verdict'' = Inr v"
    and "map_of v ''phase2_action_integration_status'' = Some (PStr ''PASS'')"
  shows "\<exists>m t0 t1. sub_dict result ''measurements'' = Inr m
    \<and> map_of m ''goal_status'' = Some (PStr ''SUCCEEDED'')
    \<and> map_of m ''completed_waypoint_count'' = Some (PInt (int (length (waypoints (config E)))))
    \<and> map_of m ''missed_waypoint_count'' = Some (PInt 0)
    \<and> map_of m ''nav2_error_code'' = Some (PInt 0)
    \<and> t0 \<le> t1 \<and> map_of m ''completion_time_sim_s'' = Some (PFloat (int_truediv (t1 - t0) 1000000000))"
proof -
  from assms(3) obtain c i j where "result_dict document r run_id created_utc c i j = Inr result"
    unfolding build_result_iff by blast
  then obtain sch where res: "result = result_base document r run_id created_utc c i j @ fault_section sch r"
    using result_dict_sections by blast
  have "exit_code r = SUCCESS" using assms(4,5) by (auto simp: res base_lookup verdict_pass)
  then have "success_facts (config E) r" by (rule run_success_facts [OF assms(1)])
  then obtain t t0 t1 where f: "terminal_result r = Some t" "status_code t = GOAL_STATUS_SUCCEEDED"
      "error_code t = NAV2_ERROR_NONE" "missed_waypoints t = []"
      "accepted_goal_stamp_ns r = Some t0" "terminal_action_stamp_ns r = Some t1" "t0 \<le> t1"
    by (auto simp: success_facts_def)
  then show ?thesis
    by (intro exI [of _ "result_measurements document r"] exI [of _ t0] exI [of _ t1])
      (simp add: res base_lookup measurement_lookup py_opt_def goal_status_def completed_waypoint_count_def
        missed_dicts_def completion_time_sim_s_def NAV2_ERROR_NONE_def GOAL_STATUS_SUCCEEDED_def
        goal_status_name_def GOAL_STATUS_NAMES_def assms(2))
qed

section \<open>A published run\<close>

definition demo_document :: mission_document where
  "demo_document = \<lparr>document_config = demo_config, source_path = ''m.yaml'', source_sha256 = ''s'', schema_sha256 = ''t''\<rparr>"

definition publishable :: "((exn + execution_record) \<times> nat xst) option \<Rightarrow> bool" where
  "publishable res = (case res of
     Some (Inr r, s) \<Rightarrow> exit_code r = SUCCESS \<and> \<not> feedback_trace_overflow r \<and>
       json_finite (PDict (result_base demo_document r ''run'' ''now'' PNone PNone PNone))
   | _ \<Rightarrow> False)"

lemma small_quotient: "f_isfinite (fl (7 / 1000000000))"
  by (rule fl_finite) (rule order_trans [of _ 1], simp_all)

lemma demo_publishable: "publishable (execute demo_env 1)"
  by (simp add: publishable_def monad_eval mission_eval demo_env_def demo_config_def demo_driver_def demo_terminal_def
      demo_document_def result_base_def result_sections Let_def artifact_stamp_def py_opt_def missed_dicts_def
      planar_pose_as_dict_def mission_event_as_dict_def
      completion_time_sim_s_def mission_wall_duration_s_def goal_status_def int_truediv_def
      completed_waypoint_count_def small_quotient)

lemma demo_published:
  obtains r s where "execute demo_env 1 = Some (Inr r, s)" "exit_code r = SUCCESS" "\<not> feedback_trace_overflow r"
    "json_finite (PDict (result_base demo_document r ''run'' ''now'' PNone PNone PNone))"
  using demo_publishable unfolding publishable_def
  by (auto split: option.splits prod.splits sum.splits simp del: json_finite.simps)

lemma demo_phase2: "\<not> is_phase3 (config demo_env)" "document_config demo_document = config demo_env"
  by (simp_all add: is_phase3_def demo_env_def demo_config_def demo_document_def)

theorem build_result_accepts_run_witness:
  "\<exists>r s. execute demo_env 1 = Some (Inr r, s) \<and>
     build_result demo_document r ''run'' ''now'' None = Inr (result_base demo_document r ''run'' ''now'' PNone PNone PNone)"
proof -
  obtain r s where r: "execute demo_env 1 = Some (Inr r, s)" "\<not> feedback_trace_overflow r"
    "json_finite (PDict (result_base demo_document r ''run'' ''now'' PNone PNone PNone))"
    using demo_published .
  with build_result_accepts_run [OF r(1) demo_phase2(2, 1)] show ?thesis
    by (auto simp: Let_def simp del: json_finite.simps)
qed

theorem published_pass_sound_witness:
  "\<exists>r s result m. execute demo_env 1 = Some (Inr r, s) \<and>
     build_result demo_document r ''run'' ''now'' None = Inr result \<and>
     sub_dict result ''measurements'' = Inr m \<and> map_of m ''goal_status'' = Some (PStr ''SUCCEEDED'')"
proof -
  obtain r s where r: "execute demo_env 1 = Some (Inr r, s)" "exit_code r = SUCCESS" "\<not> feedback_trace_overflow r"
    "json_finite (PDict (result_base demo_document r ''run'' ''now'' PNone PNone PNone))"
    using demo_published .
  let ?result = "result_base demo_document r ''run'' ''now'' PNone PNone PNone"
  have b: "build_result demo_document r ''run'' ''now'' None = Inr ?result"
    using r run_check_feedback [OF r(1)] run_check_success [OF r(1)] demo_phase2
    by (simp add: build_result_def check_phase3_def trial_field_def result_dict_def guardE_def del: json_finite.simps)
  have v: "sub_dict ?result ''verdict'' = Inr (result_verdict (document_config demo_document) r)"
    using base_lookup(1) [of demo_document r _ _ _ _ _ None] by (simp add: fault_section_def)
  have "map_of (result_verdict (document_config demo_document) r) ''phase2_action_integration_status'' = Some (PStr ''PASS'')"
    using r(2) by (simp add: verdict_pass)
  from published_pass_sound [OF r(1) demo_phase2(2) b v this] b r(1) show ?thesis by blast
qed

end
