(* ===== verification/Ros_Codec.thy ===== *)
theory Ros_Codec
  imports Mission_Execution Sha256
begin

text \<open>
  The conversions that both rclpy adapters of the mission package use (\<open>ros_action.py\<close>,
  \<open>fault_control.py\<close>): goal identifiers between their sixteen bytes and the text of \<open>uuid.UUID\<close>,
  timestamps between a pair of fields and a nanosecond count, and the futures that are polled.
\<close>

section \<open>Futures\<close>

text \<open>A future of rclpy as the adapters look at it: not done, failed with an exception text, or done with
  a value that may be \<open>None\<close>.\<close>

datatype 'a future = Pending | Raised string | Ready "'a option"

section \<open>Timestamps\<close>

text \<open>An object that should be a timestamp: one of the attributes may be missing, and the attributes may
  hold anything.\<close>

datatype stamp_obj = NoFields | Stamp pyval pyval

definition valid_fields :: "pyval \<Rightarrow> pyval \<Rightarrow> (int \<times> int) option" where
  "valid_fields seconds nanoseconds =
     (case (seconds, nanoseconds) of
        (PInt s, PInt n) \<Rightarrow> if s < 0 \<or> \<not> (0 \<le> n \<and> n < 1000000000) then None else Some (s, n)
      | _ \<Rightarrow> None)"

definition project_stamp :: "(string \<Rightarrow> exn) \<Rightarrow> string \<Rightarrow> stamp_obj \<Rightarrow> exn + int" where
  "project_stamp err what stamp =
     (case stamp of
        NoFields \<Rightarrow> Inl (err (what @ '' timestamp fields are unavailable''))
      | Stamp seconds nanoseconds \<Rightarrow>
          (case valid_fields seconds nanoseconds of
             None \<Rightarrow> Inl (err (what @ '' timestamp fields are invalid''))
           | Some (s, n) \<Rightarrow> Inr (s * 1000000000 + n)))"

text \<open>\<open>_time_from_ns\<close> and \<open>_duration_from_ns\<close>.\<close>

definition time_from_ns :: "int \<Rightarrow> stamp_obj" where
  "time_from_ns v = Stamp (PInt (v div 1000000000)) (PInt (v mod 1000000000))"

lemma stamp_round_trip: "0 \<le> v \<Longrightarrow> project_stamp err what (time_from_ns v) = Inr v"
  by (simp add: project_stamp_def time_from_ns_def valid_fields_def pos_imp_zdiv_nonneg_iff)

lemma project_stamp_value:
  "project_stamp err what stamp = Inr v \<Longrightarrow> 0 \<le> v \<and> (\<forall>err what. project_stamp err what stamp = Inr v)"
  by (auto simp: project_stamp_def valid_fields_def split: stamp_obj.splits pyval.splits if_splits option.splits)

section \<open>Identifiers\<close>

type_synonym bytes = "8 word list"

definition hex_byte :: "8 word \<Rightarrow> string" where
  "hex_byte b = [hex_digit (uint b div 16), hex_digit (uint b mod 16)]"

text \<open>\<open>str(uuid.UUID(bytes=raw))\<close>.\<close>

definition uuid_str :: "bytes \<Rightarrow> string" where
  "uuid_str raw =
     (let h = concat (map hex_byte raw) in
      take 8 h @ ''-'' @ take 4 (drop 8 h) @ ''-'' @ take 4 (drop 12 h) @ ''-'' @ take 4 (drop 16 h)
      @ ''-'' @ drop 20 h)"

text \<open>\<open>int(s, 16)\<close>: surrounding whitespace, a sign, the prefix \<open>0x\<close> and single underscores between the
  digits are accepted.\<close>

definition hex_val :: "char \<Rightarrow> int option" where
  "hex_val c =
     (let n = of_char c :: int in
      if 48 \<le> n \<and> n \<le> 57 then Some (n - 48)
      else if 97 \<le> n \<and> n \<le> 102 then Some (n - 87)
      else if 65 \<le> n \<and> n \<le> 70 then Some (n - 55)
      else None)"

fun hex_more :: "int \<Rightarrow> string \<Rightarrow> int option" where
  "hex_more a [] = Some a"
| "hex_more a (c # cs) =
     (case hex_val c of
        Some d \<Rightarrow> hex_more (16 * a + d) cs
      | None \<Rightarrow>
          if c = CHR ''_'' then
            (case cs of
               [] \<Rightarrow> None
             | c' # cs' \<Rightarrow> (case hex_val c' of None \<Rightarrow> None | Some d \<Rightarrow> hex_more (16 * a + d) cs'))
          else None)"

definition hex_digits :: "string \<Rightarrow> int option" where
  "hex_digits s =
     (case s of [] \<Rightarrow> None | c # cs \<Rightarrow> (case hex_val c of None \<Rightarrow> None | Some d \<Rightarrow> hex_more d cs))"

definition hex_prefixed :: "string \<Rightarrow> int option" where
  "hex_prefixed s =
     (case s of
        a # b # cs \<Rightarrow>
          if a = CHR ''0'' \<and> (b = CHR ''x'' \<or> b = CHR ''X'') then
            hex_digits (case cs of c # cs' \<Rightarrow> if c = CHR ''_'' then cs' else cs | [] \<Rightarrow> [])
          else hex_digits s
      | _ \<Rightarrow> hex_digits s)"

definition is_space :: "char \<Rightarrow> bool" where
  "is_space c = (let n = of_char c :: int in n = 32 \<or> 9 \<le> n \<and> n \<le> 13 \<or> 28 \<le> n \<and> n \<le> 31)"

definition strip_chars :: "(char \<Rightarrow> bool) \<Rightarrow> string \<Rightarrow> string" where
  "strip_chars p s = rev (dropWhile p (rev (dropWhile p s)))"

definition py_int16 :: "string \<Rightarrow> int option" where
  "py_int16 s =
     (case strip_chars is_space s of
        [] \<Rightarrow> None
      | c # cs \<Rightarrow>
          if c = CHR ''-'' then map_option uminus (hex_prefixed cs)
          else if c = CHR ''+'' then hex_prefixed cs
          else hex_prefixed (c # cs))"

text \<open>\<open>s.replace(pat, '')\<close> for a non-empty pattern.\<close>

function remove_sub :: "string \<Rightarrow> string \<Rightarrow> string" where
  "remove_sub pat [] = []"
| "remove_sub pat (c # cs) =
     (if pat \<noteq> [] \<and> take (length pat) (c # cs) = pat then remove_sub pat (drop (length pat) (c # cs))
      else c # remove_sub pat cs)"
  by pat_completeness auto
termination
  by (relation "measure (\<lambda>(pat, s). length s)") (auto simp: length_drop Suc_le_eq)

primrec be_bytes :: "nat \<Rightarrow> int \<Rightarrow> bytes" where
  "be_bytes 0 v = []"
| "be_bytes (Suc n) v = be_bytes n (v div 256) @ [of_int (v mod 256)]"

text \<open>\<open>uuid.UUID(value).bytes\<close>; \<open>None\<close> is the \<open>ValueError\<close>.\<close>

definition uuid_parse :: "string \<Rightarrow> bytes option" where
  "uuid_parse value =
     (let h = filter (\<lambda>c. c \<noteq> CHR ''-'')
                (strip_chars (\<lambda>c. c = CHR 0x7B \<or> c = CHR 0x7D) (remove_sub ''uuid:'' (remove_sub ''urn:'' value))) in
      if length h \<noteq> 32 then None
      else (case py_int16 h of
              None \<Rightarrow> None
            | Some v \<Rightarrow> if 0 \<le> v \<and> v < 2 ^ 128 then Some (be_bytes 16 v) else None))"

section \<open>The identifier round trip\<close>

lemma hex_val_digit:
  assumes "0 \<le> n" "n < 16"
  shows "hex_val (hex_digit n) = Some n" "hex_digit n \<in> set ''0123456789abcdef''"
proof -
  have n: "n \<in> set [0..15]" using assms by simp
  have "list_all (\<lambda>n. hex_val (hex_digit n) = Some n \<and> hex_digit n \<in> set ''0123456789abcdef'') [0..15]"
    by code_simp
  with n show "hex_val (hex_digit n) = Some n" "hex_digit n \<in> set ''0123456789abcdef''"
    unfolding list_all_iff by blast+
qed

lemma byte_range: "0 \<le> uint (b :: 8 word)" "uint b < 256"
  using uint_bounded [of b] by simp_all

lemma byte_nibbles: "0 \<le> uint (b :: 8 word) div 16 \<and> uint b div 16 < 16" "0 \<le> uint b mod 16 \<and> uint b mod 16 < 16"
  using byte_range [of b] by (auto simp: pos_imp_zdiv_nonneg_iff)

lemma hex_byte_chars: "set (hex_byte b) \<subseteq> set ''0123456789abcdef''"
  using hex_val_digit(2) [of "uint b div 16"] hex_val_digit(2) [of "uint b mod 16"] byte_nibbles [of b]
  by (simp only: hex_byte_def list.set(1) list.set(2) [of "hex_digit _"] insert_subset) simp

lemma hex_more_bytes:
  "hex_more a (concat (map hex_byte bs) @ rest) = hex_more (foldl (\<lambda>a b. 256 * a + uint b) a bs) rest"
proof (induction bs arbitrary: a)
  case (Cons b bs)
  have "16 * (16 * a + uint b div 16) + uint b mod 16 = 256 * a + uint b"
    by (simp add: algebra_simps)
  moreover have "hex_more a (hex_byte b @ ts) = hex_more (16 * (16 * a + uint b div 16) + uint b mod 16) ts" for ts
    using byte_nibbles [of b] by (simp add: hex_byte_def hex_val_digit(1))
  ultimately show ?case using Cons by (simp add: add.commute)
qed simp

lemma foldl_bytes_nonneg: "0 \<le> a \<Longrightarrow> 0 \<le> foldl (\<lambda>a b. 256 * a + uint (b :: 8 word)) a bs"
  by (induction bs arbitrary: a) simp_all

lemma foldl_bytes_less: "foldl (\<lambda>a b. 256 * a + uint (b :: 8 word)) 0 bs < 2 ^ (8 * length bs)"
proof (induction bs rule: rev_induct)
  case (snoc b bs)
  have "uint b < 256" by (rule byte_range)
  with snoc show ?case by (simp add: power_add)
qed simp

lemma be_bytes_foldl: "be_bytes (length bs) (foldl (\<lambda>a b. 256 * a + uint b) 0 bs) = bs"
proof (induction bs rule: rev_induct)
  case (snoc b bs)
  have "uint b < 256" "0 \<le> uint b" by (rule byte_range)+
  with snoc show ?case by simp
qed simp

lemma remove_sub_absent: "c \<in> set pat \<Longrightarrow> c \<notin> set s \<Longrightarrow> remove_sub pat s = s"
proof (induction pat s rule: remove_sub.induct)
  case (2 pat d ds)
  then have "take (length pat) (d # ds) \<noteq> pat" by (metis in_set_takeD)
  with 2 show ?case by simp
qed simp

lemma dropWhile_eq_self: "\<forall>c \<in> set s. \<not> p c \<Longrightarrow> dropWhile p s = s"
  by (cases s) simp_all

lemma strip_chars_none: "\<not> (\<exists>c \<in> set s. p c) \<Longrightarrow> strip_chars p s = s"
  by (simp add: strip_chars_def dropWhile_eq_self [of s] dropWhile_eq_self [of "rev s"])

lemma hex_string_int16:
  assumes "set s \<subseteq> set ''0123456789abcdef''" "s \<noteq> []"
  shows "py_int16 s = hex_more 0 s"
proof -
  have hexes: "list_all (\<lambda>c. \<not> is_space c \<and> c \<noteq> CHR ''-'' \<and> c \<noteq> CHR ''+'' \<and> c \<noteq> CHR ''x'' \<and> c \<noteq> CHR ''X''
      \<and> hex_val c \<noteq> None) ''0123456789abcdef''"
    by code_simp
  then have h: "\<not> is_space c" "c \<noteq> CHR ''-''" "c \<noteq> CHR ''+''" "c \<noteq> CHR ''x''" "c \<noteq> CHR ''X''" "hex_val c \<noteq> None"
    if "c \<in> set s" for c
    using that assms(1) unfolding list_all_iff by blast+
  then have "strip_chars is_space s = s" by (intro strip_chars_none) blast
  moreover obtain c cs where s: "s = c # cs" using assms(2) by (cases s) auto
  moreover have "hex_prefixed s = hex_digits s"
    using h(4,5) s by (cases cs) (auto simp: hex_prefixed_def)
  moreover have "hex_digits s = hex_more 0 s" using h(6) [of c] s by (auto simp: hex_digits_def)
  ultimately show ?thesis using h(2,3) by (simp add: py_int16_def)
qed

lemma uuid_str_chars: "set (uuid_str raw) \<subseteq> set ''-0123456789abcdef''"
proof -
  have hex: "set (concat (map hex_byte raw)) \<subseteq> set ''0123456789abcdef''"
    using hex_byte_chars by fastforce
  have "set (uuid_str raw) \<subseteq> insert (CHR ''-'') (set (concat (map hex_byte raw)))"
    by (auto simp: uuid_str_def Let_def dest: in_set_takeD in_set_dropD simp del: set_concat)
  also have "\<dots> \<subseteq> insert (CHR ''-'') (set ''0123456789abcdef'')" using hex by blast
  finally show ?thesis by simp
qed

lemma uuid_str_undashed: "filter (\<lambda>c. c \<noteq> CHR ''-'') (uuid_str raw) = concat (map hex_byte raw)"
proof -
  let ?h = "concat (map hex_byte raw)"
  have nodash: "filter (\<lambda>c. c \<noteq> CHR ''-'') xs = xs" if "set xs \<subseteq> set ?h" for xs
  proof -
    have "CHR ''-'' \<notin> set ?h" using hex_byte_chars by fastforce
    with that show ?thesis by (auto simp: filter_id_conv simp del: set_concat)
  qed
  have sub: "set (take a (drop b ?h)) \<subseteq> set ?h" "set (drop b ?h) \<subseteq> set ?h" "set (take a ?h) \<subseteq> set ?h" for a b
    by (auto dest: in_set_takeD in_set_dropD simp del: set_concat)
  have "filter (\<lambda>c. c \<noteq> CHR ''-'') (uuid_str raw) =
      take 8 ?h @ take 4 (drop 8 ?h) @ take 4 (drop 12 ?h) @ take 4 (drop 16 ?h) @ drop 20 ?h"
    by (simp add: uuid_str_def Let_def nodash sub del: set_concat)
  also have "\<dots> = ?h"
    using append_take_drop_id [of 8 ?h] append_take_drop_id [of 4 "drop 8 ?h"]
      append_take_drop_id [of 4 "drop 12 ?h"] append_take_drop_id [of 4 "drop 16 ?h"] by simp
  finally show ?thesis .
qed

lemma uuid_parse_str:
  assumes "length raw = 16"
  shows "uuid_parse (uuid_str raw) = Some raw"
proof -
  let ?h = "concat (map hex_byte raw)"
  note chars = uuid_str_chars [of raw]
  have absent: "c \<notin> set (uuid_str raw)" if "c \<notin> set ''-0123456789abcdef''" for c using that chars by blast
  have "remove_sub ''urn:'' (uuid_str raw) = uuid_str raw" "remove_sub ''uuid:'' (uuid_str raw) = uuid_str raw"
    by (rule remove_sub_absent [of "CHR '':''"]; use absent in simp)+
  moreover have "strip_chars (\<lambda>c. c = CHR 0x7B \<or> c = CHR 0x7D) (uuid_str raw) = uuid_str raw"
    using absent [of "CHR 0x7B"] absent [of "CHR 0x7D"] by (intro strip_chars_none) auto
  moreover have len: "length ?h = 32"
    by (subst concat_map_length [where n = 2]) (simp_all add: hex_byte_def assms)
  moreover have "py_int16 ?h = Some (foldl (\<lambda>a b. 256 * a + uint b) 0 raw)"
  proof -
    have "set ?h \<subseteq> set ''0123456789abcdef''" using hex_byte_chars by fastforce
    moreover have "?h \<noteq> []" using len by (metis list.size(3) zero_neq_numeral)
    ultimately have "py_int16 ?h = hex_more 0 ?h" by (rule hex_string_int16)
    then show ?thesis using hex_more_bytes [of 0 raw "[]"] by simp
  qed
  ultimately show ?thesis
    using foldl_bytes_nonneg [of 0 raw] foldl_bytes_less [of raw] be_bytes_foldl [of raw] assms
    by (simp add: uuid_parse_def uuid_str_undashed Let_def)
qed

end
