(* ===== verification/Ros_Action.thy ===== *)
theory Ros_Action
  imports Ros_Codec
begin

text \<open>
  The rclpy adapter of the \<open>FollowWaypoints\<close> action (\<open>robotest_missions/ros_action.py\<close>). Its state is
  \<open>action_driver\<close>: the futures it polls, the accepted goal handle and the two dictionaries filled by the
  status subscription, together with what it has handed to the action client (the goals sent and the
  number of cancel calls). rclpy itself, which completes the futures, is not part of this program:
  completions are environment steps. \<open>Time.to_msg\<close>, \<open>math.sin\<close> and \<open>math.cos\<close> are parameters.
\<close>

section \<open>Messages\<close>

definition ACTION_NAME :: string where "ACTION_NAME = ''follow_waypoints''"
definition ACTION_STATUS_TOPIC :: string where "ACTION_STATUS_TOPIC = ACTION_NAME @ ''/_action/status''"

record pose_stamped =
  ps_frame_id :: string
  ps_stamp :: "int \<times> int"
  position_x :: pyfloat
  position_y :: pyfloat
  position_z :: pyfloat
  orientation_x :: pyfloat
  orientation_y :: pyfloat
  orientation_z :: pyfloat
  orientation_w :: pyfloat

record waypoints_goal =
  number_of_loops :: int
  goal_index :: int
  goal_poses :: "pose_stamped list"

record goal_handle =
  handle_accepted :: bool
  handle_uuid :: bytes
  handle_stamp :: stamp_obj

record missed_msg =
  missed_index :: int
  missed_error_code :: int
  missed_goal :: pose_stamped

record action_result =
  result_error_code :: int
  result_error_msg :: string
  result_missed :: "missed_msg list"

record wrapped_result =
  wrapped_status :: int
  wrapped_result :: "action_result option"

record goal_status_msg =
  gs_uuid :: bytes
  gs_stamp :: stamp_obj
  gs_status :: pyval

record action_driver =
  send_future :: "goal_handle future option"
  goal_handle :: "goal_handle option"
  result_future :: "wrapped_result future option"
  cancel_future :: "bytes list future option"
  goal_uuid_bytes :: "bytes option"
  status_stamps :: "(bytes \<times> int) list"
  status_protocol_errors :: "(bytes \<times> string) list"
  sent_goals :: "waypoints_goal list"
  cancel_requests :: nat

definition new_action_driver :: action_driver where
  "new_action_driver = \<lparr>send_future = None, goal_handle = None, result_future = None, cancel_future = None,
     goal_uuid_bytes = None, status_stamps = [], status_protocol_errors = [], sent_goals = [], cancel_requests = 0\<rparr>"

section \<open>Operations\<close>

definition goal_uuid :: "bytes \<Rightarrow> exn + string" where
  "goal_uuid raw =
     (if length raw \<noteq> 16
      then Inl (ActionProtocolError (''goal UUID must contain 16 bytes, found '' @ show_int (int (length raw))))
      else Inr (uuid_str raw))"

definition action_stamp_ns :: "stamp_obj \<Rightarrow> exn + int" where
  "action_stamp_ns = project_stamp ActionProtocolError ''ROS''"

definition pose_evidence :: "pose_stamped \<Rightarrow> pydict" where
  "pose_evidence m =
    [(''frame_id'', PStr (ps_frame_id m)),
     (''stamp_ns'', PInt (fst (ps_stamp m) * 1000000000 + snd (ps_stamp m))),
     (''position'', PDict [(''x'', PFloat (position_x m)), (''y'', PFloat (position_y m)), (''z'', PFloat (position_z m))]),
     (''orientation'', PDict [(''x'', PFloat (orientation_x m)), (''y'', PFloat (orientation_y m)),
        (''z'', PFloat (orientation_z m)), (''w'', PFloat (orientation_w m))])]"

text \<open>\<open>x / 2.0\<close>.\<close>

definition halved :: "pyfloat \<Rightarrow> pyfloat" where
  "halved x = (case f_div x (Fin 2) of Some h \<Rightarrow> h | None \<Rightarrow> NaN)"

definition waypoint_pose ::
  "(pyfloat \<Rightarrow> pyfloat) \<Rightarrow> (pyfloat \<Rightarrow> pyfloat) \<Rightarrow> string \<Rightarrow> int \<times> int \<Rightarrow> planar_pose \<Rightarrow> pose_stamped" where
  "waypoint_pose py_sin py_cos frame stamp waypoint =
    \<lparr>ps_frame_id = frame, ps_stamp = stamp,
     position_x = pose_x waypoint, position_y = pose_y waypoint, position_z = Fin 0,
     orientation_x = Fin 0, orientation_y = Fin 0,
     orientation_z = py_sin (halved (pose_yaw waypoint)), orientation_w = py_cos (halved (pose_yaw waypoint))\<rparr>"

definition action_start_goal ::
  "(pyfloat \<Rightarrow> pyfloat) \<Rightarrow> (pyfloat \<Rightarrow> pyfloat) \<Rightarrow> (int \<Rightarrow> exn + int \<times> int) \<Rightarrow>
   mission_config \<Rightarrow> int \<Rightarrow> (action_driver, unit) wop" where
  "action_start_goal py_sin py_cos to_msg c submission_stamp_ns d =
     (if send_future d \<noteq> None then (Inl (ActionProtocolError ''only one goal may be active per runner''), d)
      else (case to_msg submission_stamp_ns of
        Inl e \<Rightarrow> (Inl e, d)
      | Inr stamp \<Rightarrow>
          (Inr (), d\<lparr>send_future := Some Pending,
             sent_goals := sent_goals d @
               [\<lparr>number_of_loops = 0, goal_index = 0,
                 goal_poses = map (waypoint_pose py_sin py_cos (frame_id c) stamp) (waypoints c)\<rparr>]\<rparr>)))"

text \<open>The feedback callback: \<open>None\<close> stands for a message on which \<open>int(message.feedback.current_waypoint)\<close>
  raises \<open>AttributeError\<close>, \<open>TypeError\<close> or \<open>ValueError\<close>.\<close>

definition on_feedback :: "int option \<Rightarrow> int" where
  "on_feedback waypoint = (case waypoint of None \<Rightarrow> - 1 | Some i \<Rightarrow> i)"

definition action_poll_goal_response :: "(action_driver, goal_response option) wop" where
  "action_poll_goal_response d =
     (case send_future d of
        None \<Rightarrow> (Inl (ActionProtocolError ''goal was not submitted''), d)
      | Some Pending \<Rightarrow> (Inr None, d)
      | Some fut \<Rightarrow>
          if goal_handle d \<noteq> None then (Inl (ActionProtocolError ''goal response was polled more than once''), d)
          else (case fut of
            Raised e \<Rightarrow> (Inl (ActionProtocolError (''goal response failed: '' @ e)), d)
          | Ready None \<Rightarrow> (Inl (ActionProtocolError ''goal response future returned no handle''), d)
          | Ready (Some handle) \<Rightarrow>
              if \<not> handle_accepted handle
              then (Inr (Some \<lparr>gr_accepted = False, gr_goal_uuid = None, gr_response_stamp_ns = None\<rparr>), d)
              else
                (bindE (goal_uuid (handle_uuid handle)) (\<lambda>u.
                 bindE (action_stamp_ns (handle_stamp handle)) (\<lambda>t.
                 Inr (Some \<lparr>gr_accepted = True, gr_goal_uuid = Some u, gr_response_stamp_ns = Some t\<rparr>))),
                 d\<lparr>goal_uuid_bytes := Some (handle_uuid handle), goal_handle := Some handle,
                   result_future := Some Pending\<rparr>)))"

definition action_goal_is_active :: "(action_driver, bool) wop" where
  "action_goal_is_active d = (Inr (goal_handle d \<noteq> None), d)"

definition action_poll_status_stamp :: "(action_driver, int option) wop" where
  "action_poll_status_stamp d =
     ((case goal_uuid_bytes d of
         None \<Rightarrow> Inl (ActionProtocolError ''cannot poll action status before goal acceptance'')
       | Some u \<Rightarrow>
           (case map_of (status_protocol_errors d) u of
              Some e \<Rightarrow> Inl (ActionProtocolError e)
            | None \<Rightarrow>
                Inr (case map_of (status_stamps d) u of
                       Some t \<Rightarrow> if t > 0 then Some t else None
                     | None \<Rightarrow> None))), d)"

definition missed_of_msg :: "missed_msg \<Rightarrow> missed_waypoint" where
  "missed_of_msg item =
    \<lparr>mw_index = missed_index item, mw_error_code = missed_error_code item, mw_goal = pose_evidence (missed_goal item)\<rparr>"

definition action_poll_terminal_result :: "(action_driver, terminal_action_result option) wop" where
  "action_poll_terminal_result d =
     ((case result_future d of
         None \<Rightarrow> Inr None
       | Some Pending \<Rightarrow> Inr None
       | Some (Raised e) \<Rightarrow> Inl (ActionProtocolError (''terminal result failed: '' @ e))
       | Some (Ready w) \<Rightarrow>
           (case w of
              None \<Rightarrow> Inl (ActionProtocolError ''terminal result future returned no result'')
            | Some wrapped \<Rightarrow>
                (case wrapped_result wrapped of
                   None \<Rightarrow> Inl (ActionProtocolError ''terminal result future returned no result'')
                 | Some result \<Rightarrow>
                     Inr (Some \<lparr>status_code = wrapped_status wrapped, error_code = result_error_code result,
                       error_message = result_error_msg result,
                       missed_waypoints = map missed_of_msg (result_missed result)\<rparr>)))), d)"

definition action_request_cancel :: "(action_driver, unit) wop" where
  "action_request_cancel d =
     (if goal_handle d = None then (Inl (ActionProtocolError ''cannot cancel before goal acceptance''), d)
      else if cancel_future d \<noteq> None then (Inl (ActionProtocolError ''cancellation was already requested''), d)
      else (Inr (), d\<lparr>cancel_future := Some Pending, cancel_requests := cancel_requests d + 1\<rparr>))"

definition action_poll_cancel :: "(action_driver, bool option) wop" where
  "action_poll_cancel d =
     ((case cancel_future d of
         None \<Rightarrow> Inl (ActionProtocolError ''cancellation was not requested'')
       | Some Pending \<Rightarrow> Inr None
       | Some (Raised e) \<Rightarrow> Inl (ActionProtocolError (''cancellation response failed: '' @ e))
       | Some (Ready response) \<Rightarrow>
           (case (response, goal_uuid_bytes d) of
              (Some goals_canceling, Some u) \<Rightarrow> Inr (Some (list_ex (\<lambda>g. g = u) goals_canceling))
            | _ \<Rightarrow> Inl (ActionProtocolError ''cancellation response was incomplete''))), d)"

definition status_outcome :: "goal_status_msg \<Rightarrow> exn + int" where
  "status_outcome st =
     bindE (goal_uuid (gs_uuid st)) (\<lambda>_.
     bindE (action_stamp_ns (gs_stamp st)) (\<lambda>stamp_ns.
     bindE (guardE (case gs_status st of PInt code \<Rightarrow> 1 \<le> code \<and> code \<le> 6 | _ \<Rightarrow> False)
       (ActionProtocolError ''action status code must be an integer in the range 1..6'')) (\<lambda>_.
     Inr stamp_ns)))"

definition on_status_entry :: "action_driver \<Rightarrow> goal_status_msg \<Rightarrow> action_driver" where
  "on_status_entry d st =
     (let raw_uuid = gs_uuid st in
      case status_outcome st of
        Inl e \<Rightarrow> d\<lparr>status_protocol_errors :=
          dict_set raw_uuid (''invalid action status for goal UUID: '' @ exn_text e) (status_protocol_errors d)\<rparr>
      | Inr stamp_ns \<Rightarrow>
          (case map_of (status_stamps d) raw_uuid of
             Some previous \<Rightarrow>
               if stamp_ns \<noteq> previous
               then d\<lparr>status_protocol_errors :=
                 dict_set raw_uuid ''conflicting action-status acceptance stamps for goal UUID'' (status_protocol_errors d)\<rparr>
               else d
           | None \<Rightarrow> d\<lparr>status_stamps := dict_set raw_uuid stamp_ns (status_stamps d)\<rparr>))"

definition on_status :: "action_driver \<Rightarrow> goal_status_msg list \<Rightarrow> action_driver" where
  "on_status d status_list = foldl on_status_entry d status_list"

text \<open>The adapter as the driver protocol of the executor.\<close>

definition rclpy_driver ::
  "string \<Rightarrow> (action_driver \<Rightarrow> bool) \<Rightarrow> (pyfloat \<Rightarrow> pyfloat) \<Rightarrow> (pyfloat \<Rightarrow> pyfloat) \<Rightarrow> (int \<Rightarrow> exn + int \<times> int) \<Rightarrow>
   action_driver follow_waypoints_driver" where
  "rclpy_driver resolved ready py_sin py_cos to_msg =
    \<lparr>driver_action_name = ACTION_NAME, driver_resolved_action_name = resolved,
     server_is_ready = (\<lambda>d. (Inr (ready d), d)),
     start_goal = action_start_goal py_sin py_cos to_msg,
     poll_goal_response = action_poll_goal_response,
     accepted_goal_is_active = action_goal_is_active,
     poll_accepted_status_stamp_ns = action_poll_status_stamp,
     poll_terminal_result = action_poll_terminal_result,
     request_cancel = action_request_cancel,
     poll_cancel_acknowledgement = action_poll_cancel\<rparr>"

section \<open>The accepted status stamp\<close>

definition outcomes :: "bytes \<Rightarrow> goal_status_msg list \<Rightarrow> (exn + int) list" where
  "outcomes u sts = map status_outcome (filter (\<lambda>st. gs_uuid st = u) sts)"

lemma on_status_frame:
  "goal_uuid_bytes (on_status d sts) = goal_uuid_bytes d"
proof (induction sts arbitrary: d)
  case (Cons st sts)
  have "goal_uuid_bytes (on_status_entry d st) = goal_uuid_bytes d"
    by (simp add: on_status_entry_def Let_def split: sum.splits option.splits)
  with Cons [of "on_status_entry d st"] show ?case by (simp add: on_status_def)
qed (simp add: on_status_def)

text \<open>What the two dictionaries say about one goal, as a function of the outcomes of its entries.\<close>

fun slot_step :: "bool \<times> int option \<Rightarrow> exn + int \<Rightarrow> bool \<times> int option" where
  "slot_step (failed, stamp) (Inl e) = (True, stamp)"
| "slot_step (failed, None) (Inr t) = (failed, Some t)"
| "slot_step (failed, Some previous) (Inr t) = (failed \<or> t \<noteq> previous, Some previous)"

definition slot :: "bytes \<Rightarrow> action_driver \<Rightarrow> bool \<times> int option" where
  "slot u d = (map_of (status_protocol_errors d) u \<noteq> None, map_of (status_stamps d) u)"

lemma slot_entry:
  "slot u (on_status_entry d st) = (if gs_uuid st = u then slot_step (slot u d) (status_outcome st) else slot u d)"
proof (cases "gs_uuid st = u")
  case True
  then show ?thesis
    by (cases "status_outcome st"; cases "map_of (status_stamps d) u")
      (auto simp: slot_def on_status_entry_def map_of_dict_set)
next
  case False
  then show ?thesis
    by (simp add: slot_def on_status_entry_def map_of_dict_set Let_def split: sum.splits option.splits)
qed

lemma slot_on_status: "slot u (on_status d sts) = foldl slot_step (slot u d) (outcomes u sts)"
  by (induction sts arbitrary: d) (simp_all add: on_status_def outcomes_def slot_entry)

lemma slot_failed [simp]: "foldl slot_step (True, stamp) outs \<noteq> (False, t)"
proof (induction outs arbitrary: stamp)
  case (Cons x outs)
  then show ?case by (cases x; cases stamp) simp_all
qed simp

lemma slot_stamped:
  "foldl slot_step (False, Some p) outs = (False, Some t) \<longleftrightarrow> t = p \<and> (\<forall>x \<in> set outs. x = Inr p)"
proof (induction outs)
  case (Cons x outs)
  then show ?case by (cases "x = Inr p"; cases x) (auto simp del: split_paired_All)
qed auto

lemma slot_from_empty:
  "foldl slot_step (False, None) outs = (False, Some t) \<longleftrightarrow> outs \<noteq> [] \<and> (\<forall>x \<in> set outs. x = Inr t)"
proof (cases outs)
  case (Cons x xs)
  then show ?thesis by (cases x) (auto simp: slot_stamped)
qed simp

lemma poll_status_slot:
  "fst (action_poll_status_stamp d) = Inr (Some t) \<longleftrightarrow>
     (\<exists>u. goal_uuid_bytes d = Some u \<and> slot u d = (False, Some t) \<and> 0 < t)"
  by (auto simp: action_poll_status_stamp_def slot_def split: option.splits)

text \<open>C24. The acceptance stamp T0 is agreed evidence: after any sequence of action status entries,
  \<open>poll_accepted_status_stamp_ns\<close> returns a stamp exactly when there was an entry for the accepted goal
  and every entry for it was valid (sixteen-byte identifier, valid timestamp, status code 1 to 6)
  and carried this one positive stamp. Entries of other goals play no part.\<close>

theorem status_stamp_agreed:
  assumes "status_stamps d = []" and "status_protocol_errors d = []" and "goal_uuid_bytes d = Some u"
  shows "fst (action_poll_status_stamp (on_status d sts)) = Inr (Some t) \<longleftrightarrow>
    0 < t \<and> outcomes u sts \<noteq> [] \<and> (\<forall>x \<in> set (outcomes u sts). x = Inr t)"
  using assms slot_from_empty [of "outcomes u sts" t]
  by (auto simp: poll_status_slot slot_on_status on_status_frame) (simp_all add: slot_def)

theorem status_stamp_agreed_witness:
  "let d = new_action_driver\<lparr>goal_uuid_bytes := Some (replicate 16 1)\<rparr>;
       st = \<lparr>gs_uuid = replicate 16 1, gs_stamp = Stamp (PInt 2) (PInt 5), gs_status = PInt 1\<rparr>
   in fst (action_poll_status_stamp (on_status d [st, st])) = Inr (Some 2000000005)"
  unfolding Let_def
  by (subst status_stamp_agreed [where u = "replicate 16 1"])
    (simp_all add: new_action_driver_def outcomes_def status_outcome_def goal_uuid_def action_stamp_ns_def
      project_stamp_def valid_fields_def)

section \<open>Protocol state\<close>

text \<open>The adapter runs against rclpy: besides the calls of the executor and the status callback, a pending
  future may become done at any time.\<close>

definition completes :: "'a future option \<Rightarrow> 'a future option \<Rightarrow> bool" where
  "completes before after \<longleftrightarrow> before = Some Pending \<and> (\<exists>r. after = Some r)"

inductive action_step :: "action_driver \<Rightarrow> action_driver \<Rightarrow> bool" where
  start: "action_step d (snd (action_start_goal py_sin py_cos to_msg c t d))"
| poll_response: "action_step d (snd (action_poll_goal_response d))"
| poll_status: "action_step d (snd (action_poll_status_stamp d))"
| poll_terminal: "action_step d (snd (action_poll_terminal_result d))"
| cancel: "action_step d (snd (action_request_cancel d))"
| poll_cancel: "action_step d (snd (action_poll_cancel d))"
| status: "action_step d (on_status d sts)"
| sent: "completes (send_future d) f \<Longrightarrow> action_step d (d\<lparr>send_future := f\<rparr>)"
| finished: "completes (result_future d) r \<Longrightarrow> action_step d (d\<lparr>result_future := r\<rparr>)"
| canceled: "completes (cancel_future d) c \<Longrightarrow> action_step d (d\<lparr>cancel_future := c\<rparr>)"

inductive action_reachable :: "action_driver \<Rightarrow> bool" where
  new: "action_reachable new_action_driver"
| step: "action_reachable d \<Longrightarrow> action_step d d' \<Longrightarrow> action_reachable d'"

text \<open>What does not change in the status callback.\<close>

definition protocol_part :: "action_driver \<Rightarrow> action_driver" where
  "protocol_part d = d\<lparr>status_stamps := [], status_protocol_errors := []\<rparr>"

lemma on_status_protocol_part: "protocol_part (on_status d sts) = protocol_part d"
proof (induction sts arbitrary: d)
  case (Cons st sts)
  have "protocol_part (on_status_entry d st) = protocol_part d"
    by (simp add: protocol_part_def on_status_entry_def Let_def split: sum.splits option.splits)
  with Cons [of "on_status_entry d st"] show ?case by (simp add: on_status_def)
qed (simp add: on_status_def)

definition action_inv :: "action_driver \<Rightarrow> bool" where
  "action_inv d \<longleftrightarrow>
     length (sent_goals d) = (if send_future d = None then 0 else 1)
     \<and> cancel_requests d = (if cancel_future d = None then 0 else 1)
     \<and> goal_uuid_bytes d = map_option handle_uuid (goal_handle d)
     \<and> (result_future d \<noteq> None \<longleftrightarrow> goal_handle d \<noteq> None)
     \<and> (goal_handle d \<noteq> None \<longrightarrow> send_future d \<noteq> None)
     \<and> (cancel_future d \<noteq> None \<longrightarrow> goal_handle d \<noteq> None)"

lemma action_inv_part: "action_inv (protocol_part d) = action_inv d"
  by (simp add: action_inv_def protocol_part_def)

lemma action_inv_step: "action_step d d' \<Longrightarrow> action_inv d \<Longrightarrow> action_inv d'"
proof (induction rule: action_step.induct)
  case (status d sts)
  then show ?case by (metis action_inv_part on_status_protocol_part)
next
  case (start d py_sin py_cos to_msg c t)
  then show ?case by (auto simp: action_inv_def action_start_goal_def split: sum.splits)
next
  case (poll_response d)
  then show ?case
    by (auto simp: action_inv_def action_poll_goal_response_def split: option.splits future.splits)
qed (auto simp: action_inv_def completes_def action_poll_status_stamp_def action_poll_terminal_result_def
      action_request_cancel_def action_poll_cancel_def)

lemma action_inv_reachable: "action_reachable d \<Longrightarrow> action_inv d"
proof (induction rule: action_reachable.induct)
  case new
  show ?case by (simp add: action_inv_def new_action_driver_def)
next
  case (step d d')
  then show ?case by (blast intro: action_inv_step)
qed

text \<open>C25. One goal, one cancellation, in order: in every state the adapter can reach it has handed at
  most one goal and at most one cancel call to the action client, the cancel call only for an
  accepted goal whose identifier is the one compared with the status entries, and a terminal result
  or an acknowledgement is returned only after the goal was accepted, respectively the cancellation
  requested. In particular a cancellation response is never incomplete for lack of an identifier.\<close>

theorem action_protocol_safe:
  assumes "action_reachable d"
  shows "length (sent_goals d) \<le> 1 \<and> cancel_requests d \<le> 1
    \<and> (cancel_requests d = 1 \<longrightarrow> (\<exists>h. goal_handle d = Some h \<and> goal_uuid_bytes d = Some (handle_uuid h)))
    \<and> (goal_handle d \<noteq> None \<longrightarrow> length (sent_goals d) = 1)
    \<and> (\<forall>r. fst (action_poll_terminal_result d) = Inr (Some r) \<longrightarrow> goal_handle d \<noteq> None)
    \<and> (\<forall>b. fst (action_poll_cancel d) = Inr (Some b) \<longrightarrow> cancel_requests d = 1)
    \<and> (\<forall>gs. cancel_future d = Some (Ready (Some gs)) \<longrightarrow> (\<exists>b. fst (action_poll_cancel d) = Inr (Some b)))"
proof -
  have inv: "action_inv d" by (rule action_inv_reachable [OF assms])
  have "\<forall>r. fst (action_poll_terminal_result d) = Inr (Some r) \<longrightarrow> goal_handle d \<noteq> None"
  proof (cases "goal_handle d")
    case None
    then have "result_future d = None" using inv by (simp add: action_inv_def)
    then show ?thesis by (simp add: action_poll_terminal_result_def)
  qed simp
  moreover have "\<forall>b. fst (action_poll_cancel d) = Inr (Some b) \<longrightarrow> cancel_requests d = 1"
  proof (cases "cancel_future d")
    case None
    then show ?thesis by (simp add: action_poll_cancel_def)
  next
    case (Some f)
    then show ?thesis using inv by (simp add: action_inv_def)
  qed
  moreover have "\<forall>gs. cancel_future d = Some (Ready (Some gs)) \<longrightarrow> (\<exists>b. fst (action_poll_cancel d) = Inr (Some b))"
    using inv by (auto simp: action_poll_cancel_def action_inv_def)
  moreover have "length (sent_goals d) \<le> 1 \<and> cancel_requests d \<le> 1"
    "cancel_requests d = 1 \<longrightarrow> (\<exists>h. goal_handle d = Some h \<and> goal_uuid_bytes d = Some (handle_uuid h))"
    "goal_handle d \<noteq> None \<longrightarrow> length (sent_goals d) = 1"
    using inv by (auto simp: action_inv_def split: if_splits)
  ultimately show ?thesis by blast
qed

theorem action_protocol_safe_witness:
  "\<forall>c. let d = snd (action_start_goal (\<lambda>x. x) (\<lambda>x. x) (\<lambda>t. Inr (t div 1000000000, t mod 1000000000)) c 7 new_action_driver)
     in sent_goals d \<noteq> [] \<and> length (sent_goals d) \<le> 1 \<and> cancel_requests d \<le> 1"
proof
  fix c
  let ?d = "snd (action_start_goal (\<lambda>x. x) (\<lambda>x. x) (\<lambda>t. Inr (t div 1000000000, t mod 1000000000)) c 7 new_action_driver)"
  have "action_reachable ?d" by (rule action_reachable.step [OF action_reachable.new action_step.start])
  from action_protocol_safe [OF this] show "let d = ?d in sent_goals d \<noteq> [] \<and> length (sent_goals d) \<le> 1 \<and> cancel_requests d \<le> 1"
    by (simp add: Let_def) (simp add: action_start_goal_def new_action_driver_def)
qed

end
