(* ===== verification/Fault_Control.thy ===== *)
theory Fault_Control
  imports Ros_Codec "HOL-Library.Sublist"
begin

text \<open>
  The rclpy adapter of the fault-control services and events (\<open>robotest_missions/fault_control.py\<close>). Its
  state is \<open>fault_driver_state\<close>: the three futures, the bounded event backlog and its loss counter,
  together with the requests it has handed to the service clients. Fields of ROS messages have the
  types that \<open>robotest_interfaces\<close> declares, so that the conversions \<open>int\<close>, \<open>bool\<close> and \<open>str\<close> of the
  code are identities; timestamps and identifiers keep the checks of the code.
\<close>

section \<open>Messages and state\<close>

definition RESET_SERVICE :: string where "RESET_SERVICE = ''faults/reset''"
definition PRELOAD_SERVICE :: string where "PRELOAD_SERVICE = ''faults/preload_schedule''"
definition ARM_SERVICE :: string where "ARM_SERVICE = ''faults/arm_schedule''"
definition EVENT_TOPIC :: string where "EVENT_TOPIC = ''faults/events''"
definition EVENT_SUBSCRIBER_CAPACITY :: nat where "EVENT_SUBSCRIBER_CAPACITY = 512"

record fault_spec_msg =
  fm_schema_version :: int
  fm_fault_id :: string
  fm_target :: int
  fm_mode :: int
  fm_start_offset :: stamp_obj
  fm_duration :: stamp_obj
  fm_seed :: int
  fm_parameters_json :: string

record preload_request =
  pq_schedule_hash :: string
  pq_faults :: "fault_spec_msg list"

record arm_request =
  aq_schedule_hash :: string
  aq_generation :: int
  aq_goal_uuid :: bytes
  aq_accepted_goal_stamp :: stamp_obj

record arm_reply =
  al_accepted :: bool
  al_replayed :: bool
  al_state :: int
  al_schedule_hash :: string
  al_generation :: int
  al_goal_uuid :: bytes
  al_accepted_goal_stamp :: stamp_obj
  al_arm_commit_stamp :: stamp_obj
  al_arm_margin_ns :: int
  al_message :: string

record fault_event_msg =
  fe_header_stamp :: stamp_obj
  fe_schema_version :: int
  fe_event_sequence :: int
  fe_event_type :: int
  fe_state_before :: int
  fe_state_after :: int
  fe_accepted :: bool
  fe_replayed :: bool
  fe_requested_schedule_hash :: string
  fe_committed_schedule_hash :: string
  fe_requested_generation :: int
  fe_committed_generation :: int
  fe_requested_fault_count :: int
  fe_committed_fault_count :: int
  fe_requested_goal_uuid :: bytes
  fe_bound_goal_uuid :: bytes
  fe_requested_t0 :: stamp_obj
  fe_bound_t0 :: stamp_obj
  fe_arm_commit_time :: stamp_obj
  fe_arm_margin_ns :: int
  fe_fault_id :: string
  fe_target :: int
  fe_mode :: int
  fe_configured_activation_time :: stamp_obj
  fe_configured_deactivation_time :: stamp_obj
  fe_actual_time :: stamp_obj
  fe_seed :: int
  fe_input_sequence :: int
  fe_raw_input_count :: int
  fe_validated_output_count :: int
  fe_affected_message_count :: int
  fe_detail :: string

record fault_driver_state =
  reset_future :: "reset_response future option"
  preload_future :: "preload_response future option"
  arm_future :: "arm_reply future option"
  backlog :: "pydict list"
  overflow_count :: nat
  reset_requests :: nat
  preload_requests :: "preload_request list"
  arm_requests :: "arm_request list"

definition new_fault_driver :: fault_driver_state where
  "new_fault_driver = \<lparr>reset_future = None, preload_future = None, arm_future = None, backlog = [],
     overflow_count = 0, reset_requests = 0, preload_requests = [], arm_requests = []\<rparr>"

section \<open>Operations\<close>

definition fault_stamp_ns :: "stamp_obj \<Rightarrow> exn + int" where
  "fault_stamp_ns = project_stamp FaultProtocolError ''fault''"

definition uuid_string :: "bytes \<Rightarrow> exn + string" where
  "uuid_string raw =
     (if length raw \<noteq> 16 then Inl (FaultProtocolError ''fault-control UUID must contain 16 bytes'')
      else Inr (uuid_str raw))"

definition uuid_message :: "string \<Rightarrow> exn + bytes" where
  "uuid_message value =
     (case uuid_parse value of
        None \<Rightarrow> Inl (FaultProtocolError (''invalid goal UUID: '' @ value))
      | Some raw \<Rightarrow>
          if \<not> list_ex (\<lambda>b. b \<noteq> 0) raw then Inl (FaultProtocolError ''goal UUID must not be all zero'')
          else Inr raw)"

definition future_result :: "'a future option \<Rightarrow> string \<Rightarrow> exn + 'a option" where
  "future_result fut operation =
     (case fut of
        None \<Rightarrow> Inr None
      | Some Pending \<Rightarrow> Inr None
      | Some (Raised e) \<Rightarrow> Inl (FaultProtocolError (operation @ '' service failed: '' @ e))
      | Some (Ready None) \<Rightarrow> Inl (FaultProtocolError (operation @ '' service returned no response''))
      | Some (Ready (Some response)) \<Rightarrow> Inr (Some response))"

definition fc_start_reset :: "(fault_driver_state, unit) wop" where
  "fc_start_reset d =
     (if reset_future d \<noteq> None then (Inl (FaultProtocolError ''reset request is already pending''), d)
      else (Inr (), d\<lparr>reset_future := Some Pending, reset_requests := reset_requests d + 1\<rparr>))"

definition fc_poll_reset :: "(fault_driver_state, reset_response option) wop" where
  "fc_poll_reset d =
     (case future_result (reset_future d) ''reset'' of
        Inl e \<Rightarrow> (Inl e, d)
      | Inr None \<Rightarrow> (Inr None, d)
      | Inr (Some response) \<Rightarrow> (Inr (Some response), d\<lparr>reset_future := None\<rparr>))"

definition fault_message :: "fault_spec \<Rightarrow> fault_spec_msg" where
  "fault_message f =
    \<lparr>fm_schema_version = spec_schema_version f, fm_fault_id = fault_id f, fm_target = target f, fm_mode = mode f,
     fm_start_offset = time_from_ns (start_offset_ns f), fm_duration = time_from_ns (duration_ns f),
     fm_seed = seed f,
     fm_parameters_json = json_dumps (PDict (map (\<lambda>(k, i). (k, PInt i)) (parameters f)))\<rparr>"

definition fc_start_preload :: "fault_schedule \<Rightarrow> (fault_driver_state, unit) wop" where
  "fc_start_preload schedule d =
     (if preload_future d \<noteq> None then (Inl (FaultProtocolError ''preload request is already pending''), d)
      else (Inr (), d\<lparr>preload_future := Some Pending,
        preload_requests := preload_requests d @
          [\<lparr>pq_schedule_hash = sha256 schedule, pq_faults = map fault_message (faults schedule)\<rparr>]\<rparr>))"

definition fc_poll_preload :: "(fault_driver_state, preload_response option) wop" where
  "fc_poll_preload d =
     (case future_result (preload_future d) ''preload'' of
        Inl e \<Rightarrow> (Inl e, d)
      | Inr None \<Rightarrow> (Inr None, d)
      | Inr (Some response) \<Rightarrow> (Inr (Some response), d\<lparr>preload_future := None\<rparr>))"

definition fc_start_arm :: "string \<Rightarrow> int \<Rightarrow> string \<Rightarrow> int \<Rightarrow> (fault_driver_state, unit) wop" where
  "fc_start_arm schedule_hash generation goal_uuid accepted_stamp_ns d =
     (if arm_future d \<noteq> None then (Inl (FaultProtocolError ''arm request is already pending''), d)
      else (case uuid_message goal_uuid of
        Inl e \<Rightarrow> (Inl e, d)
      | Inr raw \<Rightarrow>
          (Inr (), d\<lparr>arm_future := Some Pending,
             arm_requests := arm_requests d @
               [\<lparr>aq_schedule_hash = schedule_hash, aq_generation = generation, aq_goal_uuid = raw,
                 aq_accepted_goal_stamp = time_from_ns accepted_stamp_ns\<rparr>]\<rparr>)))"

definition arm_projection :: "arm_reply \<Rightarrow> exn + arm_response" where
  "arm_projection response =
     bindE (uuid_string (al_goal_uuid response)) (\<lambda>u.
     bindE (fault_stamp_ns (al_accepted_goal_stamp response)) (\<lambda>t0.
     bindE (fault_stamp_ns (al_arm_commit_stamp response)) (\<lambda>commit.
     Inr \<lparr>ar_accepted = al_accepted response, ar_replayed = al_replayed response, ar_state = al_state response,
          ar_schedule_hash = al_schedule_hash response, ar_generation = al_generation response,
          ar_goal_uuid = u, ar_accepted_goal_stamp_ns = t0, ar_arm_commit_stamp_ns = commit,
          ar_arm_margin_ns = al_arm_margin_ns response, ar_message = al_message response\<rparr>)))"

text \<open>The future is forgotten before the response is projected.\<close>

definition fc_poll_arm :: "(fault_driver_state, arm_response option) wop" where
  "fc_poll_arm d =
     (case future_result (arm_future d) ''arm'' of
        Inl e \<Rightarrow> (Inl e, d)
      | Inr None \<Rightarrow> (Inr None, d)
      | Inr (Some response) \<Rightarrow> (bindE (arm_projection response) (\<lambda>a. Inr (Some a)), d\<lparr>arm_future := None\<rparr>))"

definition fc_drain_events :: "(fault_driver_state, pydict list) wop" where
  "fc_drain_events d = (Inr (backlog d), d\<lparr>backlog := []\<rparr>)"

definition fc_event_overflow_count :: "(fault_driver_state, int) wop" where
  "fc_event_overflow_count d = (Inr (int (overflow_count d)), d)"

definition event_dict :: "fault_event_msg \<Rightarrow> exn + pydict" where
  "event_dict m =
     bindE (fault_stamp_ns (fe_configured_deactivation_time m)) (\<lambda>configured_deactivation_ns.
     bindE (fault_stamp_ns (fe_header_stamp m)) (\<lambda>header_stamp_ns.
     bindE (uuid_string (fe_requested_goal_uuid m)) (\<lambda>requested_goal_uuid.
     bindE (uuid_string (fe_bound_goal_uuid m)) (\<lambda>bound_goal_uuid.
     bindE (fault_stamp_ns (fe_requested_t0 m)) (\<lambda>requested_t0_ns.
     bindE (fault_stamp_ns (fe_bound_t0 m)) (\<lambda>bound_t0_ns.
     bindE (fault_stamp_ns (fe_arm_commit_time m)) (\<lambda>arm_commit_stamp_ns.
     bindE (fault_stamp_ns (fe_configured_activation_time m)) (\<lambda>configured_activation_stamp_ns.
     bindE (fault_stamp_ns (fe_actual_time m)) (\<lambda>actual_stamp_ns.
     Inr
      [(''header_stamp_ns'', PInt header_stamp_ns), (''schema_version'', PInt (fe_schema_version m)),
       (''event_sequence'', PInt (fe_event_sequence m)), (''event_type'', PInt (fe_event_type m)),
       (''state_before'', PInt (fe_state_before m)), (''state_after'', PInt (fe_state_after m)),
       (''accepted'', PBool (fe_accepted m)), (''replayed'', PBool (fe_replayed m)),
       (''requested_schedule_hash'', PStr (fe_requested_schedule_hash m)),
       (''committed_schedule_hash'', PStr (fe_committed_schedule_hash m)),
       (''requested_generation'', PInt (fe_requested_generation m)),
       (''committed_generation'', PInt (fe_committed_generation m)),
       (''requested_fault_count'', PInt (fe_requested_fault_count m)),
       (''committed_fault_count'', PInt (fe_committed_fault_count m)),
       (''requested_goal_uuid'', PStr requested_goal_uuid), (''bound_goal_uuid'', PStr bound_goal_uuid),
       (''requested_t0_ns'', PInt requested_t0_ns), (''bound_t0_ns'', PInt bound_t0_ns),
       (''arm_commit_stamp_ns'', PInt arm_commit_stamp_ns),
       (''arm_margin_ns'', PInt (fe_arm_margin_ns m)), (''fault_id'', PStr (fe_fault_id m)),
       (''target'', PInt (fe_target m)), (''mode'', PInt (fe_mode m)),
       (''configured_activation_stamp_ns'', PInt configured_activation_stamp_ns),
       (''configured_deactivation_stamp_ns'', PInt configured_deactivation_ns),
       (''actual_stamp_ns'', PInt actual_stamp_ns), (''seed'', PInt (fe_seed m)),
       (''input_sequence'', PInt (fe_input_sequence m)),
       (''raw_input_count'', PInt (fe_raw_input_count m)),
       (''validated_output_count'', PInt (fe_validated_output_count m)),
       (''affected_message_count'', PInt (fe_affected_message_count m)),
       (''detail'', PStr (fe_detail m))])))))))))"

definition fc_on_event :: "fault_driver_state \<Rightarrow> fault_event_msg \<Rightarrow> fault_driver_state" where
  "fc_on_event d m =
     (if length (backlog d) \<ge> EVENT_SUBSCRIBER_CAPACITY then d\<lparr>overflow_count := overflow_count d + 1\<rparr>
      else (case event_dict m of
        Inl e \<Rightarrow> d\<lparr>overflow_count := overflow_count d + 1\<rparr>
      | Inr event \<Rightarrow> d\<lparr>backlog := backlog d @ [event]\<rparr>))"

text \<open>The adapter as the fault-control protocol of the executor.\<close>

definition rclpy_fault_driver :: "(fault_driver_state \<Rightarrow> bool) \<Rightarrow> fault_driver_state fault_control_driver" where
  "rclpy_fault_driver ready =
    \<lparr>services_are_ready = (\<lambda>d. (Inr (ready d), d)),
     start_reset = fc_start_reset, poll_reset_response = fc_poll_reset,
     start_preload = fc_start_preload, poll_preload_response = fc_poll_preload,
     start_arm = fc_start_arm, poll_arm_response = fc_poll_arm,
     drain_events = fc_drain_events, event_overflow_count = fc_event_overflow_count\<rparr>"

section \<open>Event accounting\<close>

text \<open>The subscription callback and the drains of the executor interleave; \<open>play\<close> runs a history and
  collects what the drains handed out.\<close>

datatype history_op = Arrive fault_event_msg | DrainAll

fun play_op :: "fault_driver_state \<times> pydict list \<Rightarrow> history_op \<Rightarrow> fault_driver_state \<times> pydict list" where
  "play_op (d, out) (Arrive m) = (fc_on_event d m, out)"
| "play_op (d, out) DrainAll =
     (case fc_drain_events d of (Inr evs, d') \<Rightarrow> (d', out @ evs) | (Inl e, d') \<Rightarrow> (d', out))"

definition play :: "history_op list \<Rightarrow> fault_driver_state \<times> pydict list" where
  "play ops = foldl play_op (new_fault_driver, []) ops"

fun arrivals :: "history_op list \<Rightarrow> fault_event_msg list" where
  "arrivals [] = []"
| "arrivals (Arrive m # ops) = m # arrivals ops"
| "arrivals (DrainAll # ops) = arrivals ops"

lemma arrivals_append [simp]: "arrivals (xs @ ys) = arrivals xs @ arrivals ys"
  by (induction xs rule: arrivals.induct) simp_all

definition accounted :: "fault_driver_state \<Rightarrow> pydict list \<Rightarrow> fault_event_msg list \<Rightarrow> bool" where
  "accounted d out ms \<longleftrightarrow>
     length (backlog d) \<le> EVENT_SUBSCRIBER_CAPACITY
     \<and> int (length ms) = int (length out) + int (length (backlog d)) + int (overflow_count d)
     \<and> subseq (map Inr (out @ backlog d)) (map event_dict ms)"

lemma accounted_arrive:
  assumes "accounted d out ms"
  shows "accounted (fc_on_event d m) out (ms @ [m])"
proof (cases "length (backlog d) \<ge> EVENT_SUBSCRIBER_CAPACITY \<or> (\<exists>e. event_dict m = Inl e)")
  case True
  then have "fc_on_event d m = d\<lparr>overflow_count := overflow_count d + 1\<rparr>"
    by (auto simp: fc_on_event_def)
  moreover have "subseq (map event_dict ms) (map event_dict (ms @ [m]))"
    by (rule prefix_imp_subseq) simp
  ultimately show ?thesis
    using assms subseq_order.trans [of "map Inr (out @ backlog d)" "map event_dict ms"] by (simp add: accounted_def)
next
  case False
  then obtain event where "event_dict m = Inr event" "length (backlog d) < EVENT_SUBSCRIBER_CAPACITY"
    by (cases "event_dict m") auto
  then have d: "fc_on_event d m = d\<lparr>backlog := backlog d @ [event]\<rparr>" by (simp add: fc_on_event_def)
  have "subseq (map Inr (out @ backlog d) @ [Inr event]) (map event_dict ms @ [event_dict m])"
    using assms \<open>event_dict m = Inr event\<close> by (intro list_emb_append_mono) (simp_all add: accounted_def)
  with assms d \<open>length (backlog d) < EVENT_SUBSCRIBER_CAPACITY\<close> show ?thesis
    by (simp add: accounted_def)
qed

lemma accounted_drain:
  "accounted d out ms \<Longrightarrow> accounted (d\<lparr>backlog := []\<rparr>) (out @ backlog d) ms"
  by (simp add: accounted_def)

lemma play_accounted:
  "play ops = (d, out) \<Longrightarrow> accounted d out (arrivals ops)"
proof (induction ops arbitrary: d out rule: rev_induct)
  case Nil
  then show ?case by (auto simp: play_def accounted_def new_fault_driver_def)
next
  case (snoc op ops)
  obtain d0 out0 where p: "play ops = (d0, out0)" by (cases "play ops")
  have acc: "accounted d0 out0 (arrivals ops)" by (rule snoc.IH [OF p])
  have eq: "play_op (d0, out0) op = (d, out)" using snoc.prems p by (simp add: play_def)
  show ?case
  proof (cases op)
    case (Arrive m)
    then show ?thesis using eq accounted_arrive [OF acc] by auto
  next
    case DrainAll
    then show ?thesis using eq accounted_drain [OF acc] by (auto simp: fc_drain_events_def)
  qed
qed

text \<open>C26. No fault event disappears silently: for every interleaving of arriving events and drains, the
  number of arrivals is the number of events handed out, plus those still in the backlog, plus the
  overflow count; the events handed out and pending are, in order, projections of arrivals; the
  backlog stays within its capacity; and with an overflow count of zero nothing is missing.\<close>

theorem fault_events_accounted:
  "case play ops of (d, out) \<Rightarrow>
     length (backlog d) \<le> EVENT_SUBSCRIBER_CAPACITY
     \<and> int (length (arrivals ops)) = int (length out) + int (length (backlog d)) + int (overflow_count d)
     \<and> subseq (map Inr (out @ backlog d)) (map event_dict (arrivals ops))
     \<and> (overflow_count d = 0 \<longrightarrow> map Inr (out @ backlog d) = map event_dict (arrivals ops))"
proof (cases "play ops")
  case (Pair d out)
  have acc: "accounted d out (arrivals ops)" by (rule play_accounted [OF Pair])
  have "map Inr (out @ backlog d) = map event_dict (arrivals ops)" if "overflow_count d = 0"
    using acc that by (intro subseq_same_length) (auto simp: accounted_def)
  with acc Pair show ?thesis by (simp add: accounted_def)
qed

text \<open>A concrete history: an event, a drain and an event with a malformed identifier.\<close>

definition sample_event :: "bytes \<Rightarrow> fault_event_msg" where
  "sample_event u =
    \<lparr>fe_header_stamp = Stamp (PInt 1) (PInt 0), fe_schema_version = 2, fe_event_sequence = 1, fe_event_type = 3,
     fe_state_before = 0, fe_state_after = 0, fe_accepted = True, fe_replayed = False,
     fe_requested_schedule_hash = '''', fe_committed_schedule_hash = '''', fe_requested_generation = 0,
     fe_committed_generation = 0, fe_requested_fault_count = 0, fe_committed_fault_count = 0,
     fe_requested_goal_uuid = u, fe_bound_goal_uuid = u, fe_requested_t0 = Stamp (PInt 0) (PInt 0),
     fe_bound_t0 = Stamp (PInt 0) (PInt 0), fe_arm_commit_time = Stamp (PInt 0) (PInt 0), fe_arm_margin_ns = 0,
     fe_fault_id = '''', fe_target = 0, fe_mode = 0, fe_configured_activation_time = Stamp (PInt 0) (PInt 0),
     fe_configured_deactivation_time = Stamp (PInt 0) (PInt 0), fe_actual_time = Stamp (PInt 0) (PInt 0),
     fe_seed = 0, fe_input_sequence = 0, fe_raw_input_count = 0, fe_validated_output_count = 0,
     fe_affected_message_count = 0, fe_detail = ''''\<rparr>"

lemma sample_play:
  "play [Arrive (sample_event (replicate 16 0)), DrainAll, Arrive (sample_event [])] =
     (new_fault_driver\<lparr>overflow_count := 1\<rparr>, [projr (event_dict (sample_event (replicate 16 0)))])"
  by (simp add: play_def fc_on_event_def new_fault_driver_def EVENT_SUBSCRIBER_CAPACITY_def fc_drain_events_def
      event_dict_def sample_event_def fault_stamp_ns_def project_stamp_def valid_fields_def uuid_string_def)

theorem fault_events_accounted_witness:
  "subseq (map Inr [projr (event_dict (sample_event (replicate 16 0)))])
     (map event_dict [sample_event (replicate 16 0), sample_event []])"
  using fault_events_accounted [of "[Arrive (sample_event (replicate 16 0)), DrainAll, Arrive (sample_event [])]"]
  by (simp add: sample_play new_fault_driver_def del: subseq_Cons2_iff list.map(2))

section \<open>The arm request\<close>

text \<open>The goal keeps its identity on the way to the fault controller: the arm request that is sent
  for the identifier text of an accepted goal (sixteen bytes, not all zero) and its acceptance stamp
  carries these very bytes, and a timestamp that reads back as the same nanosecond count.\<close>

theorem arm_request_identity:
  assumes "arm_future d = None" and "length raw = 16" and "\<exists>b \<in> set raw. b \<noteq> 0" and "0 \<le> t"
  shows "\<exists>req. fc_start_arm h g (uuid_str raw) t d =
      (Inr (), d\<lparr>arm_future := Some Pending, arm_requests := arm_requests d @ [req]\<rparr>)
    \<and> aq_schedule_hash req = h \<and> aq_generation req = g \<and> aq_goal_uuid req = raw
    \<and> uuid_string (aq_goal_uuid req) = Inr (uuid_str raw)
    \<and> fault_stamp_ns (aq_accepted_goal_stamp req) = Inr t"
  using assms uuid_parse_str [OF assms(2)] stamp_round_trip [OF assms(4)]
  by (intro exI [of _ "\<lparr>aq_schedule_hash = h, aq_generation = g, aq_goal_uuid = raw,
      aq_accepted_goal_stamp = time_from_ns t\<rparr>"])
    (simp add: fc_start_arm_def uuid_message_def uuid_string_def fault_stamp_ns_def list_ex_iff)

theorem arm_request_identity_witness:
  "\<exists>req. arm_requests (snd (fc_start_arm ''h'' 1 (uuid_str (replicate 16 7)) 5000000001 new_fault_driver)) = [req]
     \<and> aq_goal_uuid req = replicate 16 7 \<and> fault_stamp_ns (aq_accepted_goal_stamp req) = Inr 5000000001"
proof -
  have "arm_future new_fault_driver = None" "arm_requests new_fault_driver = []" by (simp_all add: new_fault_driver_def)
  moreover have "length (replicate 16 7 :: bytes) = 16" "\<exists>b \<in> set (replicate 16 7 :: bytes). b \<noteq> 0" by simp_all
  ultimately show ?thesis
    using arm_request_identity [of new_fault_driver "replicate 16 7" 5000000001 "''h''" 1] by auto
qed

end
