(* ===== verification/Metrics_Geometry.thy ===== *)
theory Metrics_Geometry
  imports Py_Prelude
begin

text \<open>
  The error type and the numeric helpers of the metrics package
  (\<open>robotest_metrics/errors.py\<close>, \<open>geometry.py\<close>), and the sample ordering checks that its modules
  share. Samples are JSON objects; their fields may hold anything. \<open>math.sin\<close>, \<open>math.cos\<close> and
  \<open>math.hypot\<close> are platform functions and parameters of the definitions that use them.
\<close>

section \<open>Errors\<close>

datatype metrics_exn =
    MetricUnavailable string
  | MetricValueError string
  | MetricOverflowError
  | MetricTypeError
  | MetricAssertionError
  | MetricIndexError

type_synonym sample = pydict

section \<open>Numbers\<close>

definition require_int :: "pyval \<Rightarrow> string \<Rightarrow> metrics_exn + int" where
  "require_int v name =
     (case v of PInt i \<Rightarrow> Inr i | _ \<Rightarrow> Inl (MetricUnavailable (name @ '' must be an integer'')))"

text \<open>\<open>float(s)\<close> for a string: whitespace around it, a sign, \<open>inf\<close>, \<open>infinity\<close> and \<open>nan\<close> in any case, and
  decimal notation with single underscores between digits.\<close>

definition space_char :: "char \<Rightarrow> bool" where
  "space_char c = (let n = of_char c :: int in n = 32 \<or> 9 \<le> n \<and> n \<le> 13 \<or> 28 \<le> n \<and> n \<le> 31)"

definition lower_char :: "char \<Rightarrow> char" where
  "lower_char c = (let n = of_char c :: int in if 65 \<le> n \<and> n \<le> 90 then char_of (n + 32) else c)"

fun more_digits :: "int \<Rightarrow> nat \<Rightarrow> string \<Rightarrow> int \<times> nat \<times> string" where
  "more_digits v n [] = (v, n, [])"
| "more_digits v n [c] = (if is_digit c then (10 * v + (of_char c - 48), n + 1, []) else (v, n, [c]))"
| "more_digits v n (c # c' # cs) =
     (if is_digit c then more_digits (10 * v + (of_char c - 48)) (n + 1) (c' # cs)
      else if c = CHR ''_'' \<and> 0 < n \<and> is_digit c' then more_digits (10 * v + (of_char c' - 48)) (n + 1) cs
      else (v, n, c # c' # cs))"

definition decimal_exponent :: "string \<Rightarrow> int option" where
  "decimal_exponent s =
     (case s of
        [] \<Rightarrow> Some 0
      | c # cs \<Rightarrow>
          if c \<noteq> CHR ''e'' then None
          else
            let (sign, ds) = (case cs of
                 d # ds \<Rightarrow> if d = CHR ''-'' then (- 1, ds) else if d = CHR ''+'' then (1, ds) else (1, cs)
               | [] \<Rightarrow> (1, []));
                (e, n, rest) = more_digits 0 0 ds
            in if n = 0 \<or> rest \<noteq> [] then None else Some (sign * e))"

definition decimal_value :: "string \<Rightarrow> rat option" where
  "decimal_value s =
     (let (v1, n1, r1) = more_digits 0 0 s;
          (v2, n2, r2) = (case r1 of c # cs \<Rightarrow> if c = CHR ''.'' then more_digits 0 0 cs else (0, 0, r1) | [] \<Rightarrow> (0, 0, []))
      in if n1 + n2 = 0 then None
         else map_option (\<lambda>e. of_int (v1 * 10 ^ n2 + v2) * pow10 (e - int n2)) (decimal_exponent r2))"

definition float_of_str :: "string \<Rightarrow> pyfloat option" where
  "float_of_str text =
     (let s = map lower_char (rev (dropWhile space_char (rev (dropWhile space_char text))));
          (neg, t) = (case s of
             c # cs \<Rightarrow> if c = CHR ''-'' then (True, cs) else if c = CHR ''+'' then (False, cs) else (False, s)
           | [] \<Rightarrow> (False, []));
          magnitude =
            (if t = ''inf'' \<or> t = ''infinity'' then Some PosInf
             else if t = ''nan'' then Some NaN
             else map_option fl (decimal_value t))
      in map_option (\<lambda>x. if neg then f_neg x else x) magnitude)"

definition require_finite :: "pyval \<Rightarrow> string \<Rightarrow> metrics_exn + pyfloat" where
  "require_finite v name =
     bindE (case v of
        PFloat x \<Rightarrow> Inr x
      | PInt i \<Rightarrow> (case fl (of_int i) of Fin q \<Rightarrow> Inr (Fin q) | _ \<Rightarrow> Inl MetricOverflowError)
      | PStr s \<Rightarrow> (case float_of_str s of
                     Some x \<Rightarrow> Inr x
                   | None \<Rightarrow> Inl (MetricUnavailable (name @ '' must be a finite number'')))
      | _ \<Rightarrow> Inl (MetricUnavailable (name @ '' must be a finite number''))) (\<lambda>converted.
     bindE (guardE (f_isfinite converted) (MetricUnavailable (name @ '' must be finite''))) (\<lambda>_.
     Inr converted))"

text \<open>\<open>x % y\<close> on floats with a positive finite divisor: the remainder is exact, and one rounded addition
  moves it into the range of the divisor's sign.\<close>

definition f_mod :: "pyfloat \<Rightarrow> rat \<Rightarrow> pyfloat" where
  "f_mod x y =
     (case x of
        Fin a \<Rightarrow>
          (let r = a - y * of_int (rat_trunc (a / y))
           in if r < 0 then fl (r + y) else Fin r)
      | _ \<Rightarrow> NaN)"

text \<open>\<open>math.pi\<close>, the double nearest to pi.\<close>

definition PI :: rat where "PI = 884279719003555 / 281474976710656"

definition normalize_angle :: "pyval \<Rightarrow> metrics_exn + pyfloat" where
  "normalize_angle angle_rad =
     bindE (require_finite angle_rad ''angle_rad'') (\<lambda>v.
     Inr (f_sub (f_mod (f_add v (Fin PI)) (2 * PI)) (Fin PI)))"

definition interpolate_angle :: "pyfloat \<Rightarrow> pyfloat \<Rightarrow> pyfloat \<Rightarrow> metrics_exn + pyfloat" where
  "interpolate_angle start end' fraction =
     bindE (normalize_angle (PFloat (f_sub end' start))) (\<lambda>delta.
     normalize_angle (PFloat (f_add start (f_mul fraction delta))))"

definition planar_distance :: "(pyfloat \<Rightarrow> pyfloat \<Rightarrow> pyfloat) \<Rightarrow> sample \<Rightarrow> sample \<Rightarrow> metrics_exn + pyfloat" where
  "planar_distance hypot first second =
     bindE (require_finite (dget first ''x_m'') ''first.x_m'') (\<lambda>x1.
     bindE (require_finite (dget first ''y_m'') ''first.y_m'') (\<lambda>y1.
     bindE (require_finite (dget second ''x_m'') ''second.x_m'') (\<lambda>x2.
     bindE (require_finite (dget second ''y_m'') ''second.y_m'') (\<lambda>y2.
     Inr (hypot (f_sub x2 x1) (f_sub y2 y1))))))"

definition compose_se2 ::
  "(pyfloat \<Rightarrow> pyfloat) \<Rightarrow> (pyfloat \<Rightarrow> pyfloat) \<Rightarrow> sample \<Rightarrow> sample \<Rightarrow> metrics_exn + sample" where
  "compose_se2 py_sin py_cos first second =
     bindE (require_finite (dget first ''x_m'') ''first.x_m'') (\<lambda>x1.
     bindE (require_finite (dget first ''y_m'') ''first.y_m'') (\<lambda>y1.
     bindE (require_finite (dget first ''yaw_rad'') ''first.yaw_rad'') (\<lambda>yaw1.
     bindE (require_finite (dget second ''x_m'') ''second.x_m'') (\<lambda>x2.
     bindE (require_finite (dget second ''y_m'') ''second.y_m'') (\<lambda>y2.
     bindE (require_finite (dget second ''yaw_rad'') ''second.yaw_rad'') (\<lambda>yaw2.
     let cosine = py_cos yaw1; sine = py_sin yaw1 in
     bindE (normalize_angle (PFloat (f_add yaw1 yaw2))) (\<lambda>yaw.
     Inr [(''x_m'', PFloat (f_sub (f_add x1 (f_mul cosine x2)) (f_mul sine y2))),
          (''y_m'', PFloat (f_add (f_add y1 (f_mul sine x2)) (f_mul cosine y2))),
          (''yaw_rad'', PFloat yaw)])))))))"

text \<open>\<open>ns / 1_000_000_000\<close>; a quotient outside the float range raises.\<close>

definition ns_seconds :: "int \<Rightarrow> metrics_exn + pyfloat" where
  "ns_seconds ns = (case int_truediv ns 1000000000 of Fin q \<Rightarrow> Inr (Fin q) | _ \<Rightarrow> Inl MetricOverflowError)"

section \<open>Ordered samples\<close>

text \<open>\<open>f'{name}[{index}].{key}'\<close>.\<close>

definition at_index :: "string \<Rightarrow> nat \<Rightarrow> string \<Rightarrow> string" where
  "at_index name index key = name @ ''['' @ show_int (int index) @ ''].'' @ key"

definition indexed :: "string \<Rightarrow> nat \<Rightarrow> string" where
  "indexed name index = name @ ''['' @ show_int (int index) @ '']''"

text \<open>The loop of \<open>ensure_strictly_increasing\<close> and of \<open>_strict_stamps\<close>: every stamp is an integer above
  the previous one. The stamps are returned.\<close>

fun strict_from :: "(nat \<Rightarrow> string) \<Rightarrow> string \<Rightarrow> nat \<Rightarrow> int option \<Rightarrow> sample list \<Rightarrow> metrics_exn + int list" where
  "strict_from field message index previous [] = Inr []"
| "strict_from field message index previous (s # ss) =
     bindE (require_int (dget s ''stamp_ns'') (field index)) (\<lambda>stamp.
     bindE (guardE (case previous of None \<Rightarrow> True | Some p \<Rightarrow> \<not> stamp \<le> p) (MetricUnavailable message)) (\<lambda>_.
     bindE (strict_from field message (index + 1) (Some stamp) ss) (\<lambda>stamps.
     Inr (stamp # stamps))))"

definition ensure_strictly_increasing :: "sample list \<Rightarrow> metrics_exn + unit" where
  "ensure_strictly_increasing ss =
     bindE (strict_from (\<lambda>i. at_index ''samples'' i ''stamp_ns'')
       ''sample stamps must be unique and strictly increasing'' 0 None ss) (\<lambda>_. Inr ())"

definition strict_stamps :: "sample list \<Rightarrow> string \<Rightarrow> metrics_exn + int list" where
  "strict_stamps ss name =
     strict_from (\<lambda>i. at_index name i ''stamp_ns'') (name @ '' stamps must be unique and increasing'') 0 None ss"

text \<open>The loop over pairs of stamp and collector sequence, compared as Python compares tuples.\<close>

definition lex_less :: "int \<times> int \<Rightarrow> int \<times> int \<Rightarrow> bool" where
  "lex_less a b \<longleftrightarrow> fst a < fst b \<or> fst a = fst b \<and> snd a < snd b"

fun ordered_from :: "string \<Rightarrow> string \<Rightarrow> nat \<Rightarrow> (int \<times> int) option \<Rightarrow> sample list \<Rightarrow> metrics_exn + (int \<times> int) list" where
  "ordered_from name message index previous [] = Inr []"
| "ordered_from name message index previous (s # ss) =
     bindE (require_int (dget s ''stamp_ns'') (at_index name index ''stamp_ns'')) (\<lambda>stamp.
     bindE (require_int (dget s ''collector_sequence'') (at_index name index ''collector_sequence'')) (\<lambda>sequence.
     bindE (guardE (case previous of None \<Rightarrow> True | Some p \<Rightarrow> lex_less p (stamp, sequence)) (MetricUnavailable message)) (\<lambda>_.
     bindE (ordered_from name message (index + 1) (Some (stamp, sequence)) ss) (\<lambda>orders.
     Inr ((stamp, sequence) # orders)))))"

section \<open>Facts\<close>

text \<open>The stamp of a sample; \<open>0\<close> stands for a stamp that is not an integer.\<close>

definition stamp_of :: "sample \<Rightarrow> int" where
  "stamp_of s = (case dget s ''stamp_ns'' of PInt i \<Rightarrow> i | _ \<Rightarrow> 0)"

definition int_stamp :: "sample \<Rightarrow> bool" where
  "int_stamp s \<longleftrightarrow> (\<exists>i. dget s ''stamp_ns'' = PInt i)"

lemma require_int_Inr [simp]: "require_int v name = Inr i \<longleftrightarrow> v = PInt i"
  by (auto simp: require_int_def split: pyval.splits)

lemma require_int_PInt [simp]: "require_int (PInt i) name = Inr i"
  by (simp add: require_int_def)

lemma require_int_stamp [simp]: "int_stamp s \<Longrightarrow> require_int (dget s ''stamp_ns'') name = Inr (stamp_of s)"
  by (auto simp: int_stamp_def stamp_of_def)

lemma int_stampI: "dget s ''stamp_ns'' = PInt i \<Longrightarrow> int_stamp s \<and> stamp_of s = i"
  by (auto simp: int_stamp_def stamp_of_def)

lemma require_finite_finite: "require_finite v name = Inr x \<Longrightarrow> \<exists>q. x = Fin q"
  by (cases x) (auto simp: require_finite_def err_simps)

definition above :: "'a option \<Rightarrow> ('a \<Rightarrow> 'a \<Rightarrow> bool) \<Rightarrow> 'a \<Rightarrow> bool" where
  "above previous rel x = (case previous of None \<Rightarrow> True | Some p \<Rightarrow> rel p x)"

lemma strict_from_Inr:
  assumes "strict_from field message index previous ss = Inr stamps"
  shows "stamps = map stamp_of ss" "list_all int_stamp ss" "sorted_wrt (<) stamps"
    "list_all (above previous (<)) stamps"
proof (atomize (full), use assms in \<open>induction ss arbitrary: index previous stamps\<close>)
  case (Cons s ss)
  then obtain t ts where t: "dget s ''stamp_ns'' = PInt t" "above previous (<) t"
      "strict_from field message (index + 1) (Some t) ss = Inr ts" "stamps = t # ts"
    by (cases previous) (auto simp: err_simps above_def)
  with Cons.IH [OF t(3)] int_stampI [OF t(1)] show ?case
    by (cases previous) (auto simp: above_def list_all_iff intro: less_trans)
qed simp

lemma strict_stamps_Inr:
  assumes "strict_stamps ss name = Inr stamps"
  shows "stamps = map stamp_of ss" "list_all int_stamp ss" "sorted_wrt (<) stamps"
  using strict_from_Inr assms by (auto simp: strict_stamps_def)

lemma sorted_last_max: "sorted (map f xs) \<Longrightarrow> x \<in> set xs \<Longrightarrow> f x \<le> f (List.last xs)"
  by (induction xs) auto

lemma lex_less_trans: "lex_less a b \<Longrightarrow> lex_less b c \<Longrightarrow> lex_less a c"
  by (auto simp: lex_less_def)

lemma ordered_from_Inr:
  assumes "ordered_from name message index previous ss = Inr orders"
  shows "map fst orders = map stamp_of ss" "list_all int_stamp ss" "sorted_wrt lex_less orders"
    "list_all (above previous lex_less) orders"
proof (atomize (full), use assms in \<open>induction ss arbitrary: index previous orders\<close>)
  case (Cons s ss)
  then obtain t q os where t: "dget s ''stamp_ns'' = PInt t" "above previous lex_less (t, q)"
      "ordered_from name message (index + 1) (Some (t, q)) ss = Inr os" "orders = (t, q) # os"
    by (cases previous) (auto simp: err_simps above_def)
  with Cons.IH [OF t(3)] int_stampI [OF t(1)] show ?case
    by (cases previous) (auto simp: above_def list_all_iff intro: lex_less_trans)
qed simp

lemma ordered_from_sorted:
  assumes "ordered_from name message index previous ss = Inr orders"
  shows "sorted (map stamp_of ss)"
proof -
  have "sorted_wrt (\<lambda>a b. fst a \<le> fst b) orders"
    using ordered_from_Inr(3) [OF assms] by (rule sorted_wrt_mono_rel [rotated]) (auto simp: lex_less_def)
  then have "sorted (map fst orders)" by (simp add: sorted_map)
  then show ?thesis by (simp add: ordered_from_Inr(1) [OF assms])
qed

end
