(* ===== verification/Safety_Metrics.thy ===== *)
theory Safety_Metrics
  imports Metrics_Geometry
begin

text \<open>
  The command safety gates of scenarios 3 and 4 (\<open>robotest_metrics/safety_metrics.py\<close>). The two
  theorems say what a gate that passes proves about the robot: the velocity command in force (the
  last one published) is zero at every instant of the interval, not only at the sampled commands.
\<close>

section \<open>Definitions\<close>

definition STOP_ACTION :: int where "STOP_ACTION = 1"
definition LINEAR_ZERO_TOLERANCE_M_S :: pyfloat where "LINEAR_ZERO_TOLERANCE_M_S = fl (2 / 100)"
definition ANGULAR_ZERO_TOLERANCE_RAD_S :: pyfloat where "ANGULAR_ZERO_TOLERANCE_RAD_S = fl (5 / 100)"
definition MINIMUM_STOP_ZERO_NS :: int where "MINIMUM_STOP_ZERO_NS = 200000000"
definition LIDAR_SOURCE_TIMEOUT_NS :: int where "LIDAR_SOURCE_TIMEOUT_NS = 600000000"
definition LIDAR_ZERO_DEADLINE_NS :: int where "LIDAR_ZERO_DEADLINE_NS = 1000000000"

definition ordered_samples :: "sample list \<Rightarrow> string \<Rightarrow> metrics_exn + sample list" where
  "ordered_samples samples name =
     bindE (ordered_from name (name @ '' is not in deterministic collector order'') 0 None samples) (\<lambda>_. Inr samples)"

definition is_zero :: "sample \<Rightarrow> metrics_exn + bool" where
  "is_zero command =
     bindE (require_finite (dget command ''linear_x_m_s'') ''command.linear_x_m_s'') (\<lambda>x.
     if \<not> f_le (f_abs x) LINEAR_ZERO_TOLERANCE_M_S then Inr False
     else bindE (require_finite (dget command ''linear_y_m_s'') ''command.linear_y_m_s'') (\<lambda>y.
     if \<not> f_le (f_abs y) LINEAR_ZERO_TOLERANCE_M_S then Inr False
     else bindE (require_finite (dget command ''angular_z_rad_s'') ''command.angular_z_rad_s'') (\<lambda>z.
     Inr (f_le (f_abs z) ANGULAR_ZERO_TOLERANCE_RAD_S))))"

fun held_loop :: "sample option \<Rightarrow> int \<Rightarrow> sample list \<Rightarrow> metrics_exn + sample option" where
  "held_loop held stamp_ns [] = Inr held"
| "held_loop held stamp_ns (command # commands) =
     bindE (require_int (dget command ''stamp_ns'') ''command.stamp_ns'') (\<lambda>t.
     if t > stamp_ns then Inr held else held_loop (Some command) stamp_ns commands)"

definition held_command :: "sample list \<Rightarrow> int \<Rightarrow> metrics_exn + sample option" where
  "held_command commands stamp_ns = held_loop None stamp_ns commands"

fun stop_loop :: "int \<Rightarrow> sample list \<Rightarrow> metrics_exn + (int \<times> int) list" where
  "stop_loop terminal_stamp_ns [] = Inr []"
| "stop_loop terminal_stamp_ns (event # events) =
     (if \<not> py_eq (dget event ''value'') (PInt STOP_ACTION) then stop_loop terminal_stamp_ns events
      else bindE (require_int (dget event ''stamp_ns'') ''collision_monitor.stamp_ns'') (\<lambda>start.
        bindE (case events of
                 [] \<Rightarrow> Inr terminal_stamp_ns
               | e # _ \<Rightarrow> require_int (dget e ''stamp_ns'') ''collision_monitor.next_stamp_ns'') (\<lambda>end'.
        bindE (stop_loop terminal_stamp_ns events) (\<lambda>intervals.
        Inr (if end' > start then (start, end') # intervals else intervals)))))"

definition stop_intervals :: "sample list \<Rightarrow> int \<Rightarrow> metrics_exn + (int \<times> int) list" where
  "stop_intervals state_events terminal_stamp_ns =
     bindE (ordered_samples state_events ''state_events'') (\<lambda>events.
     stop_loop terminal_stamp_ns (filter (\<lambda>e. dget e ''kind'' = PStr ''collision_monitor'') events))"

text \<open>The loop over the trajectory targets: the stamps and indices inside the exposed crossing.\<close>

definition EXPOSED_HALF_WIDTH :: pyfloat where "EXPOSED_HALF_WIDTH = fl (425 / 1000)"

definition target_exposure :: "nat \<Rightarrow> pyval \<Rightarrow> metrics_exn + int option" where
  "target_exposure index target =
     (let label = ''Scenario 3 target['' @ show_int (int index) @ '']'' in
      case target of
        PDict t \<Rightarrow>
          (case (dget t ''target_pose'', dget t ''observed_pose'') of
             (PDict pose, PDict observation) \<Rightarrow>
               bindE (require_finite (case map_of pose ''x_m'' of Some v \<Rightarrow> v | None \<Rightarrow> dget pose ''x'')
                        (label @ ''.x'')) (\<lambda>x_m.
               bindE (require_int (dget observation ''stamp_ns'') (label @ ''.stamp_ns'')) (\<lambda>stamp.
               Inr (if f_less (f_neg EXPOSED_HALF_WIDTH) x_m \<and> f_less x_m EXPOSED_HALF_WIDTH
                    then Some stamp else None)))
           | _ \<Rightarrow> Inl (MetricUnavailable (label @ '' lacks observed-pose proof'')))
      | _ \<Rightarrow> Inl (MetricUnavailable (label @ '' is invalid'')))"

fun exposed_loop :: "nat \<Rightarrow> pyval list \<Rightarrow> metrics_exn + (int \<times> nat) list" where
  "exposed_loop index [] = Inr []"
| "exposed_loop index (target # targets) =
     bindE (target_exposure index target) (\<lambda>hit.
     bindE (exposed_loop (index + 1) targets) (\<lambda>rest.
     Inr (case hit of None \<Rightarrow> rest | Some stamp \<Rightarrow> (stamp, index) # rest)))"

fun any_nonzero :: "sample list \<Rightarrow> metrics_exn + bool" where
  "any_nonzero [] = Inr False"
| "any_nonzero (c # cs) = bindE (is_zero c) (\<lambda>z. if z then any_nonzero cs else Inr True)"

fun commands_within :: "(int \<Rightarrow> bool) \<Rightarrow> sample list \<Rightarrow> metrics_exn + sample list" where
  "commands_within p [] = Inr []"
| "commands_within p (c # cs) =
     bindE (require_int (dget c ''stamp_ns'') ''command.stamp_ns'') (\<lambda>t.
     bindE (commands_within p cs) (\<lambda>rest. Inr (if p t then c # rest else rest)))"

text \<open>One STOP interval: the held command at its start and every command inside it are zero.\<close>

definition held_is_zero :: "sample list \<Rightarrow> int \<Rightarrow> string \<Rightarrow> metrics_exn + unit" where
  "held_is_zero commands stamp message =
     bindE (held_command commands stamp) (\<lambda>held.
     case held of
       None \<Rightarrow> Inl (MetricUnavailable message)
     | Some c \<Rightarrow> bindE (is_zero c) (\<lambda>z. guardE z (MetricUnavailable message)))"

definition check_stop_interval :: "sample list \<Rightarrow> int \<Rightarrow> int \<Rightarrow> metrics_exn + unit" where
  "check_stop_interval commands start end' =
     bindE (held_is_zero commands start ''nonzero or missing final command at STOP interval start'') (\<lambda>_.
     bindE (commands_within (\<lambda>t. start \<le> t \<and> t < end') commands) (\<lambda>in_interval.
     bindE (any_nonzero in_interval) (\<lambda>bad.
     guardE (\<not> bad) (MetricUnavailable ''nonzero final command was published during STOP''))))"

definition exposed_overlap :: "int \<Rightarrow> int \<Rightarrow> int \<times> int \<Rightarrow> int" where
  "exposed_overlap exposed_start exposed_end interval =
     max 0 (min (snd interval) exposed_end - max (fst interval) exposed_start)"

fun stop_evidence_loop ::
  "sample list \<Rightarrow> int \<Rightarrow> int \<Rightarrow> int \<Rightarrow> (int \<times> int) list \<Rightarrow> metrics_exn + (int \<times> pyval list)" where
  "stop_evidence_loop commands exposed_start exposed_end maximum [] = Inr (maximum, [])"
| "stop_evidence_loop commands exposed_start exposed_end maximum ((start, end') # intervals) =
     bindE (check_stop_interval commands start end') (\<lambda>_.
     let overlap = exposed_overlap exposed_start exposed_end (start, end') in
     bindE (stop_evidence_loop commands exposed_start exposed_end (max maximum overlap) intervals) (\<lambda>(m, ev).
     Inr (m, PDict [(''end_stamp_ns'', PInt end'), (''exposed_zero_overlap_ns'', PInt overlap),
                    (''start_stamp_ns'', PInt start)] # ev)))"

definition exposed_interval :: "sample \<Rightarrow> metrics_exn + (int \<times> int)" where
  "exposed_interval interaction =
     (case dget interaction ''trajectory'' of
        PDict trajectory \<Rightarrow>
          (case dget trajectory ''targets'' of
             PList targets \<Rightarrow>
               bindE (exposed_loop 0 targets) (\<lambda>exposed.
               bindE (guardE (\<not> length exposed < 2)
                 (MetricUnavailable ''Scenario 3 observed exposed-crossing interval is missing'')) (\<lambda>_.
               let ordered = sort_key fst exposed; exposed_start = fst (hd ordered); exposed_end = fst (List.last ordered) in
               bindE (guardE (\<not> exposed_end \<le> exposed_start)
                 (MetricUnavailable ''Scenario 3 exposed-crossing interval has no duration'')) (\<lambda>_.
               Inr (exposed_start, exposed_end))))
           | _ \<Rightarrow> Inl (MetricUnavailable ''Scenario 3 bounded trajectory evidence is missing''))
      | _ \<Rightarrow> Inl (MetricUnavailable ''Scenario 3 bounded trajectory evidence is missing''))"

definition scenario3_stop_command_metrics ::
  "sample list \<Rightarrow> sample list \<Rightarrow> sample \<Rightarrow> pyval \<Rightarrow> metrics_exn + pydict" where
  "scenario3_stop_command_metrics state_events commands interaction terminal_stamp_ns =
     bindE (require_int terminal_stamp_ns ''terminal_stamp_ns'') (\<lambda>terminal.
     bindE (exposed_interval interaction) (\<lambda>(exposed_start, exposed_end).
     bindE (ordered_samples commands ''cmd_vel'') (\<lambda>ordered_commands.
     bindE (stop_intervals state_events terminal) (\<lambda>intervals.
     bindE (guardE (intervals \<noteq> []) (MetricUnavailable ''collision monitor never reported STOP'')) (\<lambda>_.
     bindE (stop_evidence_loop ordered_commands exposed_start exposed_end 0 intervals) (\<lambda>(maximum_overlap, evidence).
     bindE (guardE (\<not> maximum_overlap < MINIMUM_STOP_ZERO_NS)
       (MetricUnavailable ''STOP/final-zero exposed overlap is below 0.20 s'')) (\<lambda>_.
     Inr [(''exposed_end_stamp_ns'', PInt exposed_end), (''exposed_start_stamp_ns'', PInt exposed_start),
          (''maximum_continuous_stop_zero_ns'', PInt maximum_overlap),
          (''minimum_required_ns'', PInt MINIMUM_STOP_ZERO_NS),
          (''no_nonzero_command_during_stop'', PBool True), (''stop_intervals'', PList evidence)])))))))"

text \<open>Scenario 4: the first zero command at or after the stale threshold.\<close>

fun first_zero_from :: "int \<Rightarrow> sample list \<Rightarrow> metrics_exn + int option" where
  "first_zero_from stale_stamp [] = Inr None"
| "first_zero_from stale_stamp (c # cs) =
     bindE (require_int (dget c ''stamp_ns'') ''command.stamp_ns'') (\<lambda>stamp.
     if stamp \<ge> stale_stamp
     then bindE (is_zero c) (\<lambda>z. if z then Inr (Some stamp) else first_zero_from stale_stamp cs)
     else first_zero_from stale_stamp cs)"

definition zero_stamp_from :: "sample list \<Rightarrow> int \<Rightarrow> metrics_exn + int option" where
  "zero_stamp_from commands stale_stamp =
     bindE (held_command commands stale_stamp) (\<lambda>held.
     bindE (case held of None \<Rightarrow> Inr False | Some c \<Rightarrow> is_zero c) (\<lambda>z.
     if z then Inr (Some stale_stamp) else first_zero_from stale_stamp commands))"

fun zero_until :: "int \<Rightarrow> int \<Rightarrow> sample list \<Rightarrow> metrics_exn + unit" where
  "zero_until zero_stamp restored [] = Inr ()"
| "zero_until zero_stamp restored (c # cs) =
     bindE (require_int (dget c ''stamp_ns'') ''command.stamp_ns'') (\<lambda>stamp.
     bindE (if zero_stamp \<le> stamp \<and> stamp \<le> restored then is_zero c else Inr True) (\<lambda>ok.
     bindE (guardE ok (MetricUnavailable ''nonzero final command appeared before scan restoration'')) (\<lambda>_.
     zero_until zero_stamp restored cs)))"

definition lidar_dropout_command_safety_metrics ::
  "sample list \<Rightarrow> sample list \<Rightarrow> pyval \<Rightarrow> pyval \<Rightarrow> pyval \<Rightarrow> metrics_exn + pydict" where
  "lidar_dropout_command_safety_metrics commands validated_scans activation_stamp restored_stamp timeout_s =
     bindE (require_finite timeout_s ''collision_monitor_source_timeout_s'') (\<lambda>source_timeout.
     bindE (guardE (f_eq source_timeout (fl (60 / 100)))
       (MetricUnavailable ''collision-monitor source_timeout must be exactly 0.60 s'')) (\<lambda>_.
     bindE (require_int activation_stamp ''configured activation'') (\<lambda>activation.
     bindE (require_int restored_stamp ''restored stamp'') (\<lambda>restored.
     bindE (guardE (\<not> restored \<le> activation)
       (MetricUnavailable ''restored stamp must follow dropout activation'')) (\<lambda>_.
     bindE (traverse (\<lambda>s. require_int (dget s ''stamp_ns'') ''validated_scan.stamp_ns'') validated_scans) (\<lambda>stamps.
     let before = filter (\<lambda>t. t < activation) (sort stamps) in
     bindE (guardE (before \<noteq> []) (MetricUnavailable ''validated scan before dropout is missing'')) (\<lambda>_.
     let stale_stamp = List.last before + LIDAR_SOURCE_TIMEOUT_NS in
     bindE (ordered_samples commands ''cmd_vel'') (\<lambda>ordered_commands.
     bindE (zero_stamp_from ordered_commands stale_stamp) (\<lambda>found.
     case found of
       None \<Rightarrow> Inl (MetricUnavailable ''final command did not reach zero within dropout deadline'')
     | Some zero_stamp \<Rightarrow>
         bindE (guardE (\<not> zero_stamp > stale_stamp + LIDAR_ZERO_DEADLINE_NS)
           (MetricUnavailable ''final command did not reach zero within dropout deadline'')) (\<lambda>_.
         bindE (held_is_zero ordered_commands zero_stamp ''zero-command hold could not be established'') (\<lambda>_.
         bindE (zero_until zero_stamp restored ordered_commands) (\<lambda>_.
         Inr [(''collision_monitor_source_timeout_s'', PFloat source_timeout),
              (''last_validated_before_dropout_stamp_ns'', PInt (List.last before)),
              (''safe_until_restored_stamp_ns'', PInt restored),
              (''stale_threshold_stamp_ns'', PInt stale_stamp),
              (''zero_command_deadline_stamp_ns'', PInt (stale_stamp + LIDAR_ZERO_DEADLINE_NS)),
              (''zero_command_stamp_ns'', PInt zero_stamp)]))))))))))))"
section \<open>The command in force\<close>

definition in_force :: "sample list \<Rightarrow> int \<Rightarrow> sample option" where
  "in_force commands t =
     (let published = filter (\<lambda>c. stamp_of c \<le> t) commands
      in if published = [] then None else Some (List.last published))"

definition zero_command :: "sample option \<Rightarrow> bool" where
  "zero_command held = (\<exists>c. held = Some c \<and> is_zero c = Inr True)"

lemma filter_le_sorted:
  "sorted (map stamp_of cs) \<Longrightarrow> filter (\<lambda>c. stamp_of c \<le> t) cs = takeWhile (\<lambda>c. stamp_of c \<le> t) cs"
proof (induction cs)
  case (Cons c cs)
  then show ?case by (cases cs) auto
qed simp

lemma held_loop_spec:
  assumes "list_all int_stamp cs"
  shows "held_loop held t cs =
    Inr (let xs = takeWhile (\<lambda>c. stamp_of c \<le> t) cs in if xs = [] then held else Some (List.last xs))"
  using assms by (induction cs arbitrary: held) (auto simp: Let_def)

lemma ordered_samples_Inr:
  assumes "ordered_samples cs name = Inr cs'"
  shows "cs' = cs" "list_all int_stamp cs" "sorted (map stamp_of cs)"
  using assms ordered_from_Inr(2) ordered_from_sorted by (auto simp: ordered_samples_def err_simps)

lemma held_command_in_force:
  assumes "list_all int_stamp cs" "sorted (map stamp_of cs)"
  shows "held_command cs t = Inr (in_force cs t)"
  using assms by (simp add: held_command_def held_loop_spec in_force_def filter_le_sorted Let_def)

lemma held_is_zero_Inr:
  assumes "list_all int_stamp cs" "sorted (map stamp_of cs)" "held_is_zero cs t message = Inr u"
  shows "zero_command (in_force cs t)"
  using assms(3)
  by (auto simp: held_is_zero_def held_command_in_force [OF assms(1,2)] err_simps zero_command_def split: option.splits)

text \<open>Zero at the start of a period and zero whenever a new command is published: zero throughout.\<close>

lemma in_force_zero_throughout:
  assumes "zero_command (in_force cs a)"
    and "\<And>c. c \<in> set cs \<Longrightarrow> a < stamp_of c \<Longrightarrow> stamp_of c \<le> t \<Longrightarrow> is_zero c = Inr True"
    and "a \<le> t" "sorted (map stamp_of cs)"
  shows "zero_command (in_force cs t)"
proof -
  let ?p = "\<lambda>b. takeWhile (\<lambda>c. stamp_of c \<le> b) cs"
  obtain c where c: "in_force cs a = Some c" "is_zero c = Inr True"
    using assms(1) by (auto simp: zero_command_def)
  then have ne: "filter (\<lambda>c. stamp_of c \<le> t) cs \<noteq> []"
    using assms(3) by (force simp: in_force_def Let_def filter_empty_conv split: if_splits)
  define l where "l = List.last (filter (\<lambda>c. stamp_of c \<le> t) cs)"
  have l: "in_force cs t = Some l" using ne by (simp add: in_force_def l_def)
  have "l \<in> set (filter (\<lambda>c. stamp_of c \<le> t) cs)" unfolding l_def by (rule last_in_set [OF ne])
  then have l_in: "l \<in> set cs" "stamp_of l \<le> t" by auto
  show ?thesis
  proof (cases "a < stamp_of l")
    case True
    then show ?thesis using assms(2) [OF l_in(1)] l_in(2) l by (simp add: zero_command_def)
  next
    case False
    have "filter (\<lambda>c. stamp_of c \<le> t) cs = filter (\<lambda>c. stamp_of c \<le> a) cs"
    proof -
      have "stamp_of x \<le> stamp_of l" if "x \<in> set (filter (\<lambda>c. stamp_of c \<le> t) cs)" for x
        unfolding l_def using sorted_filter [OF assms(4)] that by (rule sorted_last_max)
      then show ?thesis using False assms(3) by (intro filter_cong [OF refl]) force
    qed
    then have "in_force cs t = in_force cs a" by (simp add: in_force_def)
    then show ?thesis using assms(1) by simp
  qed
qed

section \<open>What the gates prove\<close>

lemma commands_within_spec:
  "list_all int_stamp cs \<Longrightarrow> commands_within p cs = Inr (filter (\<lambda>c. p (stamp_of c)) cs)"
  by (induction cs) simp_all

lemma any_nonzero_False: "any_nonzero cs = Inr False \<Longrightarrow> c \<in> set cs \<Longrightarrow> is_zero c = Inr True"
  by (induction cs) (auto simp: err_simps split: if_splits)

lemma check_stop_interval_zero:
  assumes "list_all int_stamp cs" "sorted (map stamp_of cs)" "check_stop_interval cs a b = Inr u"
    and "a \<le> t" "t < b"
  shows "zero_command (in_force cs t)"
proof (rule in_force_zero_throughout [OF _ _ assms(4,2)])
  from assms(3) have held: "held_is_zero cs a ''nonzero or missing final command at STOP interval start'' = Inr ()"
    and none: "any_nonzero (filter (\<lambda>c. a \<le> stamp_of c \<and> stamp_of c < b) cs) = Inr False"
    by (auto simp: check_stop_interval_def commands_within_spec [OF assms(1)] err_simps)
  show "zero_command (in_force cs a)" by (rule held_is_zero_Inr [OF assms(1,2) held])
  show "is_zero c = Inr True" if "c \<in> set cs" "a < stamp_of c" "stamp_of c \<le> t" for c
    using any_nonzero_False [OF none, of c] that assms(5) by simp
qed

lemma stop_evidence_Inr:
  assumes "stop_evidence_loop cs es ee m0 ivs = Inr (m, ev)"
  shows "list_all (\<lambda>(a, b). check_stop_interval cs a b = Inr ()) ivs"
    "m = foldl max m0 (map (exposed_overlap es ee) ivs)"
proof (atomize (full), use assms in \<open>induction ivs arbitrary: m0 m ev\<close>)
  case (Cons iv ivs)
  obtain a b where "iv = (a, b)" by (cases iv)
  with Cons show ?case by (auto simp: err_simps Let_def split: prod.splits)
qed simp

lemma foldl_max_cases: "foldl max m xs = m \<or> foldl max m xs \<in> set (xs :: int list)"
proof (induction xs arbitrary: m)
  case (Cons x xs)
  from Cons [of "max m x"] show ?case by (auto simp: max_def)
qed simp

text \<open>C28. The scenario 3 gate: when \<open>scenario3_stop_command_metrics\<close> returns evidence, then in every STOP
  interval of the collision monitor the command in force is zero at each instant, and one of these
  intervals overlaps the exposed crossing by the reported maximum, at least 0.2 seconds.\<close>

theorem stop_gate_sound:
  assumes "scenario3_stop_command_metrics state_events commands interaction (PInt terminal) = Inr m"
  shows "\<exists>ivs es ee overlap. stop_intervals state_events terminal = Inr ivs \<and> exposed_interval interaction = Inr (es, ee)
    \<and> (\<forall>(a, b) \<in> set ivs. \<forall>t. a \<le> t \<and> t < b \<longrightarrow> zero_command (in_force commands t))
    \<and> dget m ''maximum_continuous_stop_zero_ns'' = PInt overlap \<and> MINIMUM_STOP_ZERO_NS \<le> overlap
    \<and> overlap \<in> exposed_overlap es ee ` set ivs"
proof -
  from assms obtain es ee cs ivs overlap ev where
      g: "exposed_interval interaction = Inr (es, ee)" "ordered_samples commands ''cmd_vel'' = Inr cs"
         "stop_intervals state_events terminal = Inr ivs"
         "stop_evidence_loop cs es ee 0 ivs = Inr (overlap, ev)" "\<not> overlap < MINIMUM_STOP_ZERO_NS"
    and m: "dget m ''maximum_continuous_stop_zero_ns'' = PInt overlap"
    by (auto simp: scenario3_stop_command_metrics_def err_simps split: prod.splits)
  note o = ordered_samples_Inr [OF g(2)]
  note e = stop_evidence_Inr [OF g(4)]
  have "zero_command (in_force commands t)" if "(a, b) \<in> set ivs" "a \<le> t" "t < b" for a b t
    using check_stop_interval_zero [OF o(2,3)] e(1) that o(1) by (auto simp: list_all_iff)
  moreover have "overlap \<in> exposed_overlap es ee ` set ivs"
    using foldl_max_cases [of 0 "map (exposed_overlap es ee) ivs"] e(2) g(5) by (auto simp: MINIMUM_STOP_ZERO_NS_def)
  ultimately show ?thesis using g m by (intro exI [of _ ivs] exI [of _ es] exI [of _ ee] exI [of _ overlap]) auto
qed

lemma zero_until_spec:
  assumes "zero_until a b cs = Inr u" "list_all int_stamp cs" "c \<in> set cs" "a \<le> stamp_of c" "stamp_of c \<le> b"
  shows "is_zero c = Inr True"
  using assms by (induction cs) (auto simp: err_simps dest: int_stampI split: if_splits)

text \<open>C29. The scenario 4 gate: when \<open>lidar_dropout_command_safety_metrics\<close> returns evidence, the command in
  force is zero at each instant from the reported zero stamp to the restoration of the scan, and the
  zero stamp is at most one second after the scan has become stale, 0.6 seconds after the last
  validated scan before the dropout.\<close>

theorem dropout_gate_sound:
  assumes "lidar_dropout_command_safety_metrics commands scans (PInt activation) (PInt restored) timeout = Inr m"
  shows "\<exists>z b. dget m ''zero_command_stamp_ns'' = PInt z
    \<and> b \<in> stamp_of ` set scans \<and> b < activation \<and> (\<forall>s \<in> set scans. stamp_of s < activation \<longrightarrow> stamp_of s \<le> b)
    \<and> z \<le> b + LIDAR_SOURCE_TIMEOUT_NS + LIDAR_ZERO_DEADLINE_NS
    \<and> (\<forall>t. z \<le> t \<and> t \<le> restored \<longrightarrow> zero_command (in_force commands t))"
proof -
  from assms obtain stamps cs z where
      stamps: "traverse (\<lambda>s. require_int (dget s ''stamp_ns'') ''validated_scan.stamp_ns'') scans = Inr stamps"
    and ne: "filter (\<lambda>t. t < activation) (sort stamps) \<noteq> []"
    and g: "ordered_samples commands ''cmd_vel'' = Inr cs"
      "\<not> z > List.last (filter (\<lambda>t. t < activation) (sort stamps)) + LIDAR_SOURCE_TIMEOUT_NS + LIDAR_ZERO_DEADLINE_NS"
      "held_is_zero cs z ''zero-command hold could not be established'' = Inr ()"
      "zero_until z restored cs = Inr ()"
    and m: "dget m ''zero_command_stamp_ns'' = PInt z"
    by (auto simp: lidar_dropout_command_safety_metrics_def err_simps Let_def split: option.splits)
  have st: "stamps = map stamp_of scans"
    using stamps unfolding traverse_Inr_iff
    by (induction rule: list_all2_induct) (auto dest: int_stampI)
  define b where "b = List.last (filter (\<lambda>t. t < activation) (sort stamps))"
  have "b \<in> set (filter (\<lambda>t. t < activation) (sort stamps))" unfolding b_def by (rule last_in_set [OF ne])
  then have b: "b \<in> stamp_of ` set scans" "b < activation" by (auto simp: st)
  have max: "stamp_of s \<le> b" if "s \<in> set scans" "stamp_of s < activation" for s
    using sorted_last_max [of "\<lambda>x. x" "filter (\<lambda>t. t < activation) (sort stamps)" "stamp_of s"] that
    by (simp add: b_def st sorted_filter [of "\<lambda>x. x", simplified])
  note o = ordered_samples_Inr [OF g(1)]
  have "zero_command (in_force commands t)" if "z \<le> t" "t \<le> restored" for t
  proof (rule in_force_zero_throughout [OF _ _ that(1) o(3)])
    show "zero_command (in_force commands z)" using held_is_zero_Inr [OF o(2,3)] g(3) o(1) by simp
    show "is_zero c = Inr True" if "c \<in> set commands" "z < stamp_of c" "stamp_of c \<le> t" for c
      using zero_until_spec [OF g(4)] o that \<open>t \<le> restored\<close> by simp
  qed
  with b max m g(2) show ?thesis by (intro exI [of _ z] exI [of _ b]) (auto simp: b_def)
qed

section \<open>A concrete capture\<close>

definition command_at :: "int \<Rightarrow> rat \<Rightarrow> sample" where
  "command_at t v = [(''stamp_ns'', PInt t), (''collector_sequence'', PInt t), (''linear_x_m_s'', PFloat (Fin v)),
     (''linear_y_m_s'', PInt 0), (''angular_z_rad_s'', PInt 0)]"

definition monitor_at :: "int \<Rightarrow> int \<Rightarrow> sample" where
  "monitor_at t v = [(''stamp_ns'', PInt t), (''collector_sequence'', PInt t), (''kind'', PStr ''collision_monitor''),
     (''value'', PInt v)]"

definition target_at :: "int \<Rightarrow> pyval" where
  "target_at t = PDict [(''target_pose'', PDict [(''x_m'', PInt 0)]), (''observed_pose'', PDict [(''stamp_ns'', PInt t)])]"

definition crossing :: sample where
  "crossing = [(''trajectory'', PDict [(''targets'', PList [target_at 100000000, target_at 900000000])])]"

lemma tolerance_signs: "f_le (Fin 0) (fl (2 / 100))" "f_le (Fin 0) (fl (5 / 100))"
  "f_less (f_neg (fl (425 / 1000))) (Fin 0)" "f_less (Fin 0) (fl (425 / 1000))"
  using fl_ratio_pos [of 2 100] fl_ratio_pos [of 5 100] fl_ratio_pos [of 425 1000] by (auto simp: f_le_def)

lemmas gate_eval = ordered_samples_def at_index_def lex_less_def is_zero_def require_finite_def held_is_zero_def
  held_command_def err_simps

lemma command_0: "is_zero (command_at t 0) = Inr True"
  using tolerance_signs
  by (simp add: is_zero_def require_finite_def command_at_def LINEAR_ZERO_TOLERANCE_M_S_def ANGULAR_ZERO_TOLERANCE_RAD_S_def)

lemma crossing_exposed: "exposed_interval crossing = Inr (100000000, 900000000)"
  using tolerance_signs
  by (simp add: exposed_interval_def crossing_def target_at_def target_exposure_def require_finite_def
      EXPOSED_HALF_WIDTH_def Let_def)

lemma stop_demo:
  "stop_intervals [monitor_at 200000000 1, monitor_at 600000000 0] 1000000000 = Inr [(200000000, 600000000)]"
  by (simp add: stop_intervals_def ordered_samples_def monitor_at_def STOP_ACTION_def lex_less_def)

theorem stop_gate_sound_witness:
  "zero_command (in_force [command_at 150000000 0] 200000000) \<and> zero_command (in_force [command_at 150000000 0] 599999999)"
proof -
  have "\<exists>m. scenario3_stop_command_metrics [monitor_at 200000000 1, monitor_at 600000000 0] [command_at 150000000 0]
      crossing (PInt 1000000000) = Inr m"
    using command_0
    by (simp add: scenario3_stop_command_metrics_def crossing_exposed stop_demo ordered_samples_def lex_less_def
        check_stop_interval_def held_is_zero_def held_command_def exposed_overlap_def MINIMUM_STOP_ZERO_NS_def)
      (simp add: command_at_def)
  then obtain m where m: "scenario3_stop_command_metrics [monitor_at 200000000 1, monitor_at 600000000 0]
      [command_at 150000000 0] crossing (PInt 1000000000) = Inr m" by blast
  from stop_gate_sound [OF m] stop_demo show ?thesis by auto
qed

theorem dropout_gate_sound_witness:
  "\<exists>m z. lidar_dropout_command_safety_metrics [command_at 1 0] [[(''stamp_ns'', PInt 5)]] (PInt 10) (PInt 3000000000)
       (PFloat (fl (60 / 100))) = Inr m
     \<and> dget m ''zero_command_stamp_ns'' = PInt z \<and> zero_command (in_force [command_at 1 0] 3000000000)"
proof -
  have fin: "\<exists>q. fl (60 / 100) = Fin q" using fl_ratio_pos [of 60 100] by auto
  have int: "dget (command_at 1 0) ''stamp_ns'' = PInt 1" "dget (command_at 1 0) ''collector_sequence'' = PInt 1"
    by (simp_all add: command_at_def)
  have "\<exists>m. lidar_dropout_command_safety_metrics [command_at 1 0] [[(''stamp_ns'', PInt 5)]] (PInt 10) (PInt 3000000000)
      (PFloat (fl (60 / 100))) = Inr m \<and> dget m ''zero_command_stamp_ns'' = PInt 600000005"
    using fin command_0 [of 1] int
    by (auto simp: lidar_dropout_command_safety_metrics_def require_finite_def ordered_samples_def zero_stamp_from_def
        held_is_zero_def held_command_def LIDAR_SOURCE_TIMEOUT_NS_def LIDAR_ZERO_DEADLINE_NS_def Let_def)
  then obtain m where m: "lidar_dropout_command_safety_metrics [command_at 1 0] [[(''stamp_ns'', PInt 5)]] (PInt 10)
      (PInt 3000000000) (PFloat (fl (60 / 100))) = Inr m" "dget m ''zero_command_stamp_ns'' = PInt 600000005" by blast
  from dropout_gate_sound [OF m(1)] m show ?thesis by auto
qed

end
