(* ===== verification/Path_Metrics.thy ===== *)
theory Path_Metrics
  imports Metrics_Geometry Sha256
begin

text \<open>
  Ground-truth path and plan analysis (\<open>robotest_metrics/path_metrics.py\<close>): pose interpolation, the
  length of the driven path, plan lengths and plan hashes, the assignment of plans to waypoint legs,
  and the efficiency ratios. \<open>math.hypot\<close> is the parameter \<open>hypot\<close>.
\<close>

section \<open>Poses\<close>

definition ALIGNMENT_GAP_NS :: int where "ALIGNMENT_GAP_NS = 250000000"
definition PLAN_GOAL_TOLERANCE_M :: pyfloat where "PLAN_GOAL_TOLERANCE_M = fl (5 / 100)"
definition PATH_LENGTH_EPSILON_M :: pyfloat where "PATH_LENGTH_EPSILON_M = fl (1 / 1000000)"
definition MICROMETRES_PER_METRE :: int where "MICROMETRES_PER_METRE = 1000000"
definition INT64_MAX :: int where "INT64_MAX = 2 ^ 63 - 1"
definition INT64_MIN :: int where "INT64_MIN = - (2 ^ 63)"
definition TERMINAL_SEQUENCE :: int where "TERMINAL_SEQUENCE = 2 ^ 63 - 1"
definition PLAN_HASH_VERSION :: string where "PLAN_HASH_VERSION = ''robotest-plan-geometry-v1'' @ [CHR 0x00]"

record pose =
  x_m :: pyfloat
  y_m :: pyfloat
  yaw_rad :: "pyfloat option"

definition pose_as_dict :: "pose \<Rightarrow> sample" where
  "pose_as_dict p = [(''x_m'', PFloat (x_m p)), (''y_m'', PFloat (y_m p))]
     @ (case yaw_rad p of None \<Rightarrow> [] | Some yaw \<Rightarrow> [(''yaw_rad'', PFloat yaw)])"

definition sample_pose :: "sample \<Rightarrow> string \<Rightarrow> metrics_exn + pose" where
  "sample_pose s name =
     bindE (require_finite (dget s ''x_m'') (name @ ''.x_m'')) (\<lambda>x.
     bindE (require_finite (dget s ''y_m'') (name @ ''.y_m'')) (\<lambda>y.
     bindE (case map_of s ''yaw_rad'' of
              None \<Rightarrow> Inr None
            | Some v \<Rightarrow> bindE (require_finite v (name @ ''.yaw_rad'')) (\<lambda>yaw. Inr (Some yaw))) (\<lambda>yaw.
     Inr \<lparr>x_m = x, y_m = y, yaw_rad = yaw\<rparr>)))"

text \<open>\<open>bisect_left\<close> on an increasing list.\<close>

definition bisect_left :: "int list \<Rightarrow> int \<Rightarrow> nat" where
  "bisect_left stamps x = length (takeWhile (\<lambda>t. t < x) stamps)"

record interpolated_pose = pose +
  ip_stamp_ns :: int
  interpolated :: bool
  source_before_stamp_ns :: int
  source_after_stamp_ns :: int
  source_gap_ns :: int

definition lerp :: "pyfloat \<Rightarrow> pyfloat \<Rightarrow> pyfloat \<Rightarrow> pyfloat" where
  "lerp fraction a b = f_add a (f_mul fraction (f_sub b a))"

definition interpolate_pose :: "sample list \<Rightarrow> int \<Rightarrow> int \<Rightarrow> metrics_exn + interpolated_pose" where
  "interpolate_pose samples target max_gap_ns =
     bindE (guardE (\<not> max_gap_ns \<le> 0) (MetricValueError ''max_gap_ns must be positive'')) (\<lambda>_.
     bindE (guardE (samples \<noteq> []) (MetricUnavailable ''pose stream is empty'')) (\<lambda>_.
     bindE (ensure_strictly_increasing samples) (\<lambda>_.
     bindE (traverse (\<lambda>s. require_int (dget s ''stamp_ns'') ''sample.stamp_ns'') samples) (\<lambda>stamps.
     let index = bisect_left stamps target in
     if index < length samples \<and> stamps ! index = target then
       bindE (sample_pose (samples ! index) (indexed ''samples'' index)) (\<lambda>exact.
       Inr (pose.extend exact (interpolated_pose.fields target False target target 0)))
     else if index = 0 \<or> index = length samples then
       Inl (MetricUnavailable (''pose stream does not bracket '' @ show_int target))
     else
       let before_stamp = stamps ! (index - 1); after_stamp = stamps ! index; gap = after_stamp - before_stamp in
       bindE (guardE (\<not> gap > max_gap_ns)
         (MetricUnavailable (''pose bracket gap '' @ show_int gap @ '' exceeds '' @ show_int max_gap_ns))) (\<lambda>_.
       let fraction = int_truediv (target - before_stamp) gap in
       bindE (sample_pose (samples ! (index - 1)) (indexed ''samples'' (index - 1))) (\<lambda>before_pose.
       bindE (sample_pose (samples ! index) (indexed ''samples'' index)) (\<lambda>after_pose.
       bindE (case (yaw_rad before_pose, yaw_rad after_pose) of
                (Some a, Some b) \<Rightarrow> bindE (interpolate_angle a b fraction) (\<lambda>yaw. Inr (Some yaw))
              | _ \<Rightarrow> Inr None) (\<lambda>yaw.
       Inr \<lparr>x_m = lerp fraction (x_m before_pose) (x_m after_pose),
            y_m = lerp fraction (y_m before_pose) (y_m after_pose), yaw_rad = yaw,
            ip_stamp_ns = target, interpolated = True, source_before_stamp_ns = before_stamp,
            source_after_stamp_ns = after_stamp, source_gap_ns = gap\<rparr>))))))))"

text \<open>\<open>planar_distance\<close> between two poses: the components are finite or the call fails.\<close>

definition pose_distance :: "(pyfloat \<Rightarrow> pyfloat \<Rightarrow> pyfloat) \<Rightarrow> pose \<Rightarrow> pose \<Rightarrow> metrics_exn + pyfloat" where
  "pose_distance hypot p q = planar_distance hypot (pose_as_dict p) (pose_as_dict q)"

section \<open>Lengths\<close>

text \<open>\<open>sum\<close> of floats: the compensated (Neumaier) summation of CPython 3.12.\<close>

fun sum_loop :: "pyfloat \<Rightarrow> pyfloat \<Rightarrow> pyfloat list \<Rightarrow> pyfloat" where
  "sum_loop acc c [] = (if f_isfinite c \<and> \<not> f_eq c (Fin 0) then f_add acc c else acc)"
| "sum_loop acc c (x # xs) =
     (let t = f_add acc x;
          d = (if f_le (f_abs x) (f_abs acc) then f_add (f_sub acc t) x else f_add (f_sub x t) acc)
      in sum_loop t (f_add c d) xs)"

definition py_sum :: "pyfloat list \<Rightarrow> pyfloat" where
  "py_sum xs = sum_loop (Fin 0) (Fin 0) xs"

fun polyline :: "(pyfloat \<Rightarrow> pyfloat \<Rightarrow> pyfloat) \<Rightarrow> pose list \<Rightarrow> metrics_exn + pyfloat list" where
  "polyline hypot (p # q # ps) =
     bindE (pose_distance hypot p q) (\<lambda>d. bindE (polyline hypot (q # ps)) (\<lambda>ds. Inr (d # ds)))"
| "polyline hypot ps = Inr []"

record path_result =
  actual_path_length_m :: pyfloat
  boundary_end :: interpolated_pose
  boundary_start :: interpolated_pose
  in_interval_raw_sample_count :: int
  integrated_sample_count :: int
  maximum_gap_ns :: int
  path_samples :: "(int \<times> pose) list"

text \<open>The samples strictly inside the interval, with the largest gap on the way.\<close>

fun inside_loop :: "int \<Rightarrow> int \<Rightarrow> nat \<Rightarrow> int \<Rightarrow> int \<Rightarrow> sample list \<Rightarrow> metrics_exn + ((int \<times> pose) list \<times> int \<times> int)" where
  "inside_loop start end' index previous gap [] = Inr ([], gap, previous)"
| "inside_loop start end' index previous gap (s # ss) =
     bindE (require_int (dget s ''stamp_ns'') (at_index ''samples'' index ''stamp_ns'')) (\<lambda>stamp.
     if start < stamp \<and> stamp < end' then
       bindE (sample_pose s (indexed ''samples'' index)) (\<lambda>p.
       bindE (inside_loop start end' (index + 1) stamp (max gap (stamp - previous)) ss) (\<lambda>(inside, g, l).
       Inr ((stamp, p) # inside, g, l)))
     else inside_loop start end' (index + 1) previous gap ss)"

definition actual_path_metrics ::
  "(pyfloat \<Rightarrow> pyfloat \<Rightarrow> pyfloat) \<Rightarrow> sample list \<Rightarrow> pyval \<Rightarrow> pyval \<Rightarrow> int \<Rightarrow> metrics_exn + path_result" where
  "actual_path_metrics hypot samples accepted terminal max_gap_ns =
     bindE (require_int accepted ''accepted_goal_stamp_ns'') (\<lambda>start.
     bindE (require_int terminal ''terminal_action_stamp_ns'') (\<lambda>end'.
     bindE (guardE (\<not> end' \<le> start)
       (MetricUnavailable ''terminal action stamp must be after accepted goal stamp'')) (\<lambda>_.
     bindE (ensure_strictly_increasing samples) (\<lambda>_.
     bindE (interpolate_pose samples start max_gap_ns) (\<lambda>start_pose.
     bindE (interpolate_pose samples end' max_gap_ns) (\<lambda>end_pose.
     bindE (inside_loop start end' 0 start 0 samples) (\<lambda>(inside, gap0, previous).
     let gap = max gap0 (end' - previous) in
     bindE (guardE (\<not> gap > max_gap_ns)
       (MetricUnavailable (''ground-truth gap '' @ show_int gap @ '' exceeds '' @ show_int max_gap_ns))) (\<lambda>_.
     let interval = (start, pose.truncate start_pose) # inside @ [(end', pose.truncate end_pose)] in
     bindE (polyline hypot (map snd interval)) (\<lambda>distances.
     let length_m = py_sum distances in
     bindE (guardE (f_isfinite length_m) (MetricUnavailable ''actual path length is non-finite'')) (\<lambda>_.
     Inr \<lparr>actual_path_length_m = length_m, boundary_end = end_pose, boundary_start = start_pose,
          in_interval_raw_sample_count = int (length inside), integrated_sample_count = int (length interval),
          maximum_gap_ns = gap, path_samples = interval\<rparr>))))))))))"

section \<open>Plans\<close>

text \<open>A pose of a plan must be a mapping; \<open>.get\<close> on anything else raises.\<close>

definition as_mapping :: "pyval \<Rightarrow> metrics_exn + sample" where
  "as_mapping v = (case v of PDict d \<Rightarrow> Inr d | _ \<Rightarrow> Inl MetricTypeError)"

fun plan_poses :: "nat \<Rightarrow> pyval list \<Rightarrow> metrics_exn + pose list" where
  "plan_poses index [] = Inr []"
| "plan_poses index (v # vs) =
     bindE (as_mapping v) (\<lambda>s.
     bindE (sample_pose s (indexed ''poses'' index)) (\<lambda>p.
     bindE (plan_poses (index + 1) vs) (\<lambda>ps. Inr (p # ps))))"

definition plan_length_m :: "(pyfloat \<Rightarrow> pyfloat \<Rightarrow> pyfloat) \<Rightarrow> pyval list \<Rightarrow> metrics_exn + pyfloat" where
  "plan_length_m hypot poses =
     bindE (guardE (\<not> length poses < 2) (MetricUnavailable ''a valid plan requires at least two poses'')) (\<lambda>_.
     bindE (plan_poses 0 poses) (\<lambda>normalized.
     bindE (polyline hypot normalized) (\<lambda>distances.
     let length_m = py_sum distances in
     bindE (guardE (\<not> f_le length_m PATH_LENGTH_EPSILON_M)
       (MetricUnavailable ''plan length is not above path_length_epsilon_m'')) (\<lambda>_.
     Inr length_m))))"

definition quantize_micrometres :: "pyval \<Rightarrow> metrics_exn + int" where
  "quantize_micrometres value_m =
     bindE (require_finite value_m ''plan coordinate'') (\<lambda>v.
     if f_eq v (Fin 0) then Inr 0
     else
       (case f_mul (f_abs v) (Fin (of_int MICROMETRES_PER_METRE)) of
          Fin scaled \<Rightarrow>
            (case f_add (Fin scaled) (Fin (1 / 2)) of
               Fin shifted \<Rightarrow>
                 let magnitude = \<lfloor>shifted\<rfloor>; result = (if f_less (Fin 0) v then magnitude else - magnitude) in
                 bindE (guardE (INT64_MIN \<le> result \<and> result \<le> INT64_MAX)
                   (MetricUnavailable ''quantized plan coordinate does not fit signed int64'')) (\<lambda>_. Inr result)
             | _ \<Rightarrow> Inl MetricOverflowError)
        | _ \<Rightarrow> Inl (MetricUnavailable ''quantized plan coordinate does not fit signed int64'')))"

fun plan_points_loop :: "nat \<Rightarrow> (int \<times> int) option \<Rightarrow> pyval list \<Rightarrow> metrics_exn + (int \<times> int) list" where
  "plan_points_loop index previous [] = Inr []"
| "plan_points_loop index previous (v # vs) =
     bindE (as_mapping v) (\<lambda>s.
     bindE (quantize_micrometres (dget s ''x_m'')) (\<lambda>x.
     bindE (quantize_micrometres (dget s ''y_m'')) (\<lambda>y.
     bindE (guardE (\<not> int index \<ge> 2 ^ 63 - 1) (MetricUnavailable ''plan pose count exceeds uint64'')) (\<lambda>_.
     bindE (plan_points_loop (index + 1) (Some (x, y)) vs) (\<lambda>points.
     Inr (if previous = Some (x, y) then points else (x, y) # points))))))"

definition canonical_plan_points :: "pyval list \<Rightarrow> metrics_exn + (int \<times> int) list" where
  "canonical_plan_points poses = plan_points_loop 0 None poses"

text \<open>The bytes fed to SHA-256: version tag, frame length and frame, number of points, points, with all
  numbers big-endian and the coordinates in two's complement.\<close>

definition be32 :: "int \<Rightarrow> int list" where
  "be32 n = map (\<lambda>k. n div k mod 256) [0x1000000, 0x10000, 0x100, 1]"

definition plan_preimage :: "string \<Rightarrow> (int \<times> int) list \<Rightarrow> int list" where
  "plan_preimage frame points =
     map of_char PLAN_HASH_VERSION @ be32 (int (length frame)) @ map of_char frame
     @ be64 (int (length points)) @ concat (map (\<lambda>(x, y). be64 (x mod 2 ^ 64) @ be64 (y mod 2 ^ 64)) points)"

definition sha256_bytes :: "int list \<Rightarrow> string" where
  "sha256_bytes bs = concat (map hex_word (sha256_words bs))"

definition plan_geometry_hash :: "pyval \<Rightarrow> pyval list \<Rightarrow> metrics_exn + string" where
  "plan_geometry_hash frame_id poses =
     bindE (guardE (frame_id = PStr ''map'') (MetricUnavailable ''plan frame_id must be map'')) (\<lambda>_.
     bindE (guardE (\<not> int (length ''map'') > 2 ^ 32 - 1) (MetricUnavailable ''plan frame_id is too long'')) (\<lambda>_.
     bindE (canonical_plan_points poses) (\<lambda>points.
     Inr (sha256_bytes (plan_preimage ''map'' points)))))"

section \<open>Legs\<close>

record transition =
  tr_stamp_ns :: int
  tr_collector_sequence :: int
  tr_current_waypoint :: int

fun transition_loop ::
  "int \<Rightarrow> int \<Rightarrow> int \<Rightarrow> nat \<Rightarrow> (int \<times> int) option \<Rightarrow> int option \<Rightarrow> sample list \<Rightarrow> metrics_exn + transition list" where
  "transition_loop count start end' position previous last_index [] =
     (if last_index \<noteq> Some (count - 1)
      then Inl (MetricUnavailable ''feedback does not establish every waypoint leg'') else Inr [])"
| "transition_loop count start end' position previous last_index (s # ss) =
     bindE (require_int (dget s ''stamp_ns'') (at_index ''feedback'' position ''stamp_ns'')) (\<lambda>stamp.
     bindE (require_int (dget s ''collector_sequence'') (at_index ''feedback'' position ''collector_sequence'')) (\<lambda>sequence.
     bindE (guardE (case previous of None \<Rightarrow> True | Some p \<Rightarrow> lex_less p (stamp, sequence))
       (MetricUnavailable ''feedback is not in deterministic collector order'')) (\<lambda>_.
     if stamp < start \<or> stamp > end'
     then transition_loop count start end' (position + 1) (Some (stamp, sequence)) last_index ss
     else
       bindE (require_int (dget s ''current_waypoint'') (at_index ''feedback'' position ''current_waypoint'')) (\<lambda>i.
       bindE (guardE (0 \<le> i \<and> i < count) (MetricUnavailable ''feedback waypoint index is out of range'')) (\<lambda>_.
       if last_index = Some i
       then transition_loop count start end' (position + 1) (Some (stamp, sequence)) last_index ss
       else
         bindE (case last_index of
                  None \<Rightarrow> guardE (i = 0) (MetricUnavailable ''feedback must begin at waypoint zero'')
                | Some l \<Rightarrow> guardE (i = l + 1) (MetricUnavailable ''feedback waypoint index regressed or skipped'')) (\<lambda>_.
         bindE (transition_loop count start end' (position + 1) (Some (stamp, sequence)) (Some i) ss) (\<lambda>transitions.
         Inr (\<lparr>tr_stamp_ns = stamp, tr_collector_sequence = sequence, tr_current_waypoint = i\<rparr> # transitions))))))))"

definition feedback_transitions :: "sample list \<Rightarrow> int \<Rightarrow> int \<Rightarrow> int \<Rightarrow> metrics_exn + transition list" where
  "feedback_transitions feedback waypoint_count start end' =
     bindE (guardE (\<not> waypoint_count \<le> 0) (MetricUnavailable ''waypoint list is empty'')) (\<lambda>_.
     transition_loop waypoint_count start end' 0 None None feedback)"
definition waypoint_number :: "sample \<Rightarrow> nat \<Rightarrow> string \<Rightarrow> metrics_exn + pyfloat" where
  "waypoint_number w index name =
     (let label = indexed ''waypoints'' index @ ''.'' @ name in
      case dget w name of
        PInt i \<Rightarrow> require_finite (PInt i) label
      | PFloat x \<Rightarrow> require_finite (PFloat x) label
      | _ \<Rightarrow> Inl (MetricUnavailable (label @ '' must be a finite number'')))"

fun normalize_waypoints :: "nat \<Rightarrow> pyval list \<Rightarrow> metrics_exn + pose list" where
  "normalize_waypoints index [] = Inr []"
| "normalize_waypoints index (v # vs) =
     (case v of
        PDict w \<Rightarrow>
          if set (map fst w) \<noteq> set [''x'', ''y'', ''yaw'']
          then Inl (MetricUnavailable (indexed ''waypoints'' index @ '' must contain exactly x, y, and yaw''))
          else
            bindE (waypoint_number w index ''x'') (\<lambda>x.
            bindE (waypoint_number w index ''y'') (\<lambda>y.
            bindE (waypoint_number w index ''yaw'') (\<lambda>yaw.
            bindE (normalize_waypoints (index + 1) vs) (\<lambda>ps.
            Inr (\<lparr>x_m = x, y_m = y, yaw_rad = Some yaw\<rparr> # ps)))))
      | _ \<Rightarrow> Inl (MetricUnavailable (indexed ''waypoints'' index @ '' must contain exactly x, y, and yaw'')))"

record plan_entry =
  pe_collector_sequence :: int
  pe_endpoint_error_m :: pyfloat
  pe_geometry_sha256 :: string
  pe_length_m :: pyfloat
  pe_plan_index :: nat
  pe_stamp_ns :: int
  pe_waypoint_index :: nat

definition lex_le :: "int \<times> int \<Rightarrow> int \<times> int \<Rightarrow> bool" where
  "lex_le a b \<longleftrightarrow> lex_less a b \<or> a = b"

definition leg_starts :: "int \<Rightarrow> transition list \<Rightarrow> (int \<times> int) list" where
  "leg_starts start transitions =
     (start, - 1) # map (\<lambda>t. (tr_stamp_ns t, tr_collector_sequence t)) (filter (\<lambda>t. tr_current_waypoint t > 0) transitions)"

definition leg_ends :: "(int \<times> int) list \<Rightarrow> int \<Rightarrow> (int \<times> int) list" where
  "leg_ends starts end' = tl starts @ [(end', TERMINAL_SEQUENCE)]"

fun find_leg :: "nat \<Rightarrow> int \<times> int \<Rightarrow> (int \<times> int) list \<Rightarrow> (int \<times> int) list \<Rightarrow> nat option" where
  "find_leg index order (s # starts) (e # ends) =
     (if lex_le s order \<and> lex_less order e then Some index else find_leg (index + 1) order starts ends)"
| "find_leg index order _ _ = None"

text \<open>The body of the \<open>try\<close> block: length, hash and endpoint error of a plan.\<close>

definition evaluate_plan ::
  "(pyfloat \<Rightarrow> pyfloat \<Rightarrow> pyfloat) \<Rightarrow> sample \<Rightarrow> pose \<Rightarrow> metrics_exn + (pyfloat \<times> string \<times> pyfloat)" where
  "evaluate_plan hypot plan target =
     (case dget plan ''poses'' of
        PList poses \<Rightarrow>
          bindE (plan_length_m hypot poses) (\<lambda>length_m.
          bindE (plan_geometry_hash (dget plan ''frame_id'') poses) (\<lambda>h.
          bindE (as_mapping (List.last poses)) (\<lambda>endpoint.
          bindE (planar_distance hypot endpoint (pose_as_dict target)) (\<lambda>err.
          bindE (guardE (\<not> f_less PLAN_GOAL_TOLERANCE_M err)
            (MetricUnavailable ''plan endpoint does not match feedback-derived waypoint'')) (\<lambda>_.
          Inr (length_m, h, err))))))
      | _ \<Rightarrow> Inl (MetricUnavailable ''plan poses must be a list''))"

fun plan_loop ::
  "(pyfloat \<Rightarrow> pyfloat \<Rightarrow> pyfloat) \<Rightarrow> pose list \<Rightarrow> (int \<times> int) list \<Rightarrow> (int \<times> int) list \<Rightarrow> nat \<Rightarrow> (int \<times> int) option \<Rightarrow>
   sample list \<Rightarrow> metrics_exn + (plan_entry list \<times> (nat \<times> string) list)" where
  "plan_loop hypot targets starts ends index previous [] = Inr ([], [])"
| "plan_loop hypot targets starts ends index previous (plan # plans) =
     bindE (require_int (dget plan ''stamp_ns'') (at_index ''plans'' index ''stamp_ns'')) (\<lambda>stamp.
     bindE (require_int (dget plan ''collector_sequence'') (at_index ''plans'' index ''collector_sequence'')) (\<lambda>sequence.
     let order = (stamp, sequence) in
     bindE (guardE (case previous of None \<Rightarrow> True | Some p \<Rightarrow> lex_less p order)
       (MetricUnavailable ''plans are not in deterministic collector order'')) (\<lambda>_.
     bindE (if lex_less order (hd starts) \<or> lex_less (List.last ends) order then Inr (Inl ''outside_action_interval'')
            else (case find_leg 0 order starts ends of
              None \<Rightarrow> Inr (Inl ''no_feedback_leg'')
            | Some leg \<Rightarrow>
                (case evaluate_plan hypot plan (targets ! leg) of
                   Inl (MetricUnavailable why) \<Rightarrow> Inr (Inl why)
                 | Inl e \<Rightarrow> Inl e
                 | Inr (length_m, h, err) \<Rightarrow>
                     Inr (Inr \<lparr>pe_collector_sequence = sequence, pe_endpoint_error_m = err, pe_geometry_sha256 = h,
                       pe_length_m = length_m, pe_plan_index = index, pe_stamp_ns = stamp, pe_waypoint_index = leg\<rparr>)))) (\<lambda>verdict.
     bindE (plan_loop hypot targets starts ends (index + 1) (Some order) plans) (\<lambda>(entries, diagnostics).
     Inr (case verdict of Inl why \<Rightarrow> (entries, (index, why) # diagnostics)
                        | Inr entry \<Rightarrow> (entry # entries, diagnostics)))))))"

fun count_replans :: "string \<Rightarrow> plan_entry list \<Rightarrow> nat" where
  "count_replans last_hash [] = 0"
| "count_replans last_hash (e # es) =
     (if pe_geometry_sha256 e \<noteq> last_hash then 1 + count_replans (pe_geometry_sha256 e) es else count_replans last_hash es)"

record leg_result =
  initial_plan :: plan_entry
  latest_plan :: plan_entry
  plan_count :: nat
  replan_count :: nat
  lr_waypoint_index :: nat

definition leg_summary :: "nat \<Rightarrow> plan_entry list \<Rightarrow> leg_result" where
  "leg_summary leg entries =
    \<lparr>initial_plan = hd entries, latest_plan = List.last entries, plan_count = length entries,
     replan_count = count_replans (pe_geometry_sha256 (hd entries)) (tl entries), lr_waypoint_index = leg\<rparr>"

record plans_result =
  diagnostics :: "(nat \<times> string) list"
  initial_planned_path_length_m :: pyfloat
  latest_planned_path_length_m :: pyfloat
  leg_results :: "leg_result list"
  planned_path_lengths_m :: "plan_entry list"
  total_replan_count :: nat

definition analyze_plans ::
  "(pyfloat \<Rightarrow> pyfloat \<Rightarrow> pyfloat) \<Rightarrow> sample list \<Rightarrow> sample list \<Rightarrow> pyval list \<Rightarrow> pyval \<Rightarrow> pyval \<Rightarrow> metrics_exn + plans_result" where
  "analyze_plans hypot plans feedback waypoints accepted terminal =
     bindE (require_int accepted ''accepted_goal_stamp_ns'') (\<lambda>start.
     bindE (require_int terminal ''terminal_action_stamp_ns'') (\<lambda>end'.
     bindE (guardE (\<not> end' \<le> start)
       (MetricUnavailable ''terminal action stamp must be after accepted goal stamp'')) (\<lambda>_.
     bindE (normalize_waypoints 0 waypoints) (\<lambda>targets.
     bindE (feedback_transitions feedback (int (length targets)) start end') (\<lambda>transitions.
     let starts = leg_starts start transitions; ends = leg_ends starts end' in
     bindE (plan_loop hypot targets starts ends 0 None plans) (\<lambda>(entries, diags).
     let per_leg = map (\<lambda>leg. filter (\<lambda>e. pe_waypoint_index e = leg) entries) [0..<length targets];
         missing = filter (\<lambda>leg. per_leg ! leg = []) [0..<length targets] in
     bindE (guardE (missing = [])
       (MetricUnavailable (''no valid matching plan for waypoint legs ['' @
          join_with '', '' (map (\<lambda>i. show_int (int i)) missing) @ '']''))) (\<lambda>_.
     let legs = map (\<lambda>(leg, es). leg_summary leg es) (zip [0..<length targets] per_leg) in
     Inr \<lparr>diagnostics = diags,
          initial_planned_path_length_m = foldl f_add (Fin 0) (map (\<lambda>l. pe_length_m (initial_plan l)) legs),
          latest_planned_path_length_m = foldl f_add (Fin 0) (map (\<lambda>l. pe_length_m (latest_plan l)) legs),
          leg_results = legs, planned_path_lengths_m = concat per_leg,
          total_replan_count = sum_list (map replan_count legs)\<rparr>)))))))"

definition path_efficiency :: "pyval \<Rightarrow> pyval \<Rightarrow> metrics_exn + (pyfloat \<times> pyfloat)" where
  "path_efficiency initial_planned actual_length =
     bindE (require_finite initial_planned ''initial_planned_path_length_m'') (\<lambda>planned.
     bindE (require_finite actual_length ''actual_path_length_m'') (\<lambda>actual.
     bindE (guardE (\<not> (f_le planned PATH_LENGTH_EPSILON_M \<or> f_le actual PATH_LENGTH_EPSILON_M))
       (MetricUnavailable ''path lengths must be above path_length_epsilon_m'')) (\<lambda>_.
     case (f_div planned actual, f_div actual planned) of
       (Some efficiency, Some overrun) \<Rightarrow> Inr (efficiency, overrun)
     | _ \<Rightarrow> Inl MetricTypeError)))"

section \<open>Interpolation\<close>

lemma bisect_left_split:
  assumes "sorted_wrt (<) stamps" "i = bisect_left stamps x"
  shows "i \<le> length stamps" "\<And>j. j < i \<Longrightarrow> stamps ! j < x" "\<And>j. i \<le> j \<Longrightarrow> j < length stamps \<Longrightarrow> x \<le> stamps ! j"
proof -
  show "i \<le> length stamps" using assms(2) by (simp add: bisect_left_def length_takeWhile_le)
  show "stamps ! j < x" if "j < i" for j
    using that assms(2) by (metis bisect_left_def nth_mem set_takeWhileD takeWhile_nth)
  show "x \<le> stamps ! j" if j: "i \<le> j" "j < length stamps" for j
  proof -
    have "i < length stamps" using j by simp
    then have "\<not> stamps ! i < x" using assms(2) by (metis bisect_left_def nth_length_takeWhile)
    moreover have "stamps ! i \<le> stamps ! j"
      using assms(1) j by (cases "i = j") (auto simp: sorted_wrt_iff_nth_less less_imp_le)
    ultimately show ?thesis by simp
  qed
qed

lemma ensure_increasing_Inr:
  assumes "ensure_strictly_increasing ss = Inr u"
  shows "list_all int_stamp ss" "sorted_wrt (<) (map stamp_of ss)"
  using assms strict_from_Inr by (auto simp: ensure_strictly_increasing_def err_simps)

lemma traverse_stamps:
  "list_all int_stamp ss \<Longrightarrow> traverse (\<lambda>s. require_int (dget s ''stamp_ns'') name) ss = Inr (map stamp_of ss)"
  by (rule traverse_map_total) (simp add: list_all_iff)

text \<open>Interpolated poses are supported by evidence: a pose that \<open>interpolate_pose\<close> returns for an
  instant is the sample at that instant, or lies between two adjacent samples around it that are
  at most \<open>max_gap_ns\<close> apart.\<close>

theorem interpolation_supported:
  assumes "interpolate_pose samples target max_gap = Inr p"
  shows "ip_stamp_ns p = target \<and> source_gap_ns p = source_after_stamp_ns p - source_before_stamp_ns p
    \<and> source_gap_ns p \<le> max_gap
    \<and> (if interpolated p
       then \<exists>i. Suc i < length samples \<and> stamp_of (samples ! i) = source_before_stamp_ns p
              \<and> stamp_of (samples ! Suc i) = source_after_stamp_ns p
              \<and> source_before_stamp_ns p < target \<and> target < source_after_stamp_ns p
       else \<exists>s \<in> set samples. stamp_of s = target \<and> sample_pose s (indexed ''samples'' (bisect_left (map stamp_of samples) target))
              = Inr (pose.truncate p))"
proof -
  from assms have pos: "0 < max_gap" and inc: "ensure_strictly_increasing samples = Inr ()"
    by (auto simp: interpolate_pose_def err_simps)
  note s = ensure_increasing_Inr [OF inc]
  define i where "i = bisect_left (map stamp_of samples) target"
  note b = bisect_left_split [OF s(2) i_def]
  show ?thesis
  proof (cases "i < length samples \<and> map stamp_of samples ! i = target")
    case True
    with assms obtain exact where e: "sample_pose (samples ! i) (indexed ''samples'' i) = Inr exact"
        "p = pose.extend exact (interpolated_pose.fields target False target target 0)"
      by (auto simp: interpolate_pose_def inc traverse_stamps [OF s(1)] i_def [symmetric] Let_def err_simps)
    with True pos show ?thesis
      by (auto simp: pose.defs interpolated_pose.defs i_def [symmetric] intro!: bexI [of _ "samples ! i"])
  next
    case False
    with assms have i: "i \<noteq> 0" "i \<noteq> length samples"
      and p: "ip_stamp_ns p = target" "interpolated p" "source_before_stamp_ns p = map stamp_of samples ! (i - 1)"
        "source_after_stamp_ns p = map stamp_of samples ! i"
        "source_gap_ns p = source_after_stamp_ns p - source_before_stamp_ns p" "source_gap_ns p \<le> max_gap"
      by (auto simp: interpolate_pose_def inc traverse_stamps [OF s(1)] i_def [symmetric] Let_def err_simps
          split: if_splits)
    have "i < length samples" using i(2) b(1) by simp
    moreover have "map stamp_of samples ! (i - 1) < target" using b(2) [of "i - 1"] i(1) by simp
    moreover have "target < map stamp_of samples ! i" using b(3) [of i] False \<open>i < length samples\<close> by fastforce
    ultimately show ?thesis using p i(1) by (auto intro!: exI [of _ "i - 1"])
  qed
qed

section \<open>Waypoint legs\<close>

definition tr_order :: "transition \<Rightarrow> int \<times> int" where
  "tr_order t = (tr_stamp_ns t, tr_collector_sequence t)"

lemma transition_loop_Inr:
  assumes "transition_loop count start end' pos previous last_index ss = Inr ts"
    and "case last_index of None \<Rightarrow> True | Some l \<Rightarrow> l < count"
  shows "map tr_current_waypoint ts = [(case last_index of None \<Rightarrow> 0 | Some l \<Rightarrow> l + 1) .. count - 1]
    \<and> sorted_wrt lex_less (map tr_order ts) \<and> list_all (\<lambda>t. above previous lex_less (tr_order t)) ts
    \<and> list_all (\<lambda>t. start \<le> tr_stamp_ns t \<and> tr_stamp_ns t \<le> end') ts"
  using assms
proof (induction ss arbitrary: pos previous last_index ts)
  case Nil
  then show ?case by (auto simp: split: if_splits)
next
  case (Cons s ss)
  from Cons.prems(1) obtain stamp q where o: "above previous lex_less (stamp, q)"
    and rest: "(if stamp < start \<or> stamp > end'
       then transition_loop count start end' (pos + 1) (Some (stamp, q)) last_index ss
       else bindE (require_int (dget s ''current_waypoint'') (at_index ''feedback'' pos ''current_waypoint'')) (\<lambda>i.
         bindE (guardE (0 \<le> i \<and> i < count) (MetricUnavailable ''feedback waypoint index is out of range'')) (\<lambda>_.
         if last_index = Some i
         then transition_loop count start end' (pos + 1) (Some (stamp, q)) last_index ss
         else bindE (case last_index of
                  None \<Rightarrow> guardE (i = 0) (MetricUnavailable ''feedback must begin at waypoint zero'')
                | Some l \<Rightarrow> guardE (i = l + 1) (MetricUnavailable ''feedback waypoint index regressed or skipped'')) (\<lambda>_.
           bindE (transition_loop count start end' (pos + 1) (Some (stamp, q)) (Some i) ss) (\<lambda>transitions.
           Inr (\<lparr>tr_stamp_ns = stamp, tr_collector_sequence = q, tr_current_waypoint = i\<rparr> # transitions)))))) = Inr ts"
    by (auto simp: bindE_Inr_iff above_def)
  have weaker: "list_all (\<lambda>t. above previous lex_less (tr_order t)) us"
    if "list_all (\<lambda>t. above (Some (stamp, q)) lex_less (tr_order t)) us" for us
    using that o by (cases previous) (auto simp: above_def list_all_iff intro: lex_less_trans)
  show ?case
  proof (cases "transition_loop count start end' (pos + 1) (Some (stamp, q)) last_index ss = Inr ts")
    case True
    then show ?thesis using Cons.IH [OF True Cons.prems(2)] weaker by blast
  next
    case False
    with rest obtain i us where i: "0 \<le> i" "i < count" "start \<le> stamp" "stamp \<le> end'"
        "i = (case last_index of None \<Rightarrow> 0 | Some l \<Rightarrow> l + 1)"
        "transition_loop count start end' (pos + 1) (Some (stamp, q)) (Some i) ss = Inr us"
        "ts = \<lparr>tr_stamp_ns = stamp, tr_collector_sequence = q, tr_current_waypoint = i\<rparr> # us"
      by (auto simp: bindE_Inr_iff split: if_splits option.splits)
    from Cons.IH [OF i(6)] i(2) have ih: "map tr_current_waypoint us = [i + 1 .. count - 1]"
        "sorted_wrt lex_less (map tr_order us)" "list_all (\<lambda>t. above (Some (stamp, q)) lex_less (tr_order t)) us"
        "list_all (\<lambda>t. start \<le> tr_stamp_ns t \<and> tr_stamp_ns t \<le> end') us" by simp_all
    have "[i .. count - 1] = i # [i + 1 .. count - 1]" using i(2) by (simp add: upto_rec1)
    then have "map tr_current_waypoint ts = [i .. count - 1]" using ih(1) i(7) by simp
    moreover have "sorted_wrt lex_less (map tr_order ts)"
      using ih(2,3) i(7) by (simp add: tr_order_def above_def list_all_iff)
    moreover have "list_all (\<lambda>t. above previous lex_less (tr_order t)) ts"
      using weaker [OF ih(3)] o i(7) by (simp add: tr_order_def)
    moreover have "list_all (\<lambda>t. start \<le> tr_stamp_ns t \<and> tr_stamp_ns t \<le> end') ts"
      using ih(4) i(3,4,7) by simp
    ultimately show ?thesis using i(5) by simp
  qed
qed

text \<open>C31. Waypoint legs are complete and ordered: the transitions that \<open>_feedback_transitions\<close> accepts
  reach every waypoint exactly once, in the order 0, 1, ..., n - 1, in strictly increasing collector
  order and inside the action interval.\<close>

theorem transitions_cover_waypoints:
  assumes "feedback_transitions feedback n start end' = Inr ts"
  shows "map tr_current_waypoint ts = [0 .. n - 1] \<and> sorted_wrt lex_less (map tr_order ts)
    \<and> list_all (\<lambda>t. start \<le> tr_stamp_ns t \<and> tr_stamp_ns t \<le> end') ts"
  using transition_loop_Inr [of n start end' 0 None None feedback ts] assms
  by (simp add: feedback_transitions_def bindE_Inr_iff)

definition feedback_at :: "int \<Rightarrow> int \<Rightarrow> sample" where
  "feedback_at t i = [(''stamp_ns'', PInt t), (''collector_sequence'', PInt t), (''current_waypoint'', PInt i)]"

theorem transitions_cover_waypoints_witness:
  "\<exists>ts. feedback_transitions [feedback_at 5 0, feedback_at 6 0, feedback_at 7 1] 2 1 9 = Inr ts
     \<and> map tr_current_waypoint ts = [0 .. 1]"
proof -
  have "\<exists>ts. feedback_transitions [feedback_at 5 0, feedback_at 6 0, feedback_at 7 1] 2 1 9 = Inr ts"
    by (simp add: feedback_transitions_def feedback_at_def lex_less_def)
  then show ?thesis using transitions_cover_waypoints by fastforce
qed

section \<open>Plan hashes\<close>

lemma byte_step: "0 < k \<Longrightarrow> 256 * (n div (k * 256)) + n div k mod 256 = (n div k :: int)"
  by (simp add: zdiv_zmult2_eq mult_div_mod_eq)

lemma be64_value:
  assumes "0 \<le> n" "n < 2 ^ 64"
  shows "foldl (\<lambda>a b. 256 * a + b) 0 (be64 n) = n"
proof -
  have "n div 0x100000000000000 < 256" "0 \<le> n div 0x100000000000000" using assms by (simp_all add: pos_imp_zdiv_nonneg_iff)
  then have top: "n div 0x100000000000000 mod 256 = n div 0x100000000000000" by simp
  note step = byte_step [of "0x1000000000000" n, simplified] byte_step [of "0x10000000000" n, simplified]
    byte_step [of "0x100000000" n, simplified] byte_step [of "0x1000000" n, simplified]
    byte_step [of "0x10000" n, simplified] byte_step [of "0x100" n, simplified] byte_step [of 1 n, simplified]
  show ?thesis by (simp add: be64_def top step)
qed

lemma dvd_small_zero: "m dvd d \<Longrightarrow> \<bar>d\<bar> < m \<Longrightarrow> d = (0 :: int)"
  using dvd_imp_le_int [of d m] by auto

lemma be64_inj:
  assumes "be64 (a mod 2 ^ 64) = be64 (b mod 2 ^ 64)" "INT64_MIN \<le> a" "a \<le> INT64_MAX" "INT64_MIN \<le> b" "b \<le> INT64_MAX"
  shows "a = b"
proof -
  have "foldl (\<lambda>a b. 256 * a + b) 0 (be64 (c mod 2 ^ 64)) = c mod 2 ^ 64" for c :: int
    by (rule be64_value) simp_all
  then have "a mod 2 ^ 64 = b mod 2 ^ 64" by (metis assms(1))
  then have "2 ^ 64 dvd a - b" by (simp only: mod_eq_dvd_iff)
  moreover have "\<bar>a - b\<bar> < 2 ^ 64" using assms(2-5) by (simp add: INT64_MIN_def INT64_MAX_def)
  ultimately have "a - b = 0" by (rule dvd_small_zero)
  then show ?thesis by simp
qed

definition int64_point :: "int \<times> int \<Rightarrow> bool" where
  "int64_point p \<longleftrightarrow> INT64_MIN \<le> fst p \<and> fst p \<le> INT64_MAX \<and> INT64_MIN \<le> snd p \<and> snd p \<le> INT64_MAX"

lemma be64_length [simp]: "length (be64 n) = 8" "be64 n \<noteq> []"
  by (simp_all add: be64_def)

lemma append_8_eq: "length a = 8 \<Longrightarrow> length b = 8 \<Longrightarrow> a @ c = b @ d \<longleftrightarrow> a = b \<and> c = d"
  by simp

lemma point_bytes_inj:
  assumes "list_all int64_point ps" "list_all int64_point qs"
    and "concat (map (\<lambda>(x, y). be64 (x mod 2 ^ 64) @ be64 (y mod 2 ^ 64)) ps) =
         concat (map (\<lambda>(x, y). be64 (x mod 2 ^ 64) @ be64 (y mod 2 ^ 64)) qs)"
  shows "ps = qs"
  using assms
proof (induction ps arbitrary: qs)
  case Nil
  then show ?case by (cases qs) (simp_all split: prod.splits)
next
  case (Cons p ps)
  have "qs \<noteq> []" using Cons.prems(3) by (cases p) auto
  then obtain q qs' where q: "qs = q # qs'" by (cases qs) simp_all
  obtain x y x' y' where xy: "p = (x, y)" "q = (x', y')" by (cases p; cases q)
  let ?b = "\<lambda>z. be64 (z mod 2 ^ 64)"
  have "?b x @ ?b y @ concat (map (\<lambda>(x, y). ?b x @ ?b y) ps) = ?b x' @ ?b y' @ concat (map (\<lambda>(x, y). ?b x @ ?b y) qs')"
    using Cons.prems(3) unfolding q xy by (simp only: list.map concat.simps prod.case append_assoc)
  then have "?b x = ?b x'" "?b y = ?b y'"
    and rest: "concat (map (\<lambda>(x, y). be64 (x mod 2 ^ 64) @ be64 (y mod 2 ^ 64)) ps) =
               concat (map (\<lambda>(x, y). be64 (x mod 2 ^ 64) @ be64 (y mod 2 ^ 64)) qs')"
    by (simp_all only: append_8_eq [OF be64_length(1) be64_length(1)])
  then have "x = x'" "y = y'"
    using Cons.prems(1,2) by (auto simp: q xy int64_point_def intro!: be64_inj)
  moreover have "ps = qs'" using Cons.IH [OF _ _ rest] Cons.prems(1,2) by (simp add: q)
  ultimately show ?case by (simp add: q xy)
qed

lemma quantize_range: "quantize_micrometres v = Inr i \<Longrightarrow> INT64_MIN \<le> i \<and> i \<le> INT64_MAX"
  by (auto simp: quantize_micrometres_def err_simps Let_def INT64_MIN_def INT64_MAX_def split: if_splits pyfloat.splits)

lemma plan_points_range: "plan_points_loop index previous vs = Inr ps \<Longrightarrow> list_all int64_point ps"
  by (induction vs arbitrary: index previous ps)
    (auto simp: err_simps int64_point_def dest!: quantize_range split: if_splits)

text \<open>C32. The plan hash identifies the geometry: two plans with the same canonical points have the same
  hash, and for two plans with different canonical points the hashed byte strings differ, so that
  equal hashes would be a SHA-256 collision.\<close>

theorem plan_hash_identifies_geometry:
  assumes "canonical_plan_points p = Inr a" and "canonical_plan_points q = Inr b"
  shows "(plan_preimage ''map'' a = plan_preimage ''map'' b \<longleftrightarrow> a = b)
    \<and> (a = b \<longrightarrow> plan_geometry_hash (PStr ''map'') p = plan_geometry_hash (PStr ''map'') q)
    \<and> plan_geometry_hash (PStr ''map'') p = Inr (sha256_bytes (plan_preimage ''map'' a))"
proof -
  have "list_all int64_point a" "list_all int64_point b"
    using assms plan_points_range by (auto simp: canonical_plan_points_def)
  then have "a = b" if "plan_preimage ''map'' a = plan_preimage ''map'' b"
    using that by (intro point_bytes_inj) (simp_all add: plan_preimage_def)
  then show ?thesis using assms by (auto simp: plan_geometry_hash_def)
qed

theorem plan_hash_identifies_geometry_witness:
  "plan_preimage ''map'' [(0, 0)] \<noteq> plan_preimage ''map'' []"
proof -
  have "canonical_plan_points [PDict [(''x_m'', PInt 0), (''y_m'', PInt 0)]] = Inr [(0, 0)]"
    by (simp add: canonical_plan_points_def as_mapping_def quantize_micrometres_def require_finite_def)
  moreover have "canonical_plan_points [] = Inr []" by (simp add: canonical_plan_points_def)
  ultimately show ?thesis using plan_hash_identifies_geometry by fastforce
qed

theorem interpolation_supported_witness:
  "\<exists>p. interpolate_pose [[(''stamp_ns'', PInt 5), (''x_m'', PInt 0), (''y_m'', PInt 0)]] 5 1 = Inr p \<and> ip_stamp_ns p = 5"
proof -
  have "\<exists>p. interpolate_pose [[(''stamp_ns'', PInt 5), (''x_m'', PInt 0), (''y_m'', PInt 0)]] 5 1 = Inr p"
    by (simp add: interpolate_pose_def ensure_strictly_increasing_def bisect_left_def sample_pose_def require_finite_def)
  then show ?thesis using interpolation_supported by blast
qed

end
