(* ===== verification/Recovery_Metrics.thy ===== *)
theory Recovery_Metrics
  imports Path_Metrics "HOL-Library.Sublist"
begin

text \<open>
  Recovery analysis (\<open>robotest_metrics/recovery_metrics.py\<close>): the outage measured from the supervisor's
  event log, the reconciliation of a LiDAR dropout, and the search for the first stable recovery
  window after it. The theorems say what an accepted analysis proves about the logs.
\<close>

section \<open>The supervisor outage\<close>

definition RECOVERY_WINDOW_NS :: int where "RECOVERY_WINDOW_NS = 1000000000"
definition RECOVERY_SCAN_GAP_NS :: int where "RECOVERY_SCAN_GAP_NS = 400000000"
definition RECOVERY_LIFECYCLE_MARGIN_NS :: int where "RECOVERY_LIFECYCLE_MARGIN_NS = 200000000"
definition RECOVERY_PROGRESS_METRES :: pyfloat where "RECOVERY_PROGRESS_METRES = fl (5 / 100)"
definition RECOVERY_PROGRESS_YAW_RAD :: pyfloat where "RECOVERY_PROGRESS_YAW_RAD = fl (10 / 100)"

definition of_kind :: "string \<Rightarrow> sample \<Rightarrow> bool" where
  "of_kind kind event \<longleftrightarrow> dget event ''kind'' = PStr kind"

definition readiness :: "bool \<Rightarrow> sample \<Rightarrow> bool" where
  "readiness value event \<longleftrightarrow> of_kind ''readiness_changed'' event \<and> dget event ''ready'' = PBool value"

text \<open>One checked event: its sequence number, its steady wall time and the event itself.\<close>

type_synonym checked_event = "int \<times> int \<times> sample"

fun check_events :: "nat \<Rightarrow> (int \<times> int) option \<Rightarrow> sample list \<Rightarrow> metrics_exn + checked_event list" where
  "check_events index previous [] = Inr []"
| "check_events index previous (event # events) =
     bindE (guardE (py_eq (dget event ''schema_version'') (PInt 1))
       (MetricUnavailable (at_index ''events'' index ''schema_version must be 1''))) (\<lambda>_.
     bindE (require_int (dget event ''sequence'') (at_index ''events'' index ''sequence'')) (\<lambda>sequence.
     bindE (require_int (dget event ''steady_wall_ns'') (at_index ''events'' index ''steady_wall_ns'')) (\<lambda>steady_wall_ns.
     bindE (guardE (\<not> (sequence < 0 \<or> steady_wall_ns < 0))
       (MetricUnavailable ''supervisor event counters must be nonnegative'')) (\<lambda>_.
     bindE (guardE (case previous of None \<Rightarrow> True | Some (q, w) \<Rightarrow> \<not> sequence \<le> q)
       (MetricUnavailable ''supervisor event sequence is not strictly increasing'')) (\<lambda>_.
     bindE (guardE (case previous of None \<Rightarrow> True | Some (q, w) \<Rightarrow> \<not> steady_wall_ns < w)
       (MetricUnavailable ''supervisor steady-wall time regressed within the latest segment'')) (\<lambda>_.
     bindE (check_events (index + 1) (Some (sequence, steady_wall_ns)) events) (\<lambda>ordered.
     Inr ((sequence, steady_wall_ns, event) # ordered))))))))"

text \<open>The loop over the outage: pending schedule, its stamp, and the pairs of schedule and start stamps.\<close>

fun restart_loop :: "bool \<Rightarrow> int option \<Rightarrow> checked_event list \<Rightarrow> metrics_exn + (int \<times> int) list" where
  "restart_loop pending_schedule scheduled_stamp [] =
     bindE (guardE (\<not> pending_schedule)
       (MetricUnavailable ''restart schedule has no child start before readiness restoration'')) (\<lambda>_. Inr [])"
| "restart_loop pending_schedule scheduled_stamp ((_, stamp, event) # items) =
     (if of_kind ''restart_scheduled'' event then
        bindE (guardE (\<not> pending_schedule)
          (MetricUnavailable ''restart scheduled twice without a child start'')) (\<lambda>_.
        restart_loop True (Some stamp) items)
      else if of_kind ''child_started'' event \<and> pending_schedule then
        (case scheduled_stamp of
           None \<Rightarrow> Inl MetricAssertionError
         | Some scheduled \<Rightarrow>
             bindE (restart_loop False None items) (\<lambda>pairs. Inr ((scheduled, stamp) # pairs)))
      else restart_loop pending_schedule scheduled_stamp items)"

record supervisor_recovery =
  failure_detected_wall_ns :: int
  latest_supervisor_started_sequence :: int
  readiness_false_wall_ns :: int
  ready_restored_wall_ns :: int
  restart_count :: int
  restart_pairs :: "(int \<times> int) list"
  supervisor_recovery_time_wall_s :: pyfloat

definition supervisor_starts :: "sample list \<Rightarrow> nat list" where
  "supervisor_starts events = filter (\<lambda>i. of_kind ''supervisor_started'' (events ! i)) [0..<length events]"

text \<open>\<open>next((item for item in items if p(item)), None)\<close>, and the error when it is \<open>None\<close>.\<close>

definition first_where :: "('a \<Rightarrow> bool) \<Rightarrow> string \<Rightarrow> 'a list \<Rightarrow> metrics_exn + 'a" where
  "first_where p message xs =
     (case List.find p xs of None \<Rightarrow> Inl (MetricUnavailable message) | Some x \<Rightarrow> Inr x)"

definition supervisor_recovery_metrics :: "sample list \<Rightarrow> metrics_exn + supervisor_recovery" where
  "supervisor_recovery_metrics events =
     bindE (guardE (supervisor_starts events \<noteq> []) (MetricUnavailable ''supervisor_started event is missing'')) (\<lambda>_.
     let segment_start = List.last (supervisor_starts events) in
     bindE (check_events segment_start None (drop segment_start events)) (\<lambda>ordered.
     bindE (first_where (\<lambda>(_, _, e). of_kind ''failure_detected'' e)
       ''supervisor failure_detected event is missing'' ordered) (\<lambda>(failure_seq, failure_ns, _).
     bindE (first_where (\<lambda>(q, _, e). q > failure_seq \<and> readiness True e)
       ''supervisor readiness restoration is missing'' ordered) (\<lambda>(restored_seq, restored_ns, _).
     let interval = filter (\<lambda>(q, _, _). failure_seq \<le> q \<and> q \<le> restored_seq) ordered in
     bindE (first_where (\<lambda>(_, _, e). readiness False e)
       ''readiness false transition is missing during outage'' interval) (\<lambda>(_, false_ns, _).
     bindE (guardE (filter (\<lambda>(q, _, e). q < restored_seq \<and> readiness True e) interval = [])
       (MetricUnavailable ''readiness became true before the selected restoration'')) (\<lambda>_.
     bindE (restart_loop False None interval) (\<lambda>pairs.
     bindE (guardE (length pairs \<noteq> 0)
       (MetricUnavailable ''no scheduled restart followed by a new child start'')) (\<lambda>_.
     bindE (ns_seconds (restored_ns - failure_ns)) (\<lambda>time_s.
     Inr \<lparr>failure_detected_wall_ns = failure_ns, latest_supervisor_started_sequence = fst (hd ordered),
          readiness_false_wall_ns = false_ns, ready_restored_wall_ns = restored_ns,
          restart_count = int (length pairs), restart_pairs = pairs,
          supervisor_recovery_time_wall_s = time_s\<rparr>)))))))))"
section \<open>The LiDAR dropout\<close>

text \<open>\<open>next\<close> over samples whose key must be an integer; the search stops at the first hit.\<close>

fun next_with :: "string \<Rightarrow> string \<Rightarrow> (int \<Rightarrow> bool) \<Rightarrow> sample list \<Rightarrow> metrics_exn + sample option" where
  "next_with key name p [] = Inr None"
| "next_with key name p (s # ss) =
     bindE (require_int (dget s key) name) (\<lambda>t. if p t then Inr (Some s) else next_with key name p ss)"

record dropout_evidence =
  actual_deactivation_stamp_ns :: int
  actual_first_affected_stamp_ns :: int
  actual_last_affected_stamp_ns :: int
  affected_message_count :: int
  configured_activation_stamp_ns :: int
  configured_deactivation_stamp_ns :: int
  raw_active_interval_count :: int
  proxy_restored_stamp_ns :: int
  validated_active_interval_count :: int

text \<open>The stamps the proxy reported; \<open>PNone\<close> is an event that was not seen.\<close>

record proxy_report =
  proxy_affected_message_count :: pyval
  proxy_first_affected_stamp_ns :: pyval
  proxy_last_affected_stamp_ns :: pyval
  proxy_restored :: pyval

definition require_some :: "'a option \<Rightarrow> string \<Rightarrow> metrics_exn + 'a" where
  "require_some v message = (case v of None \<Rightarrow> Inl (MetricUnavailable message) | Some x \<Rightarrow> Inr x)"

definition check_boundaries :: "proxy_report \<Rightarrow> int list \<Rightarrow> metrics_exn + unit" where
  "check_boundaries proxy affected =
     bindE (if proxy_affected_message_count proxy = PNone then Inr ()
            else bindE (require_int (proxy_affected_message_count proxy) ''proxy_affected_message_count'') (\<lambda>count.
              guardE (count = int (length affected))
                (MetricUnavailable ''proxy affected-message count does not reconcile''))) (\<lambda>_.
     bindE (guardE (\<not> (proxy_first_affected_stamp_ns proxy = PNone \<or> proxy_last_affected_stamp_ns proxy = PNone))
       (MetricUnavailable ''proxy affected-message boundary events are missing'')) (\<lambda>_.
     bindE (require_int (proxy_first_affected_stamp_ns proxy) ''proxy_first_affected_stamp_ns'') (\<lambda>first.
     bindE (guardE (first = hd affected)
       (MetricUnavailable ''proxy affected-message boundary stamps do not reconcile'')) (\<lambda>_.
     bindE (require_int (proxy_last_affected_stamp_ns proxy) ''proxy_last_affected_stamp_ns'') (\<lambda>final.
     guardE (final = List.last affected)
       (MetricUnavailable ''proxy affected-message boundary stamps do not reconcile''))))))"

definition analyze_lidar_dropout ::
  "sample list \<Rightarrow> sample list \<Rightarrow> pyval \<Rightarrow> pyval \<Rightarrow> proxy_report \<Rightarrow> metrics_exn + dropout_evidence" where
  "analyze_lidar_dropout raw_scans validated_scans activation_ns deactivation_ns proxy =
     bindE (require_int activation_ns ''configured_activation_stamp_ns'') (\<lambda>activation.
     bindE (require_int deactivation_ns ''configured_deactivation_stamp_ns'') (\<lambda>deactivation.
     bindE (guardE (\<not> deactivation \<le> activation)
       (MetricUnavailable ''dropout deactivation must be after activation'')) (\<lambda>_.
     bindE (strict_stamps raw_scans ''raw_scans'') (\<lambda>raw_stamps.
     bindE (strict_stamps validated_scans ''validated_scans'') (\<lambda>validated_stamps.
     let affected = filter (\<lambda>t. activation \<le> t \<and> t < deactivation) raw_stamps;
         leaked = filter (\<lambda>t. activation \<le> t \<and> t < deactivation) validated_stamps in
     bindE (guardE (affected \<noteq> [])
       (MetricUnavailable ''raw scans do not continue through the dropout interval'')) (\<lambda>_.
     bindE (guardE (leaked = []) (MetricUnavailable ''validated scans were published during LiDAR dropout'')) (\<lambda>_.
     bindE (check_boundaries proxy affected) (\<lambda>_.
     bindE (next_with ''stamp_ns'' ''raw.stamp_ns'' (\<lambda>t. t \<ge> deactivation) raw_scans) (\<lambda>found_raw.
     bindE (require_some found_raw ''no raw scan exists at or after dropout deactivation'') (\<lambda>restored_raw.
     bindE (require_int (dget restored_raw ''stamp_ns'') ''restored_raw.stamp_ns'') (\<lambda>restored_stamp.
     bindE (next_with ''stamp_ns'' ''validated.stamp_ns'' (\<lambda>t. t = restored_stamp) validated_scans) (\<lambda>found_validated.
     bindE (require_some found_validated ''first post-dropout raw scan was not restored'') (\<lambda>restored_validated.
     bindE (guardE (case (dget restored_raw ''payload_sha256'', dget restored_validated ''payload_sha256'') of
                      (PStr raw_hash, PStr validated_hash) \<Rightarrow> raw_hash = validated_hash | _ \<Rightarrow> False)
       (MetricUnavailable ''first restored scan does not match raw payload'')) (\<lambda>_.
     bindE (guardE (proxy_restored proxy \<noteq> PNone) (MetricUnavailable ''proxy restoration event is missing'')) (\<lambda>_.
     bindE (require_int (proxy_restored proxy) ''proxy_restored_stamp_ns'') (\<lambda>proxy_stamp.
     bindE (guardE (proxy_stamp = restored_stamp)
       (MetricUnavailable ''proxy restoration stamp does not reconcile'')) (\<lambda>_.
     Inr \<lparr>actual_deactivation_stamp_ns = restored_stamp, actual_first_affected_stamp_ns = hd affected,
          actual_last_affected_stamp_ns = List.last affected, affected_message_count = int (length affected),
          configured_activation_stamp_ns = activation, configured_deactivation_stamp_ns = deactivation,
          raw_active_interval_count = int (length affected), proxy_restored_stamp_ns = proxy_stamp,
          validated_active_interval_count = 0\<rparr>)))))))))))))))))"

section \<open>Recovery windows\<close>

text \<open>\<open>bisect_right\<close> on an increasing list.\<close>

definition bisect_right :: "int list \<Rightarrow> int \<Rightarrow> nat" where
  "bisect_right stamps x = length (takeWhile (\<lambda>t. t \<le> x) stamps)"

definition pairwise_gaps :: "int list \<Rightarrow> int list" where
  "pairwise_gaps xs = map (\<lambda>(left, right). right - left) (zip xs (tl xs))"

definition refused :: "string \<Rightarrow> bool \<times> pydict" where
  "refused reason = (False, [(''reason'', PStr reason)])"

definition scan_window :: "int list \<Rightarrow> int \<Rightarrow> int \<Rightarrow> int \<Rightarrow> bool \<times> pydict" where
  "scan_window stamps start end' gap_limit_ns =
     (let after = bisect_right stamps start in
      if after = 0 then refused ''no_restored_scan_at_or_before_window_start''
      else
        let end_index = bisect_right stamps end'; relevant = drop (after - 1) (take end_index stamps) in
        if relevant = [] \<or> end' - List.last relevant > gap_limit_ns
        then refused ''restored_scan_is_stale_at_window_end''
        else if list_ex (\<lambda>gap. gap \<le> 0 \<or> gap > gap_limit_ns) (pairwise_gaps relevant)
        then refused ''restored_scan_gap_exceeded''
        else (True, [(''maximum_gap_ns'', PInt (foldr max (pairwise_gaps relevant) 0)),
                     (''sample_count'', PInt (int (length relevant)))]))"

text \<open>The samples whose stamp satisfies a condition; every stamp must be an integer.\<close>

fun samples_within :: "string \<Rightarrow> (int \<Rightarrow> bool) \<Rightarrow> sample list \<Rightarrow> metrics_exn + sample list" where
  "samples_within name p [] = Inr []"
| "samples_within name p (s # ss) =
     bindE (require_int (dget s ''stamp_ns'') name) (\<lambda>t.
     bindE (samples_within name p ss) (\<lambda>rest. Inr (if p t then s # rest else rest)))"

definition state_active :: "sample \<Rightarrow> bool" where
  "state_active s \<longleftrightarrow> dget s ''state'' = PStr ''active''"

text \<open>One node of the loop of \<open>_lifecycle_window\<close>: \<open>Inl\<close> the refusal, \<open>Inr\<close> the evidence.\<close>

definition node_window ::
  "sample list \<Rightarrow> string \<Rightarrow> int \<Rightarrow> int \<Rightarrow> int \<Rightarrow> metrics_exn + (string + pydict)" where
  "node_window samples node start end' margin_ns =
     (let node_samples = filter (\<lambda>s. dget s ''node'' = PStr node) samples in
      bindE (samples_within ''lifecycle.stamp_ns'' (\<lambda>t. start - margin_ns \<le> t \<and> t \<le> start) node_samples) (\<lambda>before.
      bindE (samples_within ''lifecycle.stamp_ns'' (\<lambda>t. end' \<le> t \<and> t \<le> end' + margin_ns) node_samples) (\<lambda>after.
      bindE (samples_within ''lifecycle.stamp_ns'' (\<lambda>t. start \<le> t \<and> t \<le> end') node_samples) (\<lambda>between.
      if before = [] \<or> \<not> state_active (List.last before) then Inr (Inl ''missing_active_start_snapshot'')
      else if after = [] \<or> \<not> state_active (hd after) then Inr (Inl ''missing_active_end_snapshot'')
      else if list_ex (\<lambda>s. \<not> state_active s) between then Inr (Inl ''transitioned_away_from_active'')
      else
        bindE (require_int (dget (hd after) ''stamp_ns'') ''after.stamp_ns'') (\<lambda>end_stamp.
        bindE (require_int (dget (List.last before) ''stamp_ns'') ''before.stamp_ns'') (\<lambda>start_stamp.
        Inr (Inr [(''end_snapshot_stamp_ns'', PInt end_stamp), (''start_snapshot_stamp_ns'', PInt start_stamp)])))))))"

fun lifecycle_loop ::
  "sample list \<Rightarrow> int \<Rightarrow> int \<Rightarrow> int \<Rightarrow> pydict \<Rightarrow> string list \<Rightarrow> metrics_exn + (bool \<times> pydict)" where
  "lifecycle_loop samples start end' margin_ns evidence [] = Inr (True, evidence)"
| "lifecycle_loop samples start end' margin_ns evidence (node # nodes) =
     bindE (node_window samples node start end' margin_ns) (\<lambda>r.
     case r of
       Inl reason \<Rightarrow> Inr (False, [(''node'', PStr node), (''reason'', PStr reason)])
     | Inr e \<Rightarrow> lifecycle_loop samples start end' margin_ns (dict_set node (PDict e) evidence) nodes)"

definition lifecycle_window ::
  "sample list \<Rightarrow> string list \<Rightarrow> int \<Rightarrow> int \<Rightarrow> int \<Rightarrow> metrics_exn + (bool \<times> pydict)" where
  "lifecycle_window samples required_nodes start end' margin_ns =
     lifecycle_loop samples start end' margin_ns [] required_nodes"
text \<open>The \<open>try\<close> block of \<open>_progress_window\<close>: displacement or rotation of the interpolated ground truth.\<close>

definition motion_progress ::
  "(pyfloat \<Rightarrow> pyfloat \<Rightarrow> pyfloat) \<Rightarrow> sample list \<Rightarrow> int \<Rightarrow> int \<Rightarrow> metrics_exn + pydict option" where
  "motion_progress hypot ground_truth start end' =
     bindE (interpolate_pose ground_truth start ALIGNMENT_GAP_NS) (\<lambda>first.
     bindE (interpolate_pose ground_truth end' ALIGNMENT_GAP_NS) (\<lambda>final.
     bindE (pose_distance hypot (pose.truncate first) (pose.truncate final)) (\<lambda>displacement.
     let yaw = (\<lambda>p. case yaw_rad p of None \<Rightarrow> Fin 0 | Some y \<Rightarrow> y) in
     bindE (normalize_angle (PFloat (f_sub (yaw final) (yaw first)))) (\<lambda>delta.
     let yaw_delta = f_abs delta in
     Inr (if f_le RECOVERY_PROGRESS_METRES displacement
          then Some [(''predicate'', PStr ''planar_displacement''), (''value_m'', PFloat displacement)]
          else if f_le RECOVERY_PROGRESS_YAW_RAD yaw_delta
          then Some [(''predicate'', PStr ''yaw_change''), (''value_rad'', PFloat yaw_delta)]
          else None)))))"

definition catch_unavailable :: "metrics_exn + 'a option \<Rightarrow> metrics_exn + 'a option" where
  "catch_unavailable r = (case r of Inl (MetricUnavailable _) \<Rightarrow> Inr None | _ \<Rightarrow> r)"

definition waypoint_advance :: "int \<Rightarrow> int \<Rightarrow> pydict" where
  "waypoint_advance from to = [(''from'', PInt from), (''predicate'', PStr ''waypoint_advance''), (''to'', PInt to)]"

fun advance_loop :: "sample list \<Rightarrow> metrics_exn + pydict option" where
  "advance_loop [] = Inr None"
| "advance_loop (s # ss) =
     bindE (require_int (dget s ''current_waypoint'') ''feedback.current_waypoint'') (\<lambda>current.
     let previous = (if dget s ''previous_waypoint'' = PNone then dget s ''previous_value'' else dget s ''previous_waypoint'') in
     if previous = PNone then advance_loop ss
     else bindE (require_int previous ''feedback.previous_waypoint'') (\<lambda>prior.
       if current > prior then Inr (Some (waypoint_advance prior current)) else advance_loop ss))"

definition feedback_progress :: "sample list \<Rightarrow> metrics_exn + (bool \<times> pydict)" where
  "feedback_progress transitions =
     bindE (advance_loop transitions) (\<lambda>advance.
     case advance of
       Some evidence \<Rightarrow> Inr (True, evidence)
     | None \<Rightarrow>
         bindE (traverse (\<lambda>s. require_int (dget s ''current_waypoint'') ''feedback.current_waypoint'') transitions) (\<lambda>indices.
         Inr (if indices \<noteq> [] \<and> Max (set indices) > Min (set indices)
              then (True, waypoint_advance (Min (set indices)) (Max (set indices)))
              else refused ''no_navigation_progress'')))"

definition terminal_progress :: "sample option \<Rightarrow> int \<Rightarrow> metrics_exn + pydict option" where
  "terminal_progress mission_terminal end' =
     (case mission_terminal of
        None \<Rightarrow> Inr None
      | Some m \<Rightarrow>
          bindE (require_int (dget m ''stamp_ns'') ''mission_terminal.stamp_ns'') (\<lambda>terminal_stamp.
          Inr (if dget m ''status'' = PStr ''SUCCEEDED'' \<and> terminal_stamp \<le> end'
               then Some [(''predicate'', PStr ''mission_succeeded''), (''stamp_ns'', PInt terminal_stamp)]
               else None)))"

definition progress_window ::
  "(pyfloat \<Rightarrow> pyfloat \<Rightarrow> pyfloat) \<Rightarrow> sample list \<Rightarrow> sample list \<Rightarrow> sample option \<Rightarrow> int \<Rightarrow> int
     \<Rightarrow> metrics_exn + (bool \<times> pydict)" where
  "progress_window hypot ground_truth feedback mission_terminal start end' =
     bindE (terminal_progress mission_terminal end') (\<lambda>succeeded.
     case succeeded of
       Some evidence \<Rightarrow> Inr (True, evidence)
     | None \<Rightarrow>
         bindE (catch_unavailable (motion_progress hypot ground_truth start end')) (\<lambda>moved.
         case moved of
           Some evidence \<Rightarrow> Inr (True, evidence)
         | None \<Rightarrow>
             bindE (samples_within ''feedback.stamp_ns'' (\<lambda>t. start \<le> t \<and> t \<le> end') feedback) feedback_progress))"

section \<open>The recovery search\<close>

definition FAILURE_STATUSES :: "string list" where
  "FAILURE_STATUSES = [''ABORTED'', ''CANCELED'', ''INFRASTRUCTURE_ERROR'', ''REJECTED'', ''TIMED_OUT'']"

text \<open>Membership in a set of strings; a list or dictionary is not hashable.\<close>

definition status_failed :: "pyval \<Rightarrow> metrics_exn + bool" where
  "status_failed status =
     (case status of
        PStr s \<Rightarrow> Inr (s \<in> set FAILURE_STATUSES)
      | PList _ \<Rightarrow> Inl MetricTypeError
      | PDict _ \<Rightarrow> Inl MetricTypeError
      | _ \<Rightarrow> Inr False)"

record recovery_inputs =
  ri_validated_scans :: "sample list"
  ri_lifecycle_samples :: "sample list"
  ri_required_nodes :: "string list"
  ri_ground_truth :: "sample list"
  ri_feedback :: "sample list"
  ri_collision_events :: "sample list"
  ri_mission_terminal :: "sample option"
  ri_window_ns :: int
  ri_maximum_scan_gap_ns :: int
  ri_lifecycle_margin_ns :: int

record sensor_recovery =
  lifecycle_evidence :: pydict
  progress_evidence :: pydict
  recovered_stamp_ns :: int
  rejected_candidate_count :: int
  rejected_candidates :: "pydict list"
  scan_evidence :: pydict
  sensor_recovery_time_sim_s :: pyfloat
  window_end_stamp_ns :: int
  window_start_stamp_ns :: int

fun waypoints_monotone :: "int option \<Rightarrow> sample list \<Rightarrow> metrics_exn + unit" where
  "waypoints_monotone last_waypoint [] = Inr ()"
| "waypoints_monotone last_waypoint (s # ss) =
     bindE (require_int (dget s ''current_waypoint'') ''feedback.current_waypoint'') (\<lambda>current.
     bindE (guardE (case last_waypoint of None \<Rightarrow> True | Some w \<Rightarrow> \<not> current < w)
       (MetricUnavailable ''feedback waypoint index regressed'')) (\<lambda>_.
     waypoints_monotone (Some current) ss))"

definition ordered_callback_samples :: "sample list \<Rightarrow> string \<Rightarrow> metrics_exn + unit" where
  "ordered_callback_samples samples name =
     bindE (ordered_from name (name @ '' is not in deterministic callback order'') 0 None samples) (\<lambda>_. Inr ())"

text \<open>The checks of one candidate window: \<open>Inl\<close> the evidence of its rejection, \<open>Inr\<close> the three pieces of
  evidence of an accepted window.\<close>

definition candidate_window ::
  "(pyfloat \<Rightarrow> pyfloat \<Rightarrow> pyfloat) \<Rightarrow> recovery_inputs \<Rightarrow> int list \<Rightarrow> int
     \<Rightarrow> metrics_exn + (pydict + (pydict \<times> pydict \<times> pydict))" where
  "candidate_window hypot inp restored_stamps end' =
     (let start = end' - ri_window_ns inp;
          reject = (\<lambda>evidence. Inr (Inl ((''end_stamp_ns'', PInt end') # evidence)));
          (scan_ok, scan_ev) = scan_window restored_stamps start end' (ri_maximum_scan_gap_ns inp) in
      if \<not> scan_ok then reject scan_ev
      else bindE (lifecycle_window (ri_lifecycle_samples inp) (ri_required_nodes inp) start end'
                    (ri_lifecycle_margin_ns inp)) (\<lambda>(lifecycle_ok, lifecycle_ev).
        if \<not> lifecycle_ok then reject lifecycle_ev
        else bindE (next_with ''start_stamp_ns'' ''collision.start_stamp_ns'' (\<lambda>t. start \<le> t \<and> t \<le> end')
                      (ri_collision_events inp)) (\<lambda>collision.
          if collision \<noteq> None then reject [(''reason'', PStr ''collision_in_window'')]
          else bindE (progress_window hypot (ri_ground_truth inp) (ri_feedback inp) (ri_mission_terminal inp) start end')
            (\<lambda>(progress_ok, progress_ev).
            if \<not> progress_ok then reject progress_ev else Inr (Inr (scan_ev, lifecycle_ev, progress_ev))))))"

fun recovery_loop ::
  "(pyfloat \<Rightarrow> pyfloat \<Rightarrow> pyfloat) \<Rightarrow> recovery_inputs \<Rightarrow> int list \<Rightarrow> int \<Rightarrow> pydict list \<Rightarrow> int list
     \<Rightarrow> metrics_exn + sensor_recovery" where
  "recovery_loop hypot inp restored_stamps deactivation rejected [] =
     Inl (MetricUnavailable ''no qualifying sensor-recovery window'')"
| "recovery_loop hypot inp restored_stamps deactivation rejected (end' # ends) =
     bindE (candidate_window hypot inp restored_stamps end') (\<lambda>r.
     case r of
       Inl evidence \<Rightarrow> recovery_loop hypot inp restored_stamps deactivation (rejected @ [evidence]) ends
     | Inr (scan_ev, lifecycle_ev, progress_ev) \<Rightarrow>
         bindE (ns_seconds (end' - deactivation)) (\<lambda>time_s.
         Inr \<lparr>lifecycle_evidence = lifecycle_ev, progress_evidence = progress_ev, recovered_stamp_ns = end',
              rejected_candidate_count = int (length rejected), rejected_candidates = rejected, scan_evidence = scan_ev, sensor_recovery_time_sim_s = time_s,
              window_end_stamp_ns = end', window_start_stamp_ns = end' - ri_window_ns inp\<rparr>))"

text \<open>The candidate ends: the earliest possible one and every recorded stamp after it.\<close>

definition candidate_ends :: "recovery_inputs \<Rightarrow> int \<Rightarrow> metrics_exn + int list" where
  "candidate_ends inp deactivation =
     bindE (traverse (\<lambda>s. require_int (dget s ''stamp_ns'') ''candidate.stamp_ns'')
       (ri_validated_scans inp @ ri_ground_truth inp @ ri_feedback inp @ ri_lifecycle_samples inp)) (\<lambda>stamps.
     bindE (case ri_mission_terminal inp of
              None \<Rightarrow> Inr []
            | Some m \<Rightarrow> bindE (require_int (dget m ''stamp_ns'') ''mission_terminal.stamp_ns'') (\<lambda>t. Inr [t])) (\<lambda>final.
     let earliest = deactivation + ri_window_ns inp in
     Inr (sort (remdups (earliest # filter (\<lambda>t. t \<ge> earliest) (stamps @ final))))))"

definition sensor_recovery_metrics ::
  "(pyfloat \<Rightarrow> pyfloat \<Rightarrow> pyfloat) \<Rightarrow> pyval \<Rightarrow> recovery_inputs \<Rightarrow> metrics_exn + sensor_recovery" where
  "sensor_recovery_metrics hypot actual_deactivation inp =
     bindE (require_int actual_deactivation ''actual_deactivation_stamp_ns'') (\<lambda>deactivation.
     bindE (guardE (\<not> (ri_window_ns inp \<le> 0 \<or> ri_maximum_scan_gap_ns inp \<le> 0 \<or> ri_lifecycle_margin_ns inp < 0))
       (MetricValueError ''recovery timing parameters are invalid'')) (\<lambda>_.
     bindE (guardE (ri_required_nodes inp \<noteq> []) (MetricUnavailable ''required lifecycle node set is empty'')) (\<lambda>_.
     bindE (case ri_mission_terminal inp of None \<Rightarrow> Inr False | Some m \<Rightarrow> status_failed (dget m ''status'')) (\<lambda>failed.
     bindE (guardE (\<not> failed) (MetricUnavailable ''bound mission eventually failed'')) (\<lambda>_.
     bindE (ordered_callback_samples (ri_lifecycle_samples inp) ''lifecycle_samples'') (\<lambda>_.
     bindE (ordered_callback_samples (ri_feedback inp) ''feedback'') (\<lambda>_.
     bindE (waypoints_monotone None (ri_feedback inp)) (\<lambda>_.
     bindE (strict_stamps (ri_validated_scans inp) ''validated_scans'') (\<lambda>scan_stamps.
     let restored_stamps = filter (\<lambda>t. t \<ge> deactivation) scan_stamps in
     bindE (guardE (restored_stamps \<noteq> []) (MetricUnavailable ''no restored validated scans exist'')) (\<lambda>_.
     bindE (candidate_ends inp deactivation) (\<lambda>ends.
     recovery_loop hypot inp restored_stamps deactivation [] ends)))))))))))"
section \<open>What a measured outage proves\<close>

definition wall_of :: "sample \<Rightarrow> int" where
  "wall_of e = (case dget e ''steady_wall_ns'' of PInt w \<Rightarrow> w | _ \<Rightarrow> 0)"

lemma find_split:
  "List.find p xs = Some x \<Longrightarrow> \<exists>ys zs. xs = ys @ x # zs \<and> p x \<and> list_all (\<lambda>y. \<not> p y) ys"
proof (induction xs)
  case (Cons a xs)
  show ?case
  proof (cases "p a")
    case True
    with Cons.prems show ?thesis by (intro exI [of _ "[]"] exI [of _ xs]) auto
  next
    case False
    with Cons obtain ys zs where "xs = ys @ x # zs" "p x" "list_all (\<lambda>y. \<not> p y) ys" by auto
    with False show ?thesis by (intro exI [of _ "a # ys"] exI [of _ zs]) auto
  qed
qed simp

lemma first_where_Inr:
  assumes "first_where p message xs = Inr x"
  shows "\<exists>ys zs. xs = ys @ x # zs \<and> p x \<and> list_all (\<lambda>y. \<not> p y) ys"
  using assms find_split by (auto simp: first_where_def split: option.splits)

definition event_before :: "checked_event \<Rightarrow> checked_event \<Rightarrow> bool" where
  "event_before x y \<longleftrightarrow> fst x < fst y \<and> fst (snd x) \<le> fst (snd y)"

lemma event_before_trans: "event_before x y \<Longrightarrow> event_before y z \<Longrightarrow> event_before x z"
  by (auto simp: event_before_def)

lemma check_events_Inr:
  assumes "check_events index previous events = Inr ordered"
  shows "map (\<lambda>(q, w, e). e) ordered = events" "sorted_wrt event_before ordered"
    "list_all (\<lambda>(q, w, e). wall_of e = w) ordered"
    "list_all (\<lambda>x. above previous (\<lambda>p y. event_before (fst p, snd p, e0) (fst y, snd y, e0)) (fst x, fst (snd x))) ordered"
proof (atomize (full), use assms in \<open>induction events arbitrary: index previous ordered\<close>)
  case (Cons e events)
  then obtain q w rest where e: "dget e ''sequence'' = PInt q" "dget e ''steady_wall_ns'' = PInt w"
      "above previous (\<lambda>p y. event_before (fst p, snd p, e0) (fst y, snd y, e0)) (q, w)"
      "check_events (index + 1) (Some (q, w)) events = Inr rest" "ordered = (q, w, e) # rest"
    by (cases previous) (auto simp: err_simps above_def event_before_def)
  have "event_before (q, w, e) x" if "event_before (q, w, e0) (fst x, fst (snd x), e0)" for x
    using that by (simp add: event_before_def)
  with Cons.IH [OF e(4)] e show ?case
    by (cases previous) (auto simp: above_def list_all_iff wall_of_def intro: event_before_trans)
qed simp

text \<open>The pairs of schedule and start stamps, in the order of the log.\<close>

definition flat_pairs :: "(int \<times> int) list \<Rightarrow> int list" where
  "flat_pairs pairs = concat (map (\<lambda>(s, c). [s, c]) pairs)"

lemma restart_loop_Inr:
  assumes "restart_loop (scheduled \<noteq> None) scheduled items = Inr pairs"
  shows "length pairs = length (filter (\<lambda>(q, w, e). of_kind ''restart_scheduled'' e) items)
           + (if scheduled = None then 0 else 1)"
    "subseq (flat_pairs pairs) ((case scheduled of None \<Rightarrow> [] | Some s \<Rightarrow> [s]) @ map (\<lambda>(q, w, e). w) items)"
proof (atomize (full), use assms in \<open>induction items arbitrary: scheduled pairs\<close>)
  case Nil
  then show ?case by (cases scheduled) (auto simp: err_simps flat_pairs_def)
next
  case (Cons x items)
  obtain q w e where x: "x = (q, w, e)" by (cases x)
  consider (schedule) "of_kind ''restart_scheduled'' e" "scheduled = None"
      "restart_loop True (Some w) items = Inr pairs"
    | (start) s rest where "\<not> of_kind ''restart_scheduled'' e" "scheduled = Some s"
      "restart_loop False None items = Inr rest" "pairs = (s, w) # rest"
    | (other) "\<not> of_kind ''restart_scheduled'' e" "restart_loop (scheduled \<noteq> None) scheduled items = Inr pairs"
    using Cons.prems by (auto simp: x err_simps split: if_splits option.splits)
  then show ?case
  proof cases
    case schedule
    then show ?thesis using Cons.IH [of "Some w" pairs] by (simp add: x)
  next
    case start
    then show ?thesis using Cons.IH [of None rest] by (simp add: x flat_pairs_def)
  next
    case other
    then show ?thesis using Cons.IH [of scheduled pairs]
      by (cases scheduled) (auto simp: x intro: subseq_Cons' list_emb_Cons dest: subseq_order.trans)
  qed
qed
lemma restart_loop_snoc:
  assumes "\<not> of_kind ''restart_scheduled'' (snd (snd r))" "\<not> of_kind ''child_started'' (snd (snd r))"
  shows "restart_loop pending scheduled (items @ [r]) = restart_loop pending scheduled items"
proof (induction items arbitrary: pending scheduled)
  case Nil
  then show ?case using assms by (cases r) simp
next
  case (Cons x items)
  then show ?case by (cases x) (simp split: option.splits)
qed

lemma sorted_subseq: "subseq xs ys \<Longrightarrow> sorted (ys :: int list) \<Longrightarrow> sorted xs"
proof (induction rule: list_emb.induct)
  case (list_emb_Cons2 x y xs ys)
  then show ?case using list_emb_set by fastforce
qed auto

text \<open>In the ordered segment, the failure and the restoration cut out the outage.\<close>

lemma outage_split:
  assumes "sorted_wrt event_before ordered"
    and "first_where (\<lambda>(_, _, e). of_kind ''failure_detected'' e) message1 ordered = Inr F"
    and "first_where (\<lambda>(q, _, e). q > fst F \<and> readiness True e) message2 ordered = Inr R"
  shows "\<exists>A B C. ordered = A @ F # B @ R # C
    \<and> list_all (\<lambda>(_, _, e). \<not> of_kind ''failure_detected'' e) A \<and> of_kind ''failure_detected'' (snd (snd F))
    \<and> list_all (\<lambda>(_, _, e). \<not> readiness True e) B \<and> readiness True (snd (snd R))
    \<and> filter (\<lambda>(q, _, _). fst F \<le> q \<and> q \<le> fst R) ordered = F # B @ [R]"
proof -
  obtain A Z where A: "ordered = A @ F # Z" "of_kind ''failure_detected'' (snd (snd F))"
      "list_all (\<lambda>(_, _, e). \<not> of_kind ''failure_detected'' e) A"
    using first_where_Inr [OF assms(2)] by (auto simp: case_prod_beta list_all_iff)
  obtain Y C where Y: "ordered = Y @ R # C" "fst F < fst R" "readiness True (snd (snd R))"
      "list_all (\<lambda>(q, _, e). \<not> (q > fst F \<and> readiness True e)) Y"
    using first_where_Inr [OF assms(3)] by (auto simp: case_prod_beta list_all_iff)
  have sorted: "sorted_wrt (\<lambda>x y. fst x < fst y) ordered"
    using assms(1) by (rule sorted_wrt_mono_rel [rotated]) (simp add: event_before_def)
  have "R \<in> set Z"
  proof -
    have "R \<in> set (A @ F # Z)" using A(1) Y(1) by (metis in_set_conv_decomp)
    moreover have "R \<notin> set A" using sorted A(1) Y(2) by (auto simp: sorted_wrt_append)
    ultimately show ?thesis using Y(2) by auto
  qed
  then obtain B D where Z: "Z = B @ R # D" by (meson split_list)
  have "Y = A @ F # B \<and> C = D"
  proof (rule append_Cons_eq_iff [THEN iffD1])
    show "R \<notin> set Y" "R \<notin> set C" using sorted Y(1) by (auto simp: sorted_wrt_append)
    show "Y @ R # C = (A @ F # B) @ R # D" using A(1) Y(1) Z by simp
  qed
  then have ord: "ordered = A @ F # B @ R # C" and B: "\<forall>x \<in> set B. \<not> (fst x > fst F \<and> readiness True (snd (snd x)))"
    using Y by (auto simp: list_all_iff)
  have between: "\<forall>x \<in> set A. fst x < fst F" "\<forall>x \<in> set B. fst F < fst x \<and> fst x < fst R" "\<forall>x \<in> set C. fst R < fst x"
    using sorted by (auto simp: ord sorted_wrt_append)
  have "filter (\<lambda>(q, _, _). fst F \<le> q \<and> q \<le> fst R) ordered = F # B @ [R]"
  proof -
    have "filter (\<lambda>x. fst F \<le> fst x \<and> fst x \<le> fst R) A = []" "filter (\<lambda>x. fst F \<le> fst x \<and> fst x \<le> fst R) C = []"
      "filter (\<lambda>x. fst F \<le> fst x \<and> fst x \<le> fst R) B = B"
      using between by (force simp: filter_empty_conv filter_id_conv)+
    then show ?thesis using Y(2) by (simp add: ord case_prod_unfold)
  qed
  moreover have "list_all (\<lambda>(_, _, e). \<not> readiness True e) B"
    using B between(2) by (auto simp: list_all_iff)
  ultimately show ?thesis using ord A(2,3) Y(3) by blast
qed

lemma latest_start_last:
  assumes "supervisor_starts events \<noteq> []"
  shows "\<exists>pre s rest. events = pre @ s # rest \<and> drop (List.last (supervisor_starts events)) events = s # rest
    \<and> of_kind ''supervisor_started'' s \<and> list_all (\<lambda>e. \<not> of_kind ''supervisor_started'' e) rest"
proof -
  let ?n = "List.last (supervisor_starts events)"
  have n: "?n \<in> set (supervisor_starts events)" using assms by simp
  then have lt: "?n < length events" and k: "of_kind ''supervisor_started'' (events ! ?n)"
    by (auto simp: supervisor_starts_def)
  have "sorted (supervisor_starts events)"
    unfolding supervisor_starts_def using sorted_filter [of "\<lambda>x. x" "[0..<length events]"] by simp
  then have max: "i \<le> ?n" if "i \<in> set (supervisor_starts events)" for i
    using sorted_last_max [of "\<lambda>x. x"] that by simp
  have "\<not> of_kind ''supervisor_started'' e" if "e \<in> set (drop (Suc ?n) events)" for e
  proof
    assume e: "of_kind ''supervisor_started'' e"
    from that obtain i where "i < length events - Suc ?n" "e = events ! (Suc ?n + i)"
      by (auto simp: in_set_conv_nth)
    with e have "Suc ?n + i \<in> set (supervisor_starts events)" by (simp add: supervisor_starts_def)
    from max [OF this] show False by simp
  qed
  then show ?thesis using id_take_nth_drop [OF lt] Cons_nth_drop_Suc [OF lt] k
    by (intro exI [of _ "take ?n events"] exI [of _ "events ! ?n"] exI [of _ "drop (Suc ?n) events"])
      (auto simp: list_all_iff)
qed

definition event_of :: "checked_event \<Rightarrow> sample" where "event_of x = snd (snd x)"

text \<open>The restart pairs of an outage \<open>B\<close> between a failure \<open>F\<close> and a restoration \<open>R\<close>.\<close>

lemma outage_pairs:
  assumes "sorted_wrt event_before (A @ F # B @ R # C)" "list_all (\<lambda>(q, w, e). wall_of e = w) (A @ F # B @ R # C)"
    and "of_kind ''failure_detected'' (event_of F)" "readiness True (event_of R)"
    and loop: "restart_loop False None (F # B @ [R]) = Inr pairs"
  shows "length pairs = length (filter (of_kind ''restart_scheduled'') (map event_of B))"
    "subseq (flat_pairs pairs) (map wall_of (map event_of B))"
    "sorted (wall_of (event_of F) # flat_pairs pairs @ [wall_of (event_of R)])"
proof -
  have kinds: "\<not> of_kind ''restart_scheduled'' (event_of F)" "\<not> of_kind ''restart_scheduled'' (snd (snd R))"
      "\<not> of_kind ''child_started'' (snd (snd R))"
    using assms(3,4) by (auto simp: of_kind_def readiness_def event_of_def)
  have walls: "map (\<lambda>(q, w, e). w) B = map wall_of (map event_of B)"
      "map (\<lambda>(q, w, e). w) (F # B @ [R]) = wall_of (event_of F) # map wall_of (map event_of B) @ [wall_of (event_of R)]"
    using assms(2) by (auto simp: list_all_iff case_prod_unfold event_of_def)
  have "restart_loop False None B = Inr pairs"
    using loop kinds(1) by (cases F) (simp add: restart_loop_snoc [OF kinds(2,3)] event_of_def)
  note loop = restart_loop_Inr [of None B pairs, simplified, OF this]
  show "length pairs = length (filter (of_kind ''restart_scheduled'') (map event_of B))"
    using loop(1) by (simp add: filter_map comp_def case_prod_unfold event_of_def)
  show sub: "subseq (flat_pairs pairs) (map wall_of (map event_of B))" using loop(2) walls(1) by simp
  have "sorted (map (\<lambda>(q, w, e). w) (F # B @ [R]))"
    using assms(1) unfolding sorted_map
    by (auto simp: sorted_wrt_append event_before_def case_prod_unfold intro: sorted_wrt_mono_rel [rotated])
  then have "sorted (wall_of (event_of F) # map wall_of (map event_of B) @ [wall_of (event_of R)])" unfolding walls(2) .
  moreover have "subseq (wall_of (event_of F) # flat_pairs pairs @ [wall_of (event_of R)])
      (wall_of (event_of F) # map wall_of (map event_of B) @ [wall_of (event_of R)])"
    using sub by (simp add: list_emb_append_mono)
  ultimately show "sorted (wall_of (event_of F) # flat_pairs pairs @ [wall_of (event_of R)])" by (rule sorted_subseq [rotated])
qed

text \<open>A measured supervisor outage: the log's latest segment splits at the first failure \<open>f\<close> and the next
  restoration \<open>r\<close> of readiness. Between them readiness is withdrawn and never given back, every
  scheduled restart is followed by a child start, the reported pairs are stamps of that part of
  the log in its order, and their number is the number of scheduled restarts, at least one.\<close>

theorem supervisor_outage_sound:
  assumes "supervisor_recovery_metrics events = Inr m"
  shows "\<exists>pre s a f b r c. events = pre @ s # a @ f # b @ r # c
    \<and> of_kind ''supervisor_started'' s \<and> list_all (\<lambda>e. \<not> of_kind ''supervisor_started'' e) (a @ f # b @ r # c)
    \<and> list_all (\<lambda>e. \<not> of_kind ''failure_detected'' e) a \<and> of_kind ''failure_detected'' f
    \<and> list_all (\<lambda>e. \<not> readiness True e) b \<and> list_ex (readiness False) b \<and> readiness True r
    \<and> failure_detected_wall_ns m = wall_of f \<and> ready_restored_wall_ns m = wall_of r
    \<and> restart_count m = int (length (filter (of_kind ''restart_scheduled'') b)) \<and> 0 < restart_count m
    \<and> restart_count m = int (length (restart_pairs m)) \<and> subseq (flat_pairs (restart_pairs m)) (map wall_of b)
    \<and> sorted (wall_of f # flat_pairs (restart_pairs m) @ [wall_of r])"
proof -
  from assms obtain ordered F R N pairs where
      starts: "supervisor_starts events \<noteq> []"
    and ordered: "check_events (List.last (supervisor_starts events)) None
        (drop (List.last (supervisor_starts events)) events) = Inr ordered"
    and F: "first_where (\<lambda>(_, _, e). of_kind ''failure_detected'' e)
        ''supervisor failure_detected event is missing'' ordered = Inr F"
    and R: "first_where (\<lambda>(q, _, e). q > fst F \<and> readiness True e)
        ''supervisor readiness restoration is missing'' ordered = Inr R"
    and N: "first_where (\<lambda>(_, _, e). readiness False e) ''readiness false transition is missing during outage''
        (filter (\<lambda>(q, _, _). fst F \<le> q \<and> q \<le> fst R) ordered) = Inr N"
    and pairs: "restart_loop False None (filter (\<lambda>(q, _, _). fst F \<le> q \<and> q \<le> fst R) ordered) = Inr pairs"
      "length pairs \<noteq> 0"
    and m: "failure_detected_wall_ns m = fst (snd F)" "ready_restored_wall_ns m = fst (snd R)"
      "restart_count m = int (length pairs)" "restart_pairs m = pairs"
    unfolding supervisor_recovery_metrics_def Let_def by (force simp: err_simps)
  note o = check_events_Inr [OF ordered]
  obtain A B C where split: "ordered = A @ F # B @ R # C"
      "list_all (\<lambda>(_, _, e). \<not> of_kind ''failure_detected'' e) A" "of_kind ''failure_detected'' (snd (snd F))"
      "list_all (\<lambda>(_, _, e). \<not> readiness True e) B" "readiness True (snd (snd R))"
      "filter (\<lambda>(q, _, _). fst F \<le> q \<and> q \<le> fst R) ordered = F # B @ [R]"
    using outage_split [OF o(2) F R] by blast
  have evs: "map event_of ordered = drop (List.last (supervisor_starts events)) events"
    using o(1) by (simp add: event_of_def [abs_def] case_prod_unfold)
  obtain pre s rest where s: "events = pre @ s # rest" "of_kind ''supervisor_started'' s"
      "list_all (\<lambda>e. \<not> of_kind ''supervisor_started'' e) rest" "map event_of ordered = s # rest"
    unfolding evs using latest_start_last [OF starts] by blast
  obtain x A' where A: "A = x # A'" using s(2,4) split(1,3) by (cases A) (auto simp: of_kind_def event_of_def)
  have rest: "rest = map event_of A' @ event_of F # map event_of B @ event_of R # map event_of C"
    using s(4) by (simp add: split(1) A)
  have loop: "restart_loop False None (F # B @ [R]) = Inr pairs" using pairs(1) unfolding split(6) .
  note p = outage_pairs [OF o(2,3) [unfolded split(1)] split(3,5) [folded event_of_def] loop]
  have "N \<in> set (F # B @ [R])" "readiness False (event_of N)"
    using first_where_Inr [OF N] unfolding split(6) by (metis in_set_conv_decomp, auto simp: case_prod_unfold event_of_def)
  then have false: "list_ex (readiness False) (map event_of B)"
    using split(3,5) by (auto simp: list_ex_iff event_of_def readiness_def of_kind_def)
  have walls: "fst (snd F) = wall_of (event_of F)" "fst (snd R) = wall_of (event_of R)"
    using o(3) by (auto simp: split(1) event_of_def case_prod_unfold)
  show ?thesis
  proof (intro exI conjI)
    show "events = pre @ s # map event_of A' @ event_of F # map event_of B @ event_of R # map event_of C" using s(1) rest by simp
    show "list_all (\<lambda>e. \<not> of_kind ''failure_detected'' e) (map event_of A')" "list_all (\<lambda>e. \<not> readiness True e) (map event_of B)"
      using split(2,4) by (auto simp: A list_all_iff event_of_def)
  qed (use s rest split(3,5) m walls p pairs(2) false in \<open>simp_all add: event_of_def\<close>)
qed

section \<open>What a reconciled dropout proves\<close>

definition in_dropout :: "int \<Rightarrow> int \<Rightarrow> sample \<Rightarrow> bool" where
  "in_dropout activation deactivation s \<longleftrightarrow> activation \<le> stamp_of s \<and> stamp_of s < deactivation"

lemma next_with_Some:
  assumes "next_with ''stamp_ns'' name p ss = Inr (Some s)" "list_all int_stamp ss"
  shows "\<exists>us vs. ss = us @ s # vs \<and> p (stamp_of s) \<and> list_all (\<lambda>u. \<not> p (stamp_of u)) us"
  using assms
proof (induction ss)
  case (Cons x ss)
  show ?case
  proof (cases "p (stamp_of x)")
    case True
    with Cons.prems show ?thesis by (intro exI [of _ "[]"] exI [of _ ss]) auto
  next
    case False
    with Cons obtain us vs where "ss = us @ s # vs" "p (stamp_of s)" "list_all (\<lambda>u. \<not> p (stamp_of u)) us" by auto
    with False show ?thesis by (intro exI [of _ "x # us"] exI [of _ vs]) auto
  qed
qed simp

lemma sorted_hd_min: "sorted (xs :: int list) \<Longrightarrow> x \<in> set xs \<Longrightarrow> hd xs \<le> x"
  by (cases xs) auto

lemma next_with_least:
  assumes "next_with ''stamp_ns'' name (\<lambda>t. t \<ge> d) ss = Inr (Some s)" "list_all int_stamp ss"
    "sorted_wrt (<) (map stamp_of ss)"
  shows "s \<in> set ss \<and> d \<le> stamp_of s \<and> (\<forall>u \<in> set ss. d \<le> stamp_of u \<longrightarrow> stamp_of s \<le> stamp_of u)"
proof -
  obtain us vs where s: "ss = us @ s # vs" "d \<le> stamp_of s" "list_all (\<lambda>u. \<not> d \<le> stamp_of u) us"
    using next_with_Some [OF assms(1,2)] by blast
  have "stamp_of s < stamp_of u" if "u \<in> set vs" for u
    using assms(3) that by (auto simp: s(1) sorted_wrt_append)
  then show ?thesis using s by (auto simp: list_all_iff intro: less_imp_le)
qed

lemma check_boundaries_Inr:
  "check_boundaries proxy affected = Inr () \<longleftrightarrow>
     (proxy_affected_message_count proxy = PNone \<or> proxy_affected_message_count proxy = PInt (int (length affected)))
     \<and> proxy_first_affected_stamp_ns proxy = PInt (hd affected)
     \<and> proxy_last_affected_stamp_ns proxy = PInt (List.last affected)"
  by (auto simp: check_boundaries_def err_simps)

text \<open>C34. A reconciled dropout: no validated scan has a stamp in the dropout interval; the reported counts are the
  number of raw scans in it, at least one, and the reported boundary stamps are those of the first and the last of
  them; the proxy reports the same boundary stamps, the same count if it reports one, and the same
  restoration stamp; and the restoration is the first raw
  scan from the configured end on, which was also validated, with the same payload hash.\<close>

theorem dropout_evidence_sound:
  assumes "analyze_lidar_dropout raw validated (PInt activation) (PInt deactivation) proxy = Inr e"
  shows "(\<forall>s \<in> set validated. \<not> in_dropout activation deactivation s)
    \<and> 0 < affected_message_count e
    \<and> affected_message_count e = int (length (filter (in_dropout activation deactivation) raw))
    \<and> raw_active_interval_count e = affected_message_count e \<and> validated_active_interval_count e = 0
    \<and> actual_first_affected_stamp_ns e = stamp_of (hd (filter (in_dropout activation deactivation) raw))
    \<and> actual_last_affected_stamp_ns e = stamp_of (List.last (filter (in_dropout activation deactivation) raw))
    \<and> (\<forall>s \<in> set raw. in_dropout activation deactivation s \<longrightarrow>
         actual_first_affected_stamp_ns e \<le> stamp_of s \<and> stamp_of s \<le> actual_last_affected_stamp_ns e)
    \<and> proxy_first_affected_stamp_ns proxy = PInt (actual_first_affected_stamp_ns e)
    \<and> proxy_last_affected_stamp_ns proxy = PInt (actual_last_affected_stamp_ns e)
    \<and> proxy_affected_message_count proxy \<in> {PNone, PInt (affected_message_count e)}
    \<and> proxy_restored proxy = PInt (actual_deactivation_stamp_ns e)
    \<and> (\<exists>r \<in> set raw. \<exists>v \<in> set validated. \<exists>h. stamp_of r = actual_deactivation_stamp_ns e \<and> stamp_of v = stamp_of r
         \<and> dget r ''payload_sha256'' = PStr h \<and> dget v ''payload_sha256'' = PStr h \<and> deactivation \<le> stamp_of r
         \<and> (\<forall>s \<in> set raw. deactivation \<le> stamp_of s \<longrightarrow> stamp_of r \<le> stamp_of s))"
proof -
  let ?in = "\<lambda>t. activation \<le> t \<and> t < deactivation"
  from assms obtain rs vs r v t where
      rs: "strict_stamps raw ''raw_scans'' = Inr rs" and vs: "strict_stamps validated ''validated_scans'' = Inr vs"
    and ne: "filter ?in rs \<noteq> []" and leak: "filter ?in vs = []"
    and proxy: "check_boundaries proxy (filter ?in rs) = Inr ()" "proxy_restored proxy = PInt t"
    and r: "next_with ''stamp_ns'' ''raw.stamp_ns'' (\<lambda>t. t \<ge> deactivation) raw = Inr (Some r)"
      "dget r ''stamp_ns'' = PInt t"
    and v: "next_with ''stamp_ns'' ''validated.stamp_ns'' (\<lambda>u. u = t) validated = Inr (Some v)"
    and hash: "case (dget r ''payload_sha256'', dget v ''payload_sha256'') of
                 (PStr a, PStr b) \<Rightarrow> a = b | _ \<Rightarrow> False"
    and e: "affected_message_count e = int (length (filter ?in rs))" "actual_first_affected_stamp_ns e = hd (filter ?in rs)"
      "actual_last_affected_stamp_ns e = List.last (filter ?in rs)" "actual_deactivation_stamp_ns e = t"
      "raw_active_interval_count e = int (length (filter ?in rs))" "validated_active_interval_count e = 0"
    unfolding analyze_lidar_dropout_def Let_def require_some_def
    by (force simp: err_simps split: option.splits)
  note raw = strict_stamps_Inr [OF rs]
  note val = strict_stamps_Inr [OF vs]
  have st: "stamp_of r = t" using int_stampI [OF r(2)] by simp
  have in_rs: "filter ?in rs = map stamp_of (filter (in_dropout activation deactivation) raw)"
    by (simp add: raw(1) filter_map comp_def in_dropout_def [abs_def])
  have sorted: "sorted (filter ?in rs)"
    using raw(3) by (simp add: strict_sorted_imp_sorted sorted_wrt_filter)
  have bounds: "hd (filter ?in rs) \<le> stamp_of s \<and> stamp_of s \<le> List.last (filter ?in rs)"
    if "s \<in> set raw" "in_dropout activation deactivation s" for s
  proof -
    have "stamp_of s \<in> set (filter ?in rs)" using that by (simp add: in_rs)
    then show ?thesis using sorted_hd_min [OF sorted] sorted_last_max [of "\<lambda>x. x", simplified, OF sorted] by blast
  qed
  have ends: "hd (filter ?in rs) = stamp_of (hd (filter (in_dropout activation deactivation) raw))"
    "List.last (filter ?in rs) = stamp_of (List.last (filter (in_dropout activation deactivation) raw))"
    using ne by (simp_all add: in_rs hd_map last_map)
  have none: "\<not> in_dropout activation deactivation s" if "s \<in> set validated" for s
    using leak that by (auto simp: val(1) filter_empty_conv in_dropout_def)
  obtain h where h: "dget r ''payload_sha256'' = PStr h" "dget v ''payload_sha256'' = PStr h"
    using hash by (auto split: pyval.splits)
  have restored: "v \<in> set validated" "stamp_of v = t" using next_with_Some [OF v val(2)] by auto
  show ?thesis
  proof (intro conjI)
    show "0 < affected_message_count e" using ne by (simp add: e(1))
    show "affected_message_count e = int (length (filter (in_dropout activation deactivation) raw))"
      by (simp add: e(1) in_rs)
    show "\<exists>r \<in> set raw. \<exists>v \<in> set validated. \<exists>h. stamp_of r = actual_deactivation_stamp_ns e \<and> stamp_of v = stamp_of r
         \<and> dget r ''payload_sha256'' = PStr h \<and> dget v ''payload_sha256'' = PStr h \<and> deactivation \<le> stamp_of r
         \<and> (\<forall>s \<in> set raw. deactivation \<le> stamp_of s \<longrightarrow> stamp_of r \<le> stamp_of s)"
      using next_with_least [OF r(1) raw(2) raw(3) [unfolded raw(1)]] restored h st e(4)
      by (intro bexI [of _ r] bexI [of _ v] exI [of _ h]) simp_all
  qed (use none ends bounds e proxy in \<open>auto simp: check_boundaries_Inr\<close>)
qed
section \<open>What an accepted recovery window proves\<close>

text \<open>A scan is fresh at \<open>t\<close> when some stamp is at or before \<open>t\<close> and not older than the limit.\<close>

definition fresh_at :: "int list \<Rightarrow> int \<Rightarrow> int \<Rightarrow> bool" where
  "fresh_at stamps limit t \<longleftrightarrow> (\<exists>x \<in> set stamps. x \<le> t \<and> t - x \<le> limit)"

lemma chain_fresh:
  assumes "xs \<noteq> []" "list_all (\<lambda>gap. gap \<le> limit) (pairwise_gaps xs)" "b - List.last xs \<le> limit" "hd xs \<le> t" "t \<le> b"
  shows "fresh_at xs limit t"
  using assms
proof (induction xs)
  case (Cons x xs)
  show ?case
  proof (cases "xs = [] \<or> t < hd xs")
    case True
    then show ?thesis using Cons.prems by (cases xs) (auto simp: fresh_at_def pairwise_gaps_def)
  next
    case False
    then have "pairwise_gaps (x # xs) = (hd xs - x) # pairwise_gaps xs" by (cases xs) (simp_all add: pairwise_gaps_def)
    with Cons False have "fresh_at xs limit t" by simp
    then show ?thesis by (auto simp: fresh_at_def)
  qed
qed simp

lemma scan_window_fresh:
  assumes "scan_window stamps a b limit = (True, ev)" "a \<le> t" "t \<le> b"
  shows "fresh_at stamps limit t"
proof -
  define n where "n = bisect_right stamps a"
  define xs where "xs = drop (n - 1) (take (bisect_right stamps b) stamps)"
  from assms(1) have n: "n \<noteq> 0" and xs: "xs \<noteq> []" "\<not> b - List.last xs > limit"
      "\<not> list_ex (\<lambda>gap. gap \<le> 0 \<or> gap > limit) (pairwise_gaps xs)"
    by (auto simp: scan_window_def n_def xs_def refused_def Let_def split: if_splits)
  have nth: "hd xs = stamps ! (n - 1)" using xs(1) by (simp add: xs_def hd_drop_conv_nth not_le min_le_iff_disj)
  have "n - 1 < length (takeWhile (\<lambda>t. t \<le> a) stamps)" using n by (simp add: n_def bisect_right_def)
  then have "stamps ! (n - 1) \<le> a" by (metis nth_mem set_takeWhileD takeWhile_nth)
  then have "hd xs \<le> t" using nth assms(2) by simp
  then have "fresh_at xs limit t" using xs assms(3)
    by (intro chain_fresh [of xs limit b]) (auto simp: list_all_iff list_ex_iff)
  then show ?thesis by (auto simp: fresh_at_def xs_def dest: in_set_dropD in_set_takeD)
qed

lemma samples_within_Inr: "samples_within name p ss = Inr xs \<Longrightarrow> xs = filter (\<lambda>s. p (stamp_of s)) ss"
  by (induction ss arbitrary: xs) (auto simp: err_simps dest!: int_stampI)

text \<open>The lifecycle condition of a window: a node is active in every sample of the window and in a sample
  close to either end.\<close>

definition active_throughout :: "sample list \<Rightarrow> string \<Rightarrow> int \<Rightarrow> int \<Rightarrow> int \<Rightarrow> bool" where
  "active_throughout samples node a b margin \<longleftrightarrow>
     (let own = filter (\<lambda>s. dget s ''node'' = PStr node) samples in
      (\<forall>s \<in> set own. a \<le> stamp_of s \<and> stamp_of s \<le> b \<longrightarrow> state_active s)
      \<and> (\<exists>s \<in> set own. a - margin \<le> stamp_of s \<and> stamp_of s \<le> a \<and> state_active s)
      \<and> (\<exists>s \<in> set own. b \<le> stamp_of s \<and> stamp_of s \<le> b + margin \<and> state_active s))"

lemma node_window_active:
  assumes "node_window samples node a b margin = Inr (Inr e)"
  shows "active_throughout samples node a b margin"
proof -
  let ?own = "filter (\<lambda>s. dget s ''node'' = PStr node) samples"
  from assms obtain before after between where w:
      "samples_within ''lifecycle.stamp_ns'' (\<lambda>t. a - margin \<le> t \<and> t \<le> a) ?own = Inr before"
      "samples_within ''lifecycle.stamp_ns'' (\<lambda>t. b \<le> t \<and> t \<le> b + margin) ?own = Inr after"
      "samples_within ''lifecycle.stamp_ns'' (\<lambda>t. a \<le> t \<and> t \<le> b) ?own = Inr between"
    and ok: "before \<noteq> []" "state_active (List.last before)" "after \<noteq> []" "state_active (hd after)"
      "\<not> list_ex (\<lambda>s. \<not> state_active s) between"
    unfolding node_window_def Let_def bindE_Inr_iff by (auto split: if_splits)
  have "List.last before \<in> set before" "hd after \<in> set after" using ok by simp_all
  with ok show ?thesis
    unfolding samples_within_Inr [OF w(1)] samples_within_Inr [OF w(2)] samples_within_Inr [OF w(3)]
    by (auto simp: active_throughout_def list_ex_iff)
qed

lemma lifecycle_loop_active:
  "lifecycle_loop samples a b margin evidence nodes = Inr (True, ev) \<Longrightarrow> node \<in> set nodes
     \<Longrightarrow> active_throughout samples node a b margin"
proof (induction nodes arbitrary: evidence)
  case (Cons n nodes)
  then obtain r where r: "node_window samples n a b margin = Inr r" by (auto simp: err_simps)
  with Cons show ?case by (cases r) (auto dest: node_window_active)
qed simp

lemma next_with_None:
  "next_with key name p ss = Inr None \<Longrightarrow> s \<in> set ss \<Longrightarrow> \<exists>i. dget s key = PInt i \<and> \<not> p i"
  by (induction ss) (auto simp: err_simps split: if_splits)

lemma recovery_loop_Inr:
  assumes "recovery_loop hypot inp restored d rejected ends = Inr m"
  shows "\<exists>us b vs ys ev. ends = us @ b # vs \<and> candidate_window hypot inp restored b = Inr (Inr ev)
    \<and> recovered_stamp_ns m = b \<and> window_end_stamp_ns m = b \<and> window_start_stamp_ns m = b - ri_window_ns inp
    \<and> rejected_candidates m = rejected @ ys \<and> list_all2 (\<lambda>u r. candidate_window hypot inp restored u = Inr (Inl r)) us ys"
  using assms
proof (induction ends arbitrary: rejected)
  case (Cons e ends)
  then obtain r where r: "candidate_window hypot inp restored e = Inr r" by (auto simp: err_simps)
  show ?case
  proof (cases r)
    case (Inl x)
    with Cons.prems r have "recovery_loop hypot inp restored d (rejected @ [x]) ends = Inr m" by simp
    from Cons.IH [OF this] obtain us b vs ys ev where IH: "ends = us @ b # vs"
        "candidate_window hypot inp restored b = Inr (Inr ev)"
        "recovered_stamp_ns m = b" "window_end_stamp_ns m = b" "window_start_stamp_ns m = b - ri_window_ns inp"
        "rejected_candidates m = (rejected @ [x]) @ ys"
        "list_all2 (\<lambda>u r. candidate_window hypot inp restored u = Inr (Inl r)) us ys" by blast
    then show ?thesis using r Inl
      by (intro exI [of _ "e # us"] exI [of _ b] exI [of _ vs] exI [of _ "x # ys"] exI [of _ ev]) simp
  next
    case (Inr x)
    with Cons.prems r show ?thesis
      by (intro exI [of _ "[]"] exI [of _ e] exI [of _ ends] exI [of _ "[]"] exI [of _ x])
        (auto simp: err_simps split: prod.splits)
  qed
qed simp

lemma candidate_window_sound:
  assumes "candidate_window hypot inp restored b = Inr (Inr ev)"
  shows "\<exists>sc. scan_window restored (b - ri_window_ns inp) b (ri_maximum_scan_gap_ns inp) = (True, sc)"
    "\<exists>lc. lifecycle_window (ri_lifecycle_samples inp) (ri_required_nodes inp) (b - ri_window_ns inp) b
       (ri_lifecycle_margin_ns inp) = Inr (True, lc)"
    "next_with ''start_stamp_ns'' ''collision.start_stamp_ns'' (\<lambda>t. b - ri_window_ns inp \<le> t \<and> t \<le> b)
       (ri_collision_events inp) = Inr None"
    "\<exists>pr. progress_window hypot (ri_ground_truth inp) (ri_feedback inp) (ri_mission_terminal inp)
       (b - ri_window_ns inp) b = Inr (True, pr)"
  using assms unfolding candidate_window_def Let_def
  by (auto simp: err_simps split: prod.splits if_splits)

lemma candidate_ends_Inr:
  assumes "candidate_ends inp d = Inr ends"
  shows "sorted ends" "distinct ends" "list_all (\<lambda>e. d + ri_window_ns inp \<le> e) ends" "d + ri_window_ns inp \<in> set ends"
    "s \<in> set (ri_validated_scans inp @ ri_ground_truth inp @ ri_feedback inp @ ri_lifecycle_samples inp)
       \<Longrightarrow> d + ri_window_ns inp \<le> stamp_of s \<Longrightarrow> stamp_of s \<in> set ends"
proof -
  let ?all = "ri_validated_scans inp @ ri_ground_truth inp @ ri_feedback inp @ ri_lifecycle_samples inp"
  let ?e = "d + ri_window_ns inp"
  from assms obtain stamps final where
      stamps: "traverse (\<lambda>s. require_int (dget s ''stamp_ns'') ''candidate.stamp_ns'') ?all = Inr stamps"
    and ends: "ends = sort (remdups (?e # filter (\<lambda>t. t \<ge> ?e) (stamps @ final)))"
    unfolding candidate_ends_def Let_def bindE_Inr_iff by auto
  have "stamps = map stamp_of ?all"
    using stamps unfolding traverse_Inr_iff by (induction rule: list_all2_induct) (auto dest: int_stampI)
  then show "s \<in> set ?all \<Longrightarrow> ?e \<le> stamp_of s \<Longrightarrow> stamp_of s \<in> set ends" by (auto simp: ends)
  have set: "set ends = insert ?e {t \<in> set (stamps @ final). ?e \<le> t}"
    unfolding ends set_sort set_remdups by auto
  show "sorted ends" "distinct ends" unfolding ends by (simp_all only: sorted_sort distinct_sort distinct_remdups)
  show "list_all (\<lambda>e. ?e \<le> e) ends" "?e \<in> set ends" unfolding list_all_iff set by auto
qed

lemma sensor_recovery_Inr:
  assumes "sensor_recovery_metrics hypot (PInt d) inp = Inr m"
  shows "\<exists>scans ends. strict_stamps (ri_validated_scans inp) ''validated_scans'' = Inr scans
    \<and> candidate_ends inp d = Inr ends \<and> recovery_loop hypot inp (filter (\<lambda>t. t \<ge> d) scans) d [] ends = Inr m
    \<and> 0 < ri_window_ns inp"
  using assms unfolding sensor_recovery_metrics_def Let_def bindE_Inr_iff by auto

text \<open>C35. An accepted recovery: in the reported window, which lies wholly after the end of the dropout, a restored
  scan is fresh at every instant, every required lifecycle node is active throughout and close to
  both ends, and no collision starts.\<close>

theorem recovery_window_sound:
  assumes "sensor_recovery_metrics hypot (PInt d) inp = Inr m"
  shows "window_start_stamp_ns m = window_end_stamp_ns m - ri_window_ns inp \<and> d \<le> window_start_stamp_ns m
    \<and> (\<forall>t. window_start_stamp_ns m \<le> t \<and> t \<le> window_end_stamp_ns m \<longrightarrow>
         fresh_at (filter (\<lambda>u. d \<le> u) (map stamp_of (ri_validated_scans inp))) (ri_maximum_scan_gap_ns inp) t)
    \<and> (\<forall>node \<in> set (ri_required_nodes inp). active_throughout (ri_lifecycle_samples inp) node
         (window_start_stamp_ns m) (window_end_stamp_ns m) (ri_lifecycle_margin_ns inp))
    \<and> (\<forall>c \<in> set (ri_collision_events inp). \<exists>i. dget c ''start_stamp_ns'' = PInt i
         \<and> \<not> (window_start_stamp_ns m \<le> i \<and> i \<le> window_end_stamp_ns m))"
proof -
  obtain scans ends where g: "strict_stamps (ri_validated_scans inp) ''validated_scans'' = Inr scans"
      "candidate_ends inp d = Inr ends" "recovery_loop hypot inp (filter (\<lambda>t. t \<ge> d) scans) d [] ends = Inr m"
    using sensor_recovery_Inr [OF assms] by blast
  obtain us b vs ys ev where b: "ends = us @ b # vs"
      "candidate_window hypot inp (filter (\<lambda>t. t \<ge> d) scans) b = Inr (Inr ev)"
      "window_end_stamp_ns m = b" "window_start_stamp_ns m = b - ri_window_ns inp"
    using recovery_loop_Inr [OF g(3)] by blast
  note w = candidate_window_sound [OF b(2)]
  have "d \<le> window_start_stamp_ns m" using candidate_ends_Inr(3) [OF g(2)] b by simp
  moreover have "fresh_at (filter (\<lambda>u. d \<le> u) (map stamp_of (ri_validated_scans inp))) (ri_maximum_scan_gap_ns inp) t"
    if "window_start_stamp_ns m \<le> t" "t \<le> window_end_stamp_ns m" for t
    using w(1) scan_window_fresh that b strict_stamps_Inr(1) [OF g(1)] by auto
  moreover have "active_throughout (ri_lifecycle_samples inp) node (window_start_stamp_ns m) (window_end_stamp_ns m)
      (ri_lifecycle_margin_ns inp)" if "node \<in> set (ri_required_nodes inp)" for node
    using w(2) that b by (auto simp: lifecycle_window_def intro: lifecycle_loop_active)
  moreover have "\<exists>i. dget c ''start_stamp_ns'' = PInt i \<and> \<not> (window_start_stamp_ns m \<le> i \<and> i \<le> window_end_stamp_ns m)"
    if "c \<in> set (ri_collision_events inp)" for c
    using next_with_None [OF w(3) that] b by simp
  ultimately show ?thesis using b by blast
qed

text \<open>The search is exhaustive and takes the first window: the candidate ends are the earliest possible end
  and every later recorded stamp, in increasing order; exactly the candidates before the accepted
  one are rejected, in order, each for its own failed check.\<close>

theorem recovery_window_earliest:
  assumes "sensor_recovery_metrics hypot (PInt d) inp = Inr m"
  shows "\<exists>ends restored. candidate_ends inp d = Inr ends \<and> sorted ends \<and> distinct ends
    \<and> restored = filter (\<lambda>t. d \<le> t) (map stamp_of (ri_validated_scans inp))
    \<and> recovered_stamp_ns m \<in> set ends \<and> d + ri_window_ns inp \<in> set ends
    \<and> (\<forall>s \<in> set (ri_validated_scans inp @ ri_ground_truth inp @ ri_feedback inp @ ri_lifecycle_samples inp).
         d + ri_window_ns inp \<le> stamp_of s \<longrightarrow> stamp_of s \<in> set ends)
    \<and> (\<exists>ev. candidate_window hypot inp restored (recovered_stamp_ns m) = Inr (Inr ev))
    \<and> list_all2 (\<lambda>e r. candidate_window hypot inp restored e = Inr (Inl r))
         (filter (\<lambda>e. e < recovered_stamp_ns m) ends) (rejected_candidates m)"
proof -
  obtain scans ends where g: "strict_stamps (ri_validated_scans inp) ''validated_scans'' = Inr scans"
      "candidate_ends inp d = Inr ends" "recovery_loop hypot inp (filter (\<lambda>t. t \<ge> d) scans) d [] ends = Inr m"
    using sensor_recovery_Inr [OF assms] by blast
  obtain us b vs ys ev where b: "ends = us @ b # vs"
      "candidate_window hypot inp (filter (\<lambda>t. t \<ge> d) scans) b = Inr (Inr ev)" "recovered_stamp_ns m = b"
      "rejected_candidates m = ys"
      "list_all2 (\<lambda>u r. candidate_window hypot inp (filter (\<lambda>t. t \<ge> d) scans) u = Inr (Inl r)) us ys"
    using recovery_loop_Inr [OF g(3)] by auto
  note e = candidate_ends_Inr [OF g(2)]
  have "filter (\<lambda>e. e < b) ends = us"
  proof -
    have "\<forall>u \<in> set us. u < b" "\<forall>v \<in> set vs. \<not> v < b"
      using e(1,2) by (auto simp: b(1) sorted_append order_le_less)
    then show ?thesis by (simp add: b(1))
  qed
  then have "list_all2 (\<lambda>u r. candidate_window hypot inp (filter (\<lambda>t. t \<ge> d) scans) u = Inr (Inl r))
      (filter (\<lambda>e. e < recovered_stamp_ns m) ends) (rejected_candidates m)" using b by simp
  moreover have "recovered_stamp_ns m \<in> set ends" using b by simp
  ultimately show ?thesis using b(2,3) e g(2) strict_stamps_Inr(1) [OF g(1)] by blast
qed
section \<open>Concrete captures\<close>

definition log_event :: "int \<Rightarrow> int \<Rightarrow> string \<Rightarrow> sample" where
  "log_event q w kind = [(''schema_version'', PInt 1), (''sequence'', PInt q), (''steady_wall_ns'', PInt w), (''kind'', PStr kind)]"

definition ready_event :: "int \<Rightarrow> int \<Rightarrow> bool \<Rightarrow> sample" where
  "ready_event q w ready = log_event q w ''readiness_changed'' @ [(''ready'', PBool ready)]"

definition outage_log :: "sample list" where
  "outage_log = [log_event 1 0 ''supervisor_started'', log_event 2 1000 ''failure_detected'', ready_event 3 1001 False,
     log_event 4 2000 ''restart_scheduled'', log_event 5 3000 ''child_started'', ready_event 6 1000001000 True]"

lemma second_1: "ns_seconds 1000000000 = Inr (Fin 1)"
  by (simp add: ns_seconds_def int_truediv_def)

theorem supervisor_outage_sound_witness:
  "\<exists>m. supervisor_recovery_metrics outage_log = Inr m \<and> 0 < restart_count m"
proof -
  have "\<exists>m. supervisor_recovery_metrics outage_log = Inr m"
    by (simp add: supervisor_recovery_metrics_def outage_log_def supervisor_starts_def log_event_def ready_event_def
        of_kind_def readiness_def first_where_def upt_rec numeral_nat second_1)
  then show ?thesis using supervisor_outage_sound by blast
qed

definition scan_at :: "int \<Rightarrow> sample" where
  "scan_at t = [(''stamp_ns'', PInt t), (''payload_sha256'', PStr ''a'')]"

definition seen_by_proxy :: proxy_report where
  "seen_by_proxy = \<lparr>proxy_affected_message_count = PInt 1, proxy_first_affected_stamp_ns = PInt 20,
     proxy_last_affected_stamp_ns = PInt 20, proxy_restored = PInt 30\<rparr>"

theorem dropout_evidence_sound_witness:
  "\<exists>e. analyze_lidar_dropout [scan_at 10, scan_at 20, scan_at 30] [scan_at 10, scan_at 30] (PInt 15) (PInt 25) seen_by_proxy = Inr e
     \<and> affected_message_count e = 1 \<and> actual_first_affected_stamp_ns e = 20"
proof -
  have "\<exists>e. analyze_lidar_dropout [scan_at 10, scan_at 20, scan_at 30] [scan_at 10, scan_at 30] (PInt 15) (PInt 25) seen_by_proxy = Inr e"
    by (simp add: analyze_lidar_dropout_def strict_stamps_def scan_at_def seen_by_proxy_def check_boundaries_def require_some_def)
  then obtain e where e: "analyze_lidar_dropout [scan_at 10, scan_at 20, scan_at 30] [scan_at 10, scan_at 30]
      (PInt 15) (PInt 25) seen_by_proxy = Inr e" ..
  have scans: "filter (in_dropout 15 25) [scan_at 10, scan_at 20, scan_at 30] = [scan_at 20]" "stamp_of (scan_at 20) = 20"
    by (simp_all add: in_dropout_def stamp_of_def scan_at_def)
  from dropout_evidence_sound [OF e, unfolded scans] scans(2) e show ?thesis by (intro exI [of _ e]) simp
qed

definition node_at :: "int \<Rightarrow> sample" where
  "node_at t = [(''stamp_ns'', PInt t), (''collector_sequence'', PInt t), (''node'', PStr ''amcl''), (''state'', PStr ''active'')]"

definition recovered_run :: recovery_inputs where
  "recovered_run = \<lparr>ri_validated_scans = map scan_at [0, 400000000, 800000000],
     ri_lifecycle_samples = map node_at [0, 1000000000], ri_required_nodes = [''amcl''], ri_ground_truth = [],
     ri_feedback = [], ri_collision_events = [[(''start_stamp_ns'', PInt 1200000000)]],
     ri_mission_terminal = Some [(''status'', PStr ''SUCCEEDED''), (''stamp_ns'', PInt 900000000)],
     ri_window_ns = RECOVERY_WINDOW_NS, ri_maximum_scan_gap_ns = RECOVERY_SCAN_GAP_NS,
     ri_lifecycle_margin_ns = RECOVERY_LIFECYCLE_MARGIN_NS\<rparr>"

lemma recovered_run_window:
  "\<exists>ev. candidate_window (\<lambda>x y. x) recovered_run [0, 400000000, 800000000] 1000000000 = Inr (Inr ev)"
  by (simp add: candidate_window_def recovered_run_def RECOVERY_WINDOW_NS_def RECOVERY_SCAN_GAP_NS_def
      RECOVERY_LIFECYCLE_MARGIN_NS_def scan_window_def bisect_right_def pairwise_gaps_def lifecycle_window_def
      node_window_def node_at_def state_active_def progress_window_def terminal_progress_def)

lemma recovered_run_analysis: "\<exists>m. sensor_recovery_metrics (\<lambda>x y. x) (PInt 0) recovered_run = Inr m"
proof -
  have "candidate_ends recovered_run 0 = Inr [1000000000]"
    by (simp add: candidate_ends_def recovered_run_def RECOVERY_WINDOW_NS_def scan_at_def node_at_def)
  moreover have "strict_stamps (ri_validated_scans recovered_run) ''validated_scans'' = Inr [0, 400000000, 800000000]"
    by (simp add: strict_stamps_def recovered_run_def scan_at_def)
  ultimately show ?thesis using recovered_run_window second_1
    by (auto simp: sensor_recovery_metrics_def recovered_run_def RECOVERY_WINDOW_NS_def RECOVERY_SCAN_GAP_NS_def
      RECOVERY_LIFECYCLE_MARGIN_NS_def status_failed_def FAILURE_STATUSES_def ordered_callback_samples_def node_at_def
      lex_less_def split: prod.splits)
qed

theorem recovery_window_sound_witness:
  "\<exists>m. sensor_recovery_metrics (\<lambda>x y. x) (PInt 0) recovered_run = Inr m \<and> 0 \<le> window_start_stamp_ns m"
  using recovered_run_analysis recovery_window_sound by blast

theorem recovery_window_earliest_witness:
  "\<exists>m ends. sensor_recovery_metrics (\<lambda>x y. x) (PInt 0) recovered_run = Inr m
     \<and> candidate_ends recovered_run 0 = Inr ends \<and> recovered_stamp_ns m \<in> set ends"
  using recovered_run_analysis recovery_window_earliest by blast

end
