(* ===== verification/Collector_Core.thy ===== *)
theory Collector_Core
  imports Evidence_Buffers Metrics_Geometry
begin

text \<open>
  The ROS-independent evidence collector (\<open>robotest_metrics/collector.py\<close>): bounds on JSON values, the
  clock summary, and \<open>CollectorCore\<close>, which owns one bounded buffer per stream and one sequence
  number for all callbacks. The theorem states the type of what it retains, for every order of
  callbacks.
\<close>

section \<open>Bounded values\<close>

definition STRING_FIELD_MAX_BYTES :: int where "STRING_FIELD_MAX_BYTES = 4096"
definition COLLECTION_MAX_ITEMS :: int where "COLLECTION_MAX_ITEMS = 65536"

fun for_each :: "(nat \<Rightarrow> 'a \<Rightarrow> 'e + unit) \<Rightarrow> nat \<Rightarrow> 'a list \<Rightarrow> 'e + unit" where
  "for_each f i [] = Inr ()"
| "for_each f i (x # xs) = bindE (f i x) (\<lambda>_. for_each f (i + 1) xs)"

lemma for_each_cong [fundef_cong]:
  assumes "xs = ys" "i = j" "\<And>k x. x \<in> set ys \<Longrightarrow> f k x = g k x"
  shows "for_each f i xs = for_each g j ys"
  unfolding assms(1,2) using assms(3) by (induction ys arbitrary: j) simp_all

lemma for_each_Inr: "(\<And>k x. x \<in> set xs \<Longrightarrow> f k x = Inr () \<longleftrightarrow> p x) \<Longrightarrow> for_each f i xs = Inr () \<longleftrightarrow> list_all p xs"
  by (induction xs arbitrary: i) (auto simp: err_simps)

definition check_text :: "string \<Rightarrow> string \<Rightarrow> string + unit" where
  "check_text text path =
     guardE (\<not> int (length text) > STRING_FIELD_MAX_BYTES) (path @ '' exceeds the UTF-8 string bound'')"

text \<open>\<open>Inl m\<close> is \<open>MetricUnavailable(m)\<close>. Every value of the model has one of the supported types, and every
  key is a string.\<close>

fun validate_bounded_values :: "pyval \<Rightarrow> string \<Rightarrow> string + unit" where
  "validate_bounded_values (PStr text) path = check_text text path"
| "validate_bounded_values (PDict d) path =
     bindE (guardE (\<not> int (length d) > COLLECTION_MAX_ITEMS) (path @ '' exceeds the object-item bound'')) (\<lambda>_.
     for_each (\<lambda>_ (key, nested).
       bindE (check_text key (path @ ''.key'')) (\<lambda>_. validate_bounded_values nested (path @ ''.'' @ key))) 0 d)"
| "validate_bounded_values (PList vs) path =
     bindE (guardE (\<not> int (length vs) > COLLECTION_MAX_ITEMS) (path @ '' exceeds the array-item bound'')) (\<lambda>_.
     for_each (\<lambda>index nested. validate_bounded_values nested (path @ ''['' @ show_int (int index) @ '']'')) 0 vs)"
| "validate_bounded_values PNone path = Inr ()"
| "validate_bounded_values (PBool b) path = Inr ()"
| "validate_bounded_values (PInt i) path =
     guardE (- (2 ^ 63) \<le> i \<and> i \<le> 2 ^ 64 - 1) (path @ '' integer exceeds the 64-bit evidence bound'')"
| "validate_bounded_values (PFloat x) path = guardE (f_isfinite x) (path @ '' must be finite'')"

section \<open>The clock summary\<close>

record clock_summary =
  cs_count :: int
  duplicate_count :: int
  first_stamp_ns :: "int option"
  latest_stamp_ns :: "int option"
  maximum_positive_gap_ns :: int
  regression_count :: int

definition new_clock :: clock_summary where
  "new_clock = \<lparr>cs_count = 0, duplicate_count = 0, first_stamp_ns = None, latest_stamp_ns = None,
     maximum_positive_gap_ns = 0, regression_count = 0\<rparr>"

definition clock_observe :: "pyval \<Rightarrow> clock_summary \<Rightarrow> metrics_exn + clock_summary" where
  "clock_observe stamp_ns c =
     bindE (require_int stamp_ns ''clock.stamp_ns'') (\<lambda>stamp.
     let c1 = c\<lparr>cs_count := cs_count c + 1\<rparr> in
     if first_stamp_ns c1 = None then Inr (c1\<lparr>first_stamp_ns := Some stamp, latest_stamp_ns := Some stamp\<rparr>)
     else
       (case latest_stamp_ns c1 of
          None \<Rightarrow> Inl MetricAssertionError
        | Some latest \<Rightarrow>
            let delta = stamp - latest;
                c2 = (if delta < 0 then c1\<lparr>regression_count := regression_count c1 + 1\<rparr>
                      else if delta = 0 then c1\<lparr>duplicate_count := duplicate_count c1 + 1\<rparr>
                      else c1\<lparr>maximum_positive_gap_ns := max (maximum_positive_gap_ns c1) delta\<rparr>)
            in Inr (c2\<lparr>latest_stamp_ns := Some stamp\<rparr>)))"

definition clock_as_dict :: "clock_summary \<Rightarrow> pydict" where
  "clock_as_dict c =
     [(''count'', PInt (cs_count c)), (''duplicate_count'', PInt (duplicate_count c)),
      (''first_stamp_ns'', opt_int (first_stamp_ns c)), (''latest_stamp_ns'', opt_int (latest_stamp_ns c)),
      (''maximum_positive_gap_ns'', PInt (maximum_positive_gap_ns c)), (''regression_count'', PInt (regression_count c))]"

section \<open>The collector\<close>

definition CONTACT_RECORD_CAPACITY :: int where "CONTACT_RECORD_CAPACITY = 32768"
definition PLAN_MESSAGE_CAPACITY :: int where "PLAN_MESSAGE_CAPACITY = 1024"
definition PLAN_POSE_CAPACITY :: int where "PLAN_POSE_CAPACITY = 65536"

definition BUFFER_CAPACITIES :: "(string \<times> int) list" where
  "BUFFER_CAPACITIES =
     [(''ground_truth'', 8192), (''tf_map_odom'', 8192), (''tf_odom_base_footprint'', 8192), (''raw_odom'', 8192),
      (''odom'', 8192), (''raw_scan'', 2048), (''scan'', 2048), (''cmd_vel'', 4096), (''contacts'', 8192),
      (''world_stats'', 4096), (''state_events'', 1024), (''fault_events'', 512)]"

record collector =
  buffers :: "(string \<times> pydict prefix_buffer) list"
  plans :: plan_buffer
  clock :: clock_summary
  collector_sequence :: int
  last_state :: "((string \<times> string) \<times> pyval) list"
  contact_record_count :: int
  contact_record_overflow_count :: int

definition new_collector :: "buffer_error + collector" where
  "new_collector =
     bindE (traverse (\<lambda>(name, cap). bindE (new_buffer name cap) (\<lambda>b. Inr (name, b))) BUFFER_CAPACITIES) (\<lambda>bs.
     bindE (new_plan_buffer PLAN_MESSAGE_CAPACITY PLAN_POSE_CAPACITY) (\<lambda>ps.
     Inr \<lparr>buffers = bs, plans = ps, clock = new_clock, collector_sequence = 0, last_state = [],
          contact_record_count = 0, contact_record_overflow_count = 0\<rparr>))"

text \<open>\<open>next_sequence\<close> reserves a number; the new number is the value of the field.\<close>

definition next_sequence :: "collector \<Rightarrow> collector" where
  "next_sequence c = c\<lparr>collector_sequence := collector_sequence c + 1\<rparr>"

datatype collector_exn = KeyError string | ClockError metrics_exn

definition collector_observe_clock :: "pyval \<Rightarrow> collector \<Rightarrow> (collector_exn + unit) \<times> collector" where
  "collector_observe_clock stamp_ns c =
     (let c1 = next_sequence c in
      case clock_observe stamp_ns (clock c1) of
        Inl e \<Rightarrow> (Inl (ClockError e), c1)
      | Inr k \<Rightarrow> (Inr (), c1\<lparr>clock := k\<rparr>))"

definition set_buffer :: "string \<Rightarrow> pydict prefix_buffer \<Rightarrow> collector \<Rightarrow> collector" where
  "set_buffer stream b c = c\<lparr>buffers := dict_set stream b (buffers c)\<rparr>"

text \<open>The validation of \<open>record\<close>: bounded values, and a stamp that is absent, \<open>None\<close> or an integer.\<close>

definition validate_item :: "string \<Rightarrow> pydict \<Rightarrow> string + unit" where
  "validate_item stream item =
     bindE (validate_bounded_values (PDict item) ''item'') (\<lambda>_.
     guardE (dget item ''stamp_ns'' = PNone \<or> is_int (dget item ''stamp_ns'')) (stream @ ''.stamp_ns must be an integer''))"

definition numbered :: "pydict \<Rightarrow> int \<Rightarrow> pydict" where
  "numbered item n = dict_set ''collector_sequence'' (PInt n) item"

definition append_numbered :: "string \<Rightarrow> pydict prefix_buffer \<Rightarrow> pydict \<Rightarrow> int \<Rightarrow> collector \<Rightarrow> bool \<times> collector" where
  "append_numbered stream b item records c =
     (let n = collector_sequence c; normalized = numbered item n;
          (retained, b') = buffer_append n (dget normalized ''stamp_ns'') normalized b;
          c' = set_buffer stream b' c
      in (retained, if retained then c'\<lparr>contact_record_count := contact_record_count c' + records\<rparr> else c'))"

definition record_item :: "string \<Rightarrow> pydict \<Rightarrow> collector \<Rightarrow> (collector_exn + bool) \<times> collector" where
  "record_item stream item c =
     (case map_of (buffers c) stream of
        None \<Rightarrow> (Inl (KeyError (''unknown evidence stream '' @ stream)), c)
      | Some b \<Rightarrow>
          let c1 = next_sequence c;
              validated = (\<lambda>records.
                case validate_item stream item of
                  Inl reason \<Rightarrow> (Inr False, set_buffer stream (buffer_reject reason b) c1)
                | Inr _ \<Rightarrow> (case append_numbered stream b item records c1 of (r, c2) \<Rightarrow> (Inr r, c2)))
          in
          if stream = ''contacts'' then
            (case dget item ''contacts'' of
               PList contacts \<Rightarrow>
                 if contact_record_count c1 + int (length contacts) > CONTACT_RECORD_CAPACITY
                 then (Inr False,
                   (set_buffer stream (mark_overflow (collector_sequence c1) (dget item ''stamp_ns'') b) c1)
                     \<lparr>contact_record_overflow_count := contact_record_overflow_count c1 + 1\<rparr>)
                 else validated (int (length contacts))
             | _ \<Rightarrow> (Inr False, set_buffer stream (buffer_reject ''contacts must be a list'' b) c1))
          else validated 0)"

definition record_plan :: "pydict \<Rightarrow> collector \<Rightarrow> bool \<times> collector" where
  "record_plan item c =
     (let c1 = next_sequence c; ps = plans c1; normalized = numbered item (collector_sequence c1) in
      case dget item ''poses'' of
        PList poses \<Rightarrow>
          if int (length (plan_items ps)) \<ge> message_capacity ps
             \<or> retained_pose_count ps + int (length poses) > pose_capacity ps
          then (case plan_append normalized ps of (r, ps') \<Rightarrow> (r, c1\<lparr>plans := ps'\<rparr>))
          else
            (case bindE (validate_bounded_values (PDict item) ''item'') (\<lambda>_.
                    guardE (is_int (dget item ''stamp_ns'')) ''plans.stamp_ns must be an integer'') of
               Inl reason \<Rightarrow> (False, c1\<lparr>plans := plan_reject reason ps\<rparr>)
             | Inr _ \<Rightarrow> (case plan_append normalized ps of (r, ps') \<Rightarrow> (r, c1\<lparr>plans := ps'\<rparr>)))
      | _ \<Rightarrow> (False, c1\<lparr>plans := plan_reject ''plan poses must be a list'' ps\<rparr>))"

definition record_state_transition ::
  "string \<Rightarrow> string \<Rightarrow> pyval \<Rightarrow> pyval \<Rightarrow> pydict option \<Rightarrow> collector \<Rightarrow> (collector_exn + bool) \<times> collector" where
  "record_state_transition kind subject val stamp_ns details c =
     (let key = (kind, subject); previous = map_of (last_state c) key in
      case map_of (buffers c) ''state_events'' of
        None \<Rightarrow> (Inl (KeyError ''state_events''), c)
      | Some b \<Rightarrow>
          if (case previous of None \<Rightarrow> False | Some p \<Rightarrow> py_eq p val)
          then (Inr False, set_buffer ''state_events'' (observe_without_retaining b) (next_sequence c))
          else
            (case record_item ''state_events''
                [(''details'', PDict (case details of None \<Rightarrow> [] | Some d \<Rightarrow> d)), (''kind'', PStr kind),
                 (''previous_value'', case previous of None \<Rightarrow> PNone | Some p \<Rightarrow> p), (''stamp_ns'', stamp_ns),
                 (''subject'', PStr subject), (''value'', val)] c of
               (Inr True, c') \<Rightarrow> (Inr True, c'\<lparr>last_state := dict_set key val (last_state c')\<rparr>)
             | r \<Rightarrow> r))"

definition overflow_text :: "buffer_error + unit \<Rightarrow> string list" where
  "overflow_text r = (case r of Inl (EvidenceOverflow m) \<Rightarrow> [m] | _ \<Rightarrow> [])"

definition collector_require_complete :: "collector \<Rightarrow> buffer_error + unit" where
  "collector_require_complete c =
     (let failures = concat (map (\<lambda>(name, b). overflow_text (require_complete b)) (buffers c))
            @ overflow_text (plan_require_complete (plans c))
            @ (if regression_count (clock c) \<noteq> 0
               then [''clock regressed '' @ show_int (regression_count (clock c)) @ '' times''] else [])
      in if failures \<noteq> [] then Inl (EvidenceOverflow (join_with ''; '' failures)) else Inr ())"

definition collector_snapshot :: "collector \<Rightarrow> pydict" where
  "collector_snapshot c =
     (let stream_dict = (\<lambda>(its, q). PDict [(''items'', PList (map PDict its)), (''quality'', PDict q)]);
          streams = map (\<lambda>(name, b). (name, stream_dict (buffer_snapshot b))) (sort_key fst (buffers c))
            @ [(''plans'', stream_dict (plan_snapshot (plans c)))]
      in [(''clock'', PDict (clock_as_dict (clock c))),
          (''collector_sequence'', PInt (collector_sequence c)),
          (''limits'', PDict
            [(''contact_record_capacity'', PInt CONTACT_RECORD_CAPACITY),
             (''plan_message_capacity'', PInt PLAN_MESSAGE_CAPACITY),
             (''plan_pose_capacity'', PInt PLAN_POSE_CAPACITY),
             (''stream_capacities'', PDict (map (\<lambda>(name, cap). (name, PInt cap)) (sort_key fst BUFFER_CAPACITIES))),
             (''string_field_max_bytes'', PInt STRING_FIELD_MAX_BYTES)]),
          (''quality'', PDict
            [(''collector_overflow'', PBool (list_ex (\<lambda>(name, b). overflowed (quality b)) (buffers c)
                \<or> plan_overflow_count (plans c) > 0)),
             (''contact_record_count'', PInt (contact_record_count c)),
             (''contact_record_overflow_count'', PInt (contact_record_overflow_count c))]),
          (''streams'', PDict streams)])"
section \<open>The type of retained evidence\<close>

fun bounded_value :: "pyval \<Rightarrow> bool" where
  "bounded_value (PStr s) \<longleftrightarrow> int (length s) \<le> STRING_FIELD_MAX_BYTES"
| "bounded_value (PDict d) \<longleftrightarrow> int (length d) \<le> COLLECTION_MAX_ITEMS
     \<and> list_all (\<lambda>(k, v). int (length k) \<le> STRING_FIELD_MAX_BYTES \<and> bounded_value v) d"
| "bounded_value (PList vs) \<longleftrightarrow> int (length vs) \<le> COLLECTION_MAX_ITEMS \<and> list_all bounded_value vs"
| "bounded_value PNone \<longleftrightarrow> True"
| "bounded_value (PBool b) \<longleftrightarrow> True"
| "bounded_value (PInt i) \<longleftrightarrow> - (2 ^ 63) \<le> i \<and> i < 2 ^ 64"
| "bounded_value (PFloat x) \<longleftrightarrow> (\<exists>q. x = Fin q)"

lemma validate_bounded_iff: "validate_bounded_values v path = Inr () \<longleftrightarrow> bounded_value v"
proof (induction v arbitrary: path)
  case (PDict d)
  have "for_each (\<lambda>_ (key, nested). bindE (check_text key (path @ ''.key'')) (\<lambda>_.
      validate_bounded_values nested (path @ ''.'' @ key))) 0 d = Inr ()
    \<longleftrightarrow> list_all (\<lambda>(k, v). int (length k) \<le> STRING_FIELD_MAX_BYTES \<and> bounded_value v) d"
  proof (rule for_each_Inr)
    fix k :: nat and x
    assume x: "x \<in> set d"
    obtain key v where kv: "x = (key, v)" by (cases x) auto
    have "validate_bounded_values v path = Inr () \<longleftrightarrow> bounded_value v" for path
      using PDict [OF x] by (simp add: kv)
    then show "(case x of (key, nested) \<Rightarrow> bindE (check_text key (path @ ''.key'')) (\<lambda>_.
        validate_bounded_values nested (path @ ''.'' @ key))) = Inr ()
      \<longleftrightarrow> (case x of (k, v) \<Rightarrow> int (length k) \<le> STRING_FIELD_MAX_BYTES \<and> bounded_value v)"
      by (simp add: kv check_text_def bindE_Inr_iff not_less)
  qed
  then show ?case by (auto simp: err_simps not_less)
next
  case (PList vs)
  have "for_each (\<lambda>index nested. validate_bounded_values nested (path @ ''['' @ show_int (int index) @ '']'')) 0 vs = Inr ()
    \<longleftrightarrow> list_all bounded_value vs"
    by (rule for_each_Inr) (rule PList)
  then show ?case by (auto simp: err_simps not_less)
next
  case (PFloat x)
  then show ?case by (cases x) simp_all
qed (auto simp: check_text_def not_less)

definition seq_of :: "pydict \<Rightarrow> int" where
  "seq_of it = (case dget it ''collector_sequence'' of PInt n \<Rightarrow> n | _ \<Rightarrow> 0)"

definition contact_len :: "pydict \<Rightarrow> int" where
  "contact_len it = (case dget it ''contacts'' of PList cs \<Rightarrow> int (length cs) | _ \<Rightarrow> 0)"

text \<open>A retained item is a bounded value with an integer stamp or none, to which the number of its callback
  was added.\<close>

definition evidence_item :: "pydict \<Rightarrow> bool" where
  "evidence_item it \<longleftrightarrow> (\<exists>item n. it = numbered item n \<and> bounded_value (PDict item)
     \<and> (dget item ''stamp_ns'' = PNone \<or> is_int (dget item ''stamp_ns'')))"

text \<open>A retained plan has an integer stamp and a list of poses.\<close>

definition stamped_plan :: "pydict \<Rightarrow> bool" where
  "stamped_plan it \<longleftrightarrow> is_int (dget it ''stamp_ns'') \<and> (\<exists>ps. dget it ''poses'' = PList ps)"

definition evidence_stream :: "int \<Rightarrow> pydict list \<Rightarrow> bool" where
  "evidence_stream n its \<longleftrightarrow> list_all evidence_item its \<and> sorted_wrt (<) (map seq_of its)
     \<and> list_all (\<lambda>it. 1 \<le> seq_of it \<and> seq_of it \<le> n) its"

lemma dget_numbered: "dget (numbered item n) k = (if k = ''collector_sequence'' then PInt n else dget item k)"
  by (simp add: numbered_def dget_def map_of_dict_set)

lemma seq_of_numbered [simp]: "seq_of (numbered item n) = n"
  by (simp add: seq_of_def dget_numbered)

lemma evidence_stream_mono: "evidence_stream n its \<Longrightarrow> n \<le> m \<Longrightarrow> evidence_stream m its"
  by (auto simp: evidence_stream_def list_all_iff)

lemma evidence_stream_append:
  assumes "evidence_stream n its" "0 \<le> n" "bounded_value (PDict item)"
    "dget item ''stamp_ns'' = PNone \<or> is_int (dget item ''stamp_ns'')"
  shows "evidence_stream (n + 1) (its @ [numbered item (n + 1)])"
proof -
  have "evidence_item (numbered item (n + 1))" using assms(3,4) unfolding evidence_item_def by blast
  moreover have "\<forall>it \<in> set its. 1 \<le> seq_of it \<and> seq_of it \<le> n" "sorted_wrt (<) (map seq_of its)" "list_all evidence_item its"
    using assms(1) by (simp_all add: evidence_stream_def list_all_iff)
  ultimately show ?thesis using assms(2) by (auto simp: evidence_stream_def list_all_iff sorted_wrt_append)
qed

lemma validate_item_Inr:
  "validate_item stream item = Inr u \<Longrightarrow> bounded_value (PDict item)
     \<and> (dget item ''stamp_ns'' = PNone \<or> is_int (dget item ''stamp_ns''))"
  by (cases u) (simp add: validate_item_def err_simps validate_bounded_iff
      del: bounded_value.simps validate_bounded_values.simps)

datatype collector_op =
    ObserveClock pyval
  | RecordItem string pydict
  | RecordPlan pydict
  | RecordState string string pyval pyval "pydict option"

fun collector_step :: "collector_op \<Rightarrow> collector \<Rightarrow> collector" where
  "collector_step (ObserveClock stamp) c = snd (collector_observe_clock stamp c)"
| "collector_step (RecordItem stream item) c = snd (record_item stream item c)"
| "collector_step (RecordPlan item) c = snd (record_plan item c)"
| "collector_step (RecordState kind subject val stamp details) c =
     snd (record_state_transition kind subject val stamp details c)"

definition stream_inv :: "int \<Rightarrow> string \<Rightarrow> pydict prefix_buffer \<Rightarrow> bool" where
  "stream_inv n stream b \<longleftrightarrow> buffer_wf b \<and> map_of BUFFER_CAPACITIES stream = Some (capacity b) \<and> evidence_stream n (items b)"

definition collector_inv :: "collector \<Rightarrow> bool" where
  "collector_inv c \<longleftrightarrow>
     0 \<le> collector_sequence c
     \<and> (\<forall>stream b. map_of (buffers c) stream = Some b \<longrightarrow> stream_inv (collector_sequence c) stream b)
     \<and> (\<exists>b. map_of (buffers c) ''contacts'' = Some b \<and> contact_record_count c = sum_list (map contact_len (items b)))
     \<and> contact_record_count c \<le> CONTACT_RECORD_CAPACITY
     \<and> plan_wf (plans c) \<and> message_capacity (plans c) = PLAN_MESSAGE_CAPACITY \<and> pose_capacity (plans c) = PLAN_POSE_CAPACITY
     \<and> evidence_stream (collector_sequence c) (plan_items (plans c)) \<and> list_all stamped_plan (plan_items (plans c))"

lemma next_sequence_inv: "collector_inv c \<Longrightarrow> collector_inv (next_sequence c)"
proof -
  have "evidence_stream n its \<Longrightarrow> evidence_stream (n + 1) its" for n its by (erule evidence_stream_mono) simp
  then show "collector_inv c \<Longrightarrow> ?thesis" unfolding collector_inv_def next_sequence_def stream_inv_def by simp
qed

text \<open>Replacing the buffer of a stream by one with the same items keeps the invariant.\<close>

lemma set_buffer_inv:
  assumes "collector_inv c" "map_of (buffers c) stream = Some b" "buffer_wf b'" "capacity b' = capacity b" "items b' = items b"
  shows "collector_inv (set_buffer stream b' c)"
  using assms by (auto simp: collector_inv_def set_buffer_def map_of_dict_set stream_inv_def)

lemmas buffer_frame = buffer_step_wf [of _ "Reject r" for r, simplified] buffer_step_wf [of _ Observe, simplified]
  buffer_step_wf [of _ "MarkOverflow q t" for q t, simplified] buffer_step_wf [of _ "Append q t x" for q t x, simplified]

lemma buffer_same_items:
  "items (buffer_reject r b) = items b" "capacity (buffer_reject r b) = capacity b"
  "items (observe_without_retaining b) = items b" "capacity (observe_without_retaining b) = capacity b"
  "items (mark_overflow q t b) = items b" "capacity (mark_overflow q t b) = capacity b"
  by (simp_all add: buffer_defs Let_def)

lemma buffer_append_cases:
  "buffer_append q t x b = (r, b') \<Longrightarrow> capacity b' = capacity b \<and> items b' = (if r then items b @ [x] else items b)"
  by (auto simp: buffer_append_def Let_def split: if_splits)

lemma append_numbered_inv:
  assumes inv: "collector_inv c" and b: "map_of (buffers c) stream = Some b"
    and item: "bounded_value (PDict item)" "dget item ''stamp_ns'' = PNone \<or> is_int (dget item ''stamp_ns'')"
    and records: "records = (if stream = ''contacts'' then contact_len item else 0)"
      "contact_record_count c + records \<le> CONTACT_RECORD_CAPACITY"
  shows "collector_inv (snd (append_numbered stream b item records (next_sequence c)))"
proof -
  define n where "n = collector_sequence c"
  obtain r b' where a: "buffer_append (n + 1) (dget (numbered item (n + 1)) ''stamp_ns'') (numbered item (n + 1)) b = (r, b')"
    by (cases "buffer_append (n + 1) (dget (numbered item (n + 1)) ''stamp_ns'') (numbered item (n + 1)) b")
  have res: "snd (append_numbered stream b item records (next_sequence c)) =
      (if r then (set_buffer stream b' (next_sequence c))\<lparr>contact_record_count := contact_record_count c + records\<rparr>
       else set_buffer stream b' (next_sequence c))"
    using a by (simp add: append_numbered_def next_sequence_def n_def Let_def set_buffer_def)
  have sb: "stream_inv n stream b" "0 \<le> n" using inv b by (simp_all add: collector_inv_def n_def)
  have "buffer_wf b" using sb(1) by (simp add: stream_inv_def)
  from buffer_frame(4) [OF this, of "n + 1" "dget (numbered item (n + 1)) ''stamp_ns''" "numbered item (n + 1)"]
  have wf: "buffer_wf b'" unfolding a by simp
  note ca = buffer_append_cases [OF a]
  have nb: "map_of (buffers (next_sequence c)) stream = Some b" using b by (simp add: next_sequence_def)
  show ?thesis
  proof (cases r)
    case False
    then show ?thesis using set_buffer_inv [OF next_sequence_inv [OF inv] nb wf] ca res by simp
  next
    case True
    have "evidence_stream (n + 1) (items b')"
      using evidence_stream_append [OF _ sb(2) item] sb(1) ca True by (simp add: stream_inv_def)
    then have new: "stream_inv (n + 1) stream b'" using wf ca sb(1) by (simp add: stream_inv_def)
    have len: "contact_len (numbered item (n + 1)) = contact_len item" by (simp add: contact_len_def dget_numbered)
    have "collector_inv ((set_buffer stream b' (next_sequence c))\<lparr>contact_record_count := contact_record_count c + records\<rparr>)"
      using next_sequence_inv [OF inv] new b records ca True len
      by (auto simp: collector_inv_def set_buffer_def next_sequence_def n_def map_of_dict_set)
    then show ?thesis using res True by simp
  qed
qed

lemma record_validated_inv:
  assumes inv: "collector_inv c" and b: "map_of (buffers c) stream = Some b"
    and records: "records = (if stream = ''contacts'' then contact_len item else 0)"
      "contact_record_count c + records \<le> CONTACT_RECORD_CAPACITY"
  shows "collector_inv (snd (case validate_item stream item of
      Inl reason \<Rightarrow> (Inr False :: collector_exn + bool, set_buffer stream (buffer_reject reason b) (next_sequence c))
    | Inr _ \<Rightarrow> (case append_numbered stream b item records (next_sequence c) of (r, c2) \<Rightarrow> (Inr r, c2))))"
proof (cases "validate_item stream item")
  case (Inl reason)
  have "buffer_wf b" using inv b by (simp add: collector_inv_def stream_inv_def)
  then show ?thesis using Inl next_sequence_inv [OF inv] b
    by (auto simp: next_sequence_def buffer_same_items intro!: set_buffer_inv buffer_frame)
next
  case (Inr u)
  from append_numbered_inv [OF inv b _ _ records] validate_item_Inr [OF Inr]
  show ?thesis using Inr by (simp add: case_prod_unfold)
qed

lemma record_item_inv:
  assumes inv: "collector_inv c"
  shows "collector_inv (snd (record_item stream item c))"
proof (cases "map_of (buffers c) stream")
  case None
  then show ?thesis using inv by (simp add: record_item_def)
next
  case (Some b)
  have wf: "buffer_wf b" using inv Some by (simp add: collector_inv_def stream_inv_def)
  note inv1 = next_sequence_inv [OF inv]
  have b1: "map_of (buffers (next_sequence c)) stream = Some b" using Some by (simp add: next_sequence_def)
  have same: "collector_inv (set_buffer stream b' (next_sequence c))"
    if "buffer_wf b'" "capacity b' = capacity b" "items b' = items b" for b'
    using set_buffer_inv [OF inv1 b1 that] .
  have overflow: "collector_inv (k\<lparr>contact_record_overflow_count := m\<rparr>)" if "collector_inv k" for k m
    using that by (simp add: collector_inv_def)
  have cap: "contact_record_count c \<le> CONTACT_RECORD_CAPACITY" using inv by (simp add: collector_inv_def)
  have count: "contact_record_count (next_sequence c) = contact_record_count c" by (simp add: next_sequence_def)
  show ?thesis
  proof (cases "stream = ''contacts''")
    case False
    then show ?thesis using record_validated_inv [OF inv Some, of 0 item] cap Some
      by (simp add: record_item_def Let_def)
  next
    case True
    note some = Some [unfolded True] and same' = same [unfolded True]
    show ?thesis
    proof (cases "dget item ''contacts''")
      case (PList cs)
      then have "contact_len item = int (length cs)" by (simp add: contact_len_def)
      then show ?thesis
        using PList record_validated_inv [OF inv some, of "int (length cs)" item]
          overflow [OF same' [OF buffer_frame(3) [OF wf] buffer_same_items(6,5)]]
        unfolding True record_item_def Let_def by (simp add: some count not_less)
    qed (simp_all add: True record_item_def some Let_def same' buffer_same_items buffer_frame(1) [OF wf])
  qed
qed

lemma record_plan_inv:
  assumes inv: "collector_inv c"
  shows "collector_inv (snd (record_plan item c))"
proof -
  define n where "n = collector_sequence c"
  let ?x = "numbered item (n + 1)"
  have set_plans: "collector_inv ((next_sequence c)\<lparr>plans := ps\<rparr>)"
    if "plan_wf ps" "message_capacity ps = message_capacity (plans c)" "pose_capacity ps = pose_capacity (plans c)"
      "evidence_stream (n + 1) (plan_items ps)" "list_all stamped_plan (plan_items ps)" for ps
    using next_sequence_inv [OF inv] that by (simp add: collector_inv_def next_sequence_def n_def)
  have P: "plan_wf (plans c)" "evidence_stream n (plan_items (plans c))" "0 \<le> n" "list_all stamped_plan (plan_items (plans c))"
    using inv by (simp_all add: collector_inv_def n_def)
  have old: "evidence_stream (n + 1) (plan_items (plans c))" using P(2) by (rule evidence_stream_mono) simp
  have reject: "collector_inv ((next_sequence c)\<lparr>plans := plan_reject r (plans c)\<rparr>)" for r
    using plan_step_wf [OF P(1), of "PlanReject r"] old P(4)
    by (intro set_plans) (simp_all add: plan_reject_def plan_invalid_def Let_def)
  have append: "collector_inv ((next_sequence c)\<lparr>plans := snd (plan_append ?x (plans c))\<rparr>)"
    if "fst (plan_append ?x (plans c)) \<Longrightarrow> bounded_value (PDict item) \<and> is_int (dget item ''stamp_ns'')"
  proof (rule set_plans)
    show "plan_wf (snd (plan_append ?x (plans c)))" by (rule plan_append_wf [OF P(1)])
    show "evidence_stream (n + 1) (plan_items (snd (plan_append ?x (plans c))))"
      using that evidence_stream_append [OF P(2,3), of item] old
      by (auto simp: plan_append_def plan_invalid_def Let_def split: pyval.splits if_splits)
    show "list_all stamped_plan (plan_items (snd (plan_append ?x (plans c))))"
      using that P(4)
      by (auto simp: plan_append_def plan_invalid_def Let_def stamped_plan_def dget_numbered split: pyval.splits if_splits)
  qed (auto simp: plan_append_def plan_invalid_def Let_def split: pyval.splits)
  have poses: "dget ?x ''poses'' = dget item ''poses''" by (simp add: dget_numbered)
  show ?thesis
  proof (cases "dget item ''poses''")
    case (PList ps)
    show ?thesis
    proof (cases "int (length (plan_items (plans c))) \<ge> message_capacity (plans c)
        \<or> retained_pose_count (plans c) + int (length ps) > pose_capacity (plans c)")
      case True
      then have "\<not> fst (plan_append ?x (plans c))" by (auto simp: plan_append_def poses PList Let_def)
      then show ?thesis using append True PList
        by (simp add: record_plan_def Let_def next_sequence_def n_def case_prod_unfold)
    next
      case False
      define v where "v = bindE (validate_bounded_values (PDict item) ''item'') (\<lambda>_.
        guardE (is_int (dget item ''stamp_ns'')) ''plans.stamp_ns must be an integer'')"
      have ok: "bounded_value (PDict item) \<and> is_int (dget item ''stamp_ns'')" if "v = Inr u" for u
        using that unfolding v_def by (simp only: bindE_Inr_iff guardE_Inr_iff) (metis validate_bounded_iff old.unit.exhaust)
      have "snd (record_plan item c) = (next_sequence c)\<lparr>plans :=
          (case v of Inl r \<Rightarrow> plan_reject r (plans c) | Inr _ \<Rightarrow> snd (plan_append ?x (plans c)))\<rparr>"
        using False PList unfolding v_def record_plan_def Let_def
        by (simp add: next_sequence_def n_def case_prod_unfold del: validate_bounded_values.simps split: sum.splits)
      then show ?thesis using append reject ok by (cases v) auto
    qed
  qed (use reject in \<open>simp_all add: record_plan_def Let_def next_sequence_def\<close>)
qed

lemma record_state_inv:
  assumes inv: "collector_inv c"
  shows "collector_inv (snd (record_state_transition kind subject val stamp details c))"
proof (cases "map_of (buffers c) ''state_events''")
  case None
  then show ?thesis using inv by (simp add: record_state_transition_def Let_def)
next
  case (Some b)
  define it where "it = [(''details'', PDict (case details of None \<Rightarrow> [] | Some d \<Rightarrow> d)), (''kind'', PStr kind),
    (''previous_value'', case map_of (last_state c) (kind, subject) of None \<Rightarrow> PNone | Some p \<Rightarrow> p),
    (''stamp_ns'', stamp), (''subject'', PStr subject), (''value'', val)]"
  have wf: "buffer_wf b" using inv Some by (simp add: collector_inv_def stream_inv_def)
  have b1: "map_of (buffers (next_sequence c)) ''state_events'' = Some b" using Some by (simp add: next_sequence_def)
  have unchanged: "collector_inv (set_buffer ''state_events'' (observe_without_retaining b) (next_sequence c))"
    by (rule set_buffer_inv [OF next_sequence_inv [OF inv] b1 buffer_frame(2) [OF wf] buffer_same_items(4,3)])
  have noted: "collector_inv (k\<lparr>last_state := l\<rparr>)" if "collector_inv k" for k l
    using that by (simp add: collector_inv_def)
  obtain r c' where rec: "record_item ''state_events'' it c = (r, c')" by (cases "record_item ''state_events'' it c")
  have "collector_inv c'" using record_item_inv [OF inv, of "''state_events''" it] rec by simp
  then show ?thesis using unchanged noted Some rec
    unfolding record_state_transition_def Let_def it_def [symmetric]
    by (simp split: option.splits sum.splits bool.splits)
qed

lemma collector_clock_inv: "collector_inv c \<Longrightarrow> collector_inv (snd (collector_observe_clock stamp c))"
  using next_sequence_inv [of c]
  by (simp add: collector_observe_clock_def Let_def collector_inv_def split: sum.splits)

lemma collector_run_inv: "collector_inv c \<Longrightarrow> collector_inv (fold collector_step ops c)"
proof (induction ops arbitrary: c)
  case (Cons op ops)
  then have "collector_inv (collector_step op c)"
    by (cases op) (simp_all add: record_item_inv record_plan_inv record_state_inv collector_clock_inv)
  then show ?case using Cons.IH by simp
qed simp

lemma map_of_map_value: "map_of (map (\<lambda>(k, v). (k, f k v)) xs) k = map_option (f k) (map_of xs k)"
  by (induction xs) auto

lemma new_collector_eq:
  "new_collector = Inr \<lparr>buffers = map (\<lambda>(name, cap). (name, \<lparr>buffer_name = name, capacity = cap, items = [], quality = new_quality cap\<rparr>))
       BUFFER_CAPACITIES,
     plans = \<lparr>message_capacity = PLAN_MESSAGE_CAPACITY, pose_capacity = PLAN_POSE_CAPACITY, plan_items = [],
       plan_ingress_count = 0, retained_pose_count = 0, plan_invalid_count = 0, plan_first_invalid_reason = None,
       plan_overflow_count = 0, plan_first_overflow_sequence = PNone, plan_first_overflow_stamp_ns = PNone\<rparr>,
     clock = new_clock, collector_sequence = 0, last_state = [], contact_record_count = 0, contact_record_overflow_count = 0\<rparr>"
  by (simp add: new_collector_def BUFFER_CAPACITIES_def new_buffer_def new_plan_buffer_def PLAN_MESSAGE_CAPACITY_def
      PLAN_POSE_CAPACITY_def)

lemma capacities_positive: "list_all (\<lambda>(name, cap). 0 < cap) BUFFER_CAPACITIES"
  by (simp add: BUFFER_CAPACITIES_def)

lemma new_collector_inv:
  assumes "new_collector = Inr c"
  shows "collector_inv c"
proof -
  have caps: "0 < cap" if "map_of BUFFER_CAPACITIES stream = Some cap" for stream cap
    using capacities_positive map_of_SomeD [OF that] by (auto simp: list_all_iff)
  have contacts: "map_of BUFFER_CAPACITIES ''contacts'' = Some 8192" by (simp add: BUFFER_CAPACITIES_def)
  show ?thesis
    using assms unfolding new_collector_eq
    by (auto simp: collector_inv_def stream_inv_def evidence_stream_def map_of_map_value contacts caps less_imp_le [OF caps] buffer_wf_def
        new_quality_def plan_wf_def CONTACT_RECORD_CAPACITY_def PLAN_MESSAGE_CAPACITY_def PLAN_POSE_CAPACITY_def)
qed

text \<open>C37. The type of a capture: whatever the callbacks deliver and in whatever order, every stream holds only
  bounded JSON values whose stamp is an integer or absent, numbered by strictly increasing callback
  numbers, within the capacity of its stream; every retained plan has an integer stamp and a list of poses, within the
  message and pose capacities; the retained contact messages carry at most
  \<open>CONTACT_RECORD_CAPACITY\<close> contact records in total, and the counter of contact records is exact.\<close>

theorem collector_evidence_typed:
  assumes "new_collector = Inr c0" and "c = fold collector_step ops c0"
  shows "(\<forall>stream b. map_of (buffers c) stream = Some b \<longrightarrow> evidence_stream (collector_sequence c) (items b)
        \<and> (\<exists>cap. map_of BUFFER_CAPACITIES stream = Some cap \<and> int (length (items b)) \<le> cap))
    \<and> evidence_stream (collector_sequence c) (plan_items (plans c))
    \<and> list_all stamped_plan (plan_items (plans c))
    \<and> int (length (plan_items (plans c))) \<le> PLAN_MESSAGE_CAPACITY
    \<and> sum_list (map pose_count (plan_items (plans c))) \<le> PLAN_POSE_CAPACITY
    \<and> (\<exists>b. map_of (buffers c) ''contacts'' = Some b \<and> contact_record_count c = sum_list (map contact_len (items b)))
    \<and> contact_record_count c \<le> CONTACT_RECORD_CAPACITY"
proof -
  have "collector_inv c" unfolding assms(2) by (rule collector_run_inv [OF new_collector_inv [OF assms(1)]])
  then show ?thesis unfolding collector_inv_def stream_inv_def buffer_wf_def plan_wf_def by auto
qed

text \<open>A contact message with one record, a plan with a stamp and one without.\<close>

definition demo_ops :: "collector_op list" where
  "demo_ops = [RecordItem ''contacts'' [(''stamp_ns'', PInt 7), (''contacts'', PList [PNone])],
     RecordPlan [(''stamp_ns'', PInt 8), (''poses'', PList [])], RecordPlan [(''poses'', PList [])]]"

lemma demo_run:
  "case new_collector of
     Inl e \<Rightarrow> False
   | Inr c0 \<Rightarrow>
       length (plan_items (plans (fold collector_step demo_ops c0))) = 1
       \<and> map_option (\<lambda>b. length (items b)) (map_of (buffers (fold collector_step demo_ops c0)) ''contacts'') = Some 1"
  by code_simp

theorem collector_evidence_typed_witness:
  "\<exists>c0 p b. new_collector = Inr c0
     \<and> plan_items (plans (fold collector_step demo_ops c0)) = [p] \<and> stamped_plan p
     \<and> map_of (buffers (fold collector_step demo_ops c0)) ''contacts'' = Some b \<and> length (items b) = 1
     \<and> evidence_stream (collector_sequence (fold collector_step demo_ops c0)) (items b)
     \<and> contact_record_count (fold collector_step demo_ops c0) = sum_list (map contact_len (items b))"
proof -
  obtain c0 where c0: "new_collector = Inr c0" using new_collector_eq by blast
  obtain p b where p: "plan_items (plans (fold collector_step demo_ops c0)) = [p]"
    and b: "map_of (buffers (fold collector_step demo_ops c0)) ''contacts'' = Some b" "length (items b) = 1"
    using demo_run [unfolded c0] by (auto simp: length_Suc_conv)
  from collector_evidence_typed [OF c0 refl, of demo_ops] c0 p b show ?thesis
    by (intro exI [of _ c0] exI [of _ p] exI [of _ b]) auto
qed

end
