(* ===== verification/Collision_Metrics.thy ===== *)
theory Collision_Metrics
  imports Collector_Core
begin

text \<open>
  Collision analysis (\<open>robotest_metrics/collision_metrics.py\<close>): the collision names of a coverage manifest,
  the classification of a contact pair, and the tracker that turns contact snapshots into collision
  events, for all counterparts at once. The theorem compares the tracker with a reference that
  looks at one counterpart at a time. The checks of the positive-control document are not modelled.
\<close>

section \<open>Collision names\<close>

definition GROUND_COLLISION :: string where "GROUND_COLLISION = ''ground_plane::ground_link::ground_collision''"
definition SUPPORT_ROLES :: "string list" where
  "SUPPORT_ROLES = [''front_caster'', ''left_wheel'', ''rear_caster'', ''right_wheel'']"
definition MAX_CONTACT_SNAPSHOT_GAP_NS :: int where "MAX_CONTACT_SNAPSHOT_GAP_NS = 220000000"

definition unavailable :: "string \<Rightarrow> metrics_exn" where "unavailable = MetricUnavailable"

definition nonempty_str :: "pyval \<Rightarrow> string option" where
  "nonempty_str v = (case v of PStr s \<Rightarrow> if s = '''' then None else Some s | _ \<Rightarrow> None)"

text \<open>The loop over \<open>robot_collisions\<close>: names with their roles, in order.\<close>

fun collision_entries :: "nat \<Rightarrow> (string \<times> string) list \<Rightarrow> pyval list \<Rightarrow> metrics_exn + (string \<times> string) list" where
  "collision_entries index roles [] = Inr roles"
| "collision_entries index roles (entry # entries) =
     (let label = indexed ''robot_collisions'' index in
      case entry of
        PDict e \<Rightarrow>
          (case (nonempty_str (dget e ''name''), nonempty_str (dget e ''role''), nonempty_str (dget e ''source'')) of
             (Some name, Some role, Some source) \<Rightarrow>
               if name \<in> fst ` set roles then Inl (unavailable (''duplicate robot collision '' @ name))
               else collision_entries (index + 1) (roles @ [(name, role)]) entries
           | _ \<Rightarrow> Inl (unavailable (label @ '' is incomplete'')))
      | _ \<Rightarrow> Inl (unavailable (label @ '' must be an object'')))"

text \<open>\<open>isinstance(v, list) and set(v) == names and len(v) == len(names)\<close>; an unhashable element raises.\<close>

definition hashable :: "pyval \<Rightarrow> bool" where
  "hashable v = (case v of PList _ \<Rightarrow> False | PDict _ \<Rightarrow> False | _ \<Rightarrow> True)"

definition same_names :: "pyval \<Rightarrow> string list \<Rightarrow> string \<Rightarrow> metrics_exn + unit" where
  "same_names v names message =
     (case v of
        PList vs \<Rightarrow>
          if \<not> list_all hashable vs then Inl MetricTypeError
          else guardE (set vs = PStr ` set names \<and> length vs = length names) (unavailable message)
      | _ \<Rightarrow> Inl (unavailable message))"

fun support_loop ::
  "nat \<Rightarrow> (string \<times> string) list \<Rightarrow> (string \<times> string) list \<Rightarrow> pyval list \<Rightarrow> metrics_exn + (string \<times> string) list" where
  "support_loop index roles pairs [] = Inr pairs"
| "support_loop index roles pairs (pair # rest) =
     (let label = indexed ''support_pairs'' index in
      case pair of
        PDict p \<Rightarrow>
          if \<not> hashable (dget p ''robot_collision'') then Inl MetricTypeError
          else
          (case (dget p ''robot_collision'', dget p ''environment_collision'') of
             (PStr robot, PStr environment) \<Rightarrow>
               (case map_of roles robot of
                  None \<Rightarrow> Inl (unavailable (label @ '' is invalid''))
                | Some role \<Rightarrow>
                    if role \<notin> set SUPPORT_ROLES
                    then Inl (unavailable ''only exact wheel/caster roles may be support-allowlisted'')
                    else if environment \<noteq> GROUND_COLLISION
                    then Inl (unavailable ''support allowlist counterpart must be exact ground collision'')
                    else if (robot, environment) \<in> set pairs
                    then Inl (unavailable (''duplicate '' @ label))
                    else support_loop (index + 1) roles (pairs @ [(robot, environment)]) rest)
           | _ \<Rightarrow> Inl (unavailable (label @ '' is invalid'')))
      | _ \<Rightarrow> Inl (unavailable (label @ '' must be an object'')))"

record collision_names =
  robot_model :: string
  robot_names :: "string list"
  support_pairs :: "(string \<times> string) list"

text \<open>The part of \<open>_collision_names\<close> that resolves the names; the checks of topics, policy, QoS and hashes
  around it decide only whether the manifest is accepted.\<close>

definition resolve_names :: "pydict \<Rightarrow> metrics_exn + collision_names" where
  "resolve_names manifest =
     (case nonempty_str (dget manifest ''robot_model'') of
        None \<Rightarrow> Inl (unavailable ''coverage manifest robot_model is missing'')
      | Some model \<Rightarrow>
          (case dget manifest ''robot_collisions'' of
             PList (entry # entries) \<Rightarrow>
               bindE (collision_entries 0 [] (entry # entries)) (\<lambda>roles.
               let names = map fst roles in
               bindE (same_names (dget manifest ''covered_collisions'') names
                 ''contact-source coverage does not equal robot collision set'') (\<lambda>_.
               bindE (same_names (dget manifest ''rendered_robot_collisions'') names
                 ''rendered-SDF collision set does not equal coverage manifest'') (\<lambda>_.
               case (case map_of manifest ''support_pairs'' of None \<Rightarrow> PList [] | Some v \<Rightarrow> v) of
                 PList raw \<Rightarrow>
                   bindE (support_loop 0 roles [] raw) (\<lambda>pairs.
                   Inr \<lparr>robot_model = model, robot_names = names, support_pairs = pairs\<rparr>)
               | _ \<Rightarrow> Inl (unavailable ''support_pairs must be a list''))))
           | _ \<Rightarrow> Inl (unavailable ''coverage manifest has no robot collisions'')))"

section \<open>Classification\<close>

text \<open>\<open>s.split('::')\<close>\<close>

fun split_scope :: "string \<Rightarrow> string \<Rightarrow> string list" where
  "split_scope current [] = [current]"
| "split_scope current [c] = [current @ [c]]"
| "split_scope current (c # d # cs) =
     (if c = CHR '':'' \<and> d = CHR '':'' then current # split_scope [] cs else split_scope (current @ [c]) (d # cs))"

definition top_model :: "string \<Rightarrow> metrics_exn + string" where
  "top_model scoped =
     (let segments = split_scope [] scoped in
      if length segments < 3 \<or> [] \<in> set segments
      then Inl (unavailable ''contact collision name is not model::link::collision scoped'')
      else Inr (hd segments))"

datatype contact_class =
    NotCounted string
  | Counted string string string

text \<open>A counted contact names the counterpart's collision, its model, and the robot's collision.\<close>

definition classify_contact_pair :: "collision_names \<Rightarrow> pyval \<Rightarrow> pyval \<Rightarrow> metrics_exn + contact_class" where
  "classify_contact_pair names v1 v2 =
     (case (v1, v2) of
        (PStr collision1, PStr collision2) \<Rightarrow>
          bindE (top_model collision1) (\<lambda>first_model.
          bindE (top_model collision2) (\<lambda>second_model.
          let first_robot = collision1 \<in> set (robot_names names); second_robot = collision2 \<in> set (robot_names names) in
          if first_model = robot_model names \<and> \<not> first_robot \<or> second_model = robot_model names \<and> \<not> second_robot
          then Inl (unavailable ''contact references an unknown rendered robot collision'')
          else if first_robot \<and> second_robot then Inr (NotCounted ''robot_internal'')
          else if \<not> first_robot \<and> \<not> second_robot
          then Inl (unavailable ''manifest-v3 contact snapshot contains a non-robot pair'')
          else
            let robot_collision = (if first_robot then collision1 else collision2);
                counterpart_collision = (if first_robot then collision2 else collision1) in
            if (robot_collision, counterpart_collision) \<in> set (support_pairs names)
            then Inr (NotCounted ''allowlisted_support_contact'')
            else
              bindE (top_model counterpart_collision) (\<lambda>counterpart_model.
              if counterpart_model = [] \<or> counterpart_model = robot_model names
              then Inl (unavailable ''contact counterpart cannot be resolved'')
              else Inr (Counted counterpart_collision counterpart_model robot_collision))))
      | _ \<Rightarrow> Inl (unavailable ''contact collision names must be strings''))"
section \<open>The tracker\<close>

type_synonym pair_set = "(string \<times> string) list"

record contact_group =
  g_force :: "pyfloat option"
  g_depth :: "pyfloat option"
  g_pairs :: pair_set
  g_count :: int

record contact_event =
  counterpart_model :: string
  last_snapshot_stamp_ns :: int
  max_force :: "pyfloat option"
  max_depth :: "pyfloat option"
  event_pairs :: pair_set
  post_terminal_count :: int
  sampled_count :: int
  start_stamp_ns :: int

record closed_event = contact_event +
  end_stamp_ns :: int
  duration_s :: pyfloat
  censored_at_drain :: bool

record contact_tracker =
  active :: "(string \<times> contact_event) list"
  events :: "closed_event list"
  exclusions :: "(string \<times> int) list"
  pre_action_records :: int
  post_terminal_records :: int
  previous_sequence :: int
  previous_stamp :: "int option"
  maximum_public_gap_ns :: int
  record_total :: int
  public_snapshot_count :: int
  in_action_count :: int
  drain_observed :: bool
  latest_before_start :: "int option"

record mission_interval =
  mi_start :: int
  mi_terminal :: int
  mi_drain :: int

definition CONTACT_KEYS :: "string list" where
  "CONTACT_KEYS = [''collision1'', ''collision2'', ''maximum_normal_force_n'', ''maximum_penetration_depth_m'']"

text \<open>A measured value: \<open>None\<close>, or a finite number that is not negative.\<close>

definition measured :: "pyval \<Rightarrow> string \<Rightarrow> string \<Rightarrow> metrics_exn + pyfloat option" where
  "measured v name message =
     (if v = PNone then Inr None
      else bindE (require_finite v name) (\<lambda>x.
        bindE (guardE (\<not> f_less x (Fin 0)) (unavailable message)) (\<lambda>_. Inr (Some x))))"

text \<open>\<open>max(value, old or 0.0)\<close> when there is a value.\<close>

definition raise_max :: "pyfloat option \<Rightarrow> pyfloat option \<Rightarrow> pyfloat option" where
  "raise_max new_value old =
     (case new_value of None \<Rightarrow> old | Some x \<Rightarrow> Some (f_max x (case old of None \<Rightarrow> Fin 0 | Some y \<Rightarrow> y)))"

definition group_contact :: "collision_names \<Rightarrow> string \<Rightarrow> pyval \<Rightarrow> (string \<times> contact_group) list \<times> (string \<times> int) list
    \<Rightarrow> metrics_exn + ((string \<times> contact_group) list \<times> (string \<times> int) list)" where
  "group_contact names label contact state =
     (case contact of
        PDict d \<Rightarrow>
          if set (map fst d) \<noteq> set CONTACT_KEYS then Inl (unavailable (label @ '' is not a v3 snapshot record''))
          else
            bindE (classify_contact_pair names (dget d ''collision1'') (dget d ''collision2'')) (\<lambda>cls.
            case cls of
              NotCounted reason \<Rightarrow>
                Inr (fst state,
                     dict_set reason ((case map_of (snd state) reason of None \<Rightarrow> 0 | Some n \<Rightarrow> n) + 1) (snd state))
            | Counted cp_collision cp_model robot_collision \<Rightarrow>
                bindE (measured (dget d ''maximum_penetration_depth_m'') ''contact.maximum_penetration_depth_m''
                  ''contact depth cannot be negative'') (\<lambda>depth.
                bindE (measured (dget d ''maximum_normal_force_n'') ''contact.maximum_normal_force_n''
                  ''contact force cannot be negative'') (\<lambda>force.
                let g = (case map_of (fst state) cp_model of
                           None \<Rightarrow> \<lparr>g_force = None, g_depth = None, g_pairs = [], g_count = 0\<rparr>
                         | Some g \<Rightarrow> g);
                    g' = \<lparr>g_force = raise_max force (g_force g), g_depth = raise_max depth (g_depth g),
                          g_pairs = List.insert (robot_collision, cp_collision) (g_pairs g), g_count = g_count g + 1\<rparr>
                in Inr (dict_set cp_model g' (fst state), snd state))))
      | _ \<Rightarrow> Inl (unavailable (label @ '' is not a v3 snapshot record'')))"

fun group_loop :: "collision_names \<Rightarrow> nat \<Rightarrow> nat \<Rightarrow> pyval list \<Rightarrow> (string \<times> contact_group) list \<times> (string \<times> int) list
    \<Rightarrow> metrics_exn + ((string \<times> contact_group) list \<times> (string \<times> int) list)" where
  "group_loop names message_index contact_index [] state = Inr state"
| "group_loop names message_index contact_index (contact # contacts) state =
     bindE (group_contact names (at_index ''messages'' message_index (indexed ''contacts'' contact_index)) contact state)
       (group_loop names message_index (contact_index + 1) contacts)"

definition close_event :: "int \<Rightarrow> bool \<Rightarrow> contact_event \<Rightarrow> metrics_exn + closed_event" where
  "close_event stamp censored e =
     bindE (ns_seconds (stamp - start_stamp_ns e)) (\<lambda>d.
     Inr (contact_event.extend e (closed_event.fields stamp d censored)))"

fun close_absent :: "int \<Rightarrow> string list \<Rightarrow> contact_tracker \<Rightarrow> metrics_exn + contact_tracker" where
  "close_absent stamp [] st = Inr st"
| "close_absent stamp (counterpart # counterparts) st =
     (case map_of (active st) counterpart of
        None \<Rightarrow> close_absent stamp counterparts st
      | Some e \<Rightarrow>
          bindE (close_event stamp False e) (\<lambda>closed.
          close_absent stamp counterparts
            (st\<lparr>active := dict_del counterpart (active st), events := events st @ [closed]\<rparr>)))"

definition new_event :: "string \<Rightarrow> int \<Rightarrow> contact_group \<Rightarrow> contact_event" where
  "new_event counterpart stamp g =
     \<lparr>counterpart_model = counterpart, last_snapshot_stamp_ns = stamp, max_force = g_force g, max_depth = g_depth g,
      event_pairs = g_pairs g, post_terminal_count = 0, sampled_count = g_count g, start_stamp_ns = stamp\<rparr>"

definition extend_event :: "int \<Rightarrow> contact_group \<Rightarrow> contact_event \<Rightarrow> contact_event" where
  "extend_event stamp g e =
     e\<lparr>last_snapshot_stamp_ns := stamp, event_pairs := List.union (event_pairs e) (g_pairs g),
       sampled_count := sampled_count e + g_count g, max_force := raise_max (g_force g) (max_force e),
       max_depth := raise_max (g_depth g) (max_depth e)\<rparr>"

definition observe_group :: "int \<Rightarrow> int \<Rightarrow> contact_tracker \<Rightarrow> string \<times> contact_group \<Rightarrow> contact_tracker" where
  "observe_group terminal stamp st cg =
     (let counterpart = fst cg; g = snd cg; known = map_of (active st) counterpart in
      if stamp > terminal \<and> known = None then st\<lparr>post_terminal_records := post_terminal_records st + g_count g\<rparr>
      else
        let e = (case known of None \<Rightarrow> new_event counterpart stamp g | Some e \<Rightarrow> extend_event stamp g e);
            e' = (if stamp > terminal then e\<lparr>post_terminal_count := post_terminal_count e + g_count g\<rparr> else e)
        in st\<lparr>active := dict_set counterpart e' (active st)\<rparr>)"

definition check_order :: "nat \<Rightarrow> sample \<Rightarrow> contact_tracker \<Rightarrow> metrics_exn + (int \<times> contact_tracker)" where
  "check_order i message st =
     bindE (require_int (dget message ''stamp_ns'') (at_index ''messages'' i ''stamp_ns'')) (\<lambda>stamp.
     bindE (require_int (dget message ''collector_sequence'') (at_index ''messages'' i ''collector_sequence'')) (\<lambda>sequence.
     bindE (guardE (\<not> (stamp \<le> 0 \<or> sequence \<le> previous_sequence st))
       (unavailable ''contact snapshot collector ordering is invalid'')) (\<lambda>_.
     bindE (case previous_stamp st of
              None \<Rightarrow> Inr (maximum_public_gap_ns st)
            | Some p \<Rightarrow>
                bindE (guardE (\<not> stamp \<le> p)
                  (unavailable ''authoritative contact snapshot stamps are not strictly increasing'')) (\<lambda>_.
                bindE (guardE (\<not> stamp - p > MAX_CONTACT_SNAPSHOT_GAP_NS)
                  (unavailable ''authoritative contact snapshot gap exceeded 220 ms'')) (\<lambda>_.
                Inr (max (maximum_public_gap_ns st) (stamp - p))))) (\<lambda>gap.
     Inr (stamp, st\<lparr>previous_sequence := sequence, previous_stamp := Some stamp, maximum_public_gap_ns := gap\<rparr>)))))"

definition check_message :: "nat \<Rightarrow> sample \<Rightarrow> int \<Rightarrow> metrics_exn + pyval list" where
  "check_message i message stamp =
     bindE (guardE (dget message ''frame_id'' = PStr '''')
       (unavailable ''authoritative contact snapshot frame_id must be empty'')) (\<lambda>_.
     bindE (require_int (dget message ''delivery_clock_stamp_ns'') (at_index ''messages'' i ''delivery_clock_stamp_ns'')) (\<lambda>clock_stamp.
     bindE (require_int (dget message ''delivery_clock_offset_ns'') (at_index ''messages'' i ''delivery_clock_offset_ns'')) (\<lambda>offset.
     bindE (guardE (clock_stamp - stamp = offset)
       (unavailable ''authoritative contact snapshot delivery clock offset is inconsistent'')) (\<lambda>_.
     case dget message ''contacts'' of
       PList contacts \<Rightarrow>
         bindE (guardE (1 \<le> length contacts \<and> length contacts \<le> 16)
           (unavailable ''authoritative contact snapshot must contain between one and 16 records'')) (\<lambda>_. Inr contacts)
     | _ \<Rightarrow> Inl (unavailable ''authoritative contact snapshot must contain between one and 16 records'')))))"

text \<open>The rest of one message at or before the drain snapshot.\<close>

definition track_snapshot ::
  "collision_names \<Rightarrow> mission_interval \<Rightarrow> nat \<Rightarrow> int \<Rightarrow> pyval list \<Rightarrow> contact_tracker \<Rightarrow> metrics_exn + contact_tracker" where
  "track_snapshot names iv i stamp contacts st =
     (let st1 = (if mi_start iv \<le> stamp \<and> stamp \<le> mi_terminal iv then st\<lparr>in_action_count := in_action_count st + 1\<rparr> else st) in
      bindE (group_loop names i 0 contacts ([], exclusions st1)) (\<lambda>(grouped, excl).
      bindE (close_absent stamp (sort (filter (\<lambda>k. k \<notin> fst ` set grouped) (map fst (active st1))))
        (st1\<lparr>exclusions := excl\<rparr>)) (\<lambda>st2.
      let st3 = (if stamp < mi_start iv
                 then st2\<lparr>pre_action_records := pre_action_records st2 + sum_list (map (g_count \<circ> snd) grouped)\<rparr> else st2)
      in Inr (foldl (observe_group (mi_terminal iv) stamp) st3 grouped))))"

definition snapshot_step ::
  "collision_names \<Rightarrow> mission_interval \<Rightarrow> nat \<Rightarrow> sample \<Rightarrow> contact_tracker \<Rightarrow> metrics_exn + contact_tracker" where
  "snapshot_step names iv i message st =
     bindE (check_order i message st) (\<lambda>(stamp, st1).
     bindE (check_message i message stamp) (\<lambda>contacts.
     let st2 = st1\<lparr>public_snapshot_count := public_snapshot_count st1 + 1,
                   record_total := record_total st1 + int (length contacts)\<rparr> in
     bindE (guardE (\<not> record_total st2 > CONTACT_RECORD_CAPACITY)
       (unavailable ''normalized contact snapshot record capacity exceeded'')) (\<lambda>_.
     let st3 = (if stamp = mi_drain iv then st2\<lparr>drain_observed := True\<rparr> else st2);
         st4 = (if stamp \<le> mi_start iv then st3\<lparr>latest_before_start := Some stamp\<rparr> else st3) in
     if stamp > mi_drain iv then Inr st4 else track_snapshot names iv i stamp contacts st4)))"

fun snapshot_loop ::
  "collision_names \<Rightarrow> mission_interval \<Rightarrow> nat \<Rightarrow> sample list \<Rightarrow> contact_tracker \<Rightarrow> metrics_exn + contact_tracker" where
  "snapshot_loop names iv i [] st = Inr st"
| "snapshot_loop names iv i (message # messages) st =
     bindE (snapshot_step names iv i message st) (snapshot_loop names iv (i + 1) messages)"

definition new_tracker :: contact_tracker where
  "new_tracker = \<lparr>active = [], events = [], exclusions = [], pre_action_records = 0, post_terminal_records = 0,
     previous_sequence = 0, previous_stamp = None, maximum_public_gap_ns = 0, record_total = 0,
     public_snapshot_count = 0, in_action_count = 0, drain_observed = False, latest_before_start = None\<rparr>"

record collision_result =
  collision_count :: int
  drain_completed_stamp_ns :: int
  result_events :: "closed_event list"
  excluded_contact_counts :: "(string \<times> int) list"
  in_action_snapshot_count :: int
  maximum_public_snapshot_gap_ns :: int
  post_terminal_snapshot_record_count :: int
  pre_action_snapshot_record_count :: int
  result_snapshot_count :: int
  required_drain_stamp_ns :: int
  snapshot_contact_record_count :: int

definition event_key :: "closed_event \<Rightarrow> int \<times> string" where
  "event_key e = (start_stamp_ns e, counterpart_model e)"

text \<open>\<open>analyze_collisions\<close> from the resolved names on.\<close>

definition analyze_collisions ::
  "collision_names \<Rightarrow> sample list \<Rightarrow> pyval \<Rightarrow> pyval \<Rightarrow> pyval \<Rightarrow> int \<Rightarrow> metrics_exn + collision_result" where
  "analyze_collisions names messages accepted_goal terminal_action drain_completed release_gap_ns =
     bindE (require_int accepted_goal ''accepted_goal_stamp_ns'') (\<lambda>start.
     bindE (require_int terminal_action ''terminal_action_stamp_ns'') (\<lambda>terminal.
     bindE (require_int drain_completed ''drain_completed_stamp_ns'') (\<lambda>drain.
     bindE (guardE (\<not> terminal \<le> start)
       (unavailable ''terminal action stamp must be after accepted goal stamp'')) (\<lambda>_.
     bindE (guardE (\<not> release_gap_ns \<le> 0) (MetricValueError ''release_gap_ns must be positive'')) (\<lambda>_.
     let required_drain = terminal + release_gap_ns in
     bindE (guardE (\<not> drain \<le> required_drain)
       (unavailable ''contact terminal drain lacks a snapshot strictly beyond terminal + release gap'')) (\<lambda>_.
     bindE (snapshot_loop names \<lparr>mi_start = start, mi_terminal = terminal, mi_drain = drain\<rparr> 0 messages new_tracker) (\<lambda>st.
     bindE (guardE (drain_observed st)
       (unavailable ''capture does not contain the exact qualifying drain snapshot'')) (\<lambda>_.
     bindE (guardE (case latest_before_start st of
                      None \<Rightarrow> False | Some t \<Rightarrow> \<not> start - t > MAX_CONTACT_SNAPSHOT_GAP_NS)
       (unavailable ''accepted-goal T0 lacks a fresh authoritative snapshot at or before T0'')) (\<lambda>_.
     bindE (guardE (in_action_count st \<noteq> 0)
       (unavailable ''contact snapshot stream is silent during the mission interval'')) (\<lambda>_.
     bindE (traverse (\<lambda>(k, e). close_event drain True e) (active st)) (\<lambda>open_events.
     let ordered = sort_key event_key (events st @ open_events);
         selected = filter (\<lambda>e. \<not> (start_stamp_ns e < start \<or> start_stamp_ns e > terminal)) ordered;
         normalized = map (\<lambda>e. e\<lparr>event_pairs := sort (event_pairs e)\<rparr>) selected in
     Inr \<lparr>collision_count = int (length normalized), drain_completed_stamp_ns = drain, result_events = normalized,
          excluded_contact_counts = sort (exclusions st), in_action_snapshot_count = in_action_count st,
          maximum_public_snapshot_gap_ns = maximum_public_gap_ns st,
          post_terminal_snapshot_record_count = post_terminal_records st,
          pre_action_snapshot_record_count = pre_action_records st, result_snapshot_count = public_snapshot_count st,
          required_drain_stamp_ns = required_drain, snapshot_contact_record_count = record_total st\<rparr>)))))))))))"
section \<open>The tracker follows each counterpart\<close>

text \<open>The reference: the episodes of one counterpart, given for each snapshot its stamp and whether the
  counterpart is touched. \<open>open\<close> is the stamp at which the current episode began.\<close>

fun contact_runs :: "int \<Rightarrow> int option \<Rightarrow> (int \<times> bool) list \<Rightarrow> (int \<times> int \<times> bool) list" where
  "contact_runs drain None [] = []"
| "contact_runs drain (Some a) [] = [(a, drain, True)]"
| "contact_runs drain None ((t, touched) # xs) = contact_runs drain (if touched then Some t else None) xs"
| "contact_runs drain (Some a) ((t, touched) # xs) =
     (if touched then contact_runs drain (Some a) xs else (a, t, False) # contact_runs drain None xs)"

definition counted_contact :: "collision_names \<Rightarrow> string \<Rightarrow> pyval \<Rightarrow> bool" where
  "counted_contact names m contact =
     (case contact of
        PDict d \<Rightarrow> (case classify_contact_pair names (dget d ''collision1'') (dget d ''collision2'') of
                      Inr (Counted a m' r) \<Rightarrow> m' = m | _ \<Rightarrow> False)
      | _ \<Rightarrow> False)"

definition touches :: "collision_names \<Rightarrow> string \<Rightarrow> sample \<Rightarrow> bool" where
  "touches names m message =
     (case dget message ''contacts'' of PList cs \<Rightarrow> list_ex (counted_contact names m) cs | _ \<Rightarrow> False)"

definition contact_series :: "collision_names \<Rightarrow> int \<Rightarrow> string \<Rightarrow> sample list \<Rightarrow> (int \<times> bool) list" where
  "contact_series names drain m messages =
     map (\<lambda>msg. (stamp_of msg, touches names m msg)) (filter (\<lambda>msg. stamp_of msg \<le> drain) messages)"

definition triple :: "closed_event \<Rightarrow> int \<times> int \<times> bool" where
  "triple e = (start_stamp_ns e, end_stamp_ns e, censored_at_drain e)"

definition closed_of :: "contact_tracker \<Rightarrow> string \<Rightarrow> (int \<times> int \<times> bool) list" where
  "closed_of st m = map triple (filter (\<lambda>e. counterpart_model e = m) (events st))"

definition open_of :: "contact_tracker \<Rightarrow> string \<Rightarrow> int option" where
  "open_of st m = map_option start_stamp_ns (map_of (active st) m)"

definition keyed :: "contact_tracker \<Rightarrow> bool" where
  "keyed st \<longleftrightarrow> distinct (map fst (active st)) \<and> (\<forall>(k, e) \<in> set (active st). counterpart_model e = k)"

lemma keyedD: "keyed st \<Longrightarrow> map_of (active st) k = Some e \<Longrightarrow> counterpart_model e = k"
  using map_of_SomeD by (force simp: keyed_def)

lemma keyed_iff: "keyed st \<longleftrightarrow> distinct (map fst (active st)) \<and> (\<forall>k e. map_of (active st) k = Some e \<longrightarrow> counterpart_model e = k)"
  by (auto simp: keyed_def dest: map_of_SomeD)

lemma group_contact_keys:
  assumes "group_contact names label contact state = Inr state'"
  shows "fst ` set (fst state') = fst ` set (fst state) \<union> {m. counted_contact names m contact}"
proof -
  obtain d where d: "contact = PDict d" using assms by (auto simp: group_contact_def split: pyval.splits)
  obtain cls where cls: "classify_contact_pair names (dget d ''collision1'') (dget d ''collision2'') = Inr cls"
    using assms by (auto simp: group_contact_def d err_simps split: if_splits)
  show ?thesis
  proof (cases cls)
    case (NotCounted reason)
    then show ?thesis using assms by (auto simp: group_contact_def d cls counted_contact_def split: if_splits)
  next
    case (Counted a m r)
    then obtain g where g: "fst state' = dict_set m g (fst state)"
      using assms by (auto simp: group_contact_def d cls err_simps Let_def split: if_splits)
    have "{m'. counted_contact names m' contact} = {m}" using Counted by (simp add: d cls counted_contact_def)
    then show ?thesis unfolding g dict_set_keys by simp
  qed
qed

lemma group_loop_keys:
  "group_loop names i j cs state = Inr state' \<Longrightarrow>
   fst ` set (fst state') = fst ` set (fst state) \<union> {m. list_ex (counted_contact names m) cs}"
proof (induction cs arbitrary: j state)
  case (Cons c cs)
  then obtain s where s: "group_contact names (at_index ''messages'' i (indexed ''contacts'' j)) c state = Inr s"
      "group_loop names i (j + 1) cs s = Inr state'" by (auto simp: err_simps)
  from group_contact_keys [OF s(1)] Cons.IH [OF s(2)] show ?case by auto
qed simp

lemma close_event_Inr:
  assumes "close_event stamp c e = Inr x"
  shows "counterpart_model x = counterpart_model e" "triple x = (start_stamp_ns e, stamp, c)"
  using assms by (auto simp: close_event_def err_simps triple_def contact_event.defs closed_event.defs)

lemma close_absent_Inr:
  assumes "close_absent stamp ks st = Inr st'" "keyed st"
  shows "keyed st'" "open_of st' m = (if m \<in> set ks then None else open_of st m)"
    "closed_of st' m = closed_of st m @ (if m \<in> set ks then (case open_of st m of None \<Rightarrow> [] | Some a \<Rightarrow> [(a, stamp, False)]) else [])"
    "previous_stamp st' = previous_stamp st"
proof (atomize (full), use assms in \<open>induction ks arbitrary: st\<close>)
  case (Cons k ks)
  show ?case
  proof (cases "map_of (active st) k")
    case None
    then have "close_absent stamp ks st = Inr st'" using Cons.prems(1) by simp
    from Cons.IH [OF this Cons.prems(2)] None show ?thesis by (auto simp: open_of_def)
  next
    case (Some e)
    then obtain x where x: "close_event stamp False e = Inr x"
        "close_absent stamp ks (st\<lparr>active := dict_del k (active st), events := events st @ [x]\<rparr>) = Inr st'"
      using Cons.prems(1) by (auto simp: err_simps)
    note ce = close_event_Inr [OF x(1)]
    have ck: "counterpart_model e = k" using keyedD [OF Cons.prems(2) Some] .
    have "keyed (st\<lparr>active := dict_del k (active st), events := events st @ [x]\<rparr>)"
      using Cons.prems(2) by (auto simp: keyed_iff dict_del_distinct map_of_dict_del)
    from Cons.IH [OF x(2) this] Some ce ck show ?thesis
      by (auto simp: open_of_def closed_of_def map_of_dict_del)
  qed
qed simp

lemma keyed_set:
  assumes "keyed st" "counterpart_model e = k"
  shows "keyed (st\<lparr>active := dict_set k e (active st)\<rparr>)"
proof -
  have "counterpart_model e' = k'" if "map_of (dict_set k e (active st)) k' = Some e'" for k' e'
    using that assms keyedD [OF assms(1)] by (auto simp: map_of_dict_set split: if_splits)
  then show ?thesis using assms(1) dict_set_distinct [of "active st" k e] unfolding keyed_iff by simp
qed

lemma observe_group_cases:
  assumes "keyed st"
  shows "(\<exists>n. observe_group terminal stamp st cg = st\<lparr>post_terminal_records := n\<rparr> \<and> stamp > terminal \<and> open_of st (fst cg) = None)
    \<or> (\<exists>e. observe_group terminal stamp st cg = st\<lparr>active := dict_set (fst cg) e (active st)\<rparr> \<and> counterpart_model e = fst cg
        \<and> start_stamp_ns e = (case open_of st (fst cg) of None \<Rightarrow> stamp | Some a \<Rightarrow> a)
        \<and> (open_of st (fst cg) = None \<longrightarrow> \<not> stamp > terminal))"
proof (cases "map_of (active st) (fst cg)")
  case None
  then show ?thesis by (auto simp: observe_group_def Let_def open_of_def new_event_def)
next
  case (Some e)
  then show ?thesis using keyedD [OF assms Some]
    by (auto simp: observe_group_def Let_def open_of_def extend_event_def)
qed

lemma observe_group_facts:
  assumes "keyed st"
  shows "keyed (observe_group terminal stamp st cg)"
    "open_of (observe_group terminal stamp st cg) m =
       (if m = fst cg then (case open_of st m of None \<Rightarrow> if stamp > terminal then None else Some stamp | Some a \<Rightarrow> Some a)
        else open_of st m)"
    "events (observe_group terminal stamp st cg) = events st"
    "previous_stamp (observe_group terminal stamp st cg) = previous_stamp st"
proof -
  consider (skip) n where "observe_group terminal stamp st cg = st\<lparr>post_terminal_records := n\<rparr>" "stamp > terminal"
      "open_of st (fst cg) = None"
    | (set) e where "observe_group terminal stamp st cg = st\<lparr>active := dict_set (fst cg) e (active st)\<rparr>"
      "counterpart_model e = fst cg" "start_stamp_ns e = (case open_of st (fst cg) of None \<Rightarrow> stamp | Some a \<Rightarrow> a)"
      "open_of st (fst cg) = None \<longrightarrow> \<not> stamp > terminal"
    using observe_group_cases [OF assms, of terminal stamp cg] by (elim disjE exE conjE) simp_all
  note cases = this
  show "keyed (observe_group terminal stamp st cg)"
    by (rule cases) (use assms keyed_set in \<open>auto simp: keyed_def [of "_\<lparr>post_terminal_records := _\<rparr>"] keyed_def [of st]\<close>)
  show "open_of (observe_group terminal stamp st cg) m =
       (if m = fst cg then (case open_of st m of None \<Rightarrow> if stamp > terminal then None else Some stamp | Some a \<Rightarrow> Some a)
        else open_of st m)"
  proof (rule cases)
    fix n assume "observe_group terminal stamp st cg = st\<lparr>post_terminal_records := n\<rparr>" "stamp > terminal" "open_of st (fst cg) = None"
    then show ?thesis by (simp add: open_of_def)
  next
    fix e assume "observe_group terminal stamp st cg = st\<lparr>active := dict_set (fst cg) e (active st)\<rparr>"
      "start_stamp_ns e = (case open_of st (fst cg) of None \<Rightarrow> stamp | Some a \<Rightarrow> a)"
      "open_of st (fst cg) = None \<longrightarrow> \<not> stamp > terminal"
    then show ?thesis by (cases "map_of (active st) (fst cg)") (simp_all add: open_of_def map_of_dict_set)
  qed
  show "events (observe_group terminal stamp st cg) = events st"
    "previous_stamp (observe_group terminal stamp st cg) = previous_stamp st"
    by (rule cases; simp)+
qed

lemma observe_groups_facts:
  assumes "keyed st"
  shows "keyed (foldl (observe_group terminal stamp) st gs)"
    "open_of (foldl (observe_group terminal stamp) st gs) m =
       (if m \<in> fst ` set gs then (case open_of st m of None \<Rightarrow> if stamp > terminal then None else Some stamp | Some a \<Rightarrow> Some a)
        else open_of st m)"
    "events (foldl (observe_group terminal stamp) st gs) = events st"
    "previous_stamp (foldl (observe_group terminal stamp) st gs) = previous_stamp st"
proof (atomize (full), use assms in \<open>induction gs arbitrary: st\<close>)
  case (Cons g gs)
  note f = observe_group_facts [OF Cons.prems, of terminal stamp g]
  from Cons.IH [OF f(1)] f(2) [of m] f(3,4) show ?case by (auto split: option.splits)
qed simp

lemma track_snapshot_Inr:
  assumes "track_snapshot names iv i stamp contacts st = Inr st'" "keyed st"
  shows "keyed st'"
    "open_of st' m = (if list_ex (counted_contact names m) contacts
       then (case open_of st m of None \<Rightarrow> if stamp > mi_terminal iv then None else Some stamp | Some a \<Rightarrow> Some a) else None)"
    "closed_of st' m = closed_of st m @ (if list_ex (counted_contact names m) contacts then []
       else (case open_of st m of None \<Rightarrow> [] | Some a \<Rightarrow> [(a, stamp, False)]))"
    "previous_stamp st' = previous_stamp st"
proof -
  define st1 where "st1 = (if mi_start iv \<le> stamp \<and> stamp \<le> mi_terminal iv then st\<lparr>in_action_count := in_action_count st + 1\<rparr> else st)"
  obtain grouped excl st2 where g: "group_loop names i 0 contacts ([], exclusions st1) = Inr (grouped, excl)"
    and c: "close_absent stamp (sort (filter (\<lambda>k. k \<notin> fst ` set grouped) (map fst (active st1)))) (st1\<lparr>exclusions := excl\<rparr>) = Inr st2"
    and st': "st' = foldl (observe_group (mi_terminal iv) stamp) (if stamp < mi_start iv
       then st2\<lparr>pre_action_records := pre_action_records st2 + sum_list (map (g_count \<circ> snd) grouped)\<rparr> else st2) grouped"
    using assms(1) unfolding track_snapshot_def Let_def st1_def [symmetric] by (auto simp: err_simps)
  define st3 where "st3 = (if stamp < mi_start iv
       then st2\<lparr>pre_action_records := pre_action_records st2 + sum_list (map (g_count \<circ> snd) grouped)\<rparr> else st2)"
  have same1: "active st1 = active st" "events st1 = events st" "previous_stamp st1 = previous_stamp st" by (simp_all add: st1_def)
  have same3: "active st3 = active st2" "events st3 = events st2" "previous_stamp st3 = previous_stamp st2" by (simp_all add: st3_def)
  have keys: "m \<in> fst ` set grouped \<longleftrightarrow> list_ex (counted_contact names m) contacts" for m
    using group_loop_keys [OF g] by simp
  have "keyed (st1\<lparr>exclusions := excl\<rparr>)" using assms(2) same1 by (simp add: keyed_def)
  note ca = close_absent_Inr [OF c this]
  have k3: "keyed st3" using ca(1) same3 by (simp add: keyed_def)
  note og = observe_groups_facts [OF k3, where terminal = "mi_terminal iv" and stamp = stamp and gs = grouped, folded st' [folded st3_def]]
  have in_ks: "m \<in> set (sort (filter (\<lambda>k. k \<notin> fst ` set grouped) (map fst (active st1))))
      \<longleftrightarrow> \<not> list_ex (counted_contact names m) contacts \<and> open_of st m \<noteq> None"
    using keys [of m] by (auto simp: same1 open_of_def map_of_eq_None_iff)
  have open1: "open_of (st1\<lparr>exclusions := excl\<rparr>) m = open_of st m" "closed_of (st1\<lparr>exclusions := excl\<rparr>) m = closed_of st m"
    by (simp_all add: open_of_def closed_of_def same1)
  have open3: "open_of st3 m = open_of st2 m" "closed_of st' m = closed_of st2 m"
    using og(3) by (simp_all add: open_of_def closed_of_def same3)
  show "keyed st'" by (rule og(1))
  show "previous_stamp st' = previous_stamp st" using og(4) same3 ca(4) same1 by simp
  show "open_of st' m = (if list_ex (counted_contact names m) contacts
       then (case open_of st m of None \<Rightarrow> if stamp > mi_terminal iv then None else Some stamp | Some a \<Rightarrow> Some a) else None)"
    using og(2) [of m] ca(2) [of m] in_ks keys [of m] open1(1) open3(1) by (auto split: option.splits)
  show "closed_of st' m = closed_of st m @ (if list_ex (counted_contact names m) contacts then []
       else (case open_of st m of None \<Rightarrow> [] | Some a \<Rightarrow> [(a, stamp, False)]))"
    using ca(3) [of m] in_ks open1 open3(2) by (auto split: option.splits)
qed

lemma check_order_Inr:
  assumes "check_order i message st = Inr (stamp, st')"
  shows "int_stamp message" "stamp = stamp_of message" "above (previous_stamp st) (<) stamp"
    "previous_stamp st' = Some stamp" "active st' = active st" "events st' = events st"
  using assms int_stampI [of message]
  by (auto simp: check_order_def err_simps above_def split: option.splits)

lemma check_message_Inr: "check_message i message stamp = Inr cs \<Longrightarrow> dget message ''contacts'' = PList cs"
  by (auto simp: check_message_def err_simps split: pyval.splits)

lemma snapshot_step_Inr:
  assumes "snapshot_step names iv i message st = Inr st'" "keyed st"
  shows "int_stamp message" "above (previous_stamp st) (<) (stamp_of message)" "keyed st'"
    "previous_stamp st' = Some (stamp_of message)"
    "open_of st' m = (if stamp_of message > mi_drain iv then open_of st m
       else if touches names m message
       then (case open_of st m of None \<Rightarrow> if stamp_of message > mi_terminal iv then None else Some (stamp_of message) | Some a \<Rightarrow> Some a)
       else None)"
    "closed_of st' m = closed_of st m @ (if stamp_of message > mi_drain iv \<or> touches names m message then []
       else (case open_of st m of None \<Rightarrow> [] | Some a \<Rightarrow> [(a, stamp_of message, False)]))"
proof -
  obtain stamp st1 cs where o: "check_order i message st = Inr (stamp, st1)" and m: "check_message i message stamp = Inr cs"
    using assms(1) by (auto simp: snapshot_step_def err_simps)
  note co = check_order_Inr [OF o] and cm = check_message_Inr [OF m]
  have touch: "touches names m message \<longleftrightarrow> list_ex (counted_contact names m) cs" for m by (simp add: touches_def cm)
  define st2 where "st2 = st1\<lparr>public_snapshot_count := public_snapshot_count st1 + 1, record_total := record_total st1 + int (length cs)\<rparr>"
  define st3 where "st3 = (if stamp = mi_drain iv then st2\<lparr>drain_observed := True\<rparr> else st2)"
  define st4 where "st4 = (if stamp \<le> mi_start iv then st3\<lparr>latest_before_start := Some stamp\<rparr> else st3)"
  have st': "(if stamp > mi_drain iv then Inr st4 else track_snapshot names iv i stamp cs st4) = Inr st'"
    using assms(1) unfolding snapshot_step_def o bindE_simps prod.case m Let_def st4_def st3_def st2_def bindE_Inr_iff
    by blast
  have same: "active st4 = active st" "events st4 = events st" "previous_stamp st4 = Some stamp"
    using co by (simp_all add: st4_def st3_def st2_def)
  then have k: "keyed st4" using assms(2) by (simp add: keyed_def)
  have oc: "open_of st4 m = open_of st m" "closed_of st4 m = closed_of st m" for m
    by (simp_all add: open_of_def closed_of_def same)
  show "int_stamp message" "above (previous_stamp st) (<) (stamp_of message)" using co by simp_all
  show "keyed st'" "previous_stamp st' = Some (stamp_of message)"
    using st' track_snapshot_Inr(1,4) [OF _ k] k same co by (auto split: if_splits)
  show "open_of st' m = (if stamp_of message > mi_drain iv then open_of st m
       else if touches names m message
       then (case open_of st m of None \<Rightarrow> if stamp_of message > mi_terminal iv then None else Some (stamp_of message) | Some a \<Rightarrow> Some a)
       else None)"
    "closed_of st' m = closed_of st m @ (if stamp_of message > mi_drain iv \<or> touches names m message then []
       else (case open_of st m of None \<Rightarrow> [] | Some a \<Rightarrow> [(a, stamp_of message, False)]))"
    using st' track_snapshot_Inr(2,3) [OF _ k] oc co touch by (auto split: if_splits)
qed

text \<open>What the tracker keeps of an open episode: only those that began by the terminal stamp.\<close>

definition tracked_open :: "int \<Rightarrow> int option \<Rightarrow> int option" where
  "tracked_open terminal a = (case a of None \<Rightarrow> None | Some x \<Rightarrow> if x \<le> terminal then Some x else None)"

definition opened_by :: "int \<Rightarrow> int \<times> int \<times> bool \<Rightarrow> bool" where
  "opened_by terminal r \<longleftrightarrow> fst r \<le> terminal"

lemma snapshot_loop_runs:
  assumes "snapshot_loop names iv i messages st = Inr st'" "keyed st" "open_of st m = tracked_open (mi_terminal iv) a"
    "\<And>x. a = Some x \<Longrightarrow> \<exists>p. previous_stamp st = Some p \<and> x \<le> p"
  shows "keyed st' \<and> list_all int_stamp messages \<and> sorted_wrt (<) (map stamp_of messages)
    \<and> list_all (\<lambda>msg. above (previous_stamp st) (<) (stamp_of msg)) messages
    \<and> closed_of st' m @ (case open_of st' m of None \<Rightarrow> [] | Some x \<Rightarrow> [(x, mi_drain iv, True)])
      = closed_of st m @ filter (opened_by (mi_terminal iv)) (contact_runs (mi_drain iv) a (contact_series names (mi_drain iv) m messages))"
  using assms
proof (induction messages arbitrary: i st a)
  case Nil
  then show ?case by (cases a) (auto simp: contact_series_def tracked_open_def opened_by_def)
next
  case (Cons msg messages)
  then obtain st1 where s: "snapshot_step names iv i msg st = Inr st1" and l: "snapshot_loop names iv (i + 1) messages st1 = Inr st'"
    by (auto simp: err_simps)
  note f = snapshot_step_Inr [OF s Cons.prems(2)]
  let ?t = "stamp_of msg"
  define b where "b = (if ?t > mi_drain iv then a else if touches names m msg then (case a of None \<Rightarrow> Some ?t | Some x \<Rightarrow> Some x) else None)"
  have before: "x < ?t" if "a = Some x" for x
    using Cons.prems(4) [OF that] f(2) by (auto simp: above_def)
  have open1: "open_of st1 m = tracked_open (mi_terminal iv) b"
    using f(5) [of m] Cons.prems(3) before by (auto simp: b_def tracked_open_def split: option.splits if_splits)
  have prev1: "\<exists>p. previous_stamp st1 = Some p \<and> x \<le> p" if "b = Some x" for x
    using that before f(4) by (auto simp: b_def split: option.splits if_splits intro: less_imp_le)
  note IH = Cons.IH [OF l f(3) open1 prev1]
  have runs: "closed_of st1 m @ filter (opened_by (mi_terminal iv)) (contact_runs (mi_drain iv) b (contact_series names (mi_drain iv) m messages))
    = closed_of st m @ filter (opened_by (mi_terminal iv)) (contact_runs (mi_drain iv) a (contact_series names (mi_drain iv) m (msg # messages)))"
    using f(6) [of m] Cons.prems(3)
    by (cases a) (auto simp: b_def contact_series_def tracked_open_def opened_by_def)
  have "above (previous_stamp st) (<) (stamp_of x)" if "x \<in> set messages" for x
    using IH that f(2,4) by (cases "previous_stamp st") (fastforce simp: above_def list_all_iff)+
  moreover have "?t < stamp_of x" if "x \<in> set messages" for x
    using IH that f(4) by (auto simp: above_def list_all_iff)
  ultimately show ?case using IH runs f(1,2) by (auto simp: list_all_iff)
qed

lemma contact_runs_sorted:
  assumes "sorted_wrt (<) (map fst xs)" "\<And>x t. a = Some x \<Longrightarrow> t \<in> fst ` set xs \<Longrightarrow> x < t"
  shows "sorted (map fst (contact_runs drain a xs)) \<and> (\<forall>r \<in> set (contact_runs drain a xs). fst r \<in> fst ` set xs \<or> a = Some (fst r))"
  using assms
proof (induction drain a xs rule: contact_runs.induct)
  case (3 drain t touched xs)
  then have "sorted (map fst (contact_runs drain (if touched then Some t else None) xs))
      \<and> (\<forall>r \<in> set (contact_runs drain (if touched then Some t else None) xs). fst r \<in> fst ` set xs \<or> (if touched then Some t else None) = Some (fst r))"
    by (cases touched) auto
  then show ?case by (cases touched) auto
next
  case (4 drain a t touched xs)
  show ?case
  proof (cases touched)
    case True
    then have "sorted (map fst (contact_runs drain (Some a) xs))
        \<and> (\<forall>r \<in> set (contact_runs drain (Some a) xs). fst r \<in> fst ` set xs \<or> Some a = Some (fst r))" using 4 by simp
    then show ?thesis using True by auto
  next
    case False
    then have "sorted (map fst (contact_runs drain None xs)) \<and> (\<forall>r \<in> set (contact_runs drain None xs). fst r \<in> fst ` set xs)"
      using 4 by simp
    moreover have "a < x" if "x \<in> fst ` set xs" for x using "4.prems"(2) that by simp
    ultimately have "sorted (map fst (contact_runs drain None xs))" "\<forall>r \<in> set (contact_runs drain None xs). fst r \<in> fst ` set xs \<and> a \<le> fst r"
      by (simp, meson less_imp_le)
    then show ?thesis using False by auto
  qed
qed auto

lemma open_events_of:
  assumes "list_all2 (\<lambda>a x. close_event drain True (snd a) = Inr x) as xs" "distinct (map fst as)"
    "\<forall>(k, e) \<in> set as. counterpart_model e = k"
  shows "map triple (filter (\<lambda>e. counterpart_model e = m) xs)
    = (case map_of as m of None \<Rightarrow> [] | Some e \<Rightarrow> [(start_stamp_ns e, drain, True)])"
  using assms
proof (induction as xs rule: list_all2_induct)
  case (Cons a as x xs)
  obtain k e where a: "a = (k, e)" by (cases a)
  have x: "counterpart_model x = k" "triple x = (start_stamp_ns e, drain, True)"
    using Cons.hyps(1) Cons.prems(2) close_event_Inr [of drain True e x] by (simp_all add: a)
  show ?case
  proof (cases "m = k")
    case True
    then have "map_of as m = None" using Cons.prems(1) by (simp add: a map_of_eq_None_iff)
    then show ?thesis using True x Cons by (simp add: a)
  next
    case False
    then show ?thesis using x Cons by (simp add: a)
  qed
qed simp

lemma event_keys_sorted:
  "sorted (map fst (map triple (filter (\<lambda>e. counterpart_model e = m) xs)))
     \<Longrightarrow> sorted (map event_key (filter (\<lambda>e. counterpart_model e = m) xs))"
  by (induction xs) (auto simp: triple_def event_key_def)

definition in_interval :: "int \<Rightarrow> int \<Rightarrow> closed_event \<Rightarrow> bool" where
  "in_interval start terminal e \<longleftrightarrow> \<not> (start_stamp_ns e < start \<or> start_stamp_ns e > terminal)"

definition sort_pairs :: "closed_event \<Rightarrow> closed_event" where
  "sort_pairs e = e\<lparr>event_pairs := sort (event_pairs e)\<rparr>"

lemma sort_pairs_simps [simp]:
  "counterpart_model (sort_pairs e) = counterpart_model e" "triple (sort_pairs e) = triple e" "event_key (sort_pairs e) = event_key e"
  by (simp_all add: sort_pairs_def triple_def event_key_def)

lemma analyze_collisions_Inr:
  assumes "analyze_collisions names messages (PInt start) (PInt terminal) (PInt drain) gap = Inr r"
  obtains st opens where
    "snapshot_loop names \<lparr>mi_start = start, mi_terminal = terminal, mi_drain = drain\<rparr> 0 messages new_tracker = Inr st"
    "traverse (\<lambda>(k, e). close_event drain True e) (active st) = Inr opens"
    "result_events r = map sort_pairs (filter (in_interval start terminal) (sort_key event_key (events st @ opens)))"
    "collision_count r = int (length (result_events r))"
  using assms unfolding analyze_collisions_def Let_def in_interval_def sort_pairs_def by (auto simp: err_simps)

lemma collision_episodes:
  assumes "analyze_collisions names messages (PInt start) (PInt terminal) (PInt drain) gap = Inr r"
  shows "map triple (filter (\<lambda>e. counterpart_model e = m) (result_events r))
    = filter (\<lambda>(a, b, c). start \<le> a \<and> a \<le> terminal) (contact_runs drain None (contact_series names drain m messages))"
proof -
  define iv where "iv = \<lparr>mi_start = start, mi_terminal = terminal, mi_drain = drain\<rparr>"
  from assms obtain st opens where loop: "snapshot_loop names iv 0 messages new_tracker = Inr st"
    and opens: "traverse (\<lambda>(k, e). close_event drain True e) (active st) = Inr opens"
    and r: "result_events r = map sort_pairs (filter (in_interval start terminal) (sort_key event_key (events st @ opens)))"
    unfolding iv_def by (rule analyze_collisions_Inr)
  let ?runs = "contact_runs drain None (contact_series names drain m messages)"
  let ?of = "filter (\<lambda>e. counterpart_model e = m)"
  have start: "keyed new_tracker" "open_of new_tracker m = tracked_open (mi_terminal iv) None" "closed_of new_tracker m = []"
    by (simp_all add: new_tracker_def keyed_def open_of_def tracked_open_def closed_of_def)
  have iv: "mi_drain iv = drain" "mi_terminal iv = terminal" by (simp_all add: iv_def)
  note run = snapshot_loop_runs [OF loop start(1,2), simplified start append_Nil, unfolded iv]
  have k: "keyed st" and msgs: "sorted_wrt (<) (map stamp_of messages)" using run by simp_all
  have "map triple (?of opens) = (case open_of st m of None \<Rightarrow> [] | Some x \<Rightarrow> [(x, drain, True)])"
    using open_events_of [OF opens [unfolded traverse_Inr_iff case_prod_unfold]] k
    by (cases "map_of (active st) m") (simp_all add: keyed_def open_of_def)
  then have all: "map triple (?of (events st @ opens)) = filter (opened_by terminal) ?runs"
    using run by (simp add: closed_of_def)
  have "sorted (map fst ?runs)"
    using contact_runs_sorted [of "contact_series names drain m messages" None drain] msgs
    by (simp add: contact_series_def comp_def sorted_wrt_map sorted_wrt_filter)
  then have "sorted (map fst (map triple (?of (events st @ opens))))" unfolding all by (rule sorted_filter)
  then have "sorted (map event_key (?of (events st @ opens)))" by (rule event_keys_sorted)
  then have stable: "?of (sort_key event_key (events st @ opens)) = ?of (events st @ opens)"
    by (simp only: filter_sort sort_key_id_if_sorted)
  have "map triple (?of (map sort_pairs (filter (in_interval start terminal) S))) = map triple (filter (in_interval start terminal) (?of S))" for S
    by (simp add: filter_map comp_def conj_commute)
  then have "map triple (?of (result_events r)) = map triple (filter (in_interval start terminal) (?of (events st @ opens)))"
    unfolding r stable [symmetric] .
  also have "\<dots> = filter (\<lambda>(a, b, c). start \<le> a \<and> a \<le> terminal) (map triple (?of (events st @ opens)))"
    by (simp add: filter_map comp_def in_interval_def triple_def not_less)
  also have "\<dots> = filter (\<lambda>(a, b, c). start \<le> a \<and> a \<le> terminal) ?runs"
    unfolding all by (auto simp: opened_by_def intro!: filter_cong)
  finally show ?thesis .
qed

text \<open>C38. Collision counting: the tracker, which follows all counterparts through one pass over the snapshots,
  reports for every counterpart exactly the episodes of the reference that begin in the mission
  interval, with their start, their end and whether the drain cut them off; the events are in order
  and the count is their number.\<close>

theorem collisions_follow_episodes:
  assumes "analyze_collisions names messages (PInt start) (PInt terminal) (PInt drain) gap = Inr r"
  shows "collision_count r = int (length (result_events r)) \<and> sorted (map event_key (result_events r))
    \<and> (\<forall>m. map triple (filter (\<lambda>e. counterpart_model e = m) (result_events r))
         = filter (\<lambda>(a, b, c). start \<le> a \<and> a \<le> terminal) (contact_runs drain None (contact_series names drain m messages)))"
proof -
  from assms obtain st opens where
    "snapshot_loop names \<lparr>mi_start = start, mi_terminal = terminal, mi_drain = drain\<rparr> 0 messages new_tracker = Inr st"
    "traverse (\<lambda>(k, e). close_event drain True e) (active st) = Inr opens"
    and r: "result_events r = map sort_pairs (filter (in_interval start terminal) (sort_key event_key (events st @ opens)))"
      "collision_count r = int (length (result_events r))"
    by (rule analyze_collisions_Inr)
  have "map event_key (result_events r) = map event_key (filter (in_interval start terminal) (sort_key event_key (events st @ opens)))"
    by (simp add: r(1))
  then have "sorted (map event_key (result_events r))"
    using sorted_filter [OF sorted_sort_key [of event_key "events st @ opens"]] by simp
  with r(2) collision_episodes [OF assms] show ?thesis by blast
qed

section \<open>A concrete capture\<close>

definition contact_between :: "string \<Rightarrow> string \<Rightarrow> pyval" where
  "contact_between a b = PDict [(''collision1'', PStr a), (''collision2'', PStr b), (''maximum_normal_force_n'', PNone),
     (''maximum_penetration_depth_m'', PNone)]"

definition contact_message :: "int \<Rightarrow> pyval \<Rightarrow> sample" where
  "contact_message t contact = [(''stamp_ns'', PInt t), (''collector_sequence'', PInt t), (''frame_id'', PStr ''''),
     (''delivery_clock_stamp_ns'', PInt t), (''delivery_clock_offset_ns'', PInt 0), (''contacts'', PList [contact])]"

definition small_robot :: collision_names where
  "small_robot = \<lparr>robot_model = ''r'', robot_names = [''r::b::c'', ''r::w::c''], support_pairs = []\<rparr>"

definition bump :: "sample list" where
  "bump = [contact_message 10 (contact_between ''r::b::c'' ''r::w::c''), contact_message 15 (contact_between ''x::b::c'' ''r::b::c''),
     contact_message 30 (contact_between ''r::b::c'' ''r::w::c'')]"

lemma small_robot_pairs:
  "classify_contact_pair small_robot (PStr ''r::b::c'') (PStr ''r::w::c'') = Inr (NotCounted ''robot_internal'')"
  "classify_contact_pair small_robot (PStr ''x::b::c'') (PStr ''r::b::c'') = Inr (Counted ''x::b::c'' ''x'' ''r::b::c'')"
  by (simp_all add: classify_contact_pair_def small_robot_def top_model_def)

lemma bump_analysis: "\<exists>r. analyze_collisions small_robot bump (PInt 10) (PInt 20) (PInt 30) 1 = Inr r"
proof -
  obtain q where "ns_seconds 15 = Inr (Fin q)"
    using fl_ratio_pos [of 15 1000000000] by (auto simp: ns_seconds_def int_truediv_def)
  then show ?thesis
    by (simp add: analyze_collisions_def bump_def contact_message_def contact_between_def snapshot_step_def check_order_def
        check_message_def new_tracker_def track_snapshot_def group_contact_def small_robot_pairs CONTACT_KEYS_def measured_def
        raise_max_def observe_group_def new_event_def close_event_def MAX_CONTACT_SNAPSHOT_GAP_NS_def CONTACT_RECORD_CAPACITY_def
        dict_del_def Let_def insert_commute)
qed

theorem collisions_follow_episodes_witness:
  "\<exists>r. analyze_collisions small_robot bump (PInt 10) (PInt 20) (PInt 30) 1 = Inr r
     \<and> map triple (filter (\<lambda>e. counterpart_model e = ''x'') (result_events r)) = [(15, 30, False)]"
proof -
  have "contact_series small_robot 30 ''x'' bump = [(10, False), (15, True), (30, False)]"
    by (simp add: contact_series_def bump_def contact_message_def contact_between_def stamp_of_def touches_def
        counted_contact_def small_robot_pairs)
  then show ?thesis using bump_analysis collisions_follow_episodes [of small_robot bump 10 20 30 1] by auto
qed

end
