(* ===== verification/Contact_Evidence.thy ===== *)
theory Contact_Evidence
  imports Collision_Metrics "HOL-Library.Multiset"
begin

text \<open>
  The contact evidence of the scenario package (\<open>robotest_scenarios/bounded.py\<close> and \<open>contact_evidence.py\<close>): the
  prefix buffer with fail-closed overflow, the classification of a contact pair, the pair traces of a component report
  and of the collector with their reconciliation, and the episode tracker of one counterpart. The buffer is a second
  instance of the locale \<open>prefix_log\<close>; the classifier and the tracker are compared with those of the metrics package,
  which were written separately.
\<close>

datatype scenario_exn = ValidationError string | ProtocolError string | ScenarioValueError string

section \<open>\<open>PrefixBuffer\<close>\<close>

text \<open>An item is an object: its identity, which \<open>is\<close> compares, and its value.\<close>

record 'a control_buffer =
  cb_name :: string
  cb_capacity :: int
  cb_items :: "(nat \<times> 'a) list"
  cb_ingress :: int
  cb_accepted :: int
  cb_invalid :: int
  cb_overflow :: int
  cb_first_overflow_sequence :: "int option"
  cb_first_overflow_stamp_ns :: "int option"

definition new_control_buffer :: "string \<Rightarrow> int \<Rightarrow> scenario_exn + 'a control_buffer" where
  "new_control_buffer name cap =
     (if cap \<le> 0 then Inl (ScenarioValueError ''prefix buffer capacity must be positive'')
      else Inr \<lparr>cb_name = name, cb_capacity = cap, cb_items = [], cb_ingress = 0, cb_accepted = 0, cb_invalid = 0,
                cb_overflow = 0, cb_first_overflow_sequence = None, cb_first_overflow_stamp_ns = None\<rparr>)"

definition control_add ::
  "nat \<times> 'a \<Rightarrow> int \<Rightarrow> int option \<Rightarrow> 'a control_buffer \<Rightarrow> (scenario_exn + unit) \<times> 'a control_buffer" where
  "control_add item sequence stamp_ns b =
     (let b1 = b\<lparr>cb_ingress := cb_ingress b + 1\<rparr> in
      if int (length (cb_items b1)) \<ge> cb_capacity b1 then
        (let b2 = b1\<lparr>cb_overflow := cb_overflow b1 + 1\<rparr>;
             b3 = (if cb_first_overflow_sequence b2 = None
                   then b2\<lparr>cb_first_overflow_sequence := Some sequence, cb_first_overflow_stamp_ns := stamp_ns\<rparr> else b2)
         in (Inl (ProtocolError (cb_name b @ '' prefix buffer overflowed at sequence '' @ show_int sequence)), b3))
      else (Inr (), b1\<lparr>cb_items := cb_items b1 @ [item], cb_accepted := cb_accepted b1 + 1\<rparr>))"

definition reject_invalid :: "'a control_buffer \<Rightarrow> 'a control_buffer" where
  "reject_invalid b = b\<lparr>cb_ingress := cb_ingress b + 1, cb_invalid := cb_invalid b + 1\<rparr>"

definition observe_unretained :: "'a control_buffer \<Rightarrow> 'a control_buffer" where
  "observe_unretained b = b\<lparr>cb_ingress := cb_ingress b + 1, cb_accepted := cb_accepted b + 1\<rparr>"

fun pop_same :: "nat \<Rightarrow> (nat \<times> 'a) list \<Rightarrow> (nat \<times> 'a) list option" where
  "pop_same oid [] = None"
| "pop_same oid (r # rs) = (if fst r = oid then Some rs else map_option ((#) r) (pop_same oid rs))"

definition invalidate_retained :: "nat \<times> 'a \<Rightarrow> 'a control_buffer \<Rightarrow> (scenario_exn + unit) \<times> 'a control_buffer" where
  "invalidate_retained item b =
     (case pop_same (fst item) (cb_items b) of
        None \<Rightarrow> (Inl (ScenarioValueError (cb_name b @ '' item is not retained'')), b)
      | Some rest \<Rightarrow> (Inr (), b\<lparr>cb_items := rest, cb_accepted := cb_accepted b - 1, cb_invalid := cb_invalid b + 1\<rparr>))"

definition control_quality :: "'a control_buffer \<Rightarrow> pydict" where
  "control_quality b =
     [(''accepted_count'', PInt (cb_accepted b)), (''capacity'', PInt (cb_capacity b)),
      (''first_overflow_sequence'', opt_int (cb_first_overflow_sequence b)),
      (''first_overflow_stamp_ns'', opt_int (cb_first_overflow_stamp_ns b)),
      (''ingress_count'', PInt (cb_ingress b)), (''invalid_count'', PInt (cb_invalid b)),
      (''overflow'', PBool (cb_overflow b > 0)), (''overflow_count'', PInt (cb_overflow b)),
      (''retained_count'', PInt (int (length (cb_items b))))]"

interpretation control: prefix_log cb_items cb_overflow "\<lambda>b. nat (cb_capacity b)" "\<lambda>(item, sequence, stamp). item"
  "\<lambda>(item, sequence, stamp) b. snd (control_add item sequence stamp b)"
  by unfold_locales (auto simp: control_add_def Let_def)

section \<open>Classification\<close>

definition top_level_model :: "string \<Rightarrow> scenario_exn + string" where
  "top_level_model scoped =
     (let segments = split_scope [] scoped in
      if length segments < 3 \<or> [] \<in> set segments
      then Inl (ProtocolError (''invalid scoped collision name: '' @ str_repr scoped))
      else Inr (hd segments))"

text \<open>\<open>CoverageManifest\<close>; the two frozen sets are lists of which only the members are read.\<close>

record coverage_manifest =
  manifest_path :: string
  manifest_sha256 :: string
  public_contact_snapshot_topic :: string
  private_raw_contact_topic :: string
  authoritative_contact_snapshots :: bool
  contact_snapshot_release_gap_ns :: int
  contact_snapshot_max_gap_ns :: int
  contact_snapshot_max_clock_lag_ns :: int
  contact_stream_policy_sha256 :: string
  robot_collisions :: "string list"
  support_exclusions :: "string set list"
  chassis_collision :: string
  bridge_sha256 :: string
  contact_configuration_sha256 :: string
  rendered_sdf_sha256 :: string
  robot_description_sha256 :: string
  world_source_sha256 :: string

definition provenance :: "coverage_manifest \<Rightarrow> (string \<times> string) list" where
  "provenance m =
     [(''bridge_sha256'', bridge_sha256 m), (''contact_configuration_sha256'', contact_configuration_sha256 m),
      (''coverage_manifest_sha256'', manifest_sha256 m), (''rendered_sdf_sha256'', rendered_sdf_sha256 m),
      (''robot_description_sha256'', robot_description_sha256 m), (''world_source_sha256'', world_source_sha256 m)]"

definition CONTROL_WALL_COLLISION :: string where
  "CONTROL_WALL_COLLISION = ''phase3_contact_control_wall::link::collision''"

record classified_pair =
  cp_counterpart_collision :: string
  cp_counterpart_model :: string
  cp_normalized_pair :: "string list"
  cp_robot_collision :: string

definition sort_pair :: "string \<times> string \<Rightarrow> string \<times> string" where
  "sort_pair p = (if snd p < fst p then (snd p, fst p) else p)"

definition expected_control_pair :: "coverage_manifest \<Rightarrow> string \<times> string" where
  "expected_control_pair m = sort_pair (chassis_collision m, CONTROL_WALL_COLLISION)"

definition classify :: "coverage_manifest \<Rightarrow> string \<Rightarrow> string \<Rightarrow> scenario_exn + classified_pair option" where
  "classify m collision_a collision_b =
     bindE (top_level_model collision_a) (\<lambda>_.
     bindE (top_level_model collision_b) (\<lambda>_.
     case filter (\<lambda>c. hd (split_scope [] c) = ''robotest'' \<and> c \<notin> set (robot_collisions m)) [collision_a, collision_b] of
       unknown # _ \<Rightarrow> Inl (ProtocolError (''contact names unknown rendered robot collision: '' @ str_repr unknown))
     | [] \<Rightarrow>
         let a_robot = collision_a \<in> set (robot_collisions m); b_robot = collision_b \<in> set (robot_collisions m) in
         if a_robot \<and> b_robot then Inr None
         else if {collision_a, collision_b} \<in> set (support_exclusions m) then Inr None
         else if a_robot = b_robot then Inr None
         else
           let robot_collision = (if a_robot then collision_a else collision_b);
               counterpart_collision = (if a_robot then collision_b else collision_a) in
           bindE (top_level_model counterpart_collision) (\<lambda>counterpart_model.
           Inr (Some \<lparr>cp_counterpart_collision = counterpart_collision, cp_counterpart_model = counterpart_model,
                      cp_normalized_pair = sort [robot_collision, counterpart_collision],
                      cp_robot_collision = robot_collision\<rparr>))))"

section \<open>Pair traces\<close>

definition trace_int :: "pyval \<Rightarrow> string \<Rightarrow> bool \<Rightarrow> scenario_exn + int" where
  "trace_int v label positive =
     (let message = label @ '' must be a '' @ (if positive then ''positive '' else []) @ ''integer'' in
      case v of
        PInt i \<Rightarrow> if positive \<and> i \<le> 0 then Inl (ValidationError message) else Inr i
      | _ \<Rightarrow> Inl (ValidationError message))"

definition trace_pair :: "pyval \<Rightarrow> string \<Rightarrow> bool \<Rightarrow> scenario_exn + (string \<times> string)" where
  "trace_pair v label normalized =
     (case v of
        PList [PStr a, PStr b] \<Rightarrow>
          if a = [] \<or> b = [] then Inl (ValidationError (label @ '' must contain two nonempty collision names''))
          else
            bindE (top_level_model a) (\<lambda>_.
            bindE (top_level_model b) (\<lambda>_.
            bindE (guardE (\<not> (normalized \<and> (a, b) \<noteq> sort_pair (a, b))) (ValidationError (label @ '' is not normalized''))) (\<lambda>_.
            Inr (sort_pair (a, b)))))
      | _ \<Rightarrow> Inl (ValidationError (label @ '' must contain two nonempty collision names'')))"

type_synonym pair_trace = "(int \<times> (string \<times> string) list) list"
type_synonym snapshot_records = "(int \<times> (int \<times> (string \<times> string)) list) list"

definition item_label :: "string \<Rightarrow> nat \<Rightarrow> string \<Rightarrow> string" where
  "item_label what i suffix = what @ '' '' @ show_int (int i) @ suffix"

definition records_of :: "snapshot_records \<Rightarrow> int \<Rightarrow> (int \<times> (string \<times> string)) list" where
  "records_of by_snapshot sequence = (case map_of by_snapshot sequence of None \<Rightarrow> [] | Some rs \<Rightarrow> rs)"

text \<open>The loop over \<open>snapshot_records\<close>.\<close>

fun record_loop :: "nat \<Rightarrow> pyval list \<Rightarrow> snapshot_records \<Rightarrow> scenario_exn + snapshot_records" where
  "record_loop i [] by_snapshot = Inr by_snapshot"
| "record_loop i (v # vs) by_snapshot =
     (let label = item_label ''component snapshot record'' i in
      case v of
        PDict record \<Rightarrow>
          bindE (trace_int (dget record ''snapshot_sequence'') (label '' sequence'') True) (\<lambda>sequence.
          bindE (trace_int (dget record ''sim_stamp_ns'') (label '' stamp'') True) (\<lambda>stamp.
          bindE (trace_pair (dget record ''normalized_pair'') (label '' pair'') True) (\<lambda>pair.
          record_loop (i + 1) vs
            (dict_set sequence (records_of by_snapshot sequence @ [(stamp, pair)]) by_snapshot))))
      | _ \<Rightarrow> Inl (ValidationError (label '' is not an object'')))"

record component_state =
  cs_trace :: pair_trace
  cs_included :: "int list"
  cs_previous_sequence :: int
  cs_previous_stamp :: int

text \<open>The rest of the turn for a snapshot at or before \<open>q\<close>.\<close>

definition include_snapshot ::
  "snapshot_records \<Rightarrow> nat \<Rightarrow> pydict \<Rightarrow> int \<Rightarrow> int \<Rightarrow> component_state \<Rightarrow> scenario_exn + component_state" where
  "include_snapshot by_snapshot i summary sequence stamp st =
     (let records = records_of by_snapshot sequence in
      bindE (trace_int (dget summary ''snapshot_record_count'')
        (item_label ''component contact snapshot'' i '' record count'') True) (\<lambda>declared.
      bindE (guardE (1 \<le> declared \<and> declared \<le> 16 \<and> int (length records) = declared
          \<and> list_all (\<lambda>(record_stamp, _). record_stamp = stamp) records)
        (ValidationError ''component contact snapshot records do not reconcile'')) (\<lambda>_.
      Inr (st\<lparr>cs_included := cs_included st @ [sequence], cs_trace := cs_trace st @ [(stamp, sort (map snd records))]\<rparr>))))"

definition component_step ::
  "snapshot_records \<Rightarrow> int \<Rightarrow> nat \<Rightarrow> pyval \<Rightarrow> component_state \<Rightarrow> scenario_exn + component_state" where
  "component_step by_snapshot q i v st =
     (case v of
        PDict summary \<Rightarrow>
          bindE (trace_int (dget summary ''collector_sequence'') (item_label ''component contact snapshot'' i '' sequence'') True) (\<lambda>sequence.
          bindE (trace_int (dget summary ''sim_stamp_ns'') (item_label ''component contact snapshot'' i '' stamp'') True) (\<lambda>stamp.
          bindE (guardE (\<not> (sequence \<le> cs_previous_sequence st \<or> stamp \<le> cs_previous_stamp st))
            (ValidationError ''component contact snapshots are not strictly ordered'')) (\<lambda>_.
          let st1 = st\<lparr>cs_previous_sequence := sequence, cs_previous_stamp := stamp\<rparr> in
          if stamp > q then Inr st1 else include_snapshot by_snapshot i summary sequence stamp st1)))
      | _ \<Rightarrow> Inl (ValidationError (item_label ''component contact snapshot'' i '' is not an object'')))"

fun component_loop ::
  "snapshot_records \<Rightarrow> int \<Rightarrow> nat \<Rightarrow> pyval list \<Rightarrow> component_state \<Rightarrow> scenario_exn + component_state" where
  "component_loop by_snapshot q i [] st = Inr st"
| "component_loop by_snapshot q i (v # vs) st =
     bindE (component_step by_snapshot q i v st) (component_loop by_snapshot q (i + 1) vs)"

definition nonempty_list :: "pyval \<Rightarrow> string \<Rightarrow> scenario_exn + pyval list" where
  "nonempty_list v message = (case v of PList (x # xs) \<Rightarrow> Inr (x # xs) | _ \<Rightarrow> Inl (ValidationError message))"

definition component_contact_snapshot_pair_trace :: "pyval \<Rightarrow> pyval \<Rightarrow> scenario_exn + pair_trace" where
  "component_contact_snapshot_pair_trace contact qualified_snapshot_stamp_ns =
     bindE (trace_int qualified_snapshot_stamp_ns ''qualified contact snapshot stamp'' True) (\<lambda>q.
     case contact of
       PDict c \<Rightarrow>
         bindE (nonempty_list (dget c ''snapshots'') ''component contact snapshots are missing'') (\<lambda>snapshots.
         bindE (nonempty_list (dget c ''snapshot_records'') ''component contact snapshot records are missing'') (\<lambda>records.
         bindE (record_loop 0 records []) (\<lambda>by_snapshot.
         bindE (component_loop by_snapshot q 0 snapshots
           \<lparr>cs_trace = [], cs_included = [], cs_previous_sequence = 0, cs_previous_stamp = 0\<rparr>) (\<lambda>st.
         bindE (guardE (cs_trace st \<noteq> [] \<and> fst (List.last (cs_trace st)) = q)
           (ValidationError ''component contact trace does not end at qualified snapshot q'')) (\<lambda>_.
         bindE (guardE (list_all (\<lambda>(sequence, rs). sequence \<in> set (cs_included st)
             \<or> list_all (\<lambda>(stamp, _). \<not> (fst (hd (cs_trace st)) \<le> stamp \<and> stamp \<le> q)) rs) by_snapshot)
           (ValidationError ''component contact record references a missing snapshot'')) (\<lambda>_.
         Inr (cs_trace st)))))))
     | _ \<Rightarrow> Inl (ValidationError ''component contact evidence must be an object''))"

fun captured_pairs :: "nat \<Rightarrow> nat \<Rightarrow> pyval list \<Rightarrow> scenario_exn + (string \<times> string) list" where
  "captured_pairs i j [] = Inr []"
| "captured_pairs i j (v # vs) =
     (let label = item_label ''collector contact snapshot'' i [] @ '' record '' @ show_int (int j) in
      case v of
        PDict record \<Rightarrow>
          bindE (trace_pair (PList [dget record ''collision1'', dget record ''collision2'']) (label @ '' pair'') False) (\<lambda>p.
          bindE (captured_pairs i (j + 1) vs) (\<lambda>ps. Inr (p # ps)))
      | _ \<Rightarrow> Inl (ValidationError (label @ '' is invalid'')))"

fun captured_loop :: "int \<Rightarrow> int \<Rightarrow> nat \<Rightarrow> pyval list \<Rightarrow> int \<Rightarrow> pair_trace \<Rightarrow> scenario_exn + pair_trace" where
  "captured_loop start q i [] prev trace = Inr trace"
| "captured_loop start q i (v # vs) prev trace =
     (case v of
        PDict item \<Rightarrow>
          bindE (trace_int (dget item ''stamp_ns'') (item_label ''collector contact snapshot'' i '' stamp'') True) (\<lambda>stamp.
          if \<not> (start \<le> stamp \<and> stamp \<le> q) then captured_loop start q (i + 1) vs prev trace
          else
            bindE (guardE (\<not> stamp \<le> prev) (ValidationError ''collector contact snapshots are not strictly ordered'')) (\<lambda>_.
            case dget item ''contacts'' of
              PList contacts \<Rightarrow>
                bindE (guardE (1 \<le> length contacts \<and> length contacts \<le> 16)
                  (ValidationError ''collector contact snapshot record count is invalid'')) (\<lambda>_.
                bindE (captured_pairs i 0 contacts) (\<lambda>pairs.
                captured_loop start q (i + 1) vs stamp (trace @ [(stamp, sort pairs)])))
            | _ \<Rightarrow> Inl (ValidationError ''collector contact snapshot record count is invalid'')))
      | _ \<Rightarrow> Inl (ValidationError (item_label ''collector contact snapshot'' i '' is not an object'')))"

definition captured_contact_snapshot_pair_trace :: "pyval \<Rightarrow> pyval \<Rightarrow> pyval \<Rightarrow> scenario_exn + pair_trace" where
  "captured_contact_snapshot_pair_trace contact_items first_component_stamp_ns qualified_snapshot_stamp_ns =
     bindE (trace_int first_component_stamp_ns ''first component contact snapshot stamp'' True) (\<lambda>start.
     bindE (trace_int qualified_snapshot_stamp_ns ''qualified contact snapshot stamp'' True) (\<lambda>q.
     case contact_items of
       PList xs \<Rightarrow>
         bindE (guardE (\<not> start > q) (ValidationError ''collector contact snapshot span is invalid'')) (\<lambda>_.
         bindE (captured_loop start q 0 xs 0 []) (\<lambda>trace.
         bindE (guardE (trace \<noteq> [] \<and> fst (hd trace) = start \<and> fst (List.last trace) = q)
           (ValidationError ''collector contact trace does not exactly span component-first to q'')) (\<lambda>_.
         Inr trace)))
     | _ \<Rightarrow> Inl (ValidationError ''collector contact snapshot span is invalid'')))"

definition reconcile_contact_snapshot_pair_traces :: "pyval \<Rightarrow> pyval \<Rightarrow> pyval \<Rightarrow> scenario_exn + pair_trace" where
  "reconcile_contact_snapshot_pair_traces contact contact_items q =
     bindE (component_contact_snapshot_pair_trace contact q) (\<lambda>component.
     bindE (captured_contact_snapshot_pair_trace contact_items (PInt (fst (hd component))) q) (\<lambda>captured.
     bindE (guardE (captured = component) (ValidationError ''component and collector contact snapshot traces differ'')) (\<lambda>_.
     Inr component)))"

section \<open>\<open>ContactEpisodeTracker\<close>\<close>

record contact_episode =
  ep_counterpart_model :: string
  ep_end_stamp_ns :: int
  ep_normalized_pairs :: "(string \<times> string) list"
  ep_snapshot_record_count :: int
  ep_start_stamp_ns :: int

definition CONTACT_RELEASE_GAP_NS :: int where
  "CONTACT_RELEASE_GAP_NS = 250000000"

record episode_tracker =
  et_counterpart_model :: string
  et_release_gap_ns :: int
  et_active_start_ns :: "int option"
  et_last_contact_ns :: "int option"
  et_last_snapshot_stamp_ns :: "int option"
  et_active_pairs :: "(string \<times> string) list"
  et_active_record_count :: int
  et_episodes :: "contact_episode list"

definition new_episode_tracker :: "string \<Rightarrow> episode_tracker" where
  "new_episode_tracker m =
     \<lparr>et_counterpart_model = m, et_release_gap_ns = CONTACT_RELEASE_GAP_NS, et_active_start_ns = None, et_last_contact_ns = None, et_last_snapshot_stamp_ns = None,
      et_active_pairs = [], et_active_record_count = 0, et_episodes = []\<rparr>"

definition tracker_observe :: "int \<Rightarrow> string \<times> string \<Rightarrow> episode_tracker \<Rightarrow> scenario_exn + episode_tracker" where
  "tracker_observe stamp pair t =
     Inl (ProtocolError ''legacy record-wise contact evidence is not valid for manifest v3'')"

definition tracker_advance :: "int \<Rightarrow> episode_tracker \<Rightarrow> scenario_exn + episode_tracker" where
  "tracker_advance stamp t = Inl (ProtocolError ''legacy clock-gap contact inference is not valid for manifest v3'')"

text \<open>\<open>_close\<close>; the assertion holds at its only call. A set of pairs is a list without repetition.\<close>

definition close_episode :: "int \<Rightarrow> int \<Rightarrow> episode_tracker \<Rightarrow> episode_tracker" where
  "close_episode start end_stamp t =
     t\<lparr>et_episodes := et_episodes t @
          [\<lparr>ep_counterpart_model = et_counterpart_model t, ep_end_stamp_ns = end_stamp,
            ep_normalized_pairs = sort (et_active_pairs t), ep_snapshot_record_count = et_active_record_count t,
            ep_start_stamp_ns = start\<rparr>],
       et_active_start_ns := None, et_last_contact_ns := None, et_active_pairs := [], et_active_record_count := 0\<rparr>"

definition observe_snapshot :: "int \<Rightarrow> (string \<times> string) list \<Rightarrow> episode_tracker \<Rightarrow> scenario_exn + episode_tracker" where
  "observe_snapshot stamp_ns pairs t =
     bindE (guardE (\<not> stamp_ns \<le> 0) (ProtocolError ''contact snapshot stamp must be positive'')) (\<lambda>_.
     bindE (guardE (case et_last_snapshot_stamp_ns t of None \<Rightarrow> True | Some p \<Rightarrow> \<not> stamp_ns \<le> p)
       (ProtocolError ''contact snapshot stamp did not strictly advance'')) (\<lambda>_.
     let t1 = t\<lparr>et_last_snapshot_stamp_ns := Some stamp_ns\<rparr> in
     if pairs = [] then
       Inr (case et_active_start_ns t of None \<Rightarrow> t1 | Some start \<Rightarrow> close_episode start stamp_ns t1)
     else
       let t2 = (if et_active_start_ns t1 = None
                 then t1\<lparr>et_active_start_ns := Some stamp_ns, et_active_pairs := [], et_active_record_count := 0\<rparr> else t1) in
       Inr (t2\<lparr>et_last_contact_ns := Some stamp_ns, et_active_pairs := fold List.insert pairs (et_active_pairs t2),
               et_active_record_count := et_active_record_count t2 + int (length pairs)\<rparr>)))"

fun observe_snapshots :: "(int \<times> (string \<times> string) list) list \<Rightarrow> episode_tracker \<Rightarrow> scenario_exn + episode_tracker" where
  "observe_snapshots [] t = Inr t"
| "observe_snapshots ((stamp, pairs) # xs) t = bindE (observe_snapshot stamp pairs t) (observe_snapshots xs)"

section \<open>The buffer accounts for every call\<close>

datatype 'a control_call = CAdd "nat \<times> 'a" int "int option" | CReject | CObserve | CInvalidate "nat \<times> 'a"

fun control_step :: "'a control_call \<Rightarrow> 'a control_buffer \<Rightarrow> 'a control_buffer" where
  "control_step (CAdd item sequence stamp) b = snd (control_add item sequence stamp b)"
| "control_step CReject b = reject_invalid b"
| "control_step CObserve b = observe_unretained b"
| "control_step (CInvalidate item) b = snd (invalidate_retained item b)"

definition control_inv :: "'a control_buffer \<Rightarrow> bool" where
  "control_inv b \<longleftrightarrow>
     cb_ingress b = cb_accepted b + cb_invalid b + cb_overflow b \<and> int (length (cb_items b)) \<le> cb_accepted b
     \<and> int (length (cb_items b)) \<le> cb_capacity b \<and> 0 \<le> cb_invalid b \<and> 0 \<le> cb_overflow b
     \<and> (cb_overflow b > 0 \<longleftrightarrow> cb_first_overflow_sequence b \<noteq> None)"

lemma pop_same_length: "pop_same i xs = Some ys \<Longrightarrow> length xs = Suc (length ys)"
  by (induction xs arbitrary: ys) (auto split: if_splits)

lemma control_step_inv: "control_inv b \<Longrightarrow> control_inv (control_step call b)"
  by (cases call) (auto simp: control_inv_def control_add_def reject_invalid_def observe_unretained_def invalidate_retained_def
      Let_def split: option.splits dest: pop_same_length)

lemma control_buffer_accounting:
  "new_control_buffer name cap = Inr b \<Longrightarrow> control_inv (fold control_step xs b)"
proof -
  assume "new_control_buffer name cap = Inr b"
  then have "control_inv b" by (auto simp: new_control_buffer_def control_inv_def split: if_splits)
  then show ?thesis by (induction xs arbitrary: b) (simp_all add: control_step_inv)
qed

lemma control_prefix_kept:
  assumes "new_control_buffer name cap = Inr b"
  shows "cb_items (fold (\<lambda>(item, sequence, stamp) b. snd (control_add item sequence stamp b)) xs b)
    = take (nat cap) (map (\<lambda>(item, sequence, stamp). item) xs)"
proof -
  have "cb_items b = []" "cb_capacity b = cap" using assms by (auto simp: new_control_buffer_def split: if_splits)
  then show ?thesis using control.run_items [of b xs] by simp
qed

section \<open>The two classifiers agree\<close>

definition same_manifest :: "coverage_manifest \<Rightarrow> collision_names \<Rightarrow> bool" where
  "same_manifest m names \<longleftrightarrow>
     robot_model names = ''robotest'' \<and> robot_names names = robot_collisions m
     \<and> support_exclusions m = map (\<lambda>(r, e). {r, e}) (support_pairs names)
     \<and> (\<forall>(r, e) \<in> set (support_pairs names). r \<in> set (robot_collisions m) \<and> e \<notin> set (robot_collisions m))"

lemma top_level_model_iff: "top_level_model s = Inr t \<longleftrightarrow> top_model s = Inr t"
  by (simp add: top_level_model_def top_model_def Let_def)

lemma top_model_hd: "top_model s = Inr t \<Longrightarrow> t = hd (split_scope [] s)"
  by (simp add: top_model_def Let_def split: if_splits)

lemma top_model_nonempty: "top_model s = Inr t \<Longrightarrow> t \<noteq> []"
  by (cases "split_scope [] s") (auto simp: top_model_def Let_def split: if_splits)

lemma classifiers_agree:
  assumes "same_manifest m names"
  shows "(\<exists>k. classify m a b = Inr (Some k) \<and> cp_counterpart_collision k = cc \<and> cp_counterpart_model k = cm
            \<and> cp_robot_collision k = rc)
    \<longleftrightarrow> classify_contact_pair names (PStr a) (PStr b) = Inr (Counted cc cm rc)"
proof (cases "top_model a")
  case (Inl e)
  then have "\<exists>e'. top_level_model a = Inl e'" using top_level_model_iff [of a] by (cases "top_level_model a") auto
  with Inl show ?thesis by (auto simp: classify_def classify_contact_pair_def)
next
  case (Inr ta)
  note a = this
  show ?thesis
  proof (cases "top_model b")
    case (Inl e)
    then have "\<exists>e'. top_level_model b = Inl e'" using top_level_model_iff [of b] by (cases "top_level_model b") auto
    with Inl a show ?thesis by (auto simp: classify_def classify_contact_pair_def top_level_model_iff [THEN iffD2])
  next
    case (Inr tb)
    note b = this
    have tops: "top_level_model a = Inr ta" "top_level_model b = Inr tb" "ta = hd (split_scope [] a)" "tb = hd (split_scope [] b)"
      using a b top_model_hd by (auto simp: top_level_model_iff)
    have ne: "ta \<noteq> []" "tb \<noteq> []" using a b top_model_nonempty by auto
    have sup: "{a, b} \<in> set (support_exclusions m) \<longleftrightarrow> (a, b) \<in> set (support_pairs names)"
      if "a \<in> set (robot_collisions m)" "b \<notin> set (robot_collisions m)" for a b
      using assms that unfolding same_manifest_def by (force simp: doubleton_eq_iff)
    have sup': "{a, b} \<in> set (support_exclusions m) \<longleftrightarrow> (b, a) \<in> set (support_pairs names)"
      if "b \<in> set (robot_collisions m)" "a \<notin> set (robot_collisions m)"
      using sup [OF that] by (simp add: insert_commute)
    have m: "robot_model names = ''robotest''" "robot_names names = robot_collisions m"
      using assms by (simp_all add: same_manifest_def)
    show ?thesis
      using sup [of a b] sup' ne a b tops
      by (cases "a \<in> set (robot_collisions m)"; cases "b \<in> set (robot_collisions m)")
        (auto simp: classify_def classify_contact_pair_def m Let_def)
  qed
qed

section \<open>The tracker follows the reference\<close>

definition episode_span :: "contact_episode \<Rightarrow> int \<times> int \<times> bool" where
  "episode_span e = (ep_start_stamp_ns e, ep_end_stamp_ns e, False)"

lemma observe_snapshot_Inr:
  assumes "observe_snapshot stamp pairs t = Inr t'"
  shows "et_counterpart_model t' = et_counterpart_model t"
    "map episode_span (et_episodes t') = map episode_span (et_episodes t)
       @ (case et_active_start_ns t of None \<Rightarrow> [] | Some a \<Rightarrow> if pairs = [] then [(a, stamp, False)] else [])"
    "et_active_start_ns t' = (if pairs = [] then None else (case et_active_start_ns t of None \<Rightarrow> Some stamp | Some a \<Rightarrow> Some a))"
    "et_last_snapshot_stamp_ns t' = Some stamp" "0 < stamp" "\<forall>p. et_last_snapshot_stamp_ns t = Some p \<longrightarrow> p < stamp"
  using assms by (auto simp: observe_snapshot_def bindE_Inr_iff Let_def close_episode_def episode_span_def not_le
      split: option.splits if_splits)

lemma observe_snapshots_runs:
  assumes "observe_snapshots xs t = Inr t'"
  shows "map episode_span (et_episodes t') @ (case et_active_start_ns t' of None \<Rightarrow> [] | Some a \<Rightarrow> [(a, drain, True)])
    = map episode_span (et_episodes t) @ contact_runs drain (et_active_start_ns t) (map (\<lambda>(s, ps). (s, ps \<noteq> [])) xs)"
    "sorted_wrt (<) (map fst xs)"
    "list_all (\<lambda>x. \<forall>p. et_last_snapshot_stamp_ns t = Some p \<longrightarrow> p < fst x) xs"
proof (atomize (full), use assms in \<open>induction xs arbitrary: t\<close>)
  case Nil
  then show ?case by (cases "et_active_start_ns t'") auto
next
  case (Cons x xs)
  obtain stamp pairs where x: "x = (stamp, pairs)" by (cases x)
  then obtain t1 where t1: "observe_snapshot stamp pairs t = Inr t1" "observe_snapshots xs t1 = Inr t'"
    using Cons.prems by (auto simp: bindE_Inr_iff)
  note o = observe_snapshot_Inr [OF t1(1)]
  from Cons.IH [OF t1(2)] have IH: "map episode_span (et_episodes t') @ (case et_active_start_ns t' of None \<Rightarrow> [] | Some a \<Rightarrow> [(a, drain, True)])
      = map episode_span (et_episodes t1) @ contact_runs drain (et_active_start_ns t1) (map (\<lambda>(s, ps). (s, ps \<noteq> [])) xs)"
      "sorted_wrt (<) (map fst xs)" "list_all (\<lambda>x. stamp < fst x) xs"
    by (simp_all add: o(4) list_all_iff)
  show ?case using IH o(2,3,5,6) by (cases "et_active_start_ns t") (auto simp: x list_all_iff)
qed

text \<open>The driver creates the tracker of a counterpart at its first counted contact. A tracker that has seen all
  earlier snapshots too differs only in the stamp of the last one.\<close>

lemma absent_snapshots:
  assumes "et_active_start_ns t = None" "observe_snapshots (map (\<lambda>s. (s, [])) stamps) t = Inr t'"
  shows "t' = t\<lparr>et_last_snapshot_stamp_ns := (if stamps = [] then et_last_snapshot_stamp_ns t else Some (List.last stamps))\<rparr>"
  using assms
proof (induction stamps arbitrary: t)
  case (Cons s ss)
  then have "observe_snapshots (map (\<lambda>s. (s, [])) ss) (t\<lparr>et_last_snapshot_stamp_ns := Some s\<rparr>) = Inr t'"
    by (auto simp: bindE_Inr_iff observe_snapshot_def Let_def)
  from Cons.IH [OF _ this] Cons.prems(1) show ?case by simp
qed simp

text \<open>A capture as the tracker of a counterpart sees it: for each snapshot the normalized pairs of the contacts that are
  counted for it. (The contact callback of the driver stops at a pair that cannot be classified, and the metrics refuse
  such a capture, so that no accepted capture has one.)\<close>

definition driver_pair :: "coverage_manifest \<Rightarrow> string \<Rightarrow> pyval \<Rightarrow> (string \<times> string) option" where
  "driver_pair m counterpart contact =
     (case contact of
        PDict d \<Rightarrow>
          (case (dget d ''collision1'', dget d ''collision2'') of
             (PStr a, PStr b) \<Rightarrow>
               (case classify m a b of
                  Inr (Some k) \<Rightarrow> if cp_counterpart_model k = counterpart then Some (sort_pair (a, b)) else None
                | _ \<Rightarrow> None)
           | _ \<Rightarrow> None)
      | _ \<Rightarrow> None)"

definition driver_pairs :: "coverage_manifest \<Rightarrow> string \<Rightarrow> sample \<Rightarrow> (string \<times> string) list" where
  "driver_pairs m counterpart message =
     (case dget message ''contacts'' of
        PList contacts \<Rightarrow> List.map_filter (driver_pair m counterpart) contacts
      | _ \<Rightarrow> [])"

definition driver_series :: "coverage_manifest \<Rightarrow> int \<Rightarrow> string \<Rightarrow> sample list \<Rightarrow> (int \<times> (string \<times> string) list) list" where
  "driver_series m drain counterpart messages =
     map (\<lambda>msg. (stamp_of msg, driver_pairs m counterpart msg)) (filter (\<lambda>msg. stamp_of msg \<le> drain) messages)"

lemma driver_pair_counted:
  assumes "same_manifest m names"
  shows "driver_pair m counterpart contact \<noteq> None \<longleftrightarrow> counted_contact names counterpart contact"
proof (cases "\<exists>d a b. contact = PDict d \<and> dget d ''collision1'' = PStr a \<and> dget d ''collision2'' = PStr b")
  case True
  then obtain d a b where d: "contact = PDict d" "dget d ''collision1'' = PStr a" "dget d ''collision2'' = PStr b" by blast
  have "driver_pair m counterpart contact \<noteq> None
      \<longleftrightarrow> (\<exists>cc rc. \<exists>k. classify m a b = Inr (Some k) \<and> cp_counterpart_collision k = cc \<and> cp_counterpart_model k = counterpart
            \<and> cp_robot_collision k = rc)"
    by (auto simp: driver_pair_def d split: sum.splits option.splits)
  also have "\<dots> \<longleftrightarrow> (\<exists>cc rc. classify_contact_pair names (PStr a) (PStr b) = Inr (Counted cc counterpart rc))"
    unfolding classifiers_agree [OF assms] by blast
  also have "\<dots> \<longleftrightarrow> counted_contact names counterpart contact"
    by (auto simp: counted_contact_def d split: sum.splits contact_class.splits)
  finally show ?thesis .
next
  case False
  then show ?thesis
    by (cases contact) (auto simp: driver_pair_def counted_contact_def classify_contact_pair_def split: pyval.splits)
qed

lemma driver_pairs_touches:
  assumes "same_manifest m names"
  shows "driver_pairs m counterpart msg \<noteq> [] \<longleftrightarrow> touches names counterpart msg"
proof (cases "dget msg ''contacts''")
  case (PList cs)
  have "List.map_filter f cs \<noteq> [] \<longleftrightarrow> list_ex (\<lambda>c. f c \<noteq> None) cs" for f :: "pyval \<Rightarrow> (string \<times> string) option"
    by (induction cs) (auto simp: map_filter_simps split: option.splits)
  then show ?thesis by (simp only: driver_pairs_def touches_def PList pyval.case driver_pair_counted [OF assms])
qed (simp_all add: driver_pairs_def touches_def)

text \<open>C36: two separately written pieces of code count contacts alike. If the contact-control tracker of a counterpart
  accepts the snapshots of a capture up to the drain, and the metrics accept the same capture with the same manifest, then
  the collision events of that counterpart are exactly the tracker's episodes, with the one still open at the drain, that
  begin in the mission interval.\<close>

theorem controller_agrees_with_metrics:
  assumes "same_manifest m names"
    and "observe_snapshots (driver_series m drain counterpart messages) (new_episode_tracker counterpart) = Inr t"
    and "analyze_collisions names messages (PInt start) (PInt terminal) (PInt drain) gap = Inr r"
  shows "map triple (filter (\<lambda>e. counterpart_model e = counterpart) (result_events r))
    = filter (\<lambda>(a, b, c). start \<le> a \<and> a \<le> terminal)
        (map episode_span (et_episodes t) @ (case et_active_start_ns t of None \<Rightarrow> [] | Some a \<Rightarrow> [(a, drain, True)]))"
proof -
  have "map (\<lambda>(s, ps). (s, ps \<noteq> [])) (driver_series m drain counterpart messages) = contact_series names drain counterpart messages"
    by (simp add: driver_series_def contact_series_def driver_pairs_touches [OF assms(1)])
  then have "map episode_span (et_episodes t) @ (case et_active_start_ns t of None \<Rightarrow> [] | Some a \<Rightarrow> [(a, drain, True)])
      = contact_runs drain None (contact_series names drain counterpart messages)"
    using observe_snapshots_runs(1) [OF assms(2), of drain] by (simp add: new_episode_tracker_def)
  with collision_episodes [OF assms(3)] show ?thesis by simp
qed

section \<open>The traces that reconcile\<close>

definition int_at :: "string \<Rightarrow> pyval \<Rightarrow> int" where
  "int_at key v = (case v of PDict d \<Rightarrow> (case dget d key of PInt i \<Rightarrow> i | _ \<Rightarrow> 0) | _ \<Rightarrow> 0)"

definition list_at :: "string \<Rightarrow> pyval \<Rightarrow> pyval list" where
  "list_at key v = (case v of PDict d \<Rightarrow> (case dget d key of PList xs \<Rightarrow> xs | _ \<Rightarrow> []) | _ \<Rightarrow> [])"

definition captured_pair :: "pyval \<Rightarrow> string \<times> string" where
  "captured_pair v =
     (case v of
        PDict d \<Rightarrow> (case (dget d ''collision1'', dget d ''collision2'') of (PStr a, PStr b) \<Rightarrow> sort_pair (a, b) | _ \<Rightarrow> ([], []))
      | _ \<Rightarrow> ([], []))"

definition recorded_pair :: "pyval \<Rightarrow> string \<times> string" where
  "recorded_pair v =
     (case v of
        PDict d \<Rightarrow> (case dget d ''normalized_pair'' of PList [PStr a, PStr b] \<Rightarrow> (a, b) | _ \<Rightarrow> ([], []))
      | _ \<Rightarrow> ([], []))"

text \<open>The contacts of a collector snapshot, and the records of a component snapshot.\<close>

definition captured_view :: "pyval \<Rightarrow> int \<times> (string \<times> string) list" where
  "captured_view v = (int_at ''stamp_ns'' v, sort (map captured_pair (list_at ''contacts'' v)))"

definition component_view :: "pyval list \<Rightarrow> pyval \<Rightarrow> int \<times> (string \<times> string) list" where
  "component_view records v =
     (int_at ''sim_stamp_ns'' v,
      sort (map recorded_pair (filter (\<lambda>r. int_at ''snapshot_sequence'' r = int_at ''collector_sequence'' v) records)))"

lemma trace_int_Inr: "trace_int v label True = Inr i \<longleftrightarrow> v = PInt i \<and> 0 < i"
  by (cases v) (auto simp: trace_int_def Let_def)

lemma trace_pair_Inr:
  assumes "trace_pair v label normalized = Inr p"
  obtains a b where "v = PList [PStr a, PStr b]" "p = sort_pair (a, b)" "normalized \<longrightarrow> p = (a, b)"
proof -
  obtain a b where v: "v = PList [PStr a, PStr b]"
    using assms by (auto simp: trace_pair_def split: pyval.splits list.splits)
  with assms show ?thesis by (intro that [of a b]) (auto simp: trace_pair_def bindE_Inr_iff split: if_splits)
qed

lemma record_loop_Inr:
  "record_loop i vs acc = Inr by_snapshot \<Longrightarrow>
   records_of by_snapshot k = records_of acc k
     @ map (\<lambda>v. (int_at ''sim_stamp_ns'' v, recorded_pair v)) (filter (\<lambda>v. int_at ''snapshot_sequence'' v = k) vs)"
proof (induction vs arbitrary: i acc)
  case (Cons v vs)
  obtain d where d: "v = PDict d" using Cons.prems by (auto simp: Let_def split: pyval.splits)
  obtain sequence stamp pair where s:
      "trace_int (dget d ''snapshot_sequence'') (item_label ''component snapshot record'' i '' sequence'') True = Inr sequence"
      "trace_int (dget d ''sim_stamp_ns'') (item_label ''component snapshot record'' i '' stamp'') True = Inr stamp"
      "trace_pair (dget d ''normalized_pair'') (item_label ''component snapshot record'' i '' pair'') True = Inr pair"
      "record_loop (i + 1) vs (dict_set sequence (records_of acc sequence @ [(stamp, pair)]) acc) = Inr by_snapshot"
    using Cons.prems unfolding d record_loop.simps Let_def pyval.case bindE_Inr_iff by blast
  obtain a b where p: "dget d ''normalized_pair'' = PList [PStr a, PStr b]" "pair = (a, b)"
    using s(3) by (elim trace_pair_Inr) auto
  have "int_at ''snapshot_sequence'' v = sequence" "int_at ''sim_stamp_ns'' v = stamp" "recorded_pair v = pair"
    using s(1,2) p by (simp_all add: int_at_def recorded_pair_def d trace_int_Inr)
  with Cons.IH [OF s(4)] show ?case by (simp add: records_of_def map_of_dict_set)
qed simp

lemma component_step_Inr:
  assumes "component_step by_snapshot q i v st = Inr st1"
  shows "cs_previous_stamp st < int_at ''sim_stamp_ns'' v" "cs_previous_stamp st1 = int_at ''sim_stamp_ns'' v"
    "cs_trace st1 = cs_trace st @ (if int_at ''sim_stamp_ns'' v \<le> q
       then [(int_at ''sim_stamp_ns'' v, sort (map snd (records_of by_snapshot (int_at ''collector_sequence'' v))))] else [])"
proof -
  obtain d where d: "v = PDict d" using assms by (auto simp: component_step_def split: pyval.splits)
  obtain sequence stamp where s:
      "trace_int (dget d ''collector_sequence'') (item_label ''component contact snapshot'' i '' sequence'') True = Inr sequence"
      "trace_int (dget d ''sim_stamp_ns'') (item_label ''component contact snapshot'' i '' stamp'') True = Inr stamp"
      "\<not> (sequence \<le> cs_previous_sequence st \<or> stamp \<le> cs_previous_stamp st)"
      "(if stamp > q then Inr (st\<lparr>cs_previous_sequence := sequence, cs_previous_stamp := stamp\<rparr>)
        else include_snapshot by_snapshot i d sequence stamp (st\<lparr>cs_previous_sequence := sequence, cs_previous_stamp := stamp\<rparr>)) = Inr st1"
    using assms unfolding d component_step_def Let_def pyval.case bindE_Inr_iff guardE_Inr_iff by blast
  have at: "int_at ''collector_sequence'' v = sequence" "int_at ''sim_stamp_ns'' v = stamp"
    using s(1,2) by (simp_all add: int_at_def d trace_int_Inr)
  have inc: "cs_trace t1 = cs_trace t @ [(stamp, sort (map snd (records_of by_snapshot sequence)))]
      \<and> cs_previous_stamp t1 = cs_previous_stamp t" if "include_snapshot by_snapshot i d sequence stamp t = Inr t1" for t t1
    using that unfolding include_snapshot_def Let_def by (auto simp: bindE_Inr_iff)
  show "cs_previous_stamp st < int_at ''sim_stamp_ns'' v" using s(3) at by simp
  show "cs_previous_stamp st1 = int_at ''sim_stamp_ns'' v" using s(4) at inc by (fastforce split: if_splits)
  show "cs_trace st1 = cs_trace st @ (if int_at ''sim_stamp_ns'' v \<le> q
       then [(int_at ''sim_stamp_ns'' v, sort (map snd (records_of by_snapshot (int_at ''collector_sequence'' v))))] else [])"
    using s(4) at inc by (fastforce split: if_splits)
qed

lemma component_loop_Inr:
  assumes "component_loop by_snapshot q i vs st = Inr st'"
  shows "cs_trace st' = cs_trace st @ map (\<lambda>v. (int_at ''sim_stamp_ns'' v,
      sort (map snd (records_of by_snapshot (int_at ''collector_sequence'' v))))) (filter (\<lambda>v. int_at ''sim_stamp_ns'' v \<le> q) vs)"
    "sorted_wrt (<) (map (int_at ''sim_stamp_ns'') vs)" "list_all (\<lambda>v. cs_previous_stamp st < int_at ''sim_stamp_ns'' v) vs"
proof (atomize (full), use assms in \<open>induction vs arbitrary: i st\<close>)
  case (Cons v vs)
  then obtain st1 where st1: "component_step by_snapshot q i v st = Inr st1" "component_loop by_snapshot q (i + 1) vs st1 = Inr st'"
    by (auto simp: bindE_Inr_iff)
  note s = component_step_Inr [OF st1(1)]
  from Cons.IH [OF st1(2)] s show ?case by (auto simp: list_all_iff)
qed simp

lemma captured_pairs_Inr: "captured_pairs i j vs = Inr ps \<Longrightarrow> ps = map captured_pair vs"
proof (induction vs arbitrary: j ps)
  case (Cons v vs)
  obtain d where d: "v = PDict d" using Cons.prems by (auto simp: Let_def split: pyval.splits)
  obtain p ps' label where p: "trace_pair (PList [dget d ''collision1'', dget d ''collision2'']) label False = Inr p"
      "captured_pairs i (j + 1) vs = Inr ps'" "ps = p # ps'"
    using Cons.prems unfolding d captured_pairs.simps Let_def pyval.case bindE_Inr_iff by blast
  from p(1) obtain a b where "dget d ''collision1'' = PStr a" "dget d ''collision2'' = PStr b" "p = sort_pair (a, b)"
    by (elim trace_pair_Inr) auto
  then show ?case using Cons.IH [OF p(2)] p(3) by (simp add: captured_pair_def d)
qed simp

lemma captured_loop_Inr:
  assumes "captured_loop start q i vs prev trace = Inr trace'"
  shows "trace' = trace @ map captured_view (filter (\<lambda>v. start \<le> int_at ''stamp_ns'' v \<and> int_at ''stamp_ns'' v \<le> q) vs)"
    "sorted_wrt (<) (map (int_at ''stamp_ns'') (filter (\<lambda>v. start \<le> int_at ''stamp_ns'' v \<and> int_at ''stamp_ns'' v \<le> q) vs))"
    "list_all (\<lambda>v. prev < int_at ''stamp_ns'' v) (filter (\<lambda>v. start \<le> int_at ''stamp_ns'' v \<and> int_at ''stamp_ns'' v \<le> q) vs)"
proof (atomize (full), use assms in \<open>induction vs arbitrary: i prev trace\<close>)
  case (Cons v vs)
  obtain d where d: "v = PDict d" using Cons.prems by (auto split: pyval.splits)
  obtain stamp where stamp: "trace_int (dget d ''stamp_ns'') (item_label ''collector contact snapshot'' i '' stamp'') True = Inr stamp"
    using Cons.prems unfolding d captured_loop.simps pyval.case bindE_Inr_iff by blast
  have at: "int_at ''stamp_ns'' v = stamp" using stamp by (simp add: int_at_def d trace_int_Inr)
  show ?case
  proof (cases "start \<le> stamp \<and> stamp \<le> q")
    case False
    then have "captured_loop start q (i + 1) vs prev trace = Inr trace'" using Cons.prems stamp by (simp add: d)
    from Cons.IH [OF this] False at show ?thesis by auto
  next
    case True
    obtain contacts where contacts: "dget d ''contacts'' = PList contacts"
      using Cons.prems stamp True by (cases "dget d ''contacts''") (auto simp: d bindE_Inr_iff)
    then obtain pairs where p: "prev < stamp" "captured_pairs i 0 contacts = Inr pairs"
        "captured_loop start q (i + 1) vs stamp (trace @ [(stamp, sort pairs)]) = Inr trace'"
      using Cons.prems stamp True by (auto simp: d bindE_Inr_iff)
    have "captured_view v = (stamp, sort pairs)"
      using captured_pairs_Inr [OF p(2)] contacts at by (simp add: captured_view_def list_at_def d)
    with Cons.IH [OF p(3)] True at p(1) show ?thesis by (auto simp: list_all_iff)
  qed
qed simp

lemma component_trace_Inr:
  assumes "component_contact_snapshot_pair_trace (PDict c) (PInt q) = Inr trace"
  obtains snapshots records where "dget c ''snapshots'' = PList snapshots" "dget c ''snapshot_records'' = PList records"
    "trace = map (component_view records) (filter (\<lambda>v. int_at ''sim_stamp_ns'' v \<le> q) snapshots)"
    "sorted_wrt (<) (map fst trace)" "trace \<noteq> []" "fst (List.last trace) = q"
proof -
  obtain q' snapshots records by_snapshot st where s:
      "trace_int (PInt q) ''qualified contact snapshot stamp'' True = Inr q'"
      "nonempty_list (dget c ''snapshots'') ''component contact snapshots are missing'' = Inr snapshots"
      "nonempty_list (dget c ''snapshot_records'') ''component contact snapshot records are missing'' = Inr records"
      "record_loop 0 records [] = Inr by_snapshot"
      "component_loop by_snapshot q' 0 snapshots
        \<lparr>cs_trace = [], cs_included = [], cs_previous_sequence = 0, cs_previous_stamp = 0\<rparr> = Inr st"
      "cs_trace st \<noteq> [] \<and> fst (List.last (cs_trace st)) = q'" "trace = cs_trace st"
    using assms unfolding component_contact_snapshot_pair_trace_def pyval.case bindE_Inr_iff guardE_Inr_iff by blast
  have q: "q' = q" using s(1) by (simp add: trace_int_Inr)
  have l: "dget c ''snapshots'' = PList snapshots" "dget c ''snapshot_records'' = PList records"
    using s(2,3) by (auto simp: nonempty_list_def split: pyval.splits list.splits)
  note loop = component_loop_Inr [OF s(5)]
  have recs: "map snd (records_of by_snapshot k) = map recorded_pair (filter (\<lambda>r. int_at ''snapshot_sequence'' r = k) records)" for k
    using record_loop_Inr [OF s(4), of k] by (simp add: records_of_def comp_def)
  have t: "trace = map (component_view records) (filter (\<lambda>v. int_at ''sim_stamp_ns'' v \<le> q) snapshots)"
    using loop(1) s(7) by (simp add: recs component_view_def q)
  have "map fst trace = map (int_at ''sim_stamp_ns'') (filter (\<lambda>v. int_at ''sim_stamp_ns'' v \<le> q) snapshots)"
    unfolding t by (simp add: component_view_def comp_def)
  moreover have "sorted_wrt (<) (map (int_at ''sim_stamp_ns'') (filter (\<lambda>v. int_at ''sim_stamp_ns'' v \<le> q) snapshots))"
    using loop(2) by (simp add: sorted_wrt_map sorted_wrt_filter)
  ultimately have "sorted_wrt (<) (map fst trace)" by simp
  moreover have "trace \<noteq> []" "fst (List.last trace) = q" using s(6,7) q by simp_all
  ultimately show ?thesis using l t by (intro that)
qed

text \<open>C30: what reconciled contact traces show. The component's report and the collector's capture have been read as the
  same sequence of snapshots: every snapshot of the report up to \<open>q\<close> and every captured snapshot from the first of them
  to \<open>q\<close> appear, in the same strictly increasing order, with the same stamps and the same multiset of contact pairs.\<close>

theorem reconciled_traces_sound:
  assumes "reconcile_contact_snapshot_pair_traces (PDict c) (PList captured) (PInt q) = Inr trace"
  shows "trace \<noteq> [] \<and> sorted_wrt (<) (map fst trace) \<and> fst (List.last trace) = q
    \<and> trace = map (component_view (list_at ''snapshot_records'' (PDict c)))
        (filter (\<lambda>v. int_at ''sim_stamp_ns'' v \<le> q) (list_at ''snapshots'' (PDict c)))
    \<and> trace = map captured_view
        (filter (\<lambda>v. fst (hd trace) \<le> int_at ''stamp_ns'' v \<and> int_at ''stamp_ns'' v \<le> q) captured)"
proof -
  obtain t where t: "component_contact_snapshot_pair_trace (PDict c) (PInt q) = Inr trace"
      "captured_contact_snapshot_pair_trace (PList captured) (PInt (fst (hd trace))) (PInt q) = Inr t" "t = trace"
    using assms unfolding reconcile_contact_snapshot_pair_traces_def bindE_Inr_iff guardE_Inr_iff by blast
  obtain start q' where "trace_int (PInt (fst (hd trace))) ''first component contact snapshot stamp'' True = Inr start"
      "trace_int (PInt q) ''qualified contact snapshot stamp'' True = Inr q'" "captured_loop start q' 0 captured 0 [] = Inr trace"
    using t(2) unfolding t(3) captured_contact_snapshot_pair_trace_def pyval.case bindE_Inr_iff guardE_Inr_iff by blast
  then have "captured_loop (fst (hd trace)) q 0 captured 0 [] = Inr trace" by (simp add: trace_int_Inr)
  from captured_loop_Inr(1) [OF this] have "trace = map captured_view
      (filter (\<lambda>v. fst (hd trace) \<le> int_at ''stamp_ns'' v \<and> int_at ''stamp_ns'' v \<le> q) captured)" by simp
  moreover from t(1) obtain snapshots records where r: "dget c ''snapshots'' = PList snapshots" "dget c ''snapshot_records'' = PList records"
    "trace = map (component_view records) (filter (\<lambda>v. int_at ''sim_stamp_ns'' v \<le> q) snapshots)"
    "sorted_wrt (<) (map fst trace)" "trace \<noteq> []" "fst (List.last trace) = q" by (rule component_trace_Inr)
  moreover have "list_at ''snapshot_records'' (PDict c) = records" "list_at ''snapshots'' (PDict c) = snapshots"
    using r(1,2) by (simp_all add: list_at_def)
  ultimately show ?thesis by metis
qed

definition wall_manifest :: coverage_manifest where
  "wall_manifest =
     \<lparr>manifest_path = ''m.yaml'', manifest_sha256 = [], public_contact_snapshot_topic = [], private_raw_contact_topic = [],
      authoritative_contact_snapshots = True, contact_snapshot_release_gap_ns = CONTACT_RELEASE_GAP_NS,
      contact_snapshot_max_gap_ns = 220000000, contact_snapshot_max_clock_lag_ns = 220000000,
      contact_stream_policy_sha256 = [], robot_collisions = [''robotest::b::c'', ''robotest::w::c''], support_exclusions = [],
      chassis_collision = ''robotest::b::c'', bridge_sha256 = [], contact_configuration_sha256 = [],
      rendered_sdf_sha256 = [], robot_description_sha256 = [], world_source_sha256 = []\<rparr>"

definition wall_names :: collision_names where
  "wall_names = \<lparr>robot_model = ''robotest'', robot_names = [''robotest::b::c'', ''robotest::w::c''], support_pairs = []\<rparr>"

definition wall_bump :: "sample list" where
  "wall_bump =
     [contact_message 10 (contact_between ''robotest::b::c'' ''robotest::w::c''),
      contact_message 15 (contact_between ''x::b::c'' ''robotest::b::c''),
      contact_message 30 (contact_between ''robotest::b::c'' ''robotest::w::c'')]"

lemma wall_names_pairs:
  "classify_contact_pair wall_names (PStr ''robotest::b::c'') (PStr ''robotest::w::c'') = Inr (NotCounted ''robot_internal'')"
  "classify_contact_pair wall_names (PStr ''x::b::c'') (PStr ''robotest::b::c'') = Inr (Counted ''x::b::c'' ''x'' ''robotest::b::c'')"
  by (simp_all add: classify_contact_pair_def wall_names_def top_model_def)

lemma wall_bump_analysis: "\<exists>r. analyze_collisions wall_names wall_bump (PInt 10) (PInt 20) (PInt 30) 1 = Inr r"
proof -
  obtain q where "ns_seconds 15 = Inr (Fin q)"
    using fl_ratio_pos [of 15 1000000000] by (auto simp: ns_seconds_def int_truediv_def)
  then show ?thesis
    by (simp add: analyze_collisions_def wall_bump_def contact_message_def contact_between_def snapshot_step_def check_order_def
        check_message_def new_tracker_def track_snapshot_def group_contact_def wall_names_pairs CONTACT_KEYS_def measured_def
        raise_max_def observe_group_def new_event_def close_event_def MAX_CONTACT_SNAPSHOT_GAP_NS_def CONTACT_RECORD_CAPACITY_def
        dict_del_def Let_def insert_commute)
qed

lemma wall_series:
  "driver_series wall_manifest 30 ''x'' wall_bump = [(10, []), (15, [(''robotest::b::c'', ''x::b::c'')]), (30, [])]"
  by (simp add: driver_series_def wall_bump_def contact_message_def contact_between_def stamp_of_def driver_pairs_def
      driver_pair_def classify_def wall_manifest_def top_level_model_def sort_pair_def map_filter_simps Let_def)

theorem controller_agrees_with_metrics_witness:
  "\<exists>r. analyze_collisions wall_names wall_bump (PInt 10) (PInt 20) (PInt 30) 1 = Inr r
     \<and> map triple (filter (\<lambda>e. counterpart_model e = ''x'') (result_events r)) = [(15, 30, False)]"
proof -
  have m: "same_manifest wall_manifest wall_names" by (simp add: same_manifest_def wall_manifest_def wall_names_def)
  obtain t where t: "observe_snapshots (driver_series wall_manifest 30 ''x'' wall_bump) (new_episode_tracker ''x'') = Inr t"
      "map episode_span (et_episodes t) = [(15, 30, False)]" "et_active_start_ns t = None"
    by (simp add: wall_series observe_snapshot_def new_episode_tracker_def close_episode_def episode_span_def Let_def)
  obtain r where r: "analyze_collisions wall_names wall_bump (PInt 10) (PInt 20) (PInt 30) 1 = Inr r"
    using wall_bump_analysis by blast
  from controller_agrees_with_metrics [OF m t(1) r] t(2,3) r show ?thesis by simp
qed

definition wall_report :: pydict where
  "wall_report =
     [(''snapshots'', PList [PDict [(''collector_sequence'', PInt 1), (''sim_stamp_ns'', PInt 7), (''snapshot_record_count'', PInt 1)]]),
      (''snapshot_records'', PList [PDict [(''snapshot_sequence'', PInt 1), (''sim_stamp_ns'', PInt 7),
        (''normalized_pair'', PList [PStr ''a::b::c'', PStr ''x::y::z''])]])]"

definition wall_capture :: "pyval list" where
  "wall_capture =
     [PDict [(''stamp_ns'', PInt 7),
        (''contacts'', PList [PDict [(''collision1'', PStr ''x::y::z''), (''collision2'', PStr ''a::b::c'')]])],
      PDict [(''stamp_ns'', PInt 9), (''contacts'', PList [])]]"

lemma wall_reconciles:
  "reconcile_contact_snapshot_pair_traces (PDict wall_report) (PList wall_capture) (PInt 7)
     = Inr [(7, [(''a::b::c'', ''x::y::z'')])]"
  by (simp add: reconcile_contact_snapshot_pair_traces_def component_contact_snapshot_pair_trace_def
      captured_contact_snapshot_pair_trace_def wall_report_def wall_capture_def trace_int_def trace_pair_def top_level_model_def
      nonempty_list_def component_step_def include_snapshot_def records_of_def sort_pair_def Let_def)

theorem reconciled_traces_sound_witness:
  "reconcile_contact_snapshot_pair_traces (PDict wall_report) (PList wall_capture) (PInt 7) = Inr [(7, [(''a::b::c'', ''x::y::z'')])]
   \<and> [(7, [(''a::b::c'', ''x::y::z'')])] = map captured_view
       (filter (\<lambda>v. 7 \<le> int_at ''stamp_ns'' v \<and> int_at ''stamp_ns'' v \<le> 7) wall_capture)"
proof (rule conjI [OF wall_reconciles])
  from reconciled_traces_sound [OF wall_reconciles]
  have "[(7, [(''a::b::c'', ''x::y::z'')])] = map captured_view (filter (\<lambda>v.
      fst (hd [(7::int, [(''a::b::c'', ''x::y::z'')])]) \<le> int_at ''stamp_ns'' v \<and> int_at ''stamp_ns'' v \<le> 7) wall_capture)"
    by (elim conjE)
  then show "[(7, [(''a::b::c'', ''x::y::z'')])] = map captured_view
      (filter (\<lambda>v. 7 \<le> int_at ''stamp_ns'' v \<and> int_at ''stamp_ns'' v \<le> 7) wall_capture)"
    unfolding list.sel fst_conv .
qed

end
