(* ===== verification/Metrics_Statistics.thy ===== *)
theory Metrics_Statistics
  imports Metrics_Geometry
begin

text \<open>
  The statistics shared by the run and suite analyses (\<open>robotest_metrics/statistics.py\<close>): finite values, the
  median, nearest-rank percentiles, summaries and the real-time factor. \<open>math.sqrt\<close> and \<open>x ** 2\<close> are the
  parameters \<open>py_sqrt\<close> and \<open>py_square\<close>. The theorem states what the two percentiles of a summary are,
  including the effect of the rounded product that selects them.
\<close>

section \<open>Definitions\<close>

definition finite_values :: "pyval list \<Rightarrow> string \<Rightarrow> metrics_exn + pyfloat list" where
  "finite_values values name =
     bindE (traverse (\<lambda>v. require_finite v name) values) (\<lambda>normalized.
     bindE (guardE (normalized \<noteq> []) (MetricUnavailable (name @ '' is empty''))) (\<lambda>_. Inr normalized))"

text \<open>\<open>sorted\<close> on finite floats.\<close>

definition fin_val :: "pyfloat \<Rightarrow> rat" where
  "fin_val x = (case x of Fin q \<Rightarrow> q | _ \<Rightarrow> 0)"

definition sort_floats :: "pyfloat list \<Rightarrow> pyfloat list" where
  "sort_floats xs = sort_key fin_val xs"

definition divided :: "pyfloat \<Rightarrow> pyfloat \<Rightarrow> pyfloat" where
  "divided x y = (case f_div x y of None \<Rightarrow> NaN | Some z \<Rightarrow> z)"

definition deterministic_median :: "pyval list \<Rightarrow> metrics_exn + pyfloat" where
  "deterministic_median values =
     bindE (finite_values values ''values'') (\<lambda>vs.
     let ordered = sort_floats vs; count = length ordered; middle = count div 2 in
     Inr (if count mod 2 \<noteq> 0 then ordered ! middle
          else f_add (divided (ordered ! (middle - 1)) (Fin 2)) (divided (ordered ! middle) (Fin 2))))"

text \<open>\<open>xs[i]\<close> with Python's negative indices.\<close>

definition py_index :: "'a list \<Rightarrow> int \<Rightarrow> metrics_exn + 'a" where
  "py_index xs i =
     (if 0 \<le> i \<and> i < int (length xs) then Inr (xs ! nat i)
      else if - int (length xs) \<le> i \<and> i < 0 then Inr (xs ! nat (int (length xs) + i))
      else Inl MetricIndexError)"

text \<open>\<open>math.ceil\<close> raises on an infinity or NaN.\<close>

definition py_ceil :: "pyfloat \<Rightarrow> metrics_exn + int" where
  "py_ceil x =
     (case x of Fin q \<Rightarrow> Inr \<lceil>q\<rceil>
      | NaN \<Rightarrow> Inl (MetricValueError ''cannot convert float NaN to integer'')
      | _ \<Rightarrow> Inl MetricOverflowError)"

definition nearest_rank :: "pyval list \<Rightarrow> pyfloat \<Rightarrow> metrics_exn + pyfloat" where
  "nearest_rank values fraction =
     bindE (guardE (f_less (Fin 0) fraction \<and> f_le fraction (Fin 1)) (MetricValueError ''fraction must be in (0, 1]'')) (\<lambda>_.
     bindE (finite_values values ''values'') (\<lambda>vs.
     let ordered = sort_floats vs in
     bindE (py_ceil (f_mul fraction (fl (of_nat (length ordered))))) (\<lambda>c.
     py_index ordered (c - 1))))"

text \<open>\<open>math.fsum\<close>: the exact sum, rounded once; an intermediate sum outside the float range raises.\<close>

fun fsum_loop :: "rat \<Rightarrow> pyfloat list \<Rightarrow> metrics_exn + pyfloat" where
  "fsum_loop acc [] = Inr (fl acc)"
| "fsum_loop acc (x # xs) =
     (case fl (acc + fin_val x) of Fin _ \<Rightarrow> fsum_loop (acc + fin_val x) xs | _ \<Rightarrow> Inl MetricOverflowError)"

definition fsum :: "pyfloat list \<Rightarrow> metrics_exn + pyfloat" where
  "fsum xs = fsum_loop 0 xs"

record numeric_summary =
  sm_count :: int
  sm_maximum :: pyfloat
  sm_mean :: pyfloat
  sm_median :: pyfloat
  sm_minimum :: pyfloat
  sm_p5 :: pyfloat
  sm_p95 :: pyfloat
  sm_rmse :: "pyfloat option"

definition float_max :: "pyfloat list \<Rightarrow> pyfloat" where
  "float_max xs = foldl f_max (hd xs) (tl xs)"

definition float_min :: "pyfloat list \<Rightarrow> pyfloat" where
  "float_min xs = foldl f_min (hd xs) (tl xs)"

definition summary_rmse ::
  "(pyfloat \<Rightarrow> pyfloat) \<Rightarrow> (pyfloat \<Rightarrow> pyfloat) \<Rightarrow> pyfloat list \<Rightarrow> metrics_exn + pyfloat" where
  "summary_rmse py_sqrt py_square vs =
     (let scale = float_max (map f_abs vs) in
      if f_eq scale (Fin 0) then Inr (Fin 0)
      else bindE (fsum (map (\<lambda>v. py_square (divided v scale)) vs)) (\<lambda>squares.
        Inr (f_mul scale (py_sqrt (divided squares (fl (of_nat (length vs))))))))"

definition numeric_summary_of ::
  "(pyfloat \<Rightarrow> pyfloat) \<Rightarrow> (pyfloat \<Rightarrow> pyfloat) \<Rightarrow> pyval list \<Rightarrow> bool \<Rightarrow> metrics_exn + numeric_summary" where
  "numeric_summary_of py_sqrt py_square values include_rmse =
     bindE (finite_values values ''values'') (\<lambda>vs.
     let count = length vs; again = map PFloat vs in
     bindE (fsum (map (\<lambda>v. divided v (fl (of_nat count))) vs)) (\<lambda>mean.
     bindE (deterministic_median again) (\<lambda>median.
     bindE (nearest_rank again (fl (5 / 100))) (\<lambda>p5.
     bindE (nearest_rank again (fl (95 / 100))) (\<lambda>p95.
     bindE (if include_rmse then bindE (summary_rmse py_sqrt py_square vs) (\<lambda>r. Inr (Some r)) else Inr None) (\<lambda>rmse.
     Inr \<lparr>sm_count = int count, sm_maximum = float_max vs, sm_mean = mean, sm_median = median, sm_minimum = float_min vs,
          sm_p5 = p5, sm_p95 = p95, sm_rmse = rmse\<rparr>))))))"

section \<open>The real-time factor\<close>

fun world_stats_order :: "nat \<Rightarrow> int option \<Rightarrow> sample list \<Rightarrow> metrics_exn + unit" where
  "world_stats_order index previous [] = Inr ()"
| "world_stats_order index previous (s # ss) =
     bindE (require_int (dget s ''sim_stamp_ns'') (at_index ''samples'' index ''sim_stamp_ns'')) (\<lambda>_.
     bindE (require_int (dget s ''collector_sequence'') (at_index ''samples'' index ''collector_sequence'')) (\<lambda>sequence.
     bindE (guardE (case previous of None \<Rightarrow> True | Some p \<Rightarrow> \<not> sequence \<le> p)
       (MetricUnavailable ''world-statistics samples are not in collector order'')) (\<lambda>_.
     world_stats_order (index + 1) (Some sequence) ss)))"

definition true_divide :: "int \<Rightarrow> int \<Rightarrow> metrics_exn + pyfloat" where
  "true_divide a b = (case int_truediv a b of Fin q \<Rightarrow> Inr (Fin q) | _ \<Rightarrow> Inl MetricOverflowError)"

datatype rtf_interval = Included pyfloat | Excluded string

definition rtf_of_pair :: "sample \<Rightarrow> sample \<Rightarrow> metrics_exn + rtf_interval" where
  "rtf_of_pair previous current =
     bindE (require_int (dget current ''sim_stamp_ns'') ''current.sim_stamp_ns'') (\<lambda>s2.
     bindE (require_int (dget previous ''sim_stamp_ns'') ''previous.sim_stamp_ns'') (\<lambda>s1.
     bindE (require_int (dget current ''steady_wall_ns'') ''current.steady_wall_ns'') (\<lambda>w2.
     bindE (require_int (dget previous ''steady_wall_ns'') ''previous.steady_wall_ns'') (\<lambda>w1.
     if dget previous ''paused'' = PBool True \<or> dget current ''paused'' = PBool True then Inr (Excluded ''declared_pause'')
     else if s2 - s1 \<le> 0 \<or> w2 - w1 \<le> 0 then Inr (Excluded ''non_positive_delta'')
     else bindE (true_divide (s2 - s1) (w2 - w1)) (\<lambda>v. Inr (Included v))))))"

record rtf_result =
  calculated_series :: "pyfloat list"
  excluded_intervals :: "(nat \<times> string) list"
  interval_count :: int
  rtf_mean :: pyfloat
  rtf_median :: pyfloat
  rtf_minimum :: pyfloat
  rtf_p5 :: pyfloat

fun included :: "rtf_interval list \<Rightarrow> pyfloat list" where
  "included [] = []"
| "included (Included v # xs) = v # included xs"
| "included (Excluded _ # xs) = included xs"

fun excluded_from :: "nat \<Rightarrow> rtf_interval list \<Rightarrow> (nat \<times> string) list" where
  "excluded_from i [] = []"
| "excluded_from i (Included v # xs) = excluded_from (i + 1) xs"
| "excluded_from i (Excluded r # xs) = (i, r) # excluded_from (i + 1) xs"

definition real_time_factor_metrics ::
  "(pyfloat \<Rightarrow> pyfloat) \<Rightarrow> (pyfloat \<Rightarrow> pyfloat) \<Rightarrow> sample list \<Rightarrow> metrics_exn + rtf_result" where
  "real_time_factor_metrics py_sqrt py_square samples =
     bindE (guardE (\<not> length samples < 2)
       (MetricUnavailable ''at least two world-statistics samples are required'')) (\<lambda>_.
     bindE (world_stats_order 0 None samples) (\<lambda>_.
     bindE (traverse (\<lambda>(a, b). rtf_of_pair a b) (zip samples (tl samples))) (\<lambda>intervals.
     let values = included intervals in
     bindE (guardE (values \<noteq> []) (MetricUnavailable ''no valid real-time-factor intervals'')) (\<lambda>_.
     bindE (numeric_summary_of py_sqrt py_square (map PFloat values) False) (\<lambda>summary.
     Inr \<lparr>calculated_series = values, excluded_intervals = excluded_from 0 intervals, interval_count = int (length values),
          rtf_mean = sm_mean summary, rtf_median = sm_median summary, rtf_minimum = sm_minimum summary,
          rtf_p5 = sm_p5 summary\<rparr>)))))"
section \<open>Ranks\<close>

lemma fl_of_nat: "n < 2 ^ 53 \<Longrightarrow> fl (of_nat n) = Fin (of_nat n)"
  using fl_of_int [of "int n"] by simp

lemma fl_near_moderate:
  assumes "1 / 1000000 \<le> q" "q \<le> 2 ^ 41"
  shows "\<exists>r. fl q = Fin r \<and> \<bar>r - q\<bar> \<le> q / 2 ^ 52 \<and> 0 < r"
proof -
  have "pow2 (- 1022) \<le> 1 / 1000000"
    using frac_le [of 1 1 1000000 "2 ^ 1022 :: rat"] by (simp add: pow2_def)
  then have "pow2 (- 1022) \<le> q" using assms(1) by (rule order_trans)
  moreover have "q \<le> 2 ^ 1000" by (rule order_trans [OF assms(2)], rule power_increasing) simp_all
  ultimately show ?thesis by (metis fl_near)
qed

text \<open>The product of a rounded fraction and a count, rounded again, is close to the exact product.\<close>

lemma rounded_product:
  assumes "1 / 1000 \<le> f" "f \<le> (1::rat)" "1 \<le> n" "n < 2 ^ 40"
  shows "\<exists>c p. fl f = Fin c \<and> 0 < c \<and> c \<le> f + 1 / 1000 \<and> f_mul (fl f) (fl (of_nat n)) = Fin p
    \<and> \<bar>p - f * of_nat n\<bar> \<le> 1 / 1000"
proof -
  define N where "N = (of_nat n :: rat)"
  have N: "1 \<le> N" "N \<le> 1099511627776"
    using assms(3,4) of_nat_le_iff [of n "1099511627776", where ?'a = rat] of_nat_le_iff [of 1 n, where ?'a = rat] by (simp_all add: N_def)
  obtain c where c: "fl f = Fin c" "\<bar>c - f\<bar> \<le> f / 2 ^ 52" "0 < c"
    using fl_near_moderate [of f] assms(1,2) by fastforce
  have d: "\<bar>c - f\<bar> \<le> 1 / 4503599627370496" using c(2) assms(2) by simp
  then have cf: "f - 1 / 4503599627370496 \<le> c" "c \<le> f + 1 / 4503599627370496" by (simp_all only: abs_le_iff, linarith+)
  then have cb: "1 / 1000000 \<le> c" "c \<le> 2" using assms(1,2) by linarith+
  have "1 / 1000000 * 1 \<le> c * N" using cb N by (intro mult_mono) auto
  moreover have "c * N \<le> 2 * 1099511627776" using cb N by (intro mult_mono) auto
  ultimately obtain p where p: "fl (c * N) = Fin p" "\<bar>p - c * N\<bar> \<le> c * N / 2 ^ 52"
    using fl_near_moderate [of "c * N"] by auto
  have "\<bar>c * N - f * N\<bar> = \<bar>c - f\<bar> * N" using N by (simp add: abs_mult left_diff_distrib [symmetric])
  also have "\<dots> \<le> 1 / 4503599627370496 * 1099511627776" using d N by (intro mult_mono) auto
  finally have "\<bar>c * N - f * N\<bar> \<le> 1 / 4096" by simp
  moreover have "\<bar>p - c * N\<bar> \<le> 2 / 4096" using p(2) \<open>c * N \<le> 2 * 1099511627776\<close> by simp
  ultimately have "\<bar>p - f * N\<bar> \<le> 1 / 1000" by linarith
  moreover have "f_mul (fl f) (fl (of_nat n)) = Fin p" using p(1) c(1) assms(4) by (simp add: fl_of_nat N_def)
  moreover have "c \<le> f + 1 / 1000" using cf(2) by linarith
  ultimately show ?thesis using c(1,3) by (auto simp: N_def)
qed

lemma finite_values_Inr:
  assumes "finite_values values name = Inr vs"
  shows "vs \<noteq> []" "list_all f_isfinite vs" "length vs = length values"
proof -
  have vs: "list_all2 (\<lambda>v x. require_finite v name = Inr x) values vs" "vs \<noteq> []"
    using assms by (auto simp: finite_values_def err_simps traverse_Inr_iff)
  then show "vs \<noteq> []" "length vs = length values" by (simp_all add: list_all2_lengthD)
  from vs(1) show "list_all f_isfinite vs"
    by (induction rule: list_all2_induct) (use require_finite_finite in fastforce)+
qed

lemma finite_values_floats:
  assumes "list_all f_isfinite vs" "vs \<noteq> []"
  shows "finite_values (map PFloat vs) name = Inr vs"
proof -
  have "traverse (\<lambda>v. require_finite v name) (map PFloat vs) = Inr vs"
    using assms(1) by (induction vs) (simp_all add: require_finite_def)
  then show ?thesis using assms(2) by (simp add: finite_values_def)
qed

text \<open>The selected index is in range, and its rank is the fraction of the count up to one.\<close>

lemma nearest_rank_index:
  assumes "list_all f_isfinite vs" "vs \<noteq> []" "length vs < 2 ^ 40" "1 / 100 \<le> f" "f \<le> 99 / 100"
  shows "\<exists>k < length vs. nearest_rank (map PFloat vs) (fl f) = Inr (sort_floats vs ! k)
    \<and> f * of_nat (length vs) - 1 / 1000 \<le> of_nat (k + 1) \<and> of_nat (k + 1) < f * of_nat (length vs) + 1 + 1 / 1000"
proof -
  define n where "n = length vs"
  have n: "1 \<le> n" "n < 2 ^ 40" using assms(2,3) by (simp_all add: n_def Suc_leI)
  obtain c p where cp: "fl f = Fin c" "0 < c" "c \<le> f + 1 / 1000" "f_mul (fl f) (fl (of_nat n)) = Fin p"
      "\<bar>p - f * of_nat n\<bar> \<le> 1 / 1000"
    using rounded_product [of f n] n assms(4,5) by auto
  have N: "1 \<le> (of_nat n :: rat)" using n(1) by simp
  have "1 / 100 * 1 \<le> f * of_nat n" using assms(4) N by (intro mult_mono) auto
  moreover have "f * of_nat n \<le> 99 / 100 * of_nat n" using assms(5) N by (intro mult_right_mono) auto
  moreover have bounds: "f * of_nat n - 1 / 1000 \<le> p" "p \<le> f * of_nat n + 1 / 1000" using cp(5) by (simp_all only: abs_le_iff, linarith+)
  ultimately have p: "0 < p" "p \<le> of_nat n" using N by linarith+
  define k where "k = nat (\<lceil>p\<rceil> - 1)"
  have ceil: "1 \<le> \<lceil>p\<rceil>" "\<lceil>p\<rceil> \<le> int n" using p by (simp_all add: ceiling_le_iff one_le_ceiling)
  then have kc: "int (k + 1) = \<lceil>p\<rceil>" by (simp add: k_def)
  then have kn: "k < n" using ceil(2) by linarith
  have "nearest_rank (map PFloat vs) (fl f) = Inr (sort_floats vs ! k)"
    using cp ceil assms(5) finite_values_floats [OF assms(1,2)]
    by (simp add: nearest_rank_def Let_def sort_floats_def n_def f_le_def py_ceil_def py_index_def k_def del: f_mul.simps)
  moreover have "(of_nat (k + 1) :: rat) = of_int \<lceil>p\<rceil>" using kc by (metis of_int_of_nat_eq)
  then have "f * of_nat n - 1 / 1000 \<le> of_nat (k + 1)" "of_nat (k + 1) < f * of_nat n + 1 + 1 / 1000"
    using ceiling_correct [of p] bounds by linarith+
  ultimately show ?thesis using kn unfolding n_def by blast
qed

lemma foldl_choice:
  assumes "\<And>x y. g x y = x \<or> g x y = y"
  shows "foldl g a xs \<in> insert a (set xs)"
proof (induction xs arbitrary: a)
  case (Cons x xs)
  from Cons [of "g a x"] assms [of a x] show ?case by auto
qed simp

lemma f_le_fin: "f_isfinite x \<Longrightarrow> f_isfinite y \<Longrightarrow> f_le x y \<longleftrightarrow> fin_val x \<le> fin_val y"
  by (cases x; cases y) (auto simp: f_le_def fin_val_def)

lemma foldl_max_upper:
  assumes "list_all f_isfinite (a # xs)"
  shows "f_isfinite (foldl f_max a xs) \<and> (\<forall>v \<in> set (a # xs). fin_val v \<le> fin_val (foldl f_max a xs))"
  using assms
proof (induction xs arbitrary: a)
  case (Cons x xs)
  have "f_isfinite (f_max a x)" "fin_val a \<le> fin_val (f_max a x)" "fin_val x \<le> fin_val (f_max a x)"
    using Cons.prems(1) by (cases a; cases x; auto simp: f_max_def fin_val_def)+
  moreover from this Cons.IH [of "f_max a x"] Cons.prems
  have "f_isfinite (foldl f_max (f_max a x) xs)" "\<forall>v \<in> set (f_max a x # xs). fin_val v \<le> fin_val (foldl f_max (f_max a x) xs)"
    by simp_all
  ultimately show ?case by auto
qed simp

lemma foldl_min_lower:
  assumes "list_all f_isfinite (a # xs)"
  shows "f_isfinite (foldl f_min a xs) \<and> (\<forall>v \<in> set (a # xs). fin_val (foldl f_min a xs) \<le> fin_val v)"
  using assms
proof (induction xs arbitrary: a)
  case (Cons x xs)
  have "f_isfinite (f_min a x)" "fin_val (f_min a x) \<le> fin_val a" "fin_val (f_min a x) \<le> fin_val x"
    using Cons.prems(1) by (cases a; cases x; auto simp: f_min_def fin_val_def)+
  moreover from this Cons.IH [of "f_min a x"] Cons.prems
  have "f_isfinite (foldl f_min (f_min a x) xs)" "\<forall>v \<in> set (f_min a x # xs). fin_val (foldl f_min (f_min a x) xs) \<le> fin_val v"
    by simp_all
  ultimately show ?case by auto
qed simp

lemma float_extremes:
  assumes "list_all f_isfinite vs" "vs \<noteq> []"
  shows "float_min vs \<in> set vs" "float_max vs \<in> set vs"
    "\<forall>v \<in> set vs. fin_val (float_min vs) \<le> fin_val v \<and> fin_val v \<le> fin_val (float_max vs)"
proof -
  obtain a xs where vs: "vs = a # xs" using assms(2) by (cases vs) auto
  show "float_min vs \<in> set vs" "float_max vs \<in> set vs"
    using foldl_choice [of f_min a xs] foldl_choice [of f_max a xs] by (auto simp: vs float_min_def float_max_def f_min_def f_max_def)
  show "\<forall>v \<in> set vs. fin_val (float_min vs) \<le> fin_val v \<and> fin_val v \<le> fin_val (float_max vs)"
    using foldl_max_upper [of a xs] foldl_min_lower [of a xs] assms(1) by (simp add: vs float_min_def float_max_def)
qed

lemma rank_bounds:
  assumes "of_nat a / 100 * of_nat n - 1 / 1000 \<le> (of_nat (k + 1) :: rat)" "(of_nat (k + 1) :: rat) < of_nat a / 100 * of_nat n + 1 + 1 / 1000"
  shows "a * n \<le> 100 * (k + 1)" "100 * (k + 1) \<le> a * n + 100"
proof -
  have "(of_nat (a * n) :: rat) < of_nat (100 * (k + 1) + 1)" "(of_nat (100 * (k + 1)) :: rat) < of_nat (a * n + 100 + 1)"
    using assms by (simp_all add: field_simps)
  then have "a * n < 100 * (k + 1) + 1" "100 * (k + 1) < a * n + 100 + 1" by (simp_all only: of_nat_less_iff)
  then show "a * n \<le> 100 * (k + 1)" "100 * (k + 1) \<le> a * n + 100" by simp_all
qed

text \<open>C39. The percentiles of a summary of fewer than \<open>2 ^ 40\<close> values: the minimum, the 5th and the 95th
  percentile and the maximum are values of the series in this order; the selected ranks are in
  range, at least 5 (95) per cent of the values are at or below the percentile's rank, and the rank
  is at most one above the exact fraction although the product that selects it is rounded. The
  median of an odd number of values is the middle one.\<close>

theorem summary_order_statistics:
  assumes "numeric_summary_of py_sqrt py_square values include_rmse = Inr s" and "length values < 2 ^ 40"
  shows "\<exists>vs i j. finite_values values ''values'' = Inr vs \<and> sm_count s = int (length vs)
    \<and> i \<le> j \<and> j < length vs \<and> sm_p5 s = sort_floats vs ! i \<and> sm_p95 s = sort_floats vs ! j
    \<and> length vs \<le> 20 * (i + 1) \<and> 20 * (i + 1) \<le> length vs + 20
    \<and> 19 * length vs \<le> 20 * (j + 1) \<and> 20 * (j + 1) \<le> 19 * length vs + 20
    \<and> (odd (length vs) \<longrightarrow> sm_median s = sort_floats vs ! (length vs div 2))
    \<and> sm_minimum s \<in> set vs \<and> sm_maximum s \<in> set vs
    \<and> f_le (sm_minimum s) (sm_p5 s) \<and> f_le (sm_p5 s) (sm_p95 s) \<and> f_le (sm_p95 s) (sm_maximum s)"
proof -
  from assms(1) obtain vs where vs: "finite_values values ''values'' = Inr vs" "sm_count s = int (length vs)"
      "deterministic_median (map PFloat vs) = Inr (sm_median s)"
      "nearest_rank (map PFloat vs) (fl (5 / 100)) = Inr (sm_p5 s)"
      "nearest_rank (map PFloat vs) (fl (95 / 100)) = Inr (sm_p95 s)"
      "sm_minimum s = float_min vs" "sm_maximum s = float_max vs"
    unfolding numeric_summary_of_def Let_def by (auto simp: err_simps)
  note fin = finite_values_Inr [OF vs(1)]
  have n: "length vs < 2 ^ 40" using fin(3) assms(2) by simp
  let ?n = "length vs" and ?xs = "sort_floats vs"
  obtain i where i: "i < ?n" "sm_p5 s = ?xs ! i" "5 / 100 * of_nat ?n - 1 / 1000 \<le> (of_nat (i + 1) :: rat)"
      "(of_nat (i + 1) :: rat) < 5 / 100 * of_nat ?n + 1 + 1 / 1000"
    using nearest_rank_index [OF fin(2,1) n, of "5 / 100"] vs(4) by auto
  obtain j where j: "j < ?n" "sm_p95 s = ?xs ! j" "95 / 100 * of_nat ?n - 1 / 1000 \<le> (of_nat (j + 1) :: rat)"
      "(of_nat (j + 1) :: rat) < 95 / 100 * of_nat ?n + 1 + 1 / 1000"
    using nearest_rank_index [OF fin(2,1) n, of "95 / 100"] vs(5) by auto
  have ri: "?n \<le> 20 * (i + 1)" "20 * (i + 1) \<le> ?n + 20" and rj: "19 * ?n \<le> 20 * (j + 1)" "20 * (j + 1) \<le> 19 * ?n + 20"
    using rank_bounds [of 5 ?n i] rank_bounds [of 95 ?n j] i(3,4) j(3,4) by simp_all
  have ij: "i \<le> j"
  proof (rule ccontr)
    assume "\<not> i \<le> j"
    then have "20 * (j + 1) \<le> 20 * i" by simp
    moreover have "20 * i \<le> ?n" using ri(2) by simp
    ultimately have "19 * ?n \<le> ?n" using rj(1) by (metis order_trans)
    with i(1) show False by simp
  qed
  have mem: "?xs ! k \<in> set vs" if "k < ?n" for k
    using that nth_mem [of k ?xs] by (simp add: sort_floats_def)
  have "sorted (map fin_val ?xs)" by (simp add: sort_floats_def)
  then have "fin_val (?xs ! i) \<le> fin_val (?xs ! j)"
    using sorted_nth_mono [of "map fin_val ?xs" i j] ij j(1) by (simp add: sort_floats_def)
  moreover note float_extremes [OF fin(2,1)]
  moreover have "f_isfinite v" if "v \<in> set vs" for v using fin(2) that by (simp add: list_all_iff)
  moreover have "odd ?n \<longrightarrow> sm_median s = ?xs ! (?n div 2)"
    using vs(3) finite_values_floats [OF fin(2,1)]
    by (auto simp: deterministic_median_def Let_def sort_floats_def odd_iff_mod_2_eq_one)
  ultimately show ?thesis
    using vs i j ri rj ij mem [OF i(1)] mem [OF j(1)]
    by (intro exI [of _ vs] exI [of _ i] exI [of _ j]) (simp add: f_le_fin)
qed

theorem summary_order_statistics_witness:
  "\<exists>s. numeric_summary_of (\<lambda>x. x) (\<lambda>x. x) [PInt 3] False = Inr s \<and> sm_p5 s = Fin 3 \<and> sm_p95 s = Fin 3"
proof -
  have vs: "finite_values [PInt 3] ''values'' = Inr [Fin 3]" "finite_values [PFloat (Fin 3)] ''values'' = Inr [Fin 3]"
    by (simp_all add: finite_values_def require_finite_def)
  have rank: "\<exists>x. nearest_rank [PFloat (Fin 3)] (fl f) = Inr x" if "f = 5 / 100 \<or> f = 95 / 100" for f
    using nearest_rank_index [of "[Fin 3]" f] that by auto
  have "\<exists>s. numeric_summary_of (\<lambda>x. x) (\<lambda>x. x) [PInt 3] False = Inr s"
    using rank [of "5 / 100"] rank [of "95 / 100"]
    by (auto simp: numeric_summary_of_def vs fsum_def divided_def f_div_def deterministic_median_def sort_floats_def fin_val_def)
  then obtain s where s: "numeric_summary_of (\<lambda>x. x) (\<lambda>x. x) [PInt 3] False = Inr s" by blast
  from summary_order_statistics [OF s] vs(1) s show ?thesis by (auto simp: sort_floats_def)
qed

end
