(* ===== verification/Suite_Aggregation.thy ===== *)
theory Suite_Aggregation
  imports Metrics_Statistics Sha256
begin

text \<open>
  The aggregation of a candidate suite (\<open>robotest_metrics/aggregation.py\<close>): the identity checks over the
  fifteen run results, the aggregate of one metric over the three runs of a scenario, and the verdicts of the
  scenarios and of the suite. Results are JSON objects whose fields may hold anything. The theorems say what a
  suite that is aggregated at all has in common, and that its verdict is PASS exactly when every run passed.
\<close>

section \<open>Reading the documents\<close>

definition mapping_of :: "pyval \<Rightarrow> string \<Rightarrow> metrics_exn + pydict" where
  "mapping_of v name = (case v of PDict d \<Rightarrow> Inr d | _ \<Rightarrow> Inl (MetricUnavailable (name @ '' must be an object'')))"

text \<open>\<open>path.split('.')\<close>\<close>

fun split_dots :: "string \<Rightarrow> string \<Rightarrow> string list" where
  "split_dots current [] = [current]"
| "split_dots current (c # cs) =
     (if c = CHR ''.'' then current # split_dots [] cs else split_dots (current @ [c]) cs)"

fun nested_components :: "pyval \<Rightarrow> string list \<Rightarrow> pyval" where
  "nested_components v [] = v"
| "nested_components v (component # components) =
     (case v of
        PDict d \<Rightarrow> (case map_of d component of None \<Rightarrow> PNone | Some w \<Rightarrow> nested_components w components)
      | _ \<Rightarrow> PNone)"

definition nested :: "pydict \<Rightarrow> string \<Rightarrow> pyval" where
  "nested document path = nested_components (PDict document) (split_dots [] path)"

section \<open>One metric over the runs of a scenario\<close>

datatype metric_entry = Measured pyval pyfloat | Missing pyval pyval

text \<open>One turn of the loop of \<open>_metric_aggregate\<close>: the run identifier with the measured value, or with the reason for
  its absence. \<open>float\<close> of an integer outside the float range raises.\<close>

definition metric_entry_of :: "string \<Rightarrow> pydict \<Rightarrow> metrics_exn + metric_entry" where
  "metric_entry_of path result =
     bindE (mapping_of (dget result ''identity'') ''identity'') (\<lambda>identity.
     case nested result path of
       PNone \<Rightarrow>
         bindE (mapping_of (dget result ''quality'') ''quality'') (\<lambda>quality.
         let reason =
           (case map_of quality ''metric_unavailable_reasons'' of
              None \<Rightarrow> PStr ''null_without_reason''
            | Some (PDict reasons) \<Rightarrow>
                (case map_of reasons path of None \<Rightarrow> PStr ''null_without_reason'' | Some r \<Rightarrow> r)
            | Some _ \<Rightarrow> PStr ''null'') in
         Inr (Missing (dget identity ''run_id'') reason))
     | PInt i \<Rightarrow>
         (case fl (of_int i) of
            Fin q \<Rightarrow> Inr (Measured (dget identity ''run_id'') (Fin q))
          | _ \<Rightarrow> Inl MetricOverflowError)
     | PFloat x \<Rightarrow>
         bindE (guardE (f_isfinite x) (MetricUnavailable (path @ '' must be finite''))) (\<lambda>_.
         Inr (Measured (dget identity ''run_id'') x))
     | _ \<Rightarrow> Inl (MetricUnavailable (path @ '' must be numeric or null'')))"

fun measured_values :: "metric_entry list \<Rightarrow> pyfloat list" where
  "measured_values [] = []"
| "measured_values (Measured run x # es) = x # measured_values es"
| "measured_values (Missing run reason # es) = measured_values es"

fun source_values :: "metric_entry list \<Rightarrow> pyval list" where
  "source_values [] = []"
| "source_values (Measured run x # es) = PDict [(''run_id'', run), (''value'', PFloat x)] # source_values es"
| "source_values (Missing run reason # es) = source_values es"

fun null_entries :: "metric_entry list \<Rightarrow> pyval list" where
  "null_entries [] = []"
| "null_entries (Measured run x # es) = null_entries es"
| "null_entries (Missing run reason # es) = PDict [(''reason'', reason), (''run_id'', run)] # null_entries es"

definition order_summary :: "pyfloat list \<Rightarrow> metrics_exn + pydict" where
  "order_summary values =
     (if values \<noteq> [] then
        bindE (deterministic_median (map PFloat values)) (\<lambda>median.
        bindE (nearest_rank (map PFloat values) (fl (5 / 100))) (\<lambda>p5.
        bindE (nearest_rank (map PFloat values) (fl (95 / 100))) (\<lambda>p95.
        Inr [(''median'', PFloat median), (''p5'', PFloat p5), (''p95'', PFloat p95)])))
      else Inr [(''median'', PNone), (''p5'', PNone), (''p95'', PNone)])"

definition metric_aggregate :: "pydict list \<Rightarrow> string \<Rightarrow> metrics_exn + pydict" where
  "metric_aggregate results path =
     bindE (traverse (metric_entry_of path) results) (\<lambda>entries.
     let values = measured_values entries; nulls = null_entries entries in
     bindE (order_summary values) (\<lambda>summary.
     Inr ([(''available_count'', PInt (int (length values))),
           (''null_count'', PInt (int (length nulls))),
           (''nulls'', PList nulls),
           (''source_values'', PList (source_values entries)),
           (''valid_numeric_count'', PInt (int (length values)))] @ summary)))"

section \<open>The identity of a suite\<close>

definition GLOBAL_HASH_FIELDS :: "string list" where
  "GLOBAL_HASH_FIELDS =
     [''collector_configuration_sha256'', ''collision_coverage_manifest_sha256'', ''metrics_contract_sha256'',
      ''positive_control_json_sha256'', ''source_configuration_sha256'', ''target_set_sha256'']"

definition SCENARIO_HASH_FIELDS :: "string list" where
  "SCENARIO_HASH_FIELDS = [''fault_schedule_sha256'', ''scenario_sha256'']"

definition is_sha256 :: "string \<Rightarrow> bool" where
  "is_sha256 s = (length s = 64 \<and> list_all is_lower_hex s)"

definition is_git_commit :: "string \<Rightarrow> bool" where
  "is_git_commit s = (length s = 40 \<and> list_all is_lower_hex s)"

record suite_state =
  run_ids :: "string list"
  ros_domains :: "int list"
  gazebo_partitions :: "string list"
  suite_git_sha :: "string option"
  global_hashes :: "(string \<times> string) list"
  scenario_hashes :: "(int \<times> (string \<times> string) list) list"
  suite_candidate :: "string option"
  scenario_groups :: "(int \<times> pydict list) list"

definition new_suite :: suite_state where
  "new_suite = \<lparr>run_ids = [], ros_domains = [], gazebo_partitions = [], suite_git_sha = None, global_hashes = [],
     scenario_hashes = [], suite_candidate = None, scenario_groups = [(1, []), (2, []), (3, []), (4, []), (5, [])]\<rparr>"

text \<open>The position of a result: \<open>benchmark_suite_index\<close> falls back to \<open>suite_index\<close>.\<close>

definition check_position :: "nat \<Rightarrow> pydict \<Rightarrow> metrics_exn + unit" where
  "check_position suite_index identity =
     (let declared = (if dget identity ''benchmark_suite_index'' = PNone then dget identity ''suite_index''
                      else dget identity ''benchmark_suite_index'');
          expected_scenario = PInt (int (suite_index div 3 + 1)) in
      bindE (guardE (py_eq declared (PInt (int suite_index)))
        (MetricUnavailable ''benchmark suite indices are not ordered 0..14'')) (\<lambda>_.
      bindE (guardE (py_eq (dget identity ''scenario_index'') expected_scenario)
        (MetricUnavailable ''scenario order must be 1..5 with three adjacent trials'')) (\<lambda>_.
      bindE (guardE (py_eq (dget identity ''scenario_id'') expected_scenario)
        (MetricUnavailable ''scenario ID and ordered scenario index differ'')) (\<lambda>_.
      bindE (guardE (py_eq (dget identity ''repetition_index'') (PInt (int (suite_index mod 3))))
        (MetricUnavailable ''repetition indices must be 0, 1, 2 per scenario'')) (\<lambda>_.
      bindE (guardE (dget identity ''git_dirty'' = PBool False)
        (MetricUnavailable ''every candidate trial must use a clean worktree'')) (\<lambda>_.
      guardE (dget identity ''cold_stack'' = PBool True)
        (MetricUnavailable ''every candidate trial must prove a cold stack'')))))))"

text \<open>The first result fixes the value; every later one must repeat it.\<close>

definition agree :: "'a option \<Rightarrow> 'a \<Rightarrow> string \<Rightarrow> metrics_exn + 'a option" where
  "agree known current message =
     (case known of
        None \<Rightarrow> Inr (Some current)
      | Some k \<Rightarrow> bindE (guardE (current = k) (MetricUnavailable message)) (\<lambda>_. Inr known))"

definition check_candidate :: "pydict \<Rightarrow> suite_state \<Rightarrow> metrics_exn + suite_state" where
  "check_candidate identity st =
     (case dget identity ''candidate_id'' of
        PStr (c # cs) \<Rightarrow>
          bindE (agree (suite_candidate st) (c # cs) ''candidate trials mix candidate IDs'') (\<lambda>candidate.
          case dget identity ''git_sha'' of
            PStr sha \<Rightarrow>
              bindE (guardE (is_git_commit sha) (MetricUnavailable ''trial Git SHA is missing'')) (\<lambda>_.
              bindE (agree (suite_git_sha st) sha ''candidate trials do not share one Git commit'') (\<lambda>git_sha.
              Inr (st\<lparr>suite_candidate := candidate, suite_git_sha := git_sha\<rparr>)))
          | _ \<Rightarrow> Inl (MetricUnavailable ''trial Git SHA is missing''))
      | _ \<Rightarrow> Inl (MetricUnavailable ''candidate ID is missing''))"

definition fresh_name :: "pyval \<Rightarrow> string list \<Rightarrow> string \<Rightarrow> metrics_exn + string" where
  "fresh_name v seen message =
     (case v of
        PStr s \<Rightarrow> if s = [] \<or> s \<in> set seen then Inl (MetricUnavailable message) else Inr s
      | _ \<Rightarrow> Inl (MetricUnavailable message))"

definition check_unique :: "pydict \<Rightarrow> suite_state \<Rightarrow> metrics_exn + suite_state" where
  "check_unique identity st =
     bindE (fresh_name (dget identity ''run_id'') (run_ids st) ''run IDs must be non-empty and unique'') (\<lambda>run_id.
     bindE (fresh_name (dget identity ''gz_partition'') (gazebo_partitions st)
       ''Gazebo partitions must be non-empty and unique'') (\<lambda>partition.
     case dget identity ''ros_domain_id'' of
       PInt domain \<Rightarrow>
         bindE (guardE (domain \<notin> set (ros_domains st))
           (MetricUnavailable ''ROS domain IDs must be integers and unique'')) (\<lambda>_.
         Inr (st\<lparr>run_ids := run_ids st @ [run_id], gazebo_partitions := gazebo_partitions st @ [partition],
                 ros_domains := ros_domains st @ [domain]\<rparr>))
     | _ \<Rightarrow> Inl (MetricUnavailable ''ROS domain IDs must be integers and unique'')))"

definition hash_field :: "pydict \<Rightarrow> string \<Rightarrow> metrics_exn + string" where
  "hash_field targets field =
     (case dget targets field of
        PStr s \<Rightarrow> bindE (guardE (is_sha256 s) (MetricUnavailable (field @ '' is missing''))) (\<lambda>_. Inr s)
      | _ \<Rightarrow> Inl (MetricUnavailable (field @ '' is missing'')))"

fun check_global_hashes :: "pydict \<Rightarrow> string list \<Rightarrow> (string \<times> string) list \<Rightarrow> metrics_exn + (string \<times> string) list" where
  "check_global_hashes targets [] hashes = Inr hashes"
| "check_global_hashes targets (field # rest) hashes =
     bindE (hash_field targets field) (\<lambda>value.
     case map_of hashes field of
       None \<Rightarrow> check_global_hashes targets rest (hashes @ [(field, value)])
     | Some existing \<Rightarrow>
         if value \<noteq> existing then Inl (MetricUnavailable (field @ '' differs across candidate trials''))
         else check_global_hashes targets rest hashes)"

text \<open>The hashes bound to a scenario, in the order of the field list, so that two dictionaries are equal exactly when
  the lists are.\<close>

definition check_scenario_hashes :: "int \<Rightarrow> pydict \<Rightarrow> suite_state \<Rightarrow> metrics_exn + suite_state" where
  "check_scenario_hashes scenario targets st =
     bindE (traverse (\<lambda>field. bindE (hash_field targets field) (\<lambda>value. Inr (field, value))) SCENARIO_HASH_FIELDS) (\<lambda>current.
     case map_of (scenario_hashes st) scenario of
       None \<Rightarrow> Inr (st\<lparr>scenario_hashes := scenario_hashes st @ [(scenario, current)]\<rparr>)
     | Some existing \<Rightarrow>
         if current \<noteq> existing then Inl (MetricUnavailable ''scenario-bound hashes differ across repetitions'')
         else Inr st)"

definition add_to_group :: "int \<Rightarrow> pydict \<Rightarrow> suite_state \<Rightarrow> suite_state" where
  "add_to_group scenario result st =
     st\<lparr>scenario_groups :=
        map (\<lambda>(k, runs). if k = scenario then (k, runs @ [result]) else (k, runs)) (scenario_groups st)\<rparr>"

definition suite_step :: "nat \<Rightarrow> pydict \<Rightarrow> suite_state \<Rightarrow> metrics_exn + suite_state" where
  "suite_step suite_index result st =
     (let label = ''results['' @ show_int (int suite_index) @ '']''; scenario = int (suite_index div 3 + 1) in
      bindE (mapping_of (dget result ''identity'') (label @ ''.identity'')) (\<lambda>identity.
      bindE (mapping_of (dget result ''targets'') (label @ ''.targets'')) (\<lambda>targets.
      bindE (check_position suite_index identity) (\<lambda>_.
      bindE (check_candidate identity st) (\<lambda>st1.
      bindE (check_unique identity st1) (\<lambda>st2.
      bindE (check_global_hashes targets GLOBAL_HASH_FIELDS (global_hashes st2)) (\<lambda>hashes.
      bindE (check_scenario_hashes scenario targets (st2\<lparr>global_hashes := hashes\<rparr>)) (\<lambda>st3.
      Inr (add_to_group scenario result st3)))))))))"

fun suite_loop :: "nat \<Rightarrow> pydict list \<Rightarrow> suite_state \<Rightarrow> metrics_exn + suite_state" where
  "suite_loop i [] st = Inr st"
| "suite_loop i (result # results) st = bindE (suite_step i result st) (suite_loop (i + 1) results)"

section \<open>The verdicts\<close>

definition run_status :: "pydict \<Rightarrow> metrics_exn + pyval" where
  "run_status result = bindE (mapping_of (dget result ''verdict'') ''verdict'') (\<lambda>v. Inr (dget v ''automated_status''))"

definition run_id_of :: "pydict \<Rightarrow> metrics_exn + pyval" where
  "run_id_of result = bindE (mapping_of (dget result ''identity'') ''identity'') (\<lambda>i. Inr (dget i ''run_id''))"

definition count_passed :: "pyval list \<Rightarrow> int" where
  "count_passed statuses = int (length (filter (\<lambda>s. s = PStr ''PASS'') statuses))"

definition scenario_aggregate :: "string list \<Rightarrow> pydict list \<Rightarrow> metrics_exn + pydict" where
  "scenario_aggregate metric_paths runs =
     bindE (traverse run_status runs) (\<lambda>statuses.
     let passed = count_passed statuses in
     bindE (traverse (\<lambda>path. bindE (metric_aggregate runs path) (\<lambda>m. Inr (path, PDict m))) metric_paths) (\<lambda>metrics.
     bindE (traverse run_id_of runs) (\<lambda>ids.
     Inr [(''denominator'', PInt 3), (''metrics'', PDict metrics), (''numerator'', PInt passed), (''run_ids'', PList ids),
          (''run_verdicts'',
             PList (map (\<lambda>(i, s). PDict [(''run_id'', i), (''status'', s)]) (zip ids statuses))),
          (''success_rate'', PFloat (int_truediv passed 3)),
          (''verdict'', PStr (if passed = 3 then ''PASS'' else ''FAIL''))])))"

definition starts_with :: "string \<Rightarrow> string \<Rightarrow> bool" where
  "starts_with pre s = (take (length pre) s = pre)"

definition suite_document :: "pyval list \<Rightarrow> suite_state \<Rightarrow> (int \<times> pydict) list \<Rightarrow> pydict" where
  "suite_document ids st scenarios =
     (let suite_passed = list_all (\<lambda>(k, item). dget item ''verdict'' = PStr ''PASS'') scenarios in
      [(''identity'', PDict
          [(''candidate_id'', case suite_candidate st of None \<Rightarrow> PNone | Some s \<Rightarrow> PStr s),
           (''git_sha'', case suite_git_sha st of None \<Rightarrow> PNone | Some s \<Rightarrow> PStr s),
           (''ordered_run_ids'', PList ids), (''trial_count'', PInt 15)]),
       (''quality'', PDict
          [(''cold_stack_identity'', PStr ''PASS''),
           (''global_hashes'', PDict (map (\<lambda>(f, h). (f, PStr h)) (global_hashes st))),
           (''scenario_hashes'', PDict
              (map (\<lambda>(k, hs). (show_int k, PDict (map (\<lambda>(f, h). (f, PStr h)) hs))) (scenario_hashes st)))]),
       (''scenarios'', PDict (map (\<lambda>(k, item). (show_int k, PDict item)) scenarios)),
       (''verdict'', PDict [(''automated_status'', PStr (if suite_passed then ''PASS'' else ''FAIL''))])])"

definition aggregate_phase3_suite :: "pydict list \<Rightarrow> string list \<Rightarrow> metrics_exn + pydict" where
  "aggregate_phase3_suite results metric_paths =
     bindE (guardE (length results = 15)
       (MetricUnavailable ''Phase 3 candidate suite must contain exactly 15 results'')) (\<lambda>_.
     bindE (guardE (metric_paths \<noteq> [] \<and> distinct metric_paths \<and> list_all (starts_with ''measurements.'') metric_paths)
       (MetricUnavailable ''at least one unique measurements.* aggregate path is required'')) (\<lambda>_.
     bindE (suite_loop 0 results new_suite) (\<lambda>st.
     bindE (traverse (\<lambda>(k, runs). bindE (scenario_aggregate metric_paths runs) (\<lambda>item. Inr (k, item)))
       (scenario_groups st)) (\<lambda>scenarios.
     bindE (traverse run_id_of results) (\<lambda>ids.
     Inr (suite_document ids st scenarios))))))"

section \<open>What the results of a suite have in common\<close>

text \<open>A field of one of the objects of a document.\<close>

definition entry :: "pydict \<Rightarrow> string \<Rightarrow> string \<Rightarrow> pyval" where
  "entry document part key = (case dget document part of PDict d \<Rightarrow> dget d key | _ \<Rightarrow> PNone)"

definition shared_hashes :: "(string \<times> string) list \<Rightarrow> string list \<Rightarrow> pydict \<Rightarrow> bool" where
  "shared_hashes hashes required result =
     list_all (\<lambda>f. \<exists>h. map_of hashes f = Some h \<and> is_sha256 h \<and> entry result ''targets'' f = PStr h) required"

definition in_position :: "nat \<Rightarrow> pydict \<Rightarrow> bool" where
  "in_position i result \<longleftrightarrow>
     py_eq (entry result ''identity'' ''scenario_index'') (PInt (int (i div 3 + 1)))
     \<and> py_eq (entry result ''identity'' ''scenario_id'') (PInt (int (i div 3 + 1)))
     \<and> py_eq (entry result ''identity'' ''repetition_index'') (PInt (int (i mod 3)))
     \<and> entry result ''identity'' ''git_dirty'' = PBool False \<and> entry result ''identity'' ''cold_stack'' = PBool True"

definition same_candidate :: "suite_state \<Rightarrow> pydict \<Rightarrow> bool" where
  "same_candidate st result \<longleftrightarrow>
     (\<exists>c sha. suite_candidate st = Some c \<and> suite_git_sha st = Some sha \<and> is_git_commit sha
        \<and> entry result ''identity'' ''candidate_id'' = PStr c \<and> entry result ''identity'' ''git_sha'' = PStr sha)"

definition scenario_bound :: "suite_state \<Rightarrow> nat \<Rightarrow> pydict \<Rightarrow> bool" where
  "scenario_bound st i result \<longleftrightarrow>
     (\<exists>hs. map_of (scenario_hashes st) (int (i div 3 + 1)) = Some hs \<and> shared_hashes hs SCENARIO_HASH_FIELDS result)"

definition suite_groups :: "pydict list \<Rightarrow> (int \<times> pydict list) list" where
  "suite_groups rs = map (\<lambda>k. (int k + 1, take 3 (drop (3 * k) rs))) [0..<5]"

definition suite_inv :: "pydict list \<Rightarrow> suite_state \<Rightarrow> bool" where
  "suite_inv rs st \<longleftrightarrow>
     (\<forall>i < length rs. in_position i (rs ! i) \<and> same_candidate st (rs ! i)
        \<and> shared_hashes (global_hashes st) GLOBAL_HASH_FIELDS (rs ! i) \<and> scenario_bound st i (rs ! i))
     \<and> map PStr (run_ids st) = map (\<lambda>r. entry r ''identity'' ''run_id'') rs \<and> distinct (run_ids st)
     \<and> map PStr (gazebo_partitions st) = map (\<lambda>r. entry r ''identity'' ''gz_partition'') rs
     \<and> distinct (gazebo_partitions st)
     \<and> map PInt (ros_domains st) = map (\<lambda>r. entry r ''identity'' ''ros_domain_id'') rs \<and> distinct (ros_domains st)
     \<and> scenario_groups st = suite_groups rs"

lemma mapping_of_Inr: "mapping_of v name = Inr d \<longleftrightarrow> v = PDict d"
  by (auto simp: mapping_of_def split: pyval.splits)

lemma check_position_Inr:
  assumes "check_position i identity = Inr u" "dget result ''identity'' = PDict identity"
  shows "in_position i result"
  using assms(1) unfolding check_position_def Let_def bindE_Inr_iff guardE_Inr_iff
  by (simp add: in_position_def entry_def assms(2))

lemma agree_Inr: "agree known current message = Inr known' \<Longrightarrow> known' = Some current \<and> (\<forall>k. known = Some k \<longrightarrow> k = current)"
  by (auto simp: agree_def err_simps split: option.splits)

lemma check_candidate_Inr:
  assumes "check_candidate identity st = Inr st'"
  shows "\<exists>c sha. st' = st\<lparr>suite_candidate := Some c, suite_git_sha := Some sha\<rparr>
    \<and> dget identity ''candidate_id'' = PStr c \<and> dget identity ''git_sha'' = PStr sha \<and> is_git_commit sha
    \<and> (\<forall>k. suite_candidate st = Some k \<longrightarrow> k = c) \<and> (\<forall>k. suite_git_sha st = Some k \<longrightarrow> k = sha)"
proof -
  obtain c where c: "dget identity ''candidate_id'' = PStr c"
    using assms by (auto simp: check_candidate_def split: pyval.splits)
  obtain sha where sha: "dget identity ''git_sha'' = PStr sha"
    using assms by (cases "dget identity ''git_sha''") (auto simp: check_candidate_def bindE_Inr_iff c split: list.splits)
  obtain a b where ab: "agree (suite_candidate st) c ''candidate trials mix candidate IDs'' = Inr a" "is_git_commit sha"
      "agree (suite_git_sha st) sha ''candidate trials do not share one Git commit'' = Inr b"
      "st' = st\<lparr>suite_candidate := a, suite_git_sha := b\<rparr>"
    using assms c sha by (auto simp: check_candidate_def bindE_Inr_iff split: list.splits)
  from agree_Inr [OF ab(1)] agree_Inr [OF ab(3)] ab c sha show ?thesis by auto
qed

lemma fresh_name_Inr: "fresh_name v seen message = Inr s \<Longrightarrow> v = PStr s \<and> s \<notin> set seen"
  by (auto simp: fresh_name_def split: pyval.splits if_splits)

lemma check_unique_Inr:
  assumes "check_unique identity st = Inr st'"
  shows "\<exists>r p d. st' = st\<lparr>run_ids := run_ids st @ [r], gazebo_partitions := gazebo_partitions st @ [p],
      ros_domains := ros_domains st @ [d]\<rparr>
    \<and> dget identity ''run_id'' = PStr r \<and> r \<notin> set (run_ids st)
    \<and> dget identity ''gz_partition'' = PStr p \<and> p \<notin> set (gazebo_partitions st)
    \<and> dget identity ''ros_domain_id'' = PInt d \<and> d \<notin> set (ros_domains st)"
proof -
  obtain r p where rp: "fresh_name (dget identity ''run_id'') (run_ids st) ''run IDs must be non-empty and unique'' = Inr r"
      "fresh_name (dget identity ''gz_partition'') (gazebo_partitions st) ''Gazebo partitions must be non-empty and unique'' = Inr p"
    using assms unfolding check_unique_def bindE_Inr_iff by blast
  obtain d where d: "dget identity ''ros_domain_id'' = PInt d"
    using assms unfolding check_unique_def by (cases "dget identity ''ros_domain_id''") (simp_all add: rp)
  have "d \<notin> set (ros_domains st)" and "st' = st\<lparr>run_ids := run_ids st @ [r],
      gazebo_partitions := gazebo_partitions st @ [p], ros_domains := ros_domains st @ [d]\<rparr>"
    using assms unfolding check_unique_def rp d by (auto simp: bindE_Inr_iff)
  with fresh_name_Inr [OF rp(1)] fresh_name_Inr [OF rp(2)] d show ?thesis by blast
qed

lemma hash_field_Inr: "hash_field targets f = Inr h \<longleftrightarrow> dget targets f = PStr h \<and> is_sha256 h"
  by (auto simp: hash_field_def err_simps split: pyval.splits)

lemma check_global_hashes_Inr:
  assumes "check_global_hashes targets fs hashes = Inr hashes'"
  shows "map_of hashes \<subseteq>\<^sub>m map_of hashes'"
    "f \<in> set fs \<Longrightarrow> \<exists>h. map_of hashes' f = Some h \<and> is_sha256 h \<and> dget targets f = PStr h"
proof (atomize (full), use assms in \<open>induction targets fs hashes rule: check_global_hashes.induct\<close>)
  case (2 targets g rest hashes)
  from 2(3) obtain v where v: "hash_field targets g = Inr v" by (auto simp: bindE_Inr_iff)
  show ?case
  proof (cases "map_of hashes g")
    case None
    with 2(3) v have r: "check_global_hashes targets rest (hashes @ [(g, v)]) = Inr hashes'" by simp
    from None have le: "map_of hashes \<subseteq>\<^sub>m map_of (hashes @ [(g, v)])" "map_of (hashes @ [(g, v)]) g = Some v"
      by (auto simp: map_le_def map_add_def split: option.splits)
    from 2(1) [OF None r] le v show ?thesis
      by (auto simp: hash_field_Inr map_le_def dom_def)
  next
    case (Some e)
    with 2(3) v have e: "e = v" and r: "check_global_hashes targets rest hashes = Inr hashes'" by (auto split: if_splits)
    from 2(2) [OF Some _ r] e Some v show ?thesis
      by (auto simp: hash_field_Inr map_le_def dom_def)
  qed
qed simp

lemma shared_hashes_mono:
  "shared_hashes hs fs r \<Longrightarrow> map_of hs \<subseteq>\<^sub>m map_of hs' \<Longrightarrow> shared_hashes hs' fs r"
  unfolding shared_hashes_def list_all_iff map_le_def by (metis domI)

lemma scenario_fields_Inr:
  "traverse (\<lambda>f. bindE (hash_field targets f) (\<lambda>v. Inr (f, v))) fs = Inr hs \<Longrightarrow> f \<in> set fs \<Longrightarrow>
   \<exists>h. map_of hs f = Some h \<and> is_sha256 h \<and> dget targets f = PStr h"
  by (induction fs arbitrary: hs) (auto simp: bindE_Inr_iff hash_field_Inr)

lemma check_scenario_hashes_Inr:
  assumes "check_scenario_hashes k targets st = Inr st'" "dget result ''targets'' = PDict targets"
  shows "\<exists>hs. st' = st\<lparr>scenario_hashes := hs\<rparr> \<and> map_of (scenario_hashes st) \<subseteq>\<^sub>m map_of hs
    \<and> (\<exists>h. map_of hs k = Some h \<and> shared_hashes h SCENARIO_HASH_FIELDS result)"
proof -
  obtain current where cur: "traverse (\<lambda>field. bindE (hash_field targets field) (\<lambda>value. Inr (field, value)))
      SCENARIO_HASH_FIELDS = Inr current"
    using assms(1) unfolding check_scenario_hashes_def bindE_Inr_iff by blast
  have sh: "shared_hashes current SCENARIO_HASH_FIELDS result"
    using scenario_fields_Inr [OF cur] by (simp add: shared_hashes_def list_all_iff entry_def assms(2))
  show ?thesis
  proof (cases "map_of (scenario_hashes st) k")
    case None
    then have st': "st' = st\<lparr>scenario_hashes := scenario_hashes st @ [(k, current)]\<rparr>"
      using assms(1) by (simp add: check_scenario_hashes_def cur)
    show ?thesis using None sh unfolding st'
      by (intro exI [of _ "scenario_hashes st @ [(k, current)]"]) (auto simp: map_le_def map_add_def split: option.splits)
  next
    case (Some e)
    then have "st' = st" "current = e" using assms(1) by (simp_all add: check_scenario_hashes_def cur split: if_splits)
    with Some sh show ?thesis by (intro exI [of _ "scenario_hashes st"]) simp
  qed
qed

lemma suite_groups_snoc:
  assumes "length rs < 15"
  shows "suite_groups (rs @ [r]) =
    map (\<lambda>(k, runs). if k = int (length rs div 3 + 1) then (k, runs @ [r]) else (k, runs)) (suite_groups rs)"
proof -
  have "take 3 (drop (3 * k) (rs @ [r])) = (if int k + 1 = int (length rs div 3 + 1) then take 3 (drop (3 * k) rs) @ [r]
      else take 3 (drop (3 * k) rs))" for k
  proof -
    consider "length rs div 3 < k" | "length rs div 3 = k" | "k < length rs div 3" by linarith
    then show ?thesis
    proof cases
      case 1
      then have "length rs + 1 \<le> 3 * k" by (simp add: div_less_iff_less_mult)
      with 1 show ?thesis by auto
    next
      case 2
      then have "length rs < 3 * k + 3" "3 * k \<le> length rs" by presburger+
      with 2 show ?thesis by simp
    next
      case 3
      then have "3 * k + 3 \<le> length rs" by presburger
      with 3 show ?thesis by auto
    qed
  qed
  then show ?thesis unfolding suite_groups_def map_map by (intro map_cong) (auto simp: comp_def)
qed

lemma suite_step_Inr:
  assumes "suite_step i result st = Inr st'"
  shows "\<exists>identity targets c sha r p d hashes sh.
      dget result ''identity'' = PDict identity \<and> dget result ''targets'' = PDict targets
      \<and> in_position i result
      \<and> st' = add_to_group (int (i div 3 + 1)) result
          (st\<lparr>suite_candidate := Some c, suite_git_sha := Some sha, run_ids := run_ids st @ [r],
              gazebo_partitions := gazebo_partitions st @ [p], ros_domains := ros_domains st @ [d],
              global_hashes := hashes, scenario_hashes := sh\<rparr>)
      \<and> is_git_commit sha \<and> entry result ''identity'' ''candidate_id'' = PStr c \<and> entry result ''identity'' ''git_sha'' = PStr sha
      \<and> (\<forall>k. suite_candidate st = Some k \<longrightarrow> k = c) \<and> (\<forall>k. suite_git_sha st = Some k \<longrightarrow> k = sha)
      \<and> entry result ''identity'' ''run_id'' = PStr r \<and> r \<notin> set (run_ids st)
      \<and> entry result ''identity'' ''gz_partition'' = PStr p \<and> p \<notin> set (gazebo_partitions st)
      \<and> entry result ''identity'' ''ros_domain_id'' = PInt d \<and> d \<notin> set (ros_domains st)
      \<and> map_of (global_hashes st) \<subseteq>\<^sub>m map_of hashes \<and> shared_hashes hashes GLOBAL_HASH_FIELDS result
      \<and> map_of (scenario_hashes st) \<subseteq>\<^sub>m map_of sh
      \<and> (\<exists>h. map_of sh (int (i div 3 + 1)) = Some h \<and> shared_hashes h SCENARIO_HASH_FIELDS result)"
proof -
  obtain identity targets u st1 st2 hashes st3 where s:
      "mapping_of (dget result ''identity'') ((''results['' @ show_int (int i) @ '']'') @ ''.identity'') = Inr identity"
      "mapping_of (dget result ''targets'') ((''results['' @ show_int (int i) @ '']'') @ ''.targets'') = Inr targets"
      "check_position i identity = Inr u" "check_candidate identity st = Inr st1" "check_unique identity st1 = Inr st2"
      "check_global_hashes targets GLOBAL_HASH_FIELDS (global_hashes st2) = Inr hashes"
      "check_scenario_hashes (int (i div 3 + 1)) targets (st2\<lparr>global_hashes := hashes\<rparr>) = Inr st3"
      "st' = add_to_group (int (i div 3 + 1)) result st3"
    using assms unfolding suite_step_def Let_def bindE_Inr_iff by blast
  have it: "dget result ''identity'' = PDict identity" "dget result ''targets'' = PDict targets"
    using s(1,2) by (simp_all only: mapping_of_Inr)
  obtain c sha where c: "st1 = st\<lparr>suite_candidate := Some c, suite_git_sha := Some sha\<rparr>"
    "dget identity ''candidate_id'' = PStr c" "dget identity ''git_sha'' = PStr sha" "is_git_commit sha"
    "\<forall>k. suite_candidate st = Some k \<longrightarrow> k = c" "\<forall>k. suite_git_sha st = Some k \<longrightarrow> k = sha"
    using check_candidate_Inr [OF s(4)] by blast
  obtain r p d where u: "st2 = st1\<lparr>run_ids := run_ids st1 @ [r], gazebo_partitions := gazebo_partitions st1 @ [p],
      ros_domains := ros_domains st1 @ [d]\<rparr>"
    "dget identity ''run_id'' = PStr r" "r \<notin> set (run_ids st1)" "dget identity ''gz_partition'' = PStr p"
    "p \<notin> set (gazebo_partitions st1)" "dget identity ''ros_domain_id'' = PInt d" "d \<notin> set (ros_domains st1)"
    using check_unique_Inr [OF s(5)] by blast
  obtain sh h where h: "st3 = st2\<lparr>global_hashes := hashes, scenario_hashes := sh\<rparr>"
    "map_of (scenario_hashes st2) \<subseteq>\<^sub>m map_of sh" "map_of sh (int (i div 3 + 1)) = Some h"
    "shared_hashes h SCENARIO_HASH_FIELDS result"
    using check_scenario_hashes_Inr [OF s(7) it(2)] by auto
  note g = check_global_hashes_Inr [OF s(6)]
  have gh: "shared_hashes hashes GLOBAL_HASH_FIELDS result"
    using g(2) by (simp add: shared_hashes_def list_all_iff entry_def it)
  have e: "entry result ''identity'' k = dget identity k" for k by (simp add: entry_def it)
  have sel: "run_ids st1 = run_ids st" "gazebo_partitions st1 = gazebo_partitions st" "ros_domains st1 = ros_domains st"
      "global_hashes st2 = global_hashes st" "scenario_hashes st2 = scenario_hashes st"
    unfolding u(1) c(1) by simp_all
  have up: "st' = add_to_group (int (i div 3 + 1)) result
      (st\<lparr>suite_candidate := Some c, suite_git_sha := Some sha, run_ids := run_ids st @ [r],
          gazebo_partitions := gazebo_partitions st @ [p], ros_domains := ros_domains st @ [d],
          global_hashes := hashes, scenario_hashes := sh\<rparr>)"
    unfolding s(8) h(1) u(1) sel unfolding c(1) by simp
  note pos = check_position_Inr [OF s(3) it(1)]
  show ?thesis
    unfolding e
    by (rule exI [of _ identity], rule exI [of _ targets], rule exI [of _ c], rule exI [of _ sha], rule exI [of _ r],
        rule exI [of _ p], rule exI [of _ d], rule exI [of _ hashes], rule exI [of _ sh])
      (intro conjI it pos up c(2-6) u(2-7) [unfolded sel] g(1) [unfolded sel] gh h(2) [unfolded sel] exI [of _ h] h(3,4))
qed

lemma suite_step_inv:
  assumes "suite_step (length rs) result st = Inr st'" "suite_inv rs st" "length rs < 15"
  shows "suite_inv (rs @ [result]) st'"
proof -
  obtain identity targets c sha r p d hashes sh where s:
    "in_position (length rs) result"
    "st' = add_to_group (int (length rs div 3 + 1)) result
          (st\<lparr>suite_candidate := Some c, suite_git_sha := Some sha, run_ids := run_ids st @ [r],
              gazebo_partitions := gazebo_partitions st @ [p], ros_domains := ros_domains st @ [d],
              global_hashes := hashes, scenario_hashes := sh\<rparr>)"
    "is_git_commit sha" "entry result ''identity'' ''candidate_id'' = PStr c" "entry result ''identity'' ''git_sha'' = PStr sha"
    "\<forall>k. suite_candidate st = Some k \<longrightarrow> k = c" "\<forall>k. suite_git_sha st = Some k \<longrightarrow> k = sha"
    "entry result ''identity'' ''run_id'' = PStr r" "r \<notin> set (run_ids st)"
    "entry result ''identity'' ''gz_partition'' = PStr p" "p \<notin> set (gazebo_partitions st)"
    "entry result ''identity'' ''ros_domain_id'' = PInt d" "d \<notin> set (ros_domains st)"
    "map_of (global_hashes st) \<subseteq>\<^sub>m map_of hashes" "shared_hashes hashes GLOBAL_HASH_FIELDS result"
    "map_of (scenario_hashes st) \<subseteq>\<^sub>m map_of sh"
    "\<exists>h. map_of sh (int (length rs div 3 + 1)) = Some h \<and> shared_hashes h SCENARIO_HASH_FIELDS result"
    using suite_step_Inr [OF assms(1)] by blast
  have new: "in_position (length rs) result \<and> same_candidate st' result
      \<and> shared_hashes (global_hashes st') GLOBAL_HASH_FIELDS result \<and> scenario_bound st' (length rs) result"
    using s(1,3-5,15,17) by (simp add: s(2) add_to_group_def same_candidate_def scenario_bound_def)
  have old: "in_position i (rs ! i) \<and> same_candidate st' (rs ! i)
      \<and> shared_hashes (global_hashes st') GLOBAL_HASH_FIELDS (rs ! i) \<and> scenario_bound st' i (rs ! i)" if "i < length rs" for i
  proof -
    have i: "in_position i (rs ! i)" "same_candidate st (rs ! i)"
        "shared_hashes (global_hashes st) GLOBAL_HASH_FIELDS (rs ! i)" "scenario_bound st i (rs ! i)"
      using assms(2) that by (simp_all add: suite_inv_def)
    have "same_candidate st' (rs ! i)" using i(2) s(6,7) by (auto simp: same_candidate_def s(2) add_to_group_def)
    moreover have "scenario_bound st' i (rs ! i)" using i(4) s(16)
      unfolding scenario_bound_def s(2) add_to_group_def by (auto simp: map_le_def dom_def)
    moreover have "shared_hashes (global_hashes st') GLOBAL_HASH_FIELDS (rs ! i)"
      using shared_hashes_mono [OF i(3) s(14)] by (simp add: s(2) add_to_group_def)
    ultimately show ?thesis using i(1) by simp
  qed
  show ?thesis
    unfolding suite_inv_def suite_groups_snoc [OF assms(3)]
    using new old assms(2) s(8-13) by (auto simp: nth_append less_Suc_eq suite_inv_def s(2) add_to_group_def)
qed

lemma suite_loop_inv:
  "suite_loop (length rs) results st = Inr st' \<Longrightarrow> suite_inv rs st \<Longrightarrow> length rs + length results \<le> 15 \<Longrightarrow>
   suite_inv (rs @ results) st'"
proof (induction results arbitrary: rs st)
  case (Cons r results)
  then obtain st1 where st1: "suite_step (length rs) r st = Inr st1" "suite_loop (length rs + 1) results st1 = Inr st'"
    by (auto simp: bindE_Inr_iff)
  from suite_step_inv [OF st1(1) Cons.prems(2)] Cons.prems(3) have "suite_inv (rs @ [r]) st1" by simp
  from Cons.IH [of "rs @ [r]" st1, OF _ this] st1(2) Cons.prems(3) show ?case by simp
qed simp

lemma new_suite_inv: "suite_inv [] new_suite"
  by (simp add: suite_inv_def new_suite_def suite_groups_def upt_rec)

lemma aggregate_Inr:
  assumes "aggregate_phase3_suite results paths = Inr doc"
  shows "\<exists>st scenarios ids. length results = 15 \<and> suite_inv results st \<and> doc = suite_document ids st scenarios
    \<and> list_all2 (\<lambda>(k, runs) (k', item). k' = k \<and> scenario_aggregate paths runs = Inr item) (suite_groups results) scenarios"
proof -
  obtain st scenarios ids where s: "length results = 15" "suite_loop 0 results new_suite = Inr st"
      "traverse (\<lambda>(k, runs). bindE (scenario_aggregate paths runs) (\<lambda>item. Inr (k, item))) (scenario_groups st) = Inr scenarios"
      "doc = suite_document ids st scenarios"
    using assms unfolding aggregate_phase3_suite_def bindE_Inr_iff guardE_Inr_iff by blast
  have inv: "suite_inv results st" using suite_loop_inv [of "[]" results new_suite st] s(1,2) new_suite_inv by simp
  have "list_all2 (\<lambda>(k, runs) (k', item). k' = k \<and> scenario_aggregate paths runs = Inr item) (suite_groups results) scenarios"
    using s(3) inv unfolding traverse_Inr_iff suite_inv_def by (auto elim!: list_all2_mono simp: bindE_Inr_iff)
  with s inv show ?thesis by blast
qed

lemma run_status_Inr: "run_status r = Inr v \<Longrightarrow> v = entry r ''verdict'' ''automated_status''"
  by (auto simp: run_status_def bindE_Inr_iff mapping_of_Inr entry_def)

lemma statuses_Inr: "traverse run_status rs = Inr vs \<Longrightarrow> vs = map (\<lambda>r. entry r ''verdict'' ''automated_status'') rs"
  by (induction rs arbitrary: vs) (auto simp: bindE_Inr_iff dest: run_status_Inr)

definition passes :: "pydict list \<Rightarrow> int" where
  "passes rs = int (length (filter (\<lambda>r. entry r ''verdict'' ''automated_status'' = PStr ''PASS'') rs))"

lemma passes_append: "passes (xs @ ys) = passes xs + passes ys"
  by (simp add: passes_def)

lemma passes_le: "passes rs \<le> int (length rs)"
  by (simp add: passes_def)

lemma passes_full: "passes rs = int (length rs) \<longleftrightarrow> (\<forall>r \<in> set rs. entry r ''verdict'' ''automated_status'' = PStr ''PASS'')"
  using length_filter_less [of _ rs "\<lambda>r. entry r ''verdict'' ''automated_status'' = PStr ''PASS''"]
  by (fastforce simp: passes_def)

lemma scenario_aggregate_Inr:
  assumes "scenario_aggregate paths runs = Inr item"
  shows "dget item ''numerator'' = PInt (passes runs)" "dget item ''denominator'' = PInt 3"
    "dget item ''verdict'' = PStr ''PASS'' \<longleftrightarrow> passes runs = 3"
proof -
  obtain statuses metrics ids where s: "traverse run_status runs = Inr statuses"
      "item = [(''denominator'', PInt 3), (''metrics'', PDict metrics), (''numerator'', PInt (count_passed statuses)),
          (''run_ids'', PList ids),
          (''run_verdicts'', PList (map (\<lambda>(i, s). PDict [(''run_id'', i), (''status'', s)]) (zip ids statuses))),
          (''success_rate'', PFloat (int_truediv (count_passed statuses) 3)),
          (''verdict'', PStr (if count_passed statuses = 3 then ''PASS'' else ''FAIL''))]"
    using assms unfolding scenario_aggregate_def Let_def bindE_Inr_iff by blast
  have "count_passed statuses = passes runs"
    unfolding statuses_Inr [OF s(1)] by (simp add: count_passed_def passes_def filter_map comp_def)
  then show "dget item ''numerator'' = PInt (passes runs)" "dget item ''denominator'' = PInt 3"
    "dget item ''verdict'' = PStr ''PASS'' \<longleftrightarrow> passes runs = 3" by (simp_all add: s(2))
qed

lemma suite_groups_concat: "length rs = 15 \<Longrightarrow> concat (map snd (suite_groups rs)) = rs"
proof -
  assume "length rs = 15"
  moreover have "take 3 xs @ take 3 (drop 3 xs) @ take 3 (drop 6 xs) @ take 3 (drop 9 xs) @ drop 12 xs = xs"
    for xs :: "pydict list"
    using append_take_drop_id [of 3 xs] append_take_drop_id [of 3 "drop 3 xs"]
      append_take_drop_id [of 3 "drop 6 xs"] append_take_drop_id [of 3 "drop 9 xs"] by simp
  ultimately show ?thesis by (simp add: suite_groups_def upt_rec)
qed

lemma suite_groups_length: "length rs = 15 \<Longrightarrow> (k, runs) \<in> set (suite_groups rs) \<Longrightarrow> length runs = 3"
  by (auto simp: suite_groups_def)

section \<open>The suite theorems\<close>

text \<open>C5: the verdict of an aggregated suite is PASS exactly when all fifteen runs passed, and the entry of every
  scenario counts the passes among its three runs: no failed run is lost on the way to the verdict.\<close>

theorem suite_verdict_sound:
  assumes "aggregate_phase3_suite results paths = Inr doc"
  shows "(entry doc ''verdict'' ''automated_status'' = PStr ''PASS''
            \<longleftrightarrow> length results = 15 \<and> (\<forall>r \<in> set results. entry r ''verdict'' ''automated_status'' = PStr ''PASS''))
    \<and> (\<forall>k < 5. \<exists>item. entry doc ''scenarios'' (show_int (int k + 1)) = PDict item
         \<and> dget item ''numerator'' = PInt (passes (take 3 (drop (3 * k) results)))
         \<and> (dget item ''verdict'' = PStr ''PASS'' \<longleftrightarrow> passes (take 3 (drop (3 * k) results)) = 3))"
proof -
  obtain st scenarios ids where s: "length results = 15" "doc = suite_document ids st scenarios"
      "list_all2 (\<lambda>(k, runs) (k', item). k' = k \<and> scenario_aggregate paths runs = Inr item) (suite_groups results) scenarios"
    using aggregate_Inr [OF assms] by blast
  have all: "list_all (\<lambda>(k, item). dget item ''verdict'' = PStr ''PASS'') scenarios
      \<longleftrightarrow> (\<forall>(k, runs) \<in> set (suite_groups results). passes runs = 3)"
    using s(3) by (induction rule: list_all2_induct) (auto dest: scenario_aggregate_Inr(3))
  also have "\<dots> \<longleftrightarrow> (\<forall>(k, runs) \<in> set (suite_groups results).
      \<forall>r \<in> set runs. entry r ''verdict'' ''automated_status'' = PStr ''PASS'')"
    using suite_groups_length [OF s(1)] by (auto simp flip: passes_full)
  also have "\<dots> \<longleftrightarrow> (\<forall>r \<in> set (concat (map snd (suite_groups results))). entry r ''verdict'' ''automated_status'' = PStr ''PASS'')"
    by auto
  finally have verdict: "entry doc ''verdict'' ''automated_status'' = PStr ''PASS''
      \<longleftrightarrow> (\<forall>r \<in> set results. entry r ''verdict'' ''automated_status'' = PStr ''PASS'')"
    unfolding suite_groups_concat [OF s(1)] by (simp add: s(2) suite_document_def entry_def)
  have keys: "show_int 1 = ''1''" "show_int 2 = ''2''" "show_int 3 = ''3''" "show_int 4 = ''4''" "show_int 5 = ''5''"
    by code_simp+
  have "\<exists>item. entry doc ''scenarios'' (show_int (int k + 1)) = PDict item
      \<and> scenario_aggregate paths (take 3 (drop (3 * k) results)) = Inr item" if "k < 5" for k
  proof -
    have "k \<in> set [0, 1, 2, 3, 4]" using that by auto
    with s(3) show ?thesis
      by (auto simp: suite_groups_def upt_rec list_all2_Cons1 s(2) suite_document_def entry_def keys)
  qed
  with verdict s(1) show ?thesis using scenario_aggregate_Inr by blast
qed

text \<open>C8: the results of an aggregated suite are fifteen clean, cold runs in their scenario and repetition order, of
  one candidate and one commit, with the same global hashes everywhere, the same scenario hashes in each scenario, and
  pairwise different run identifiers, Gazebo partitions and ROS domains.\<close>

theorem suite_identity_uniform:
  assumes "aggregate_phase3_suite results paths = Inr doc"
  shows "(\<forall>i < 15. in_position i (results ! i))
    \<and> (\<exists>c sha. is_git_commit sha \<and> (\<forall>r \<in> set results.
          entry r ''identity'' ''candidate_id'' = PStr c \<and> entry r ''identity'' ''git_sha'' = PStr sha))
    \<and> (\<forall>f \<in> set GLOBAL_HASH_FIELDS. \<exists>h. is_sha256 h \<and> (\<forall>r \<in> set results. entry r ''targets'' f = PStr h))
    \<and> (\<forall>f \<in> set SCENARIO_HASH_FIELDS. \<forall>i < 15. \<forall>j < 15. i div 3 = j div 3 \<longrightarrow>
          entry (results ! i) ''targets'' f = entry (results ! j) ''targets'' f)
    \<and> distinct (map (\<lambda>r. entry r ''identity'' ''run_id'') results)
    \<and> distinct (map (\<lambda>r. entry r ''identity'' ''gz_partition'') results)
    \<and> distinct (map (\<lambda>r. entry r ''identity'' ''ros_domain_id'') results)"
proof -
  obtain st where s: "length results = 15" "suite_inv results st" using aggregate_Inr [OF assms] by blast
  have each: "in_position i (results ! i)" "same_candidate st (results ! i)"
      "shared_hashes (global_hashes st) GLOBAL_HASH_FIELDS (results ! i)" "scenario_bound st i (results ! i)" if "i < 15" for i
    using s that by (simp_all add: suite_inv_def)
  have mem: "same_candidate st r" "shared_hashes (global_hashes st) GLOBAL_HASH_FIELDS r" if "r \<in> set results" for r
    using that each(2,3) s(1) by (metis in_set_conv_nth)+
  have 1: "\<exists>c sha. is_git_commit sha \<and> (\<forall>r \<in> set results.
      entry r ''identity'' ''candidate_id'' = PStr c \<and> entry r ''identity'' ''git_sha'' = PStr sha)"
    using each(2) [of 0] mem(1) unfolding same_candidate_def by fastforce
  have 2: "\<exists>h. is_sha256 h \<and> (\<forall>r \<in> set results. entry r ''targets'' f = PStr h)" if "f \<in> set GLOBAL_HASH_FIELDS" for f
    using each(3) [of 0] mem(2) that unfolding shared_hashes_def list_all_iff by fastforce
  have 3: "entry (results ! i) ''targets'' f = entry (results ! j) ''targets'' f"
    if "f \<in> set SCENARIO_HASH_FIELDS" "i < 15" "j < 15" "i div 3 = j div 3" for f i j
    using each(4) [OF that(2)] each(4) [OF that(3)] that(1,4) unfolding scenario_bound_def shared_hashes_def list_all_iff
    by fastforce
  have 4: "distinct (map PStr xs)" "distinct (map PInt ys)" if "distinct xs" "distinct ys" for xs ys
    using that by (simp_all add: distinct_map inj_on_def)
  have 5: "distinct (map (\<lambda>r. entry r ''identity'' ''run_id'') results)"
    "distinct (map (\<lambda>r. entry r ''identity'' ''gz_partition'') results)"
    "distinct (map (\<lambda>r. entry r ''identity'' ''ros_domain_id'') results)"
    using s(2) 4 unfolding suite_inv_def by metis+
  show ?thesis using each(1) 1 2 3 5 by blast
qed

section \<open>A concrete suite\<close>

definition demo_result :: "nat \<Rightarrow> pydict" where
  "demo_result i =
     [(''identity'', PDict
        [(''suite_index'', PInt (int i)), (''scenario_index'', PInt (int (i div 3 + 1))),
         (''scenario_id'', PInt (int (i div 3 + 1))), (''repetition_index'', PInt (int (i mod 3))),
         (''git_dirty'', PBool False), (''cold_stack'', PBool True), (''candidate_id'', PStr ''rc1''),
         (''git_sha'', PStr (replicate 40 (CHR ''a''))), (''run_id'', PStr (replicate (i + 1) (CHR ''r''))),
         (''gz_partition'', PStr (replicate (i + 1) (CHR ''p''))), (''ros_domain_id'', PInt (int i))]),
      (''targets'', PDict (map (\<lambda>f. (f, PStr (replicate 64 (CHR ''0'')))) (GLOBAL_HASH_FIELDS @ SCENARIO_HASH_FIELDS))),
      (''quality'', PDict []), (''measurements'', PDict [(''value_m'', PNone)]),
      (''verdict'', PDict [(''automated_status'', PStr ''PASS'')])]"

definition demo_suite :: "pydict list" where
  "demo_suite = map demo_result [0..<15]"

abbreviation zero_hash :: string where "zero_hash \<equiv> replicate 64 (CHR ''0'')"

definition demo_inv :: "nat \<Rightarrow> suite_state \<Rightarrow> bool" where
  "demo_inv i st \<longleftrightarrow>
     set (run_ids st) \<subseteq> (\<lambda>j. replicate (j + 1) (CHR ''r'')) ` {..<i}
     \<and> set (gazebo_partitions st) \<subseteq> (\<lambda>j. replicate (j + 1) (CHR ''p'')) ` {..<i}
     \<and> set (ros_domains st) \<subseteq> int ` {..<i}
     \<and> suite_candidate st \<in> {None, Some ''rc1''} \<and> suite_git_sha st \<in> {None, Some (replicate 40 (CHR ''a''))}
     \<and> (\<forall>f h. map_of (global_hashes st) f = Some h \<longrightarrow> h = zero_hash)
     \<and> (\<forall>k hs. map_of (scenario_hashes st) k = Some hs \<longrightarrow> hs = map (\<lambda>f. (f, zero_hash)) SCENARIO_HASH_FIELDS)"

lemma demo_hashes: "is_sha256 zero_hash" "is_git_commit (replicate 40 (CHR ''a''))"
  by (simp_all add: is_sha256_def is_git_commit_def list_all_iff is_lower_hex_def)

lemma demo_targets: "f \<in> set fs \<Longrightarrow> dget (map (\<lambda>f. (f, v)) fs) f = v"
  by (induction fs) auto

lemma demo_global_total:
  "(\<And>f. f \<in> set fs \<Longrightarrow> hash_field targets f = Inr z) \<Longrightarrow> (\<forall>f h. map_of hs f = Some h \<longrightarrow> h = z) \<Longrightarrow>
   \<exists>hs'. check_global_hashes targets fs hs = Inr hs' \<and> (\<forall>f h. map_of hs' f = Some h \<longrightarrow> h = z)"
proof (induction fs arbitrary: hs)
  case (Cons f fs)
  show ?case
  proof (cases "map_of hs f")
    case None
    with Cons.prems(2) have "\<forall>g h. map_of (hs @ [(f, z)]) g = Some h \<longrightarrow> h = z" by (auto simp: map_add_def split: option.splits)
    from Cons.IH [OF _ this] Cons.prems(1) None show ?thesis by simp
  next
    case (Some e)
    with Cons.prems(2) have "e = z" by blast
    with Cons.IH [OF _ Cons.prems(2)] Cons.prems(1) Some show ?thesis by simp
  qed
qed simp

lemma demo_step:
  assumes "demo_inv i st"
  shows "\<exists>st'. suite_step i (demo_result i) st = Inr st' \<and> demo_inv (Suc i) st'"
proof -
  obtain identity targets where it: "dget (demo_result i) ''identity'' = PDict identity"
      "dget (demo_result i) ''targets'' = PDict targets"
      "targets = map (\<lambda>f. (f, PStr zero_hash)) (GLOBAL_HASH_FIELDS @ SCENARIO_HASH_FIELDS)"
      "identity = [(''suite_index'', PInt (int i)), (''scenario_index'', PInt (int (i div 3 + 1))),
         (''scenario_id'', PInt (int (i div 3 + 1))), (''repetition_index'', PInt (int (i mod 3))),
         (''git_dirty'', PBool False), (''cold_stack'', PBool True), (''candidate_id'', PStr ''rc1''),
         (''git_sha'', PStr (replicate 40 (CHR ''a''))), (''run_id'', PStr (replicate (i + 1) (CHR ''r''))),
         (''gz_partition'', PStr (replicate (i + 1) (CHR ''p''))), (''ros_domain_id'', PInt (int i))]"
    by (simp add: demo_result_def)
  have field: "hash_field targets f = Inr zero_hash" if "f \<in> set GLOBAL_HASH_FIELDS \<or> f \<in> set SCENARIO_HASH_FIELDS" for f
    using that demo_targets [of f "GLOBAL_HASH_FIELDS @ SCENARIO_HASH_FIELDS" "PStr zero_hash"]
    by (simp add: hash_field_Inr demo_hashes it(3))
  define st1 where "st1 = st\<lparr>suite_candidate := Some ''rc1'', suite_git_sha := Some (replicate 40 (CHR ''a''))\<rparr>"
  define st2 where "st2 = st1\<lparr>run_ids := run_ids st1 @ [replicate (i + 1) (CHR ''r'')],
      gazebo_partitions := gazebo_partitions st1 @ [replicate (i + 1) (CHR ''p'')], ros_domains := ros_domains st1 @ [int i]\<rparr>"
  have 1: "check_position i identity = Inr ()" by (simp add: check_position_def it(4))
  have 2: "check_candidate identity st = Inr st1"
    using assms by (auto simp: check_candidate_def it(4) agree_def demo_hashes st1_def demo_inv_def)
  have notin: "replicate (i + 1) c \<notin> (\<lambda>j. replicate (j + 1) c) ` {..<i}" for c :: char
    by (auto dest: arg_cong [where f = length])
  have 3: "check_unique identity st1 = Inr st2"
  proof -
    have "replicate (i + 1) (CHR ''r'') \<notin> set (run_ids st1)" "replicate (i + 1) (CHR ''p'') \<notin> set (gazebo_partitions st1)"
      "int i \<notin> set (ros_domains st1)"
    proof -
      have sub: "set (run_ids st1) \<subseteq> (\<lambda>j. replicate (j + 1) (CHR ''r'')) ` {..<i}"
          "set (gazebo_partitions st1) \<subseteq> (\<lambda>j. replicate (j + 1) (CHR ''p'')) ` {..<i}" "set (ros_domains st1) \<subseteq> int ` {..<i}"
        using assms by (simp_all add: demo_inv_def st1_def del: replicate_Suc)
      show "replicate (i + 1) (CHR ''r'') \<notin> set (run_ids st1)" using sub(1) notin by (rule contra_subsetD)
      show "replicate (i + 1) (CHR ''p'') \<notin> set (gazebo_partitions st1)" using sub(2) notin by (rule contra_subsetD)
      show "int i \<notin> set (ros_domains st1)" using sub(3) by (rule contra_subsetD) auto
    qed
    moreover have "replicate (i + 1) c \<noteq> []" for c :: char by simp
    ultimately show ?thesis
      by (simp add: check_unique_def fresh_name_def it(4) st2_def del: replicate.simps add_Suc_right replicate_Suc)
  qed
  obtain hs where 4: "check_global_hashes targets GLOBAL_HASH_FIELDS (global_hashes st2) = Inr hs"
      "\<forall>f h. map_of hs f = Some h \<longrightarrow> h = zero_hash"
    using demo_global_total [of GLOBAL_HASH_FIELDS targets zero_hash "global_hashes st2"] field assms
    by (auto simp: st2_def st1_def demo_inv_def)
  have cur: "traverse (\<lambda>f. bindE (hash_field targets f) (\<lambda>v. Inr (f, v))) SCENARIO_HASH_FIELDS
      = Inr (map (\<lambda>f. (f, zero_hash)) SCENARIO_HASH_FIELDS)"
    by (rule traverse_map_total) (simp add: field)
  obtain sh where 5: "check_scenario_hashes (int (i div 3 + 1)) targets (st2\<lparr>global_hashes := hs\<rparr>)
        = Inr (st2\<lparr>global_hashes := hs, scenario_hashes := sh\<rparr>)"
      "\<forall>k ks. map_of sh k = Some ks \<longrightarrow> ks = map (\<lambda>f. (f, zero_hash)) SCENARIO_HASH_FIELDS"
  proof (cases "map_of (scenario_hashes st2) (int (i div 3 + 1))")
    case None
    with assms show ?thesis
      by (intro that [of "scenario_hashes st2 @ [(int (i div 3 + 1), map (\<lambda>f. (f, zero_hash)) SCENARIO_HASH_FIELDS)]"])
        (auto simp: check_scenario_hashes_def cur st2_def st1_def demo_inv_def map_add_def split: option.splits)
  next
    case (Some e)
    with assms show ?thesis
      by (intro that [of "scenario_hashes st2"]) (auto simp: check_scenario_hashes_def cur st2_def st1_def demo_inv_def)
  qed
  have "suite_step i (demo_result i) st
      = Inr (add_to_group (int (i div 3 + 1)) (demo_result i) (st2\<lparr>global_hashes := hs, scenario_hashes := sh\<rparr>))"
    by (simp only: suite_step_def Let_def it(1,2) mapping_of_def pyval.case bindE_simps 1 2 3 4(1) 5(1))
  moreover have "demo_inv (Suc i) (add_to_group (int (i div 3 + 1)) (demo_result i) (st2\<lparr>global_hashes := hs, scenario_hashes := sh\<rparr>))"
    using assms 4(2) 5(2) by (auto simp: demo_inv_def add_to_group_def st2_def st1_def lessThan_Suc)
  ultimately show ?thesis by blast
qed

lemma demo_loop: "demo_inv i st \<Longrightarrow> \<exists>st'. suite_loop i (map demo_result [i..<i + n]) st = Inr st'"
proof (induction n arbitrary: i st)
  case (Suc n)
  from demo_step [OF Suc.prems] obtain st' where st': "suite_step i (demo_result i) st = Inr st'" "demo_inv (Suc i) st'" by blast
  from Suc.IH [OF this(2)] st'(1) show ?case by (simp add: upt_rec [of i] del: upt_Suc)
qed simp

lemma demo_scenario:
  assumes "set runs \<subseteq> range demo_result"
  shows "\<exists>item. scenario_aggregate [''measurements.value_m''] runs = Inr item"
proof -
  have "traverse run_status runs = Inr (map (\<lambda>r. PStr ''PASS'') runs)"
    using assms by (intro traverse_map_total) (auto simp: run_status_def mapping_of_def demo_result_def)
  moreover have "traverse run_id_of runs = Inr (map (\<lambda>r. entry r ''identity'' ''run_id'') runs)"
    using assms by (intro traverse_map_total) (auto simp: run_id_of_def mapping_of_def demo_result_def entry_def)
  moreover have "traverse (metric_entry_of ''measurements.value_m'') runs
      = Inr (map (\<lambda>r. Missing (entry r ''identity'' ''run_id'') (PStr ''null_without_reason'')) runs)"
    using assms by (intro traverse_map_total)
      (auto simp: metric_entry_of_def mapping_of_def demo_result_def entry_def nested_def)
  moreover have "measured_values (map (\<lambda>r. Missing (f r) x) rs) = []" for f :: "pydict \<Rightarrow> pyval" and x rs
    by (induction rs) simp_all
  ultimately show ?thesis
    by (simp add: scenario_aggregate_def metric_aggregate_def order_summary_def Let_def)
qed

lemma demo_suite_aggregates: "\<exists>doc. aggregate_phase3_suite demo_suite [''measurements.value_m''] = Inr doc"
proof -
  have "demo_inv 0 new_suite" by (simp add: demo_inv_def new_suite_def)
  from demo_loop [OF this, of 15] obtain st where st: "suite_loop 0 demo_suite new_suite = Inr st"
    by (auto simp: demo_suite_def)
  have len: "length demo_suite = 15" by (simp add: demo_suite_def)
  have groups: "scenario_groups st = suite_groups demo_suite"
    using suite_loop_inv [of "[]" demo_suite new_suite st] st new_suite_inv len by (simp add: suite_inv_def)
  have "\<exists>item. scenario_aggregate [''measurements.value_m''] (snd g) = Inr item" if "g \<in> set (scenario_groups st)" for g
    using that unfolding groups
    by (intro demo_scenario) (auto simp: suite_groups_def demo_suite_def dest!: in_set_takeD in_set_dropD)
  then obtain it where it: "scenario_aggregate [''measurements.value_m''] (snd g) = Inr (it g)"
    if "g \<in> set (scenario_groups st)" for g by metis
  have "traverse (\<lambda>(k, runs). bindE (scenario_aggregate [''measurements.value_m''] runs) (\<lambda>item. Inr (k, item)))
      (scenario_groups st) = Inr (map (\<lambda>g. (fst g, it g)) (scenario_groups st))"
    using it by (intro traverse_map_total) (auto simp: split_beta)
  moreover have "traverse run_id_of demo_suite = Inr (map (\<lambda>r. entry r ''identity'' ''run_id'') demo_suite)"
    by (intro traverse_map_total) (auto simp: run_id_of_def mapping_of_def demo_suite_def demo_result_def entry_def)
  moreover have "starts_with ''measurements.'' ''measurements.value_m''" by code_simp
  ultimately show ?thesis by (simp add: aggregate_phase3_suite_def len st)
qed

theorem suite_verdict_sound_witness:
  "\<exists>doc. aggregate_phase3_suite demo_suite [''measurements.value_m''] = Inr doc
     \<and> entry doc ''verdict'' ''automated_status'' = PStr ''PASS''"
proof -
  obtain doc where doc: "aggregate_phase3_suite demo_suite [''measurements.value_m''] = Inr doc"
    using demo_suite_aggregates by blast
  moreover have "length demo_suite = 15" "\<forall>r \<in> set demo_suite. entry r ''verdict'' ''automated_status'' = PStr ''PASS''"
    by (auto simp: demo_suite_def demo_result_def entry_def)
  ultimately show ?thesis using suite_verdict_sound [OF doc] by blast
qed

theorem suite_identity_uniform_witness:
  "\<exists>doc. aggregate_phase3_suite demo_suite [''measurements.value_m''] = Inr doc \<and> in_position 7 (demo_suite ! 7)
     \<and> distinct (map (\<lambda>r. entry r ''identity'' ''run_id'') demo_suite)"
proof -
  obtain doc where doc: "aggregate_phase3_suite demo_suite [''measurements.value_m''] = Inr doc"
    using demo_suite_aggregates by blast
  from suite_identity_uniform [OF doc] have "in_position 7 (demo_suite ! 7)"
    "distinct (map (\<lambda>r. entry r ''identity'' ''run_id'') demo_suite)" by auto
  with doc show ?thesis by blast
qed

end
