(* ===== verification/Run_Analysis.thy ===== *)
theory Run_Analysis
  imports Collector_Core Suite_Aggregation
begin

text \<open>
  The composition of a run result (\<open>robotest_metrics/analysis.py\<close>): the integrity check of a capture, the acceptance
  thresholds, and the verdict of \<open>analyze_run\<close> from the parts it has collected. The first theorem composes the check
  with the collector that writes captures: it accepts every capture and reports integrity exactly when nothing was
  lost. The second says what a run that is reported as PASS has shown.
\<close>

section \<open>Reading a capture\<close>

definition sequence_of :: "pyval \<Rightarrow> string \<Rightarrow> metrics_exn + sample list" where
  "sequence_of v name =
     (let error = MetricUnavailable (name @ '' must be an array of objects'') in
      case v of
        PList vs \<Rightarrow> traverse (\<lambda>item. case item of PDict d \<Rightarrow> Inr d | _ \<Rightarrow> Inl error) vs
      | _ \<Rightarrow> Inl error)"

definition capture_stream :: "pydict \<Rightarrow> string \<Rightarrow> metrics_exn + sample list" where
  "capture_stream capture name =
     bindE (mapping_of (dget capture ''streams'') ''capture.streams'') (\<lambda>streams.
     bindE (mapping_of (dget streams name) (''capture.streams.'' @ name)) (\<lambda>stream.
     sequence_of (dget stream ''items'') (''capture.streams.'' @ name @ ''.items'')))"

definition feedback_event :: "string option \<Rightarrow> sample \<Rightarrow> bool" where
  "feedback_event goal event \<longleftrightarrow> py_eq (dget event ''kind'') (PStr ''waypoint_feedback'')
     \<and> (case goal of None \<Rightarrow> True | Some uuid \<Rightarrow> py_eq (dget event ''subject'') (PStr uuid))"

definition feedback_of :: "pydict \<Rightarrow> string option \<Rightarrow> metrics_exn + sample list" where
  "feedback_of capture goal =
     bindE (capture_stream capture ''state_events'') (\<lambda>events.
     Inr (map (\<lambda>event.
         [(''collector_sequence'', dget event ''collector_sequence''), (''current_waypoint'', dget event ''value''),
          (''previous_waypoint'', dget event ''previous_value''), (''stamp_ns'', dget event ''stamp_ns'')])
       (filter (feedback_event goal) events)))"

section \<open>Capture integrity\<close>

record stream_report =
  sr_name :: string
  sr_overflowed :: bool
  sr_failures :: "string list"
  sr_entry :: pydict

definition expected_capacity :: "string \<Rightarrow> int" where
  "expected_capacity name =
     (if name = ''plans'' then PLAN_MESSAGE_CAPACITY
      else (case map_of BUFFER_CAPACITIES name of Some cap \<Rightarrow> cap | None \<Rightarrow> 0))"

text \<open>One turn of the loop over the streams, all of which are known.\<close>

definition stream_report_of :: "pydict \<Rightarrow> string \<Rightarrow> metrics_exn + stream_report" where
  "stream_report_of streams name =
     bindE (mapping_of (dget streams name) (''capture.streams.'' @ name)) (\<lambda>stream.
     bindE (mapping_of (dget stream ''quality'') (''capture.streams.'' @ name @ ''.quality'')) (\<lambda>quality.
     let overflowed' = (dget quality ''overflowed'' = PBool True) in
     case (case map_of quality ''invalid_count'' of None \<Rightarrow> PInt 0 | Some v \<Rightarrow> v) of
       PInt invalid \<Rightarrow>
         bindE (guardE (py_eq (case map_of quality ''message_capacity'' of None \<Rightarrow> dget quality ''capacity'' | Some v \<Rightarrow> v)
             (PInt (expected_capacity name)))
           (MetricUnavailable (name @ '' retained capacity does not match contract''))) (\<lambda>_.
         case (dget quality ''ingress_count'', dget quality ''retained_count'', dget quality ''overflow_count'') of
           (PInt ingress, PInt retained, PInt overflow) \<Rightarrow>
             bindE (guardE (\<not> (ingress < retained + invalid \<or> retained > expected_capacity name))
               (MetricUnavailable (name @ '' quality counters are inconsistent''))) (\<lambda>_.
             Inr \<lparr>sr_name = name, sr_overflowed = overflowed',
                  sr_failures = (if overflowed' then [name @ '': overflow''] else [])
                    @ (if invalid \<noteq> 0 then [name @ '': '' @ show_int invalid @ '' invalid observations''] else []),
                  sr_entry = [(''ingress_count'', PInt ingress), (''invalid_count'', PInt invalid),
                    (''overflow_count'', PInt overflow), (''overflowed'', PBool overflowed'), (''retained_count'', PInt retained)]\<rparr>)
         | _ \<Rightarrow> Inl (MetricUnavailable (name @ '' quality counters are invalid'')))
     | _ \<Rightarrow> Inl (MetricUnavailable (''capture.streams.'' @ name @ ''.quality.invalid_count is invalid''))))"

definition limits_match :: "pydict \<Rightarrow> bool" where
  "limits_match limits \<longleftrightarrow>
     py_eq (dget limits ''stream_capacities'') (PDict (map (\<lambda>(name, cap). (name, PInt cap)) (sort_key fst BUFFER_CAPACITIES)))
     \<and> py_eq (dget limits ''contact_record_capacity'') (PInt CONTACT_RECORD_CAPACITY)
     \<and> py_eq (dget limits ''plan_message_capacity'') (PInt PLAN_MESSAGE_CAPACITY)
     \<and> py_eq (dget limits ''plan_pose_capacity'') (PInt PLAN_POSE_CAPACITY)
     \<and> py_eq (dget limits ''string_field_max_bytes'') (PInt STRING_FIELD_MAX_BYTES)"

record capture_details =
  cd_clock :: pydict
  cd_failures :: "string list"
  cd_overflowed :: bool
  cd_streams :: "(string \<times> pydict) list"

definition cd_status :: "capture_details \<Rightarrow> string" where
  "cd_status d = (if cd_failures d = [] then ''PASS'' else ''FAIL'')"

text \<open>The failures after the loop, in their order: contact records, the collector's own flag, the stop reason.\<close>

definition collector_failures :: "pydict \<Rightarrow> pydict \<Rightarrow> int \<Rightarrow> string list" where
  "collector_failures capture flags contact_overflow =
     (if contact_overflow \<noteq> 0 then [''contacts: '' @ show_int contact_overflow @ '' nested record overflows''] else [])
     @ (if dget flags ''collector_overflow'' = PBool True then [''capture quality reports collector overflow''] else [])
     @ (if \<not> py_eq (dget capture ''stop_reason'') (PStr ''stop_file'')
        then [''capture stop reason is '' @ py_repr (dget capture ''stop_reason'')] else [])"

definition capture_quality :: "pydict \<Rightarrow> metrics_exn + (bool \<times> capture_details)" where
  "capture_quality capture =
     bindE (mapping_of (dget capture ''streams'') ''capture.streams'') (\<lambda>streams.
     bindE (guardE (set (map fst streams) = insert ''plans'' (set (map fst BUFFER_CAPACITIES)))
       (MetricUnavailable ''capture stream set does not match the frozen collector'')) (\<lambda>_.
     bindE (mapping_of (dget capture ''limits'') ''capture.limits'') (\<lambda>limits.
     bindE (guardE (limits_match limits)
       (MetricUnavailable ''capture limits do not match metrics-contract revision 2'')) (\<lambda>_.
     bindE (traverse (stream_report_of streams) (sort (map fst streams))) (\<lambda>reports.
     bindE (mapping_of (dget capture ''quality'') ''capture.quality'') (\<lambda>quality.
     bindE (require_int (dget quality ''contact_record_count'') ''capture.quality.contact_record_count'') (\<lambda>contact_records.
     bindE (require_int (dget quality ''contact_record_overflow_count'')
       ''capture.quality.contact_record_overflow_count'') (\<lambda>contact_overflow.
     bindE (guardE (\<not> contact_records > CONTACT_RECORD_CAPACITY)
       (MetricUnavailable ''capture retained too many normalized contact records'')) (\<lambda>_.
     bindE (require_int (dget capture ''started_steady_wall_ns'') ''capture.started_steady_wall_ns'') (\<lambda>started.
     bindE (require_int (dget capture ''finished_steady_wall_ns'') ''capture.finished_steady_wall_ns'') (\<lambda>finished.
     bindE (guardE (\<not> finished < started) (MetricUnavailable ''capture steady-wall interval regressed'')) (\<lambda>_.
     bindE (mapping_of (dget capture ''clock'') ''capture.clock'') (\<lambda>clk.
     case (case map_of clk ''regression_count'' of None \<Rightarrow> PInt 0 | Some v \<Rightarrow> v) of
       PInt regressions \<Rightarrow>
         let failures = concat (map sr_failures reports) @ collector_failures capture quality contact_overflow
           @ (if regressions \<noteq> 0 then [''clock: '' @ show_int regressions @ '' regressions''] else []) in
         Inr (failures = [],
           \<lparr>cd_clock = clk, cd_failures = failures,
            cd_overflowed = list_ex sr_overflowed reports \<or> dget quality ''collector_overflow'' = PBool True,
            cd_streams = map (\<lambda>r. (sr_name r, sr_entry r)) reports\<rparr>)
     | _ \<Rightarrow> Inl (MetricUnavailable ''capture.clock.regression_count is invalid''))))))))))))))"

section \<open>Thresholds\<close>

text \<open>\<open>float(v)\<close>\<close>

definition py_float :: "pyval \<Rightarrow> metrics_exn + pyfloat" where
  "py_float v =
     (case v of
        PFloat x \<Rightarrow> Inr x
      | PInt i \<Rightarrow> (case fl (of_int i) of Fin q \<Rightarrow> Inr (Fin q) | _ \<Rightarrow> Inl MetricOverflowError)
      | PBool b \<Rightarrow> Inr (Fin (if b then 1 else 0))
      | PStr s \<Rightarrow> (case float_of_str s of Some x \<Rightarrow> Inr x | None \<Rightarrow> Inl (MetricValueError ''could not convert string to float''))
      | _ \<Rightarrow> Inl MetricTypeError)"

definition lookup_path :: "pydict \<Rightarrow> string \<Rightarrow> pyval" where
  "lookup_path document path = nested_components (PDict document) (split_dots [] path)"

record threshold_check =
  tc_actual :: pyval
  tc_maximum :: pyval
  tc_minimum :: pyval
  tc_passed :: bool
  tc_path :: string

text \<open>One bound: it is converted only when it is given and the value has passed so far.\<close>

definition bound_check :: "bool \<Rightarrow> pyval \<Rightarrow> (pyfloat \<Rightarrow> bool) \<Rightarrow> metrics_exn + bool" where
  "bound_check passed bound holds =
     (if bound = PNone then Inr passed
      else if \<not> passed then Inr False
      else bindE (py_float bound) (\<lambda>x. Inr (holds x)))"

definition threshold_passed :: "pyval \<Rightarrow> pydict \<Rightarrow> metrics_exn + bool" where
  "threshold_passed v rule =
     (if (case v of PInt _ \<Rightarrow> True | PFloat _ \<Rightarrow> True | _ \<Rightarrow> False) then
        bindE (py_float v) (\<lambda>numeric.
        bindE (bound_check (f_isfinite numeric) (dget rule ''minimum'') (\<lambda>m. f_le m numeric)) (\<lambda>passed.
        bound_check passed (dget rule ''maximum'') (\<lambda>m. f_le numeric m)))
      else Inr False)"

definition evaluate_threshold :: "pydict \<Rightarrow> pydict \<Rightarrow> string \<Rightarrow> metrics_exn + threshold_check" where
  "evaluate_threshold result acceptance path =
     bindE (mapping_of (dget acceptance path) (''targets.acceptance.'' @ path)) (\<lambda>rule.
     let v = lookup_path result path in
     bindE (threshold_passed v rule) (\<lambda>passed.
     Inr \<lparr>tc_actual = v, tc_maximum = dget rule ''maximum'', tc_minimum = dget rule ''minimum'', tc_passed = passed, tc_path = path\<rparr>))"

definition evaluate_thresholds :: "pydict \<Rightarrow> pydict \<Rightarrow> metrics_exn + threshold_check list" where
  "evaluate_thresholds result acceptance = traverse (evaluate_threshold result acceptance) (sort (map fst acceptance))"

section \<open>The verdict\<close>

text \<open>What \<open>analyze_run\<close> has collected when it composes the result; a component is present when its gate returned.\<close>

record run_parts =
  rp_events :: "pyval list"
  rp_identity :: pydict
  rp_measurements :: pydict
  rp_quality :: pydict
  rp_targets :: pydict
  rp_unavailable :: "(string \<times> string) list"
  rp_capture_complete :: bool
  rp_mission :: bool
  rp_fault :: bool
  rp_scenario :: bool
  rp_orchestrator :: bool
  rp_component_failures :: "(string \<times> string) list"
  rp_terminal_status :: string
  rp_completed :: "int option"
  rp_waypoints :: "sample list"

definition run_result :: "run_parts \<Rightarrow> pydict" where
  "run_result p =
     [(''events'', PList (rp_events p)), (''identity'', PDict (rp_identity p)), (''measurements'', PDict (rp_measurements p)),
      (''quality'', PDict (rp_quality p)), (''targets'', PDict (rp_targets p)), (''verdict'', PDict [])]"

definition path_text :: "pyval \<Rightarrow> metrics_exn + string" where
  "path_text path =
     (case path of PStr (c # cs) \<Rightarrow> Inr (c # cs)
      | _ \<Rightarrow> Inl (MetricUnavailable ''targets.required_metrics must be a non-empty string array''))"

definition required_paths :: "pyval \<Rightarrow> metrics_exn + string list" where
  "required_paths v =
     (case v of PList (w # ws) \<Rightarrow> traverse path_text (w # ws)
      | _ \<Rightarrow> Inl (MetricUnavailable ''targets.required_metrics must be a non-empty string array''))"

record required_check =
  rc_passed :: bool
  rc_path :: string
  rc_reason :: "string option"

definition check_required :: "run_parts \<Rightarrow> string \<Rightarrow> required_check" where
  "check_required p path =
     \<lparr>rc_passed = (lookup_path (run_result p) path \<noteq> PNone), rc_path = path, rc_reason = map_of (rp_unavailable p) path\<rparr>"

definition mission_check :: "run_parts \<Rightarrow> bool" where
  "mission_check p \<longleftrightarrow> rp_mission p \<and> rp_terminal_status p = ''SUCCEEDED''
     \<and> rp_completed p = Some (int (length (rp_waypoints p)))"

definition collision_allowance :: "pydict \<Rightarrow> metrics_exn + unit" where
  "collision_allowance acceptance =
     bindE (guardE (''measurements.collision_count'' \<in> set (map fst acceptance))
       (MetricUnavailable ''collision allowance is missing from targets.acceptance'')) (\<lambda>_.
     bindE (mapping_of (dget acceptance ''measurements.collision_count'')
       ''targets.acceptance.measurements.collision_count'') (\<lambda>rule.
     guardE (dget rule ''maximum'' \<noteq> PNone) (MetricUnavailable ''collision allowance must define a maximum'')))"

text \<open>\<open>v <= 10.0\<close>\<close>

definition at_most_ten :: "pyval \<Rightarrow> metrics_exn + bool" where
  "at_most_ten v = (case py_num v of Some x \<Rightarrow> Inr (f_le x (Fin 10)) | None \<Rightarrow> Inl MetricTypeError)"

definition scenario_metric_check :: "pyval \<Rightarrow> pydict \<Rightarrow> metrics_exn + bool" where
  "scenario_metric_check scenario_id m =
     (let given = (\<lambda>k. dget m k \<noteq> PNone); is_id = (\<lambda>n. py_eq scenario_id (PInt n)) in
      if is_id 1 \<or> is_id 2 \<or> is_id 3 \<and> given ''scenario3_stop_command'' then Inr True
      else
        bindE (if is_id 4 \<and> given ''lidar_dropout'' \<and> given ''lidar_dropout_command_safety'' \<and> given ''sensor_recovery''
               then at_most_ten (case map_of m ''sensor_recovery_time_sim_s'' of None \<Rightarrow> PFloat PosInf | Some v \<Rightarrow> v)
               else Inr False) (\<lambda>fourth.
        Inr (fourth \<or> is_id 5 \<and> given ''odometry_drift'')))"

definition components_complete :: "run_parts \<Rightarrow> bool" where
  "components_complete p \<longleftrightarrow> rp_mission p \<and> rp_fault p \<and> rp_scenario p \<and> rp_orchestrator p \<and> rp_component_failures p = []"

record run_verdict =
  rv_automated_status :: string
  rv_capture_integrity :: bool
  rv_components_complete :: bool
  rv_exit_code :: int
  rv_mission_success :: bool
  rv_scenario_metric_gate :: bool
  rv_required_metric_checks :: "required_check list"
  rv_threshold_checks :: "threshold_check list"

definition run_verdict_of :: "run_parts \<Rightarrow> metrics_exn + run_verdict" where
  "run_verdict_of p =
     bindE (required_paths (dget (rp_targets p) ''required_metrics'')) (\<lambda>required.
     let required_checks = map (check_required p) required in
     bindE (mapping_of (case map_of (rp_targets p) ''acceptance'' of None \<Rightarrow> PDict [] | Some v \<Rightarrow> v) ''targets.acceptance'') (\<lambda>acceptance.
     bindE (collision_allowance acceptance) (\<lambda>_.
     bindE (evaluate_thresholds (run_result p) acceptance) (\<lambda>threshold_checks.
     bindE (scenario_metric_check (dget (rp_identity p) ''scenario_id'') (rp_measurements p)) (\<lambda>scenario_gate.
     let passed = (rp_capture_complete p \<and> components_complete p \<and> mission_check p \<and> scenario_gate
           \<and> list_all rc_passed required_checks \<and> list_all tc_passed threshold_checks) in
     Inr \<lparr>rv_automated_status = (if passed then ''PASS'' else ''FAIL''), rv_capture_integrity = rp_capture_complete p,
          rv_components_complete = components_complete p, rv_exit_code = (if passed then 0 else 30),
          rv_mission_success = mission_check p, rv_scenario_metric_gate = scenario_gate,
          rv_required_metric_checks = required_checks, rv_threshold_checks = threshold_checks\<rparr>)))))"

section \<open>The captures the collector writes\<close>

text \<open>The document of \<open>collector_node.py\<close>: the snapshot with the fields that the node adds.\<close>

definition stop_reason :: "bool \<Rightarrow> bool \<Rightarrow> string" where
  "stop_reason timed_out interrupted =
     (if timed_out then ''wall_timeout'' else if interrupted then ''runtime_shutdown'' else ''stop_file'')"

definition capture_document :: "collector \<Rightarrow> int \<Rightarrow> int \<Rightarrow> bool \<Rightarrow> bool \<Rightarrow> pydict" where
  "capture_document c started finished timed_out interrupted =
     collector_snapshot c @
       [(''capture_schema_version'', PInt 1), (''finished_steady_wall_ns'', PInt finished),
        (''started_steady_wall_ns'', PInt started), (''stop_reason'', PStr (stop_reason timed_out interrupted))]"

definition lossless :: "collector \<Rightarrow> bool" where
  "lossless c \<longleftrightarrow>
     (\<forall>(name, b) \<in> set (buffers c). overflow_count (quality b) = 0 \<and> invalid_count (quality b) = 0)
     \<and> plan_overflow_count (plans c) = 0 \<and> plan_invalid_count (plans c) = 0
     \<and> contact_record_overflow_count c = 0 \<and> regression_count (clock c) = 0"

lemma dict_set_same_keys: "map_of d k = Some w \<Longrightarrow> map fst (dict_set k v d) = map fst d"
  by (induction k v d rule: dict_set.induct) (auto split: if_splits)

lemma append_numbered_buffers:
  "map_of (buffers c) stream = Some b \<Longrightarrow> map fst (buffers (snd (append_numbered stream b' item n c))) = map fst (buffers c)"
  by (auto simp: append_numbered_def Let_def set_buffer_def dict_set_same_keys split: prod.splits)

lemma record_item_keys: "map fst (buffers (snd (record_item stream item c))) = map fst (buffers c)"
proof (cases "map_of (buffers c) stream")
  case (Some b)
  then have s: "map_of (buffers (next_sequence c)) stream = Some b" by (simp add: next_sequence_def)
  have k: "map fst (buffers (set_buffer stream b' (next_sequence c))) = map fst (buffers c)" for b'
    using dict_set_same_keys [OF s] by (simp add: set_buffer_def next_sequence_def)
  have a: "map fst (buffers (snd (append_numbered stream b item n (next_sequence c)))) = map fst (buffers c)" for n
    using append_numbered_buffers [OF s] by (simp add: next_sequence_def)
  show ?thesis
  proof (cases "stream = ''contacts''")
    case True
    from Some k a show ?thesis
      unfolding True by (simp add: record_item_def Let_def case_prod_beta split: sum.split pyval.split)
  next
    case False
    with Some k a show ?thesis by (simp add: record_item_def Let_def case_prod_beta split: sum.split)
  qed
qed (simp add: record_item_def)

lemma record_state_keys: "map fst (buffers (snd (record_state_transition kind subject val stamp details c))) = map fst (buffers c)"
proof (cases "map_of (buffers c) ''state_events''")
  case (Some b)
  have k: "map fst (buffers (set_buffer ''state_events'' b' (next_sequence c))) = map fst (buffers c)" for b'
    using dict_set_same_keys [OF Some] by (simp add: set_buffer_def next_sequence_def)
  have r: "map fst (buffers (snd (case p of (Inr True, c') \<Rightarrow> (Inr True, c'\<lparr>last_state := f c'\<rparr>) | r \<Rightarrow> r)))
      = map fst (buffers (snd p))" for p :: "(collector_exn + bool) \<times> collector" and f
    by (auto split: prod.split sum.split bool.split)
  show ?thesis by (simp only: record_state_transition_def Let_def Some option.case k r record_item_keys snd_conv split: if_split) simp
qed (simp add: record_state_transition_def Let_def)

lemma collector_step_keys: "map fst (buffers (collector_step op c)) = map fst (buffers c)"
proof (cases op)
  case (RecordPlan item)
  then show ?thesis
    by (simp add: record_plan_def next_sequence_def Let_def case_prod_beta split: sum.split pyval.split)
qed (simp_all add: record_item_keys record_state_keys collector_observe_clock_def next_sequence_def Let_def split: sum.split)

lemma collector_run_keys: "map fst (buffers (fold collector_step ops c)) = map fst (buffers c)"
  by (induction ops arbitrary: c) (simp_all add: collector_step_keys)


section \<open>Integrity means that nothing was lost\<close>

definition stream_value :: "pydict list \<times> pydict \<Rightarrow> pyval" where
  "stream_value snap = PDict [(''items'', PList (map PDict (fst snap))), (''quality'', PDict (snd snap))]"

definition stream_values :: "collector \<Rightarrow> pydict" where
  "stream_values c = map (\<lambda>(name, b). (name, stream_value (buffer_snapshot b))) (sort_key fst (buffers c))
     @ [(''plans'', stream_value (plan_snapshot (plans c)))]"

lemma capture_document_fields:
  "dget (capture_document c started finished timed_out interrupted) ''streams'' = PDict (stream_values c)"
  "dget (capture_document c started finished timed_out interrupted) ''clock'' = PDict (clock_as_dict (clock c))"
  "dget (capture_document c started finished timed_out interrupted) ''started_steady_wall_ns'' = PInt started"
  "dget (capture_document c started finished timed_out interrupted) ''finished_steady_wall_ns'' = PInt finished"
  "dget (capture_document c started finished timed_out interrupted) ''stop_reason'' = PStr (stop_reason timed_out interrupted)"
  by (simp_all add: capture_document_def collector_snapshot_def stream_values_def stream_value_def Let_def case_prod_beta)

lemma stream_report_buffer:
  assumes "buffer_wf b" "map_of BUFFER_CAPACITIES name = Some (capacity b)" "name \<noteq> ''plans''"
    "dget streams name = stream_value (buffer_snapshot b)"
  shows "\<exists>r. stream_report_of streams name = Inr r
    \<and> (sr_failures r = [] \<longleftrightarrow> overflow_count (quality b) = 0 \<and> invalid_count (quality b) = 0)"
proof -
  have "mapping_of (dget streams name) label = Inr [(''items'', PList (map PDict (items b))), (''quality'', PDict (quality_as_dict (quality b)))]"
    for label by (simp add: mapping_of_def assms(4) stream_value_def buffer_snapshot_def)
  then show ?thesis
    using assms(1-3)
    by (auto simp: stream_report_of_def mapping_of_def quality_as_dict_def expected_capacity_def buffer_wf_def overflowed_def Let_def)
qed

lemma stream_report_plans:
  assumes "plan_wf ps" "message_capacity ps = PLAN_MESSAGE_CAPACITY" "dget streams ''plans'' = stream_value (plan_snapshot ps)"
  shows "\<exists>r. stream_report_of streams ''plans'' = Inr r
    \<and> (sr_failures r = [] \<longleftrightarrow> plan_overflow_count ps = 0 \<and> plan_invalid_count ps = 0)"
  using assms
  by (auto simp: stream_report_of_def mapping_of_def stream_value_def plan_snapshot_def expected_capacity_def plan_wf_def Let_def)

lemma map_of_sort_key: "distinct (map fst xs) \<Longrightarrow> map_of (sort_key f xs) = map_of xs"
  by (intro iffD2 [OF map_of_inject_set]) (auto simp: distinct_map inj_on_def)

text \<open>The streams of a snapshot of a collector that keeps its invariant are all accepted.\<close>

lemma stream_reports:
  assumes "collector_inv c" "map fst (buffers c) = map fst BUFFER_CAPACITIES"
  shows "\<exists>rs. traverse (stream_report_of (stream_values c)) (sort (map fst (stream_values c))) = Inr rs
    \<and> (concat (map sr_failures rs) = [] \<longleftrightarrow>
       (\<forall>(name, b) \<in> set (buffers c). overflow_count (quality b) = 0 \<and> invalid_count (quality b) = 0)
       \<and> plan_overflow_count (plans c) = 0 \<and> plan_invalid_count (plans c) = 0)"
proof -
  have caps: "distinct (map fst BUFFER_CAPACITIES)" "''plans'' \<notin> set (map fst BUFFER_CAPACITIES)"
    by (simp_all add: BUFFER_CAPACITIES_def)
  let ?f = "stream_report_of (stream_values c)"
  let ?ok = "\<lambda>name. if name = ''plans'' then plan_overflow_count (plans c) = 0 \<and> plan_invalid_count (plans c) = 0
    else (\<forall>b. map_of (buffers c) name = Some b \<longrightarrow> overflow_count (quality b) = 0 \<and> invalid_count (quality b) = 0)"
  have names: "set (map fst (stream_values c)) = insert ''plans'' (set (map fst (buffers c)))"
    by (auto simp: stream_values_def image_image case_prod_beta)
  have get: "dget (stream_values c) name = (case map_of (buffers c) name of Some b \<Rightarrow> stream_value (buffer_snapshot b)
      | None \<Rightarrow> if name = ''plans'' then stream_value (plan_snapshot (plans c)) else PNone)" for name
    using assms(2) caps map_of_sort_key [of "buffers c" fst]
    by (auto simp: dget_def stream_values_def map_of_map_value map_add_def split: option.splits)
  have keys: "distinct (map fst (buffers c))" "''plans'' \<notin> fst ` set (buffers c)"
    using caps unfolding assms(2) [symmetric] by simp_all
  then have plans: "map_of (buffers c) ''plans'' = None" by (simp add: map_of_eq_None_iff)
  have "\<exists>r. ?f name = Inr r \<and> (sr_failures r = [] \<longleftrightarrow> ?ok name)" if "name \<in> set (map fst (stream_values c))" for name
  proof (cases "name = ''plans''")
    case True
    then show ?thesis using stream_report_plans [of "plans c"] assms(1) get plans by (simp add: collector_inv_def)
  next
    case False
    with that names obtain b where b: "map_of (buffers c) name = Some b" by (auto simp: map_of_eq_None_iff dest: weak_map_of_SomeI)
    then have "stream_inv (collector_sequence c) name b" using assms(1) by (simp add: collector_inv_def)
    then show ?thesis using stream_report_buffer [of b name "stream_values c"] False b get by (simp add: stream_inv_def)
  qed
  then obtain g where g: "\<And>name. name \<in> set (map fst (stream_values c)) \<Longrightarrow> ?f name = Inr (g name) \<and> (sr_failures (g name) = [] \<longleftrightarrow> ?ok name)"
    by metis
  have "traverse ?f (sort (map fst (stream_values c))) = Inr (map g (sort (map fst (stream_values c))))"
    by (rule traverse_map_total) (use g in auto)
  moreover have "concat (map sr_failures (map g (sort (map fst (stream_values c))))) = [] \<longleftrightarrow> (\<forall>name \<in> set (map fst (stream_values c)). ?ok name)"
    using g by auto
  moreover have "(\<forall>name \<in> set (map fst (stream_values c)). ?ok name) \<longleftrightarrow>
      (\<forall>(name, b) \<in> set (buffers c). overflow_count (quality b) = 0 \<and> invalid_count (quality b) = 0)
       \<and> plan_overflow_count (plans c) = 0 \<and> plan_invalid_count (plans c) = 0"
    unfolding names using keys plans by (auto simp: map_of_eq_Some_iff [OF keys(1)])
  ultimately show ?thesis by blast
qed

lemma limits_of_snapshot: "\<exists>limits. dget (capture_document c started finished timed_out interrupted) ''limits'' = PDict limits \<and> limits_match limits"
proof -
  have "py_eq (PDict d) (PDict d)" if "distinct (map fst d)" "list_all (\<lambda>(k, v). py_eq v v) d" for d
    using that by (auto simp: list_all_iff map_of_is_SomeI)
  moreover have "list_all (\<lambda>(k, v). py_eq v v) (map (\<lambda>(name, cap). (name, PInt cap)) (sort_key fst BUFFER_CAPACITIES))"
    by (auto simp: list_all_iff)
  moreover have "distinct (map fst (map (\<lambda>(name, cap). (name, PInt cap)) (sort_key fst BUFFER_CAPACITIES)))"
    by (simp add: BUFFER_CAPACITIES_def comp_def case_prod_beta distinct_map)
  ultimately show ?thesis
    by (simp add: capture_document_def collector_snapshot_def limits_match_def Let_def del: py_eq.simps)
qed

text \<open>C7. The integrity check fits the collector. For every order of callbacks, the check accepts the capture that is
  written when the collector stops, and reports integrity exactly when the capture was stopped on request and nothing
  was lost: no stream overflowed, no observation was invalid, no contact record was dropped and the clock never
  went back.\<close>

theorem capture_integrity_lossless:
  assumes "new_collector = Inr c0" "c = fold collector_step ops c0" "started \<le> finished"
  shows "\<exists>d. capture_quality (capture_document c started finished timed_out interrupted)
      = Inr (lossless c \<and> \<not> timed_out \<and> \<not> interrupted, d)
    \<and> (cd_status d = ''PASS'' \<longleftrightarrow> lossless c \<and> \<not> timed_out \<and> \<not> interrupted)"
proof -
  have inv: "collector_inv c" unfolding assms(2) by (rule collector_run_inv [OF new_collector_inv [OF assms(1)]])
  have "map fst (buffers c0) = map fst BUFFER_CAPACITIES"
    using assms(1) unfolding new_collector_eq by (auto simp: comp_def case_prod_beta)
  then have keys: "map fst (buffers c) = map fst BUFFER_CAPACITIES" unfolding assms(2) collector_run_keys .
  obtain rs where rs: "traverse (stream_report_of (stream_values c)) (sort (map fst (stream_values c))) = Inr rs"
      "concat (map sr_failures rs) = [] \<longleftrightarrow>
       (\<forall>(name, b) \<in> set (buffers c). overflow_count (quality b) = 0 \<and> invalid_count (quality b) = 0)
       \<and> plan_overflow_count (plans c) = 0 \<and> plan_invalid_count (plans c) = 0"
    using stream_reports [OF inv keys] by blast
  let ?doc = "capture_document c started finished timed_out interrupted"
  let ?flag = "list_ex (\<lambda>(name, b). overflowed (quality b)) (buffers c) \<or> plan_overflow_count (plans c) > 0"
  obtain limits where limits: "dget ?doc ''limits'' = PDict limits" "limits_match limits" using limits_of_snapshot by blast
  obtain flags where flags: "dget ?doc ''quality'' = PDict flags" "dget flags ''collector_overflow'' = PBool ?flag"
      "dget flags ''contact_record_count'' = PInt (contact_record_count c)"
      "dget flags ''contact_record_overflow_count'' = PInt (contact_record_overflow_count c)"
    by (simp add: capture_document_def collector_snapshot_def Let_def)
  have names: "set (map fst (stream_values c)) = insert ''plans'' (set (map fst BUFFER_CAPACITIES))"
    using keys [symmetric] by (simp add: stream_values_def image_image case_prod_beta)
  have clk: "map_of (clock_as_dict (clock c)) ''regression_count'' = Some (PInt (regression_count (clock c)))"
    by (simp add: clock_as_dict_def)
  define failures where "failures = concat (map sr_failures rs)
    @ collector_failures ?doc flags (contact_record_overflow_count c)
    @ (if regression_count (clock c) \<noteq> 0 then [''clock: '' @ show_int (regression_count (clock c)) @ '' regressions''] else [])"
  have "\<not> ?flag" if "concat (map sr_failures rs) = []"
    using that rs(2) by (auto simp: list_ex_iff overflowed_def)
  then have "failures = [] \<longleftrightarrow> lossless c \<and> \<not> timed_out \<and> \<not> interrupted"
    unfolding failures_def append_is_Nil_conv rs(2) lossless_def collector_failures_def flags(2) capture_document_fields(5)
    by (auto simp: stop_reason_def)
  moreover have "\<exists>d. capture_quality ?doc = Inr (failures = [], d) \<and> cd_failures d = failures"
    using assms(3) inv limits(2) names
    by (simp add: capture_quality_def capture_document_fields mapping_of_def limits(1) rs(1) flags clk collector_inv_def
        failures_def Let_def)
  ultimately show ?thesis by (auto simp: cd_status_def)
qed

theorem capture_integrity_lossless_witness:
  "\<exists>c d. new_collector = Inr c \<and> capture_quality (capture_document c 1 2 False False) = Inr (True, d) \<and> cd_status d = ''PASS''"
proof -
  obtain c where c: "new_collector = Inr c" using new_collector_eq by blast
  then have "lossless c" unfolding new_collector_eq by (auto simp: lossless_def new_quality_def new_clock_def)
  then show ?thesis using capture_integrity_lossless [OF c, of c "[]" 1 2 False False] c by auto
qed

section \<open>What PASS means\<close>

definition within_bounds :: "pyval \<Rightarrow> pydict \<Rightarrow> bool" where
  "within_bounds v rule \<longleftrightarrow> (\<exists>x. py_float v = Inr x \<and> f_isfinite x
     \<and> (dget rule ''minimum'' \<noteq> PNone \<longrightarrow> (\<exists>m. py_float (dget rule ''minimum'') = Inr m \<and> f_le m x))
     \<and> (dget rule ''maximum'' \<noteq> PNone \<longrightarrow> (\<exists>m. py_float (dget rule ''maximum'') = Inr m \<and> f_le x m)))"

lemma threshold_passed_bounds: "threshold_passed v rule = Inr True \<Longrightarrow> within_bounds v rule"
  by (auto simp: threshold_passed_def bound_check_def within_bounds_def bindE_Inr_iff split: if_splits)

lemma scenario_gate_evidence:
  assumes "scenario_metric_check (PInt n) m = Inr True"
  shows "n = 3 \<longrightarrow> dget m ''scenario3_stop_command'' \<noteq> PNone"
    "n = 4 \<longrightarrow> dget m ''lidar_dropout'' \<noteq> PNone \<and> dget m ''lidar_dropout_command_safety'' \<noteq> PNone \<and> dget m ''sensor_recovery'' \<noteq> PNone
       \<and> (\<exists>x. py_num (dget m ''sensor_recovery_time_sim_s'') = Some x \<and> f_le x (Fin 10))"
    "n = 5 \<longrightarrow> dget m ''odometry_drift'' \<noteq> PNone"
  using assms
  by (auto simp: scenario_metric_check_def at_most_ten_def bindE_Inr_iff dget_def f_le_def Let_def split: if_splits option.splits)

lemma lookup_measurement:
  "lookup_path (run_result p) ''measurements.collision_count'' = dget (rp_measurements p) ''collision_count''"
  by (simp add: lookup_path_def run_result_def dget_def split: option.split)

lemma evaluate_threshold_Inr:
  assumes "evaluate_threshold result acceptance path = Inr t" "tc_passed t"
  shows "\<exists>r. dget acceptance path = PDict r \<and> within_bounds (lookup_path result path) r"
  using assms threshold_passed_bounds by (fastforce simp: evaluate_threshold_def bindE_Inr_iff mapping_of_Inr Let_def)

lemma evaluate_thresholds_Inr:
  assumes "evaluate_thresholds result acceptance = Inr ts" "list_all tc_passed ts" "path \<in> fst ` set acceptance"
  shows "\<exists>r. dget acceptance path = PDict r \<and> within_bounds (lookup_path result path) r"
proof -
  have "list_all2 (\<lambda>path t. evaluate_threshold result acceptance path = Inr t) (sort (map fst acceptance)) ts"
    using assms(1) by (simp add: evaluate_thresholds_def traverse_Inr_iff)
  moreover have "path \<in> set (sort (map fst acceptance))" using assms(3) by simp
  ultimately obtain i where i: "i < length ts" "evaluate_threshold result acceptance path = Inr (ts ! i)"
    by (auto simp only: list_all2_conv_all_nth in_set_conv_nth)
  then have "ts ! i \<in> set ts" by simp
  with i(2) assms(2) evaluate_threshold_Inr show ?thesis by (auto simp: list_all_iff)
qed

lemma path_text_Inr: "path_text w = Inr q \<Longrightarrow> w = PStr q"
  by (auto simp: path_text_def split: pyval.splits list.splits)

lemma path_texts: "traverse path_text ws = Inr ps \<Longrightarrow> ws = map PStr ps"
  by (induction ws arbitrary: ps) (auto simp: bindE_Inr_iff dest: path_text_Inr)

lemma required_paths_Inr:
  assumes "required_paths v = Inr ps"
  shows "v = PList (map PStr ps) \<and> ps \<noteq> []"
proof -
  obtain w ws where v: "v = PList (w # ws)"
    using assms by (auto simp: required_paths_def split: pyval.splits list.splits)
  then have "traverse path_text (w # ws) = Inr ps" using assms by (simp only: required_paths_def pyval.case list.case)
  from path_texts [OF this] v show ?thesis by auto
qed

text \<open>C11. What a run that is reported as PASS has shown: the capture lost nothing, all four components were
  validated, the mission succeeded with every waypoint, the collision count is a finite number within the allowance of the
  targets, every acceptance rule holds, every required metric has a value, and the evidence of the scenario's own gate is
  there; the recovery after a dropout took at most ten seconds. The exit code is 0 exactly for PASS.\<close>

theorem run_pass_sound:
  assumes "run_verdict_of p = Inr v" "rv_automated_status v = ''PASS''" "dget (rp_identity p) ''scenario_id'' = PInt n"
  shows "rv_exit_code v = 0 \<and> rp_capture_complete p \<and> components_complete p
    \<and> rp_terminal_status p = ''SUCCEEDED'' \<and> rp_completed p = Some (int (length (rp_waypoints p)))
    \<and> (\<exists>acceptance rule. dget (rp_targets p) ''acceptance'' = PDict acceptance
        \<and> dget acceptance ''measurements.collision_count'' = PDict rule \<and> dget rule ''maximum'' \<noteq> PNone
        \<and> (\<forall>path \<in> fst ` set acceptance. \<exists>r. dget acceptance path = PDict r \<and> within_bounds (lookup_path (run_result p) path) r)
        \<and> within_bounds (dget (rp_measurements p) ''collision_count'') rule)
    \<and> (\<exists>required. dget (rp_targets p) ''required_metrics'' = PList required \<and> required \<noteq> []
        \<and> (\<forall>w \<in> set required. \<exists>path. w = PStr path \<and> lookup_path (run_result p) path \<noteq> PNone))
    \<and> (n = 3 \<longrightarrow> dget (rp_measurements p) ''scenario3_stop_command'' \<noteq> PNone)
    \<and> (n = 4 \<longrightarrow> dget (rp_measurements p) ''lidar_dropout'' \<noteq> PNone
        \<and> dget (rp_measurements p) ''lidar_dropout_command_safety'' \<noteq> PNone \<and> dget (rp_measurements p) ''sensor_recovery'' \<noteq> PNone
        \<and> (\<exists>x. py_num (dget (rp_measurements p) ''sensor_recovery_time_sim_s'') = Some x \<and> f_le x (Fin 10)))
    \<and> (n = 5 \<longrightarrow> dget (rp_measurements p) ''odometry_drift'' \<noteq> PNone)"
proof -
  obtain required acceptance ts gate where s:
      "required_paths (dget (rp_targets p) ''required_metrics'') = Inr required"
      "mapping_of (case map_of (rp_targets p) ''acceptance'' of None \<Rightarrow> PDict [] | Some v \<Rightarrow> v) ''targets.acceptance'' = Inr acceptance"
      "collision_allowance acceptance = Inr ()" "evaluate_thresholds (run_result p) acceptance = Inr ts"
      "scenario_metric_check (PInt n) (rp_measurements p) = Inr gate"
      "rv_automated_status v = (if rp_capture_complete p \<and> components_complete p \<and> mission_check p \<and> gate
         \<and> list_all rc_passed (map (check_required p) required) \<and> list_all tc_passed ts then ''PASS'' else ''FAIL'')"
      "rv_exit_code v = (if rp_capture_complete p \<and> components_complete p \<and> mission_check p \<and> gate
         \<and> list_all rc_passed (map (check_required p) required) \<and> list_all tc_passed ts then 0 else 30)"
    using assms(1) unfolding run_verdict_of_def assms(3) Let_def bindE_Inr_iff by auto
  have ok: "rp_capture_complete p" "components_complete p" "mission_check p" "gate"
      "list_all rc_passed (map (check_required p) required)" "list_all tc_passed ts"
    using s(6) assms(2) by (simp_all split: if_splits)
  obtain rule where rule: "''measurements.collision_count'' \<in> fst ` set acceptance"
      "dget acceptance ''measurements.collision_count'' = PDict rule" "dget rule ''maximum'' \<noteq> PNone"
    using s(3) unfolding collision_allowance_def bindE_Inr_iff guardE_Inr_iff mapping_of_Inr by auto
  have a: "dget (rp_targets p) ''acceptance'' = PDict acceptance"
    using s(2) rule(1) by (auto simp: mapping_of_Inr dget_def split: option.splits)
  have th: "\<exists>r. dget acceptance path = PDict r \<and> within_bounds (lookup_path (run_result p) path) r"
    if "path \<in> fst ` set acceptance" for path
    by (rule evaluate_thresholds_Inr [OF s(4) ok(6) that])
  have w: "within_bounds (dget (rp_measurements p) ''collision_count'') rule"
    using th [OF rule(1)] unfolding rule(2) lookup_measurement by simp
  have q: "dget (rp_targets p) ''required_metrics'' = PList (map PStr required)" "map PStr required \<noteq> []"
      "\<forall>w \<in> set (map PStr required). \<exists>path. w = PStr path \<and> lookup_path (run_result p) path \<noteq> PNone"
    using required_paths_Inr [OF s(1)] ok(5) by (auto simp: list_all_iff check_required_def)
  have m: "rp_terminal_status p = ''SUCCEEDED''" "rp_completed p = Some (int (length (rp_waypoints p)))"
    using ok(3) by (simp_all add: mission_check_def)
  have "rv_exit_code v = 0" "scenario_metric_check (PInt n) (rp_measurements p) = Inr True" using s(5,7) ok by simp_all
  note g = this(1) scenario_gate_evidence [OF this(2)]
  have "\<exists>acceptance rule. dget (rp_targets p) ''acceptance'' = PDict acceptance
        \<and> dget acceptance ''measurements.collision_count'' = PDict rule \<and> dget rule ''maximum'' \<noteq> PNone
        \<and> (\<forall>path \<in> fst ` set acceptance. \<exists>r. dget acceptance path = PDict r \<and> within_bounds (lookup_path (run_result p) path) r)
        \<and> within_bounds (dget (rp_measurements p) ''collision_count'') rule"
    by (rule exI [of _ acceptance], rule exI [of _ rule]) (intro conjI a rule(2,3) w ballI th)
  moreover have "\<exists>required. dget (rp_targets p) ''required_metrics'' = PList required \<and> required \<noteq> []
        \<and> (\<forall>w \<in> set required. \<exists>path. w = PStr path \<and> lookup_path (run_result p) path \<noteq> PNone)"
    by (rule exI [of _ "map PStr required"]) (intro conjI q)
  ultimately show ?thesis by (intro conjI g ok(1,2) m)
qed

definition passing_parts :: run_parts where
  "passing_parts =
     \<lparr>rp_events = [], rp_identity = [(''scenario_id'', PInt 1)], rp_measurements = [(''collision_count'', PInt 0)], rp_quality = [],
      rp_targets = [(''required_metrics'', PList [PStr ''measurements.collision_count'']),
        (''acceptance'', PDict [(''measurements.collision_count'', PDict [(''maximum'', PInt 0)])])],
      rp_unavailable = [], rp_capture_complete = True, rp_mission = True, rp_fault = True, rp_scenario = True,
      rp_orchestrator = True, rp_component_failures = [], rp_terminal_status = ''SUCCEEDED'', rp_completed = Some 0,
      rp_waypoints = []\<rparr>"

theorem run_pass_sound_witness:
  "\<exists>v. run_verdict_of passing_parts = Inr v \<and> rv_automated_status v = ''PASS'' \<and> rv_exit_code v = 0"
proof -
  have n: "lookup_path (run_result passing_parts) ''measurements.collision_count'' = PInt 0"
    unfolding lookup_measurement by (simp add: passing_parts_def)
  have "required_paths (dget (rp_targets passing_parts) ''required_metrics'') = Inr [''measurements.collision_count'']"
    by (simp add: passing_parts_def required_paths_def path_text_def)
  moreover have "evaluate_threshold (run_result passing_parts) [(''measurements.collision_count'', PDict [(''maximum'', PInt 0)])]
      ''measurements.collision_count'' = Inr \<lparr>tc_actual = PInt 0, tc_maximum = PInt 0, tc_minimum = PNone, tc_passed = True,
        tc_path = ''measurements.collision_count''\<rparr>"
    by (simp add: evaluate_threshold_def n mapping_of_def threshold_passed_def bound_check_def py_float_def f_le_def)
  ultimately obtain v where v: "run_verdict_of passing_parts = Inr v" "rv_automated_status v = ''PASS''"
    using n
    by (simp add: run_verdict_of_def passing_parts_def mapping_of_def collision_allowance_def evaluate_thresholds_def
        scenario_metric_check_def components_complete_def mission_check_def check_required_def)
  have "dget (rp_identity passing_parts) ''scenario_id'' = PInt 1" by (simp add: passing_parts_def)
  from run_pass_sound [OF v this] v show ?thesis by blast
qed

end
