(* ===== verification/Localization_Metrics.thy ===== *)
theory Localization_Metrics
  imports Path_Metrics Metrics_Statistics
begin

text \<open>
  The localization error on the ground-truth grid (\<open>robotest_metrics/localization_metrics.py\<close>): every ground-truth
  sample of the mission is compared with the transform \<open>map\<close> to \<open>base\<close> that is composed from two interpolated
  transforms. The functions of \<open>math\<close> are parameters. The theorem says which samples an accepted series rests on.
\<close>

section \<open>Definitions\<close>

definition LOCALIZATION_MINIMUM_COVERAGE :: pyfloat where
  "LOCALIZATION_MINIMUM_COVERAGE = fl (95 / 100)"

record math_functions =
  math_sin :: "pyfloat \<Rightarrow> pyfloat"
  math_cos :: "pyfloat \<Rightarrow> pyfloat"
  math_hypot :: "pyfloat \<Rightarrow> pyfloat \<Rightarrow> pyfloat"
  math_sqrt :: "pyfloat \<Rightarrow> pyfloat"
  math_square :: "pyfloat \<Rightarrow> pyfloat"

record truth_pose =
  truth_x :: pyfloat
  truth_y :: pyfloat
  truth_yaw :: pyfloat

definition truth_pose_of :: "sample \<Rightarrow> nat \<Rightarrow> metrics_exn + truth_pose" where
  "truth_pose_of s index =
     bindE (require_finite (dget s ''x_m'') (at_index ''ground_truth'' index ''x_m'')) (\<lambda>x.
     bindE (require_finite (dget s ''y_m'') (at_index ''ground_truth'' index ''y_m'')) (\<lambda>y.
     bindE (require_finite (dget s ''yaw_rad'') (at_index ''ground_truth'' index ''yaw_rad'')) (\<lambda>yaw.
     Inr \<lparr>truth_x = x, truth_y = y, truth_yaw = yaw\<rparr>)))"

text \<open>The check that \<open>world_to_map\<close>, when it is given and not empty, is the identity.\<close>

fun identity_fields :: "sample \<Rightarrow> string list \<Rightarrow> metrics_exn + unit" where
  "identity_fields alignment [] = Inr ()"
| "identity_fields alignment (f # fs) =
     bindE (require_finite (dget alignment f) (''world_to_map.'' @ f)) (\<lambda>v.
     bindE (guardE (f_eq v (Fin 0)) (MetricUnavailable ''world_to_map alignment must be identity'')) (\<lambda>_.
     identity_fields alignment fs))"

definition identity_alignment :: sample where
  "identity_alignment = [(''x_m'', PFloat (Fin 0)), (''y_m'', PFloat (Fin 0)), (''yaw_rad'', PFloat (Fin 0))]"

definition check_alignment :: "sample option \<Rightarrow> metrics_exn + unit" where
  "check_alignment world_to_map =
     identity_fields (case world_to_map of Some (kv # a) \<Rightarrow> kv # a | _ \<Rightarrow> identity_alignment) [''x_m'', ''y_m'', ''yaw_rad'']"

fun eligible_loop :: "int \<Rightarrow> int \<Rightarrow> nat \<Rightarrow> int option \<Rightarrow> sample list \<Rightarrow> metrics_exn + (int \<times> sample \<times> nat) list" where
  "eligible_loop start terminal index prev [] = Inr []"
| "eligible_loop start terminal index prev (s # ss) =
     bindE (require_int (dget s ''stamp_ns'') (at_index ''ground_truth'' index ''stamp_ns'')) (\<lambda>stamp.
     bindE (guardE (case prev of None \<Rightarrow> True | Some p \<Rightarrow> \<not> stamp \<le> p)
       (MetricUnavailable ''ground-truth stamps must be unique and increasing'')) (\<lambda>_.
     bindE (eligible_loop start terminal (index + 1) (Some stamp) ss) (\<lambda>rest.
     Inr (if start \<le> stamp \<and> stamp \<le> terminal then (stamp, s, index) # rest else rest))))"

record bracket =
  after_stamp_ns :: int
  before_stamp_ns :: int
  gap_ns :: int

definition bracket_of :: "interpolated_pose \<Rightarrow> bracket" where
  "bracket_of p = \<lparr>after_stamp_ns = source_after_stamp_ns p, before_stamp_ns = source_before_stamp_ns p, gap_ns = source_gap_ns p\<rparr>"

record aligned_sample =
  estimate :: sample
  map_to_odom_bracket :: bracket
  odom_to_base_bracket :: bracket
  position_error :: pyfloat
  aligned_stamp_ns :: int
  truth :: truth_pose
  yaw_error :: pyfloat

text \<open>The body of the \<open>try\<close>.\<close>

definition transform_at ::
  "math_functions \<Rightarrow> int \<Rightarrow> sample list \<Rightarrow> sample list \<Rightarrow> int \<Rightarrow> metrics_exn + (interpolated_pose \<times> interpolated_pose \<times> sample)" where
  "transform_at m max_gap map_to_odom odom_to_base stamp =
     bindE (interpolate_pose map_to_odom stamp max_gap) (\<lambda>first.
     bindE (interpolate_pose odom_to_base stamp max_gap) (\<lambda>second.
     bindE (compose_se2 (math_sin m) (math_cos m) (pose_as_dict (pose.truncate first)) (pose_as_dict (pose.truncate second))) (\<lambda>e.
     Inr (first, second, e))))"

definition float_at :: "sample \<Rightarrow> string \<Rightarrow> pyfloat" where
  "float_at d k = (case dget d k of PFloat x \<Rightarrow> x | _ \<Rightarrow> NaN)"

definition align_sample ::
  "math_functions \<Rightarrow> truth_pose \<Rightarrow> int \<Rightarrow> interpolated_pose \<Rightarrow> interpolated_pose \<Rightarrow> sample \<Rightarrow> metrics_exn + aligned_sample" where
  "align_sample m tr stamp first second e =
     (let error = math_hypot m (f_sub (float_at e ''x_m'') (truth_x tr)) (f_sub (float_at e ''y_m'') (truth_y tr)) in
      bindE (normalize_angle (PFloat (f_sub (float_at e ''yaw_rad'') (truth_yaw tr)))) (\<lambda>yaw.
      Inr \<lparr>estimate = e, map_to_odom_bracket = bracket_of first, odom_to_base_bracket = bracket_of second,
           position_error = error, aligned_stamp_ns = stamp, truth = tr, yaw_error = f_abs yaw\<rparr>))"

fun alignment_loop ::
  "math_functions \<Rightarrow> int \<Rightarrow> sample list \<Rightarrow> sample list \<Rightarrow> (int \<times> sample \<times> nat) list
    \<Rightarrow> metrics_exn + (aligned_sample list \<times> (string \<times> int) list)" where
  "alignment_loop m max_gap map_to_odom odom_to_base [] = Inr ([], [])"
| "alignment_loop m max_gap map_to_odom odom_to_base ((stamp, s, index) # es) =
     bindE (truth_pose_of s index) (\<lambda>tr.
     case transform_at m max_gap map_to_odom odom_to_base stamp of
       Inl (MetricUnavailable reason) \<Rightarrow>
         bindE (alignment_loop m max_gap map_to_odom odom_to_base es) (\<lambda>(as, us). Inr (as, (reason, stamp) # us))
     | Inl e \<Rightarrow> Inl e
     | Inr (first, second, e) \<Rightarrow>
         bindE (align_sample m tr stamp first second e) (\<lambda>a.
         bindE (alignment_loop m max_gap map_to_odom odom_to_base es) (\<lambda>(as, us). Inr (a # as, us))))"

text \<open>\<open>{x:.6f}\<close> of a finite number that is not negative.\<close>

definition fixed6 :: "pyfloat \<Rightarrow> string" where
  "fixed6 x =
     (let n = round_half_even (fin_val x * 1000000); frac = show_int (n mod 1000000) in
      show_int (n div 1000000) @ ''.'' @ replicate (6 - length frac) CHR ''0'' @ frac)"

record localization_result =
  aligned_samples :: "aligned_sample list"
  available_count :: int
  coverage_ratio :: pyfloat
  eligible_count :: int
  position_error_m :: numeric_summary
  unavailable_count :: int
  unavailable_samples :: "(string \<times> int) list"
  world_to_map :: sample
  yaw_error_rad :: numeric_summary

definition localization_error_metrics ::
  "math_functions \<Rightarrow> sample list \<Rightarrow> sample list \<Rightarrow> sample list \<Rightarrow> pyval \<Rightarrow> pyval \<Rightarrow> int \<Rightarrow> pyfloat \<Rightarrow> sample option
    \<Rightarrow> metrics_exn + localization_result" where
  "localization_error_metrics m ground_truth map_to_odom odom_to_base accepted terminal_stamp max_gap minimum_coverage alignment =
     bindE (guardE (f_less (Fin 0) minimum_coverage \<and> f_le minimum_coverage (Fin 1))
       (MetricValueError ''minimum_coverage must be in (0, 1]'')) (\<lambda>_.
     bindE (check_alignment alignment) (\<lambda>_.
     bindE (require_int accepted ''accepted_goal_stamp_ns'') (\<lambda>start.
     bindE (require_int terminal_stamp ''terminal_action_stamp_ns'') (\<lambda>terminal.
     bindE (guardE (\<not> terminal \<le> start)
       (MetricUnavailable ''terminal action stamp must be after accepted goal stamp'')) (\<lambda>_.
     bindE (eligible_loop start terminal 0 None ground_truth) (\<lambda>eligible.
     bindE (guardE (eligible \<noteq> []) (MetricUnavailable ''no eligible ground-truth localization samples'')) (\<lambda>_.
     bindE (alignment_loop m max_gap map_to_odom odom_to_base eligible) (\<lambda>(aligned, unavailable).
     let coverage = int_truediv (int (length aligned)) (int (length eligible)) in
     bindE (guardE (\<not> f_less coverage minimum_coverage)
       (MetricUnavailable (''localization coverage '' @ fixed6 coverage @ '' is below '' @ fixed6 minimum_coverage))) (\<lambda>_.
     bindE (numeric_summary_of (math_sqrt m) (math_square m) (map (PFloat \<circ> position_error) aligned) True) (\<lambda>position.
     bindE (numeric_summary_of (math_sqrt m) (math_square m) (map (PFloat \<circ> yaw_error) aligned) True) (\<lambda>yaw.
     Inr \<lparr>aligned_samples = aligned, available_count = int (length aligned), coverage_ratio = coverage,
          eligible_count = int (length eligible), position_error_m = position, unavailable_count = int (length unavailable),
          unavailable_samples = unavailable, world_to_map = identity_alignment, yaw_error_rad = yaw\<rparr>)))))))))))"

section \<open>Which samples are used\<close>

definition in_mission :: "int \<Rightarrow> int \<Rightarrow> sample \<Rightarrow> bool" where
  "in_mission start terminal s \<longleftrightarrow> start \<le> stamp_of s \<and> stamp_of s \<le> terminal"

lemma eligible_loop_Inr:
  assumes "eligible_loop start terminal index prev ss = Inr es"
  shows "map (\<lambda>(t, s, i). (t, s)) es = map (\<lambda>s. (stamp_of s, s)) (filter (in_mission start terminal) ss)"
    "sorted_wrt (<) (map stamp_of ss)" "list_all (\<lambda>s. \<forall>p. prev = Some p \<longrightarrow> p < stamp_of s) ss"
proof (atomize (full), use assms in \<open>induction ss arbitrary: index prev es\<close>)
  case (Cons s ss)
  then obtain stamp rest where s: "dget s ''stamp_ns'' = PInt stamp" "case prev of None \<Rightarrow> True | Some p \<Rightarrow> \<not> stamp \<le> p"
      "eligible_loop start terminal (index + 1) (Some stamp) ss = Inr rest"
      "es = (if start \<le> stamp \<and> stamp \<le> terminal then (stamp, s, index) # rest else rest)"
    by (auto simp: bindE_Inr_iff)
  have "stamp_of s = stamp" using s(1) by (simp add: stamp_of_def)
  with Cons.IH [OF s(3)] s(2,4) show ?case by (fastforce simp: in_mission_def list_all_iff split: option.splits)
qed simp

text \<open>The transforms that are usable at an instant.\<close>

definition transform_ok :: "math_functions \<Rightarrow> int \<Rightarrow> sample list \<Rightarrow> sample list \<Rightarrow> int \<Rightarrow> bool" where
  "transform_ok m max_gap map_to_odom odom_to_base stamp =
     (case transform_at m max_gap map_to_odom odom_to_base stamp of Inr _ \<Rightarrow> True | Inl _ \<Rightarrow> False)"

text \<open>A bracket of a stream around an instant: two of its stamps, at most \<open>max_gap\<close> apart.\<close>

definition supports :: "sample list \<Rightarrow> int \<Rightarrow> int \<Rightarrow> bracket \<Rightarrow> bool" where
  "supports stream max_gap stamp b \<longleftrightarrow>
     before_stamp_ns b \<in> set (map stamp_of stream) \<and> after_stamp_ns b \<in> set (map stamp_of stream)
     \<and> before_stamp_ns b \<le> stamp \<and> stamp \<le> after_stamp_ns b
     \<and> gap_ns b = after_stamp_ns b - before_stamp_ns b \<and> gap_ns b \<le> max_gap"

lemma interpolate_supports:
  assumes "interpolate_pose stream stamp max_gap = Inr p"
  shows "supports stream max_gap stamp (bracket_of p)"
proof -
  note s = interpolation_supported [OF assms]
  show ?thesis
  proof (cases "interpolated p")
    case True
    with s obtain i where "Suc i < length stream" "stamp_of (stream ! i) = source_before_stamp_ns p"
        "stamp_of (stream ! Suc i) = source_after_stamp_ns p" by auto
    then have "source_before_stamp_ns p \<in> stamp_of ` set stream" "source_after_stamp_ns p \<in> stamp_of ` set stream"
      by (metis Suc_lessD image_eqI nth_mem, metis image_eqI nth_mem)
    with s True show ?thesis by (auto simp: supports_def bracket_of_def)
  next
    case False
    with assms have "source_before_stamp_ns p = stamp" "source_after_stamp_ns p = stamp"
      by (auto simp: interpolate_pose_def err_simps Let_def pose.defs interpolated_pose.defs split: if_splits)
    with s False show ?thesis by (auto simp: supports_def bracket_of_def intro: rev_image_eqI)
  qed
qed

lemma align_sample_stamp:
  "align_sample m tr stamp first second e = Inr a \<Longrightarrow>
   aligned_stamp_ns a = stamp \<and> map_to_odom_bracket a = bracket_of first \<and> odom_to_base_bracket a = bracket_of second"
  by (auto simp: align_sample_def Let_def bindE_Inr_iff)

lemma alignment_loop_Inr:
  assumes "alignment_loop m max_gap f g es = Inr (as, us)"
  shows "map aligned_stamp_ns as = filter (transform_ok m max_gap f g) (map fst es)"
    "map snd us = filter (\<lambda>t. \<not> transform_ok m max_gap f g t) (map fst es)"
    "list_all (\<lambda>a. supports f max_gap (aligned_stamp_ns a) (map_to_odom_bracket a)
       \<and> supports g max_gap (aligned_stamp_ns a) (odom_to_base_bracket a)) as"
proof (atomize (full), use assms in \<open>induction es arbitrary: as us\<close>)
  case (Cons x es)
  obtain stamp s index where x: "x = (stamp, s, index)" by (cases x)
  show ?case
  proof (cases "transform_at m max_gap f g stamp")
    case (Inl err)
    then obtain reason us' where "alignment_loop m max_gap f g es = Inr (as, us')" "us = (reason, stamp) # us'"
      using Cons.prems by (cases err) (auto simp: x bindE_Inr_iff)
    with Cons.IH Inl show ?thesis by (simp add: x transform_ok_def)
  next
    case (Inr r)
    obtain first second e where r: "r = (first, second, e)" by (cases r)
    then obtain tr a as' where a: "align_sample m tr stamp first second e = Inr a"
        "alignment_loop m max_gap f g es = Inr (as', us)" "as = a # as'"
      using Cons.prems Inr by (auto simp: x bindE_Inr_iff)
    have "interpolate_pose f stamp max_gap = Inr first" "interpolate_pose g stamp max_gap = Inr second"
      using Inr unfolding r transform_at_def by (auto simp: bindE_Inr_iff)
    with Cons.IH [OF a(2)] align_sample_stamp [OF a(1)] Inr show ?thesis
      by (simp add: x a(3) transform_ok_def interpolate_supports)
  qed
qed simp

section \<open>Coverage\<close>

text \<open>The rounded ratio reaches the rounded 0.95 only if the exact one reaches 19 / 20.\<close>

lemma coverage_exact:
  assumes "\<not> f_less (int_truediv (int a) (int n)) LOCALIZATION_MINIMUM_COVERAGE" "0 < n" "n < 2 ^ 40" "a \<le> n"
  shows "19 * n \<le> 20 * a"
proof (rule ccontr)
  assume "\<not> ?thesis"
  then have less: "20 * a + 1 \<le> 19 * n" by simp
  obtain c where c: "fl (95 / 100) = Fin c" "\<bar>c - 95 / 100\<bar> \<le> (95 / 100) / 2 ^ 52" "0 < c"
    using fl_near_moderate [of "95 / 100"] by auto
  define q where "q = (of_nat a / of_nat n :: rat)"
  have N: "1 \<le> (of_nat n :: rat)" "(of_nat n :: rat) \<le> 1099511627776"
    using assms(2,3) of_nat_le_iff [of n 1099511627776, where ?'a = rat] by simp_all
  have div: "int_truediv (int a) (int n) = fl q" by (simp add: int_truediv_def q_def)
  show False
  proof (cases "a = 0")
    case True
    then have "int_truediv (int a) (int n) = Fin 0" by (simp add: int_truediv_def)
    with assms(1) c show False by (simp add: LOCALIZATION_MINIMUM_COVERAGE_def)
  next
    case False
    have "20 * of_nat a + 1 \<le> 19 * (of_nat n :: rat)" using of_nat_mono [OF less, where ?'a = rat] by simp
    then have "q \<le> 19 / 20 - 1 / (20 * of_nat n)" using N by (simp add: q_def field_simps)
    moreover have "1 / 21990232555520 \<le> 1 / (20 * (of_nat n :: rat))" using N by (intro divide_left_mono) auto
    ultimately have q: "q \<le> 19 / 20 - 1 / 21990232555520" by linarith
    have "1 / 1099511627776 \<le> q"
      using N False frac_le [of 1 "of_nat a" "of_nat n" "1099511627776 :: rat"] by (simp add: q_def)
    moreover have "pow2 (- 1022) \<le> 1 / 1099511627776"
      using frac_le [of 1 1 1099511627776 "2 ^ 1022 :: rat"] by (simp add: pow2_def)
    ultimately have "pow2 (- 1022) \<le> q" by (rule order_trans [rotated])
    moreover have "q \<le> 2 ^ 1000" by (rule order_trans [of _ 1]) (use q in simp_all)
    ultimately obtain r where r: "fl q = Fin r" "\<bar>r - q\<bar> \<le> q / 2 ^ 52" by (metis fl_near)
    have "r - q \<le> q / 2 ^ 52" using r(2) by (simp only: abs_le_iff)
    then have "r \<le> q + q / 4503599627370496" by simp
    moreover have "- (c - 95 / 100) \<le> 95 / 100 / 2 ^ 52" using c(2) by (simp only: abs_le_iff)
    then have "95 / 100 - 1 / 4503599627370496 \<le> c" by simp
    ultimately have "r < c" using q by linarith
    with assms(1) c(1) r(1) show False by (simp add: div LOCALIZATION_MINIMUM_COVERAGE_def)
  qed
qed

lemma summary_maximum:
  assumes "numeric_summary_of py_sqrt py_square (map (PFloat \<circ> f) xs) b = Inr s" "x \<in> set xs"
  shows "f_le (f x) (sm_maximum s)"
proof -
  from assms(1) obtain vs where vs: "finite_values (map (PFloat \<circ> f) xs) ''values'' = Inr vs" "sm_maximum s = float_max vs"
    unfolding numeric_summary_of_def Let_def by (auto simp: err_simps)
  note fin = finite_values_Inr [OF vs(1)]
  have "list_all2 (\<lambda>v y. require_finite v ''values'' = Inr y) (map (PFloat \<circ> f) xs) vs"
    using vs(1) by (auto simp: finite_values_def err_simps traverse_Inr_iff)
  then have "vs = map f xs" by (auto simp: list_all2_conv_all_nth require_finite_def err_simps intro!: nth_equalityI)
  then have "f x \<in> set vs" using assms(2) by simp
  then show ?thesis using fin(2) float_extremes [OF fin(2,1)] vs(2) by (auto simp: f_le_fin list_all_iff)
qed

text \<open>C33. What an accepted localization series rests on. The ground-truth stamps of the mission are strictly increasing;
  exactly those where both transforms can be interpolated and composed are used, in order, and the others are
  listed; at least 19 of 20 are used, although the ratio and its bound are rounded; each used sample has a bracket of
  close stamps in both streams; no used sample has an error above the reported maximum.\<close>

theorem localization_sound:
  assumes "localization_error_metrics m ground_truth f g (PInt start) (PInt terminal) max_gap
      LOCALIZATION_MINIMUM_COVERAGE alignment = Inr r"
    and "length ground_truth < 2 ^ 40" and "used = map stamp_of (filter (in_mission start terminal) ground_truth)"
  shows "used \<noteq> [] \<and> sorted_wrt (<) used
    \<and> map aligned_stamp_ns (aligned_samples r) = filter (transform_ok m max_gap f g) used
    \<and> map snd (unavailable_samples r) = filter (\<lambda>t. \<not> transform_ok m max_gap f g t) used
    \<and> 19 * length used \<le> 20 * length (aligned_samples r)
    \<and> (\<forall>a \<in> set (aligned_samples r). supports f max_gap (aligned_stamp_ns a) (map_to_odom_bracket a)
         \<and> supports g max_gap (aligned_stamp_ns a) (odom_to_base_bracket a)
         \<and> f_le (position_error a) (sm_maximum (position_error_m r)) \<and> f_le (yaw_error a) (sm_maximum (yaw_error_rad r)))"
proof -
  obtain eligible where e: "eligible_loop start terminal 0 None ground_truth = Inr eligible" "eligible \<noteq> []"
      "alignment_loop m max_gap f g eligible = Inr (aligned_samples r, unavailable_samples r)"
      "\<not> f_less (int_truediv (int (length (aligned_samples r))) (int (length eligible))) LOCALIZATION_MINIMUM_COVERAGE"
      "numeric_summary_of (math_sqrt m) (math_square m) (map (PFloat \<circ> position_error) (aligned_samples r)) True = Inr (position_error_m r)"
      "numeric_summary_of (math_sqrt m) (math_square m) (map (PFloat \<circ> yaw_error) (aligned_samples r)) True = Inr (yaw_error_rad r)"
    using assms(1) unfolding localization_error_metrics_def Let_def by (auto simp: err_simps split: prod.splits)
  note el = eligible_loop_Inr [OF e(1)] and al = alignment_loop_Inr [OF e(3)]
  have "map fst (map (\<lambda>(t, s, i). (t, s)) eligible) = used" unfolding el(1) assms(3) by simp
  then have used: "map fst eligible = used" by (simp add: comp_def case_prod_beta)
  then have len: "length used = length eligible" by (metis length_map)
  have "length used \<le> length ground_truth" unfolding assms(3) by simp
  moreover have "length (aligned_samples r) \<le> length eligible"
    using arg_cong [OF al(1), of length] length_filter_le [of _ "map fst eligible"] by simp
  ultimately have "19 * length eligible \<le> 20 * length (aligned_samples r)"
    using coverage_exact [OF e(4)] e(2) assms(2) len by simp
  moreover have "sorted_wrt (<) used" using el(2) unfolding assms(3) by (simp add: sorted_wrt_map sorted_wrt_filter)
  ultimately show ?thesis
    using al e(2) len summary_maximum [OF e(5)] summary_maximum [OF e(6)] by (auto simp: used list_all_iff)
qed

definition still_sample :: sample where
  "still_sample = [(''stamp_ns'', PInt 15), (''x_m'', PFloat (Fin 0)), (''y_m'', PFloat (Fin 0)), (''yaw_rad'', PFloat (Fin 0))]"

definition still_math :: math_functions where
  "still_math = \<lparr>math_sin = (\<lambda>x. Fin 0), math_cos = (\<lambda>x. Fin 1), math_hypot = (\<lambda>x y. f_add (f_abs x) (f_abs y)),
     math_sqrt = (\<lambda>x. x), math_square = (\<lambda>x. f_mul x x)\<rparr>"

lemma normalize_zero: "normalize_angle (PFloat (Fin 0)) = Inr (Fin 0)"
proof -
  have "fl PI = Fin PI" using fl_dyadic [of 884279719003555 48] by (simp add: PI_def)
  moreover have "\<lfloor>1 / 2 :: rat\<rfloor> = 0" by (simp add: floor_eq_iff)
  then have "f_mod (Fin PI) (2 * PI) = Fin PI" by (simp add: f_mod_def PI_def rat_trunc_def Let_def)
  ultimately show ?thesis by (simp add: normalize_angle_def require_finite_def f_sub_def)
qed

lemma zero_summary: "\<exists>s. numeric_summary_of (\<lambda>x. x) (\<lambda>x. f_mul x x) [PFloat (Fin 0)] True = Inr s"
proof -
  have vs: "finite_values [PFloat (Fin 0)] ''values'' = Inr [Fin 0]" by (simp add: finite_values_def require_finite_def)
  have rank: "\<exists>x. nearest_rank [PFloat (Fin 0)] (fl f) = Inr x" if "f = 5 / 100 \<or> f = 95 / 100" for f
    using nearest_rank_index [of "[Fin 0]" f] that by auto
  from rank [of "5 / 100"] rank [of "95 / 100"] show ?thesis
    by (auto simp: numeric_summary_of_def vs fsum_def divided_def f_div_def deterministic_median_def sort_floats_def fin_val_def
        summary_rmse_def float_max_def Let_def)
qed

lemma still_localization:
  "\<exists>r. localization_error_metrics still_math [still_sample] [still_sample] [still_sample] (PInt 10) (PInt 20)
      ALIGNMENT_GAP_NS LOCALIZATION_MINIMUM_COVERAGE None = Inr r"
proof -
  obtain c where c: "fl (95 / 100) = Fin c" "\<bar>c - 95 / 100\<bar> \<le> (95 / 100) / 2 ^ 52" "0 < c"
    using fl_near_moderate [of "95 / 100"] by auto
  have "c - 95 / 100 \<le> 95 / 100 / 2 ^ 52" using c(2) by (simp only: abs_le_iff)
  then have "c \<le> 1" by simp
  with c(1,3) have cov: "f_less (Fin 0) LOCALIZATION_MINIMUM_COVERAGE" "f_le LOCALIZATION_MINIMUM_COVERAGE (Fin 1)"
    "\<not> f_less (Fin 1) LOCALIZATION_MINIMUM_COVERAGE" by (auto simp: LOCALIZATION_MINIMUM_COVERAGE_def f_le_def)
  have get: "dget still_sample ''stamp_ns'' = PInt 15" "dget still_sample ''x_m'' = PFloat (Fin 0)"
      "dget still_sample ''y_m'' = PFloat (Fin 0)" "dget still_sample ''yaw_rad'' = PFloat (Fin 0)"
    by (simp_all add: still_sample_def)
  define p :: interpolated_pose
    where "p = pose.extend \<lparr>x_m = Fin 0, y_m = Fin 0, yaw_rad = Some (Fin 0)\<rparr> (interpolated_pose.fields 15 False 15 15 0)"
  have pose: "interpolate_pose [still_sample] 15 ALIGNMENT_GAP_NS = Inr p"
    by (simp add: interpolate_pose_def still_sample_def ensure_strictly_increasing_def bisect_left_def sample_pose_def
        require_finite_def ALIGNMENT_GAP_NS_def Let_def p_def)
  have "pose_as_dict (pose.truncate p) = identity_alignment"
    by (simp add: p_def pose.defs interpolated_pose.defs pose_as_dict_def identity_alignment_def)
  moreover have "compose_se2 (math_sin still_math) (math_cos still_math) identity_alignment identity_alignment = Inr identity_alignment"
    by (simp add: compose_se2_def identity_alignment_def require_finite_def normalize_zero still_math_def f_sub_def Let_def)
  ultimately have "transform_at still_math ALIGNMENT_GAP_NS [still_sample] [still_sample] 15 = Inr (p, p, identity_alignment)"
    by (simp add: transform_at_def pose)
  moreover have "\<exists>a. align_sample still_math \<lparr>truth_x = Fin 0, truth_y = Fin 0, truth_yaw = Fin 0\<rparr> 15 p p identity_alignment = Inr a
      \<and> position_error a = Fin 0 \<and> yaw_error a = Fin 0"
    by (simp add: align_sample_def identity_alignment_def float_at_def normalize_zero still_math_def f_sub_def)
  moreover have "truth_pose_of still_sample 0 = Inr \<lparr>truth_x = Fin 0, truth_y = Fin 0, truth_yaw = Fin 0\<rparr>"
    by (simp add: truth_pose_of_def get require_finite_def)
  ultimately have "\<exists>a. alignment_loop still_math ALIGNMENT_GAP_NS [still_sample] [still_sample] [(15, still_sample, 0)] = Inr ([a], [])
      \<and> position_error a = Fin 0 \<and> yaw_error a = Fin 0"
    by auto
  moreover have "eligible_loop 10 20 0 None [still_sample] = Inr [(15, still_sample, 0)]" by (simp add: get)
  moreover have "check_alignment None = Inr ()"
    by (simp add: check_alignment_def identity_alignment_def require_finite_def)
  ultimately show ?thesis
    using zero_summary cov by (auto simp: localization_error_metrics_def int_truediv_def still_math_def)
qed

theorem localization_sound_witness:
  "\<exists>r. localization_error_metrics still_math [still_sample] [still_sample] [still_sample] (PInt 10) (PInt 20)
      ALIGNMENT_GAP_NS LOCALIZATION_MINIMUM_COVERAGE None = Inr r
     \<and> length (aligned_samples r) = 1 \<and> map snd (unavailable_samples r) = []"
proof -
  obtain r where r: "localization_error_metrics still_math [still_sample] [still_sample] [still_sample] (PInt 10) (PInt 20)
      ALIGNMENT_GAP_NS LOCALIZATION_MINIMUM_COVERAGE None = Inr r" using still_localization by blast
  have used: "[15] = map stamp_of (filter (in_mission 10 20) [still_sample])"
    by (simp add: in_mission_def stamp_of_def still_sample_def)
  have "transform_ok still_math ALIGNMENT_GAP_NS [still_sample] [still_sample] 15 \<or> aligned_samples r = []"
    using arg_cong [where f = length, OF localization_sound [OF r _ used, THEN conjunct2, THEN conjunct2, THEN conjunct1]]
    by (auto split: if_splits)
  with localization_sound [OF r _ used] r show ?thesis by (auto split: if_splits)
qed

end
