(* ===== verification/Odometry_Metrics.thy ===== *)
theory Odometry_Metrics
  imports Path_Metrics
begin

text \<open>
  The odometry-drift gate of scenario 5 (\<open>robotest_metrics/odometry_metrics.py\<close>): the validated odometry is the
  raw one composed with a drift that grows at the configured rates during the fault interval, agrees
  with TF at every stamp, and returns to the raw one afterwards. \<open>math.sin\<close>, \<open>math.cos\<close>, \<open>math.hypot\<close>,
  \<open>math.sqrt\<close> and \<open>x ** 2\<close> are the fields of \<open>platform\<close>.
\<close>

section \<open>Definitions\<close>

definition FINAL_ACTIVE_GAP_NS :: int where "FINAL_ACTIVE_GAP_NS = 250000000"
definition POSITION_TOLERANCE_M :: pyfloat where "POSITION_TOLERANCE_M = fl (20 / 1000)"
definition YAW_TOLERANCE_RAD :: pyfloat where "YAW_TOLERANCE_RAD = fl (10 / 1000)"
definition IDENTITY_TOLERANCE :: pyfloat where "IDENTITY_TOLERANCE = fl (1 / 1000000000)"

record platform =
  m_sin :: "pyfloat \<Rightarrow> pyfloat"
  m_cos :: "pyfloat \<Rightarrow> pyfloat"
  m_hypot :: "pyfloat \<Rightarrow> pyfloat \<Rightarrow> pyfloat"
  m_sqrt :: "pyfloat \<Rightarrow> pyfloat"
  m_square :: "pyfloat \<Rightarrow> pyfloat"

text \<open>The loop of \<open>_ordered_index\<close>: samples by stamp, in increasing order of stamp and sequence.\<close>

fun index_loop :: "string \<Rightarrow> nat \<Rightarrow> (int \<times> int) option \<Rightarrow> (int \<times> sample) list \<Rightarrow> sample list
    \<Rightarrow> metrics_exn + (int \<times> sample) list" where
  "index_loop name i previous indexed' [] = Inr indexed'"
| "index_loop name i previous indexed' (s # ss) =
     bindE (require_int (dget s ''stamp_ns'') (at_index name i ''stamp_ns'')) (\<lambda>stamp.
     bindE (require_int (dget s ''collector_sequence'') (at_index name i ''collector_sequence'')) (\<lambda>sequence.
     bindE (guardE (case previous of None \<Rightarrow> True | Some (t, q) \<Rightarrow> \<not> (sequence \<le> q \<or> stamp \<le> t))
       (MetricUnavailable (name @ '' is not in deterministic collector order''))) (\<lambda>_.
     bindE (guardE (stamp \<notin> fst ` set indexed') (MetricUnavailable (name @ '' contains duplicate stamps''))) (\<lambda>_.
     index_loop name (i + 1) (Some (stamp, sequence)) (indexed' @ [(stamp, s)]) ss))))"

definition ordered_index :: "sample list \<Rightarrow> string \<Rightarrow> metrics_exn + (int \<times> sample) list" where
  "ordered_index samples name = index_loop name 0 None [] samples"

definition pose3 :: "sample \<Rightarrow> string \<Rightarrow> metrics_exn + (pyfloat \<times> pyfloat \<times> pyfloat)" where
  "pose3 s name =
     bindE (require_finite (dget s ''x_m'') (name @ ''.x_m'')) (\<lambda>x.
     bindE (require_finite (dget s ''y_m'') (name @ ''.y_m'')) (\<lambda>y.
     bindE (require_finite (dget s ''yaw_rad'') (name @ ''.yaw_rad'')) (\<lambda>yaw.
     Inr (x, y, yaw))))"

record offset =
  off_x :: pyfloat
  off_y :: pyfloat
  off_yaw :: pyfloat

definition measured_offset :: "platform \<Rightarrow> sample \<Rightarrow> sample \<Rightarrow> string \<Rightarrow> metrics_exn + offset" where
  "measured_offset pf raw validated name =
     bindE (pose3 raw (name @ ''.raw'')) (\<lambda>(raw_x, raw_y, raw_yaw).
     bindE (pose3 validated (name @ ''.validated'')) (\<lambda>(validated_x, validated_y, validated_yaw).
     bindE (normalize_angle (PFloat (f_sub validated_yaw raw_yaw))) (\<lambda>yaw.
     let cosine = m_cos pf yaw; sine = m_sin pf yaw in
     Inr \<lparr>off_x = f_add (f_sub validated_x (f_mul cosine raw_x)) (f_mul sine raw_y),
          off_y = f_sub (f_sub validated_y (f_mul sine raw_x)) (f_mul cosine raw_y), off_yaw = yaw\<rparr>)))"

definition number_instance :: "pyval \<Rightarrow> bool" where
  "number_instance v = (case v of PInt _ \<Rightarrow> True | PFloat _ \<Rightarrow> True | PBool _ \<Rightarrow> True | _ \<Rightarrow> False)"

definition require_nonplanar_identity :: "platform \<Rightarrow> sample \<Rightarrow> sample \<Rightarrow> string \<Rightarrow> metrics_exn + unit" where
  "require_nonplanar_identity pf raw validated name =
     bindE (guardE (dget raw ''frame_id'' = PStr ''odom'' \<and> dget validated ''frame_id'' = PStr ''odom'')
       (MetricUnavailable (name @ '' odometry frame must be odom''))) (\<lambda>_.
     bindE (guardE (dget raw ''child_frame_id'' = PStr ''base_footprint'' \<and> dget validated ''child_frame_id'' = PStr ''base_footprint'')
       (MetricUnavailable (name @ '' odometry child frame must be base_footprint''))) (\<lambda>_.
     case (dget raw ''nonplanar_integrity'', dget validated ''nonplanar_integrity'') of
       (PDict raw_integrity, PDict validated_integrity) \<Rightarrow>
         bindE (guardE (py_eq (PDict raw_integrity) (PDict validated_integrity))
           (MetricUnavailable (name @ '' validated odometry mutated twist/z/covariance''))) (\<lambda>_.
         case dget validated ''orientation_xyzw'' of
           PList quaternion \<Rightarrow>
             bindE (guardE (length quaternion = 4 \<and> list_all number_instance quaternion)
               (MetricUnavailable (name @ '' validated quaternion evidence is invalid''))) (\<lambda>_.
             bindE (traverse (\<lambda>v. require_finite v (name @ ''.quaternion'')) quaternion) (\<lambda>xs.
             let norm' = m_sqrt pf (py_sum (map (m_square pf) xs)) in
             guardE (\<not> f_less IDENTITY_TOLERANCE (f_abs (f_sub norm' (Fin 1))))
               (MetricUnavailable (name @ '' validated quaternion is not normalized''))))
         | _ \<Rightarrow> Inl (MetricUnavailable (name @ '' validated quaternion evidence is invalid'')))
     | _ \<Rightarrow> Inl (MetricUnavailable (name @ '' nonplanar odometry integrity evidence is missing''))))"

definition require_tf_identity :: "platform \<Rightarrow> sample \<Rightarrow> sample \<Rightarrow> string \<Rightarrow> metrics_exn + unit" where
  "require_tf_identity pf validated transform name =
     bindE (guardE (dget transform ''frame_id'' = PStr ''odom'' \<and> dget transform ''child_frame_id'' = PStr ''base_footprint'')
       (MetricUnavailable (name @ '' TF frame identity is invalid''))) (\<lambda>_.
     bindE (pose3 validated (name @ ''.validated'')) (\<lambda>(ox, oy, oyaw).
     bindE (pose3 transform (name @ ''.tf'')) (\<lambda>(tx, ty, tyaw).
     let differ = Inl (MetricUnavailable (name @ '' validated odometry and TF differ'')) in
     if f_less IDENTITY_TOLERANCE (m_hypot pf (f_sub tx ox) (f_sub ty oy)) then differ
     else bindE (normalize_angle (PFloat (f_sub tyaw oyaw))) (\<lambda>d.
       if f_less IDENTITY_TOLERANCE (f_abs d) then differ else Inr ()))))"

record drift_sample =
  ds_expected :: offset
  ds_measured :: offset
  ds_position_m :: pyfloat
  ds_yaw_rad :: pyfloat
  ds_stamp_ns :: int

definition drift_target :: "pyfloat \<Rightarrow> pyfloat \<Rightarrow> pyfloat \<Rightarrow> offset" where
  "drift_target x_rate yaw_rate elapsed_s =
     \<lparr>off_x = f_mul x_rate elapsed_s, off_y = Fin 0, off_yaw = f_mul yaw_rate elapsed_s\<rparr>"

definition offset_errors :: "platform \<Rightarrow> offset \<Rightarrow> offset \<Rightarrow> metrics_exn + (pyfloat \<times> pyfloat)" where
  "offset_errors pf measured expected =
     (let position = m_hypot pf (f_sub (off_x measured) (off_x expected)) (off_y measured) in
      bindE (normalize_angle (PFloat (f_sub (off_yaw measured) (off_yaw expected)))) (\<lambda>d. Inr (position, f_abs d)))"

definition sample_at :: "(int \<times> sample) list \<Rightarrow> int \<Rightarrow> sample" where
  "sample_at indexed' stamp = (case map_of indexed' stamp of None \<Rightarrow> [] | Some s \<Rightarrow> s)"

record drift_streams =
  str_raw :: "(int \<times> sample) list"
  str_validated :: "(int \<times> sample) list"
  str_tf :: "(int \<times> sample) list"

definition check_identity :: "platform \<Rightarrow> drift_streams \<Rightarrow> string \<Rightarrow> int \<Rightarrow> metrics_exn + unit" where
  "check_identity pf st name stamp =
     bindE (require_nonplanar_identity pf (sample_at (str_raw st) stamp) (sample_at (str_validated st) stamp) name) (\<lambda>_.
     require_tf_identity pf (sample_at (str_validated st) stamp) (sample_at (str_tf st) stamp) name)"

definition offset_at :: "platform \<Rightarrow> drift_streams \<Rightarrow> string \<Rightarrow> int \<Rightarrow> metrics_exn + offset" where
  "offset_at pf st name stamp =
     measured_offset pf (sample_at (str_raw st) stamp) (sample_at (str_validated st) stamp) name"

definition active_sample ::
  "platform \<Rightarrow> drift_streams \<Rightarrow> int \<Rightarrow> pyfloat \<Rightarrow> pyfloat \<Rightarrow> int \<Rightarrow> metrics_exn + drift_sample" where
  "active_sample pf st activation x_rate yaw_rate stamp =
     (let name = ''active['' @ show_int stamp @ '']'' in
      bindE (check_identity pf st name stamp) (\<lambda>_.
      bindE (ns_seconds (stamp - activation)) (\<lambda>elapsed_s.
      bindE (offset_at pf st name stamp) (\<lambda>measured.
      let expected = drift_target x_rate yaw_rate elapsed_s in
      bindE (offset_errors pf measured expected) (\<lambda>(position, yaw).
      Inr \<lparr>ds_expected = expected, ds_measured = measured, ds_position_m = position, ds_yaw_rad = yaw, ds_stamp_ns = stamp\<rparr>)))))"

record drift_limits =
  position_tolerance_m :: pyfloat
  yaw_tolerance_rad :: pyfloat
  final_active_gap_ns :: int

record drift_result =
  active_sample_count :: int
  final_gap_ns :: int
  final_active_stamp_ns :: int
  full_duration_target :: offset
  full_target_position_error_m :: pyfloat
  full_target_yaw_error_rad :: pyfloat
  left_composition_samples :: "drift_sample list"
  maximum_sample_position_error_m :: pyfloat
  maximum_sample_yaw_error_rad :: pyfloat
  restored_offset :: offset
  restored_stamp_ns :: int

text \<open>\<open>i * 1e-9\<close> for an integer: the integer is converted first, and one too large raises.\<close>

definition nano_scaled :: "int \<Rightarrow> metrics_exn + pyfloat" where
  "nano_scaled i = (case fl (of_int i) of Fin q \<Rightarrow> Inr (f_mul (Fin q) (fl (1 / 1000000000))) | _ \<Rightarrow> Inl MetricOverflowError)"

definition active_samples ::
  "platform \<Rightarrow> drift_streams \<Rightarrow> int \<Rightarrow> int \<Rightarrow> pyfloat \<Rightarrow> pyfloat \<Rightarrow> drift_limits \<Rightarrow> metrics_exn + drift_sample list" where
  "active_samples pf st activation deactivation x_rate yaw_rate limits =
     (let within_fault = (\<lambda>t. activation \<le> t \<and> t < deactivation);
          active_stamps = sort (filter within_fault (map fst (str_raw st)));
          validated_active = sort (filter within_fault (map fst (str_validated st))) in
      bindE (guardE (\<not> (active_stamps = [] \<or> active_stamps \<noteq> validated_active))
        (MetricUnavailable ''raw/validated active odometry stamps do not exactly match'')) (\<lambda>_.
      bindE (guardE (\<not> list_ex (\<lambda>t. t \<notin> fst ` set (str_tf st)) active_stamps)
        (MetricUnavailable ''active validated odometry lacks exact-stamp TF identity evidence'')) (\<lambda>_.
      bindE (traverse (active_sample pf st activation x_rate yaw_rate) active_stamps) (\<lambda>samples.
      bindE (guardE (\<not> list_ex (\<lambda>s. f_less (position_tolerance_m limits) (ds_position_m s)
                              \<or> f_less (yaw_tolerance_rad limits) (ds_yaw_rad s)) samples)
        (MetricUnavailable ''odometry-drift left-composition sample exceeds tolerance'')) (\<lambda>_. Inr samples)))))"

definition restored_sample :: "platform \<Rightarrow> drift_streams \<Rightarrow> int \<Rightarrow> metrics_exn + (int \<times> offset)" where
  "restored_sample pf st deactivation =
     (case List.find (\<lambda>t. t \<ge> deactivation) (sort (map fst (str_raw st))) of
        None \<Rightarrow> Inl (MetricUnavailable ''post-drift restored odometry/TF sample is missing'')
      | Some stamp \<Rightarrow>
          bindE (guardE (stamp \<in> fst ` set (str_validated st) \<and> stamp \<in> fst ` set (str_tf st))
            (MetricUnavailable ''post-drift restored odometry/TF sample is missing'')) (\<lambda>_.
          bindE (check_identity pf st ''restored'' stamp) (\<lambda>_.
          bindE (offset_at pf st ''restored'' stamp) (\<lambda>off.
          bindE (guardE (\<not> (f_less IDENTITY_TOLERANCE (m_hypot pf (off_x off) (off_y off))
                          \<or> f_less IDENTITY_TOLERANCE (f_abs (off_yaw off))))
            (MetricUnavailable ''odometry drift remained latched after the half-open interval'')) (\<lambda>_.
          Inr (stamp, off))))))"

text \<open>The analysis of the indexed streams.\<close>

definition drift_verdict ::
  "platform \<Rightarrow> drift_streams \<Rightarrow> int \<Rightarrow> int \<Rightarrow> pyfloat \<Rightarrow> pyfloat \<Rightarrow> drift_limits \<Rightarrow> metrics_exn + drift_result" where
  "drift_verdict pf st activation deactivation x_rate yaw_rate limits =
     bindE (active_samples pf st activation deactivation x_rate yaw_rate limits) (\<lambda>samples.
     let final = List.last samples; final_gap = deactivation - ds_stamp_ns final in
     bindE (guardE (0 < final_gap \<and> final_gap \<le> final_active_gap_ns limits)
       (MetricUnavailable ''final active odometry sample is not within 0.25 s of interval end'')) (\<lambda>_.
     bindE (ns_seconds (deactivation - activation)) (\<lambda>duration_s.
     let full_target = drift_target x_rate yaw_rate duration_s in
     bindE (offset_errors pf (ds_measured final) full_target) (\<lambda>(full_position, full_yaw).
     bindE (guardE (\<not> (f_less (position_tolerance_m limits) full_position \<or> f_less (yaw_tolerance_rad limits) full_yaw))
       (MetricUnavailable ''odometry-drift endpoint exceeds frozen tolerances'')) (\<lambda>_.
     bindE (restored_sample pf st deactivation) (\<lambda>(restored_stamp, restored).
     Inr \<lparr>active_sample_count = int (length samples), final_gap_ns = final_gap, final_active_stamp_ns = ds_stamp_ns final,
          full_duration_target = full_target, full_target_position_error_m = full_position,
          full_target_yaw_error_rad = full_yaw, left_composition_samples = samples,
          maximum_sample_position_error_m = foldl f_max (ds_position_m (hd samples)) (map ds_position_m (tl samples)),
          maximum_sample_yaw_error_rad = foldl f_max (ds_yaw_rad (hd samples)) (map ds_yaw_rad (tl samples)),
          restored_offset = restored, restored_stamp_ns = restored_stamp\<rparr>))))))"

definition analyze_odometry_drift ::
  "platform \<Rightarrow> sample list \<Rightarrow> sample list \<Rightarrow> sample list \<Rightarrow> pyval \<Rightarrow> pyval \<Rightarrow> pyval \<Rightarrow> pyval \<Rightarrow> drift_limits
     \<Rightarrow> metrics_exn + drift_result" where
  "analyze_odometry_drift pf raw_odometry validated_odometry odom_to_base_tf activation_ns deactivation_ns
       x_rate_nm_per_s yaw_rate_nrad_per_s limits =
     bindE (require_int activation_ns ''configured activation'') (\<lambda>activation.
     bindE (require_int deactivation_ns ''configured deactivation'') (\<lambda>deactivation.
     bindE (bindE (require_int x_rate_nm_per_s ''x_rate_nm_per_s'') nano_scaled) (\<lambda>x_rate.
     bindE (bindE (require_int yaw_rate_nrad_per_s ''yaw_rate_nrad_per_s'') nano_scaled) (\<lambda>yaw_rate.
     bindE (guardE (\<not> deactivation \<le> activation) (MetricUnavailable ''odometry-drift interval is invalid'')) (\<lambda>_.
     bindE (guardE (\<not> (f_le (position_tolerance_m limits) (Fin 0) \<or> f_le (yaw_tolerance_rad limits) (Fin 0)
                      \<or> final_active_gap_ns limits \<le> 0))
       (MetricValueError ''odometry-drift tolerances must be positive'')) (\<lambda>_.
     bindE (ordered_index raw_odometry ''raw_odometry'') (\<lambda>raw.
     bindE (ordered_index validated_odometry ''validated_odometry'') (\<lambda>validated.
     bindE (ordered_index odom_to_base_tf ''odom_to_base_tf'') (\<lambda>transforms.
     drift_verdict pf \<lparr>str_raw = raw, str_validated = validated, str_tf = transforms\<rparr> activation deactivation x_rate yaw_rate
       limits)))))))))"

section \<open>What an accepted drift analysis proves\<close>

definition stamps_of :: "sample list \<Rightarrow> int set" where
  "stamps_of ss = stamp_of ` set ss"

lemma index_loop_Inr:
  assumes "index_loop name i previous acc ss = Inr xs"
  shows "xs = acc @ map (\<lambda>s. (stamp_of s, s)) ss"
  using assms
proof (induction ss arbitrary: i previous acc)
  case (Cons s ss)
  then obtain t q where "dget s ''stamp_ns'' = PInt t" "index_loop name (i + 1) (Some (t, q)) (acc @ [(t, s)]) ss = Inr xs"
    by (auto simp: err_simps)
  with Cons.IH show ?case using int_stampI by fastforce
qed simp

lemma ordered_index_stamps: "ordered_index ss name = Inr xs \<Longrightarrow> fst ` set xs = stamps_of ss"
  using index_loop_Inr by (force simp: ordered_index_def stamps_of_def)

text \<open>The two identity checks hold at a stamp, and the measured offset is within the tolerances of the drift
  expected at that stamp.\<close>

definition drift_as_configured ::
  "platform \<Rightarrow> drift_streams \<Rightarrow> int \<Rightarrow> pyfloat \<Rightarrow> pyfloat \<Rightarrow> drift_limits \<Rightarrow> int \<Rightarrow> bool" where
  "drift_as_configured pf st activation x_rate yaw_rate limits t \<longleftrightarrow>
     (\<exists>name m e position yaw. check_identity pf st name t = Inr () \<and> offset_at pf st name t = Inr m
        \<and> ns_seconds (t - activation) = Inr e \<and> offset_errors pf m (drift_target x_rate yaw_rate e) = Inr (position, yaw)
        \<and> \<not> f_less (position_tolerance_m limits) position \<and> \<not> f_less (yaw_tolerance_rad limits) yaw)"

lemma active_sample_Inr:
  assumes "active_sample pf st a x_rate yaw_rate t = Inr s"
  shows "\<exists>name m e. check_identity pf st name t = Inr () \<and> offset_at pf st name t = Inr m \<and> ns_seconds (t - a) = Inr e
    \<and> offset_errors pf m (drift_target x_rate yaw_rate e) = Inr (ds_position_m s, ds_yaw_rad s)"
proof -
  define name where "name = ''active['' @ show_int t @ '']''"
  from assms obtain m e where "check_identity pf st name t = Inr ()" "offset_at pf st name t = Inr m" "ns_seconds (t - a) = Inr e"
      "offset_errors pf m (drift_target x_rate yaw_rate e) = Inr (ds_position_m s, ds_yaw_rad s)"
    unfolding active_sample_def Let_def name_def [symmetric] by (auto simp: bindE_Inr_iff)
  then show ?thesis by blast
qed

lemma active_samples_Inr:
  assumes "active_samples pf st a d x_rate yaw_rate limits = Inr samples"
  shows "samples \<noteq> []" "sort (filter (\<lambda>t. a \<le> t \<and> t < d) (map fst (str_raw st))) = map ds_stamp_ns samples"
    "sort (filter (\<lambda>t. a \<le> t \<and> t < d) (map fst (str_validated st))) = map ds_stamp_ns samples"
    "\<And>t. t \<in> ds_stamp_ns ` set samples \<Longrightarrow> t \<in> fst ` set (str_tf st) \<and> drift_as_configured pf st a x_rate yaw_rate limits t"
proof -
  let ?in = "\<lambda>t. a \<le> t \<and> t < d"
  from assms obtain ts where ts: "ts = sort (filter ?in (map fst (str_raw st)))" "ts \<noteq> []"
      "ts = sort (filter ?in (map fst (str_validated st)))" "\<not> list_ex (\<lambda>t. t \<notin> fst ` set (str_tf st)) ts"
    and tr: "traverse (active_sample pf st a x_rate yaw_rate) ts = Inr samples"
    and ok: "\<not> list_ex (\<lambda>s. f_less (position_tolerance_m limits) (ds_position_m s)
        \<or> f_less (yaw_tolerance_rad limits) (ds_yaw_rad s)) samples"
    unfolding active_samples_def Let_def by (auto simp: err_simps)
  have all: "list_all2 (\<lambda>t s. active_sample pf st a x_rate yaw_rate t = Inr s) ts samples" using tr by (simp add: traverse_Inr_iff)
  have stamp: "ds_stamp_ns s = t" if "active_sample pf st a x_rate yaw_rate t = Inr s" for t s
    using that by (auto simp: active_sample_def Let_def err_simps)
  have "map ds_stamp_ns samples = ts" using all by (induction rule: list_all2_induct) (simp_all add: stamp)
  with ts show "samples \<noteq> []" "sort (filter ?in (map fst (str_raw st))) = map ds_stamp_ns samples"
    "sort (filter ?in (map fst (str_validated st))) = map ds_stamp_ns samples" by auto
  fix t assume "t \<in> ds_stamp_ns ` set samples"
  then obtain s where s: "s \<in> set samples" "t = ds_stamp_ns s" by auto
  have "\<forall>s \<in> set samples. active_sample pf st a x_rate yaw_rate (ds_stamp_ns s) = Inr s"
    using all by (induction rule: list_all2_induct) (auto simp: stamp)
  with s have "active_sample pf st a x_rate yaw_rate t = Inr s" by simp
  from active_sample_Inr [OF this] obtain name m e where "check_identity pf st name t = Inr ()" "offset_at pf st name t = Inr m"
      "ns_seconds (t - a) = Inr e" "offset_errors pf m (drift_target x_rate yaw_rate e) = Inr (ds_position_m s, ds_yaw_rad s)" by blast
  moreover have "\<not> f_less (position_tolerance_m limits) (ds_position_m s)" "\<not> f_less (yaw_tolerance_rad limits) (ds_yaw_rad s)"
    using ok s(1) by (auto simp: list_ex_iff)
  ultimately have "drift_as_configured pf st a x_rate yaw_rate limits t" unfolding drift_as_configured_def by blast
  moreover have "t \<in> fst ` set (str_tf st)"
    using ts(4) s \<open>map ds_stamp_ns samples = ts\<close> by (auto simp: list_ex_iff)
  ultimately show "t \<in> fst ` set (str_tf st) \<and> drift_as_configured pf st a x_rate yaw_rate limits t" by simp
qed

lemma find_sorted_least:
  "List.find (\<lambda>t. t \<ge> d) (sort xs) = Some t \<Longrightarrow> t \<in> set xs \<and> d \<le> t \<and> (\<forall>u \<in> set xs. d \<le> u \<longrightarrow> t \<le> (u :: int))"
proof -
  have "List.find (\<lambda>t. t \<ge> d) ys = Some t \<Longrightarrow> sorted ys \<Longrightarrow> t \<in> set ys \<and> d \<le> t \<and> (\<forall>u \<in> set ys. d \<le> u \<longrightarrow> t \<le> u)" for ys
    by (induction ys) (auto split: if_splits)
  from this [of "sort xs"] show "List.find (\<lambda>t. t \<ge> d) (sort xs) = Some t \<Longrightarrow> ?thesis" by simp
qed

lemma restored_sample_Inr:
  assumes "restored_sample pf st d = Inr (t, off)"
  shows "t \<in> fst ` set (str_raw st)" "d \<le> t" "\<forall>u \<in> fst ` set (str_raw st). d \<le> u \<longrightarrow> t \<le> u"
    "t \<in> fst ` set (str_validated st)" "t \<in> fst ` set (str_tf st)" "check_identity pf st ''restored'' t = Inr ()"
    "offset_at pf st ''restored'' t = Inr off" "\<not> f_less IDENTITY_TOLERANCE (m_hypot pf (off_x off) (off_y off))"
    "\<not> f_less IDENTITY_TOLERANCE (f_abs (off_yaw off))"
proof -
  let ?ts = "map fst (str_raw st)"
  obtain u where u: "List.find (\<lambda>t. t \<ge> d) (sort ?ts) = Some u" using assms by (auto simp: restored_sample_def split: option.splits)
  from assms have "u = t" and rest: "t \<in> fst ` set (str_validated st)" "t \<in> fst ` set (str_tf st)"
      "check_identity pf st ''restored'' t = Inr ()" "offset_at pf st ''restored'' t = Inr off"
      "\<not> f_less IDENTITY_TOLERANCE (m_hypot pf (off_x off) (off_y off))" "\<not> f_less IDENTITY_TOLERANCE (f_abs (off_yaw off))"
    by (auto simp: restored_sample_def u bindE_Inr_iff)
  with find_sorted_least [OF u] show "t \<in> fst ` set (str_raw st)" "d \<le> t" "\<forall>u \<in> fst ` set (str_raw st). d \<le> u \<longrightarrow> t \<le> u"
    by simp_all
  show "t \<in> fst ` set (str_validated st)" "t \<in> fst ` set (str_tf st)" "check_identity pf st ''restored'' t = Inr ()"
      "offset_at pf st ''restored'' t = Inr off" "\<not> f_less IDENTITY_TOLERANCE (m_hypot pf (off_x off) (off_y off))"
      "\<not> f_less IDENTITY_TOLERANCE (f_abs (off_yaw off))"
    by (fact rest)+
qed

lemma drift_verdict_Inr:
  assumes "drift_verdict pf st a d x_rate yaw_rate limits = Inr r"
  obtains samples where "active_samples pf st a d x_rate yaw_rate limits = Inr samples"
    "0 < d - ds_stamp_ns (List.last samples)" "d - ds_stamp_ns (List.last samples) \<le> final_active_gap_ns limits"
    "restored_sample pf st d = Inr (restored_stamp_ns r, restored_offset r)"
proof -
  from assms obtain samples t off where "active_samples pf st a d x_rate yaw_rate limits = Inr samples"
      "0 < d - ds_stamp_ns (List.last samples)" "d - ds_stamp_ns (List.last samples) \<le> final_active_gap_ns limits"
      "restored_sample pf st d = Inr (t, off)" "restored_stamp_ns r = t" "restored_offset r = off"
    unfolding drift_verdict_def Let_def by (auto simp: bindE_Inr_iff)
  then show thesis by (intro that) simp_all
qed

lemma analyze_odometry_drift_Inr:
  assumes "analyze_odometry_drift pf raw validated tf (PInt a) (PInt d) (PInt x) (PInt yaw) limits = Inr r"
  obtains st x_rate yaw_rate where "ordered_index raw ''raw_odometry'' = Inr (str_raw st)"
    "ordered_index validated ''validated_odometry'' = Inr (str_validated st)" "ordered_index tf ''odom_to_base_tf'' = Inr (str_tf st)"
    "nano_scaled x = Inr x_rate" "nano_scaled yaw = Inr yaw_rate" "drift_verdict pf st a d x_rate yaw_rate limits = Inr r"
proof -
  from assms obtain raws vals tfs x_rate yaw_rate where
      "ordered_index raw ''raw_odometry'' = Inr raws" "ordered_index validated ''validated_odometry'' = Inr vals"
      "ordered_index tf ''odom_to_base_tf'' = Inr tfs" "nano_scaled x = Inr x_rate" "nano_scaled yaw = Inr yaw_rate"
      "drift_verdict pf \<lparr>str_raw = raws, str_validated = vals, str_tf = tfs\<rparr> a d x_rate yaw_rate limits = Inr r"
    unfolding analyze_odometry_drift_def by (auto simp: bindE_Inr_iff)
  then show thesis by (intro that [of "\<lparr>str_raw = raws, str_validated = vals, str_tf = tfs\<rparr>"]) simp_all
qed

text \<open>C40. The odometry-drift gate: when the analysis returns, raw and validated odometry have the same stamps in
  the fault interval; at each of them, TF has a sample that agrees with the validated odometry and
  the measured offset is within the tolerances of the configured drift; some of these stamps is
  within the allowed gap of the end of the interval; and at the first raw stamp after it the
  validated odometry is the raw one again, up to the identity tolerance.\<close>

theorem odometry_drift_sound:
  assumes "analyze_odometry_drift pf raw validated tf (PInt a) (PInt d) (PInt x) (PInt yaw) limits = Inr r"
  shows "\<exists>st x_rate yaw_rate. ordered_index raw ''raw_odometry'' = Inr (str_raw st)
    \<and> ordered_index validated ''validated_odometry'' = Inr (str_validated st)
    \<and> ordered_index tf ''odom_to_base_tf'' = Inr (str_tf st) \<and> nano_scaled x = Inr x_rate \<and> nano_scaled yaw = Inr yaw_rate
    \<and> (\<forall>t. a \<le> t \<and> t < d \<longrightarrow> (t \<in> stamps_of raw \<longleftrightarrow> t \<in> stamps_of validated))
    \<and> (\<forall>t \<in> stamps_of raw. a \<le> t \<and> t < d \<longrightarrow> t \<in> stamps_of tf \<and> drift_as_configured pf st a x_rate yaw_rate limits t)
    \<and> (\<exists>t \<in> stamps_of raw. a \<le> t \<and> t < d \<and> d - t \<le> final_active_gap_ns limits)
    \<and> restored_stamp_ns r \<in> stamps_of raw \<inter> stamps_of validated \<inter> stamps_of tf \<and> d \<le> restored_stamp_ns r
    \<and> (\<forall>t \<in> stamps_of raw. d \<le> t \<longrightarrow> restored_stamp_ns r \<le> t)
    \<and> check_identity pf st ''restored'' (restored_stamp_ns r) = Inr ()
    \<and> offset_at pf st ''restored'' (restored_stamp_ns r) = Inr (restored_offset r)
    \<and> \<not> f_less IDENTITY_TOLERANCE (m_hypot pf (off_x (restored_offset r)) (off_y (restored_offset r)))
    \<and> \<not> f_less IDENTITY_TOLERANCE (f_abs (off_yaw (restored_offset r)))"
proof -
  from assms obtain st x_rate yaw_rate where
      idx: "ordered_index raw ''raw_odometry'' = Inr (str_raw st)"
        "ordered_index validated ''validated_odometry'' = Inr (str_validated st)" "ordered_index tf ''odom_to_base_tf'' = Inr (str_tf st)"
    and rate: "nano_scaled x = Inr x_rate" "nano_scaled yaw = Inr yaw_rate"
    and dv: "drift_verdict pf st a d x_rate yaw_rate limits = Inr r"
    by (rule analyze_odometry_drift_Inr)
  from dv obtain samples where act: "active_samples pf st a d x_rate yaw_rate limits = Inr samples"
    and gap: "0 < d - ds_stamp_ns (List.last samples)" "d - ds_stamp_ns (List.last samples) \<le> final_active_gap_ns limits"
    and res: "restored_sample pf st d = Inr (restored_stamp_ns r, restored_offset r)"
    by (rule drift_verdict_Inr)
  note stamps = ordered_index_stamps [OF idx(1)] ordered_index_stamps [OF idx(2)] ordered_index_stamps [OF idx(3)]
  note as = active_samples_Inr [OF act] and rs = restored_sample_Inr [OF res]
  have "ds_stamp_ns ` set samples = {t \<in> stamps_of raw. a \<le> t \<and> t < d}"
    using arg_cong [OF as(2), of set] by (auto simp: stamps(1) [symmetric])
  moreover have "ds_stamp_ns ` set samples = {t \<in> stamps_of validated. a \<le> t \<and> t < d}"
    using arg_cong [OF as(3), of set] by (auto simp: stamps(2) [symmetric])
  moreover have "ds_stamp_ns (List.last samples) \<in> ds_stamp_ns ` set samples" using as(1) by simp
  ultimately show ?thesis using idx rate as(4) gap(2) rs unfolding stamps
    by (intro exI [of _ st] exI [of _ x_rate] exI [of _ yaw_rate]) auto
qed
section \<open>A concrete capture\<close>

definition plain_platform :: platform where
  "plain_platform = \<lparr>m_sin = (\<lambda>x. Fin 0), m_cos = (\<lambda>x. Fin 1), m_hypot = (\<lambda>x y. f_add (f_abs x) (f_abs y)),
     m_sqrt = (\<lambda>x. x), m_square = (\<lambda>x. x)\<rparr>"

definition odom_at :: "int \<Rightarrow> sample" where
  "odom_at t = [(''stamp_ns'', PInt t), (''collector_sequence'', PInt t), (''frame_id'', PStr ''odom''),
     (''child_frame_id'', PStr ''base_footprint''), (''x_m'', PInt 0), (''y_m'', PInt 0), (''yaw_rad'', PInt 0),
     (''nonplanar_integrity'', PDict []), (''orientation_xyzw'', PList [PInt 0, PInt 0, PInt 0, PInt 1])]"

definition plain_limits :: drift_limits where
  "plain_limits = \<lparr>position_tolerance_m = Fin 1, yaw_tolerance_rad = Fin 1, final_active_gap_ns = FINAL_ACTIVE_GAP_NS\<rparr>"

lemma normalize_0: "normalize_angle (PFloat (Fin 0)) = Inr (Fin 0)"
proof -
  have "fl PI = Fin PI" using fl_dyadic [of 884279719003555 48] by (simp add: PI_def)
  moreover have "rat_trunc (PI / (2 * PI)) = 0" "\<not> PI < 0" by (simp_all add: PI_def rat_trunc_def floor_eq_iff)
  ultimately show ?thesis by (simp add: normalize_angle_def require_finite_def f_mod_def f_sub_def Let_def)
qed

definition still :: offset where "still = \<lparr>off_x = Fin 0, off_y = Fin 0, off_yaw = Fin 0\<rparr>"

lemma identity_tolerance: "\<not> f_less IDENTITY_TOLERANCE (Fin 0)"
  using fl_ratio_pos [of 1 1000000000] by (auto simp: IDENTITY_TOLERANCE_def)

lemma pose3_odom: "pose3 (odom_at t) name = Inr (Fin 0, Fin 0, Fin 0)"
  by (simp add: pose3_def odom_at_def require_finite_def)

definition quiet_streams :: drift_streams where
  "quiet_streams = \<lparr>str_raw = [(5, odom_at 5), (10, odom_at 10)], str_validated = [(5, odom_at 5), (10, odom_at 10)],
     str_tf = [(5, odom_at 5), (10, odom_at 10)]\<rparr>"

lemma quiet_identity:
  assumes "t = 5 \<or> t = 10"
  shows "check_identity plain_platform quiet_streams name t = Inr ()" "offset_at plain_platform quiet_streams name t = Inr still"
proof -
  have at: "sample_at (str_raw quiet_streams) t = odom_at t" "sample_at (str_validated quiet_streams) t = odom_at t"
      "sample_at (str_tf quiet_streams) t = odom_at t" using assms by (auto simp: quiet_streams_def sample_at_def)
  have "require_nonplanar_identity plain_platform (odom_at t) (odom_at t) name = Inr ()"
    using identity_tolerance
    by (simp add: require_nonplanar_identity_def odom_at_def number_instance_def require_finite_def plain_platform_def py_sum_def
        f_sub_def f_le_def)
  moreover have "require_tf_identity plain_platform (odom_at t) (odom_at t) name = Inr ()"
    using identity_tolerance normalize_0
    by (simp add: require_tf_identity_def pose3_odom plain_platform_def f_sub_def Let_def) (simp add: odom_at_def)
  ultimately show "check_identity plain_platform quiet_streams name t = Inr ()" by (simp add: check_identity_def at)
  show "offset_at plain_platform quiet_streams name t = Inr still"
    using normalize_0 by (simp add: offset_at_def at measured_offset_def pose3_odom plain_platform_def f_sub_def still_def Let_def)
qed

lemma quiet_errors: "offset_errors plain_platform still (drift_target (Fin 0) (Fin 0) (Fin q)) = Inr (Fin 0, Fin 0)"
  using normalize_0 by (simp add: offset_errors_def still_def drift_target_def plain_platform_def f_sub_def Let_def)

lemma quiet_verdict: "\<exists>r. drift_verdict plain_platform quiet_streams 0 10 (Fin 0) (Fin 0) plain_limits = Inr r"
proof -
  obtain q q' where q: "ns_seconds 5 = Inr (Fin q)" "ns_seconds 10 = Inr (Fin q')"
    using fl_ratio_pos [of 5 1000000000] fl_ratio_pos [of 10 1000000000] by (auto simp: ns_seconds_def int_truediv_def)
  have "active_sample plain_platform quiet_streams 0 (Fin 0) (Fin 0) 5 =
      Inr \<lparr>ds_expected = drift_target (Fin 0) (Fin 0) (Fin q), ds_measured = still, ds_position_m = Fin 0, ds_yaw_rad = Fin 0, ds_stamp_ns = 5\<rparr>"
    using q by (simp add: active_sample_def Let_def quiet_identity quiet_errors)
  then have "active_samples plain_platform quiet_streams 0 10 (Fin 0) (Fin 0) plain_limits =
      Inr [\<lparr>ds_expected = drift_target (Fin 0) (Fin 0) (Fin q), ds_measured = still, ds_position_m = Fin 0, ds_yaw_rad = Fin 0, ds_stamp_ns = 5\<rparr>]"
    by (simp add: active_samples_def quiet_streams_def plain_limits_def)
  moreover have "restored_sample plain_platform quiet_streams 10 = Inr (10, still)"
    using quiet_identity [of 10] identity_tolerance
    by (simp add: restored_sample_def) (simp add: quiet_streams_def still_def plain_platform_def)
  ultimately show ?thesis using q by (simp add: drift_verdict_def quiet_errors plain_limits_def FINAL_ACTIVE_GAP_NS_def)
qed

theorem odometry_drift_sound_witness:
  "\<exists>r. analyze_odometry_drift plain_platform [odom_at 5, odom_at 10] [odom_at 5, odom_at 10] [odom_at 5, odom_at 10]
       (PInt 0) (PInt 10) (PInt 0) (PInt 0) plain_limits = Inr r \<and> 10 \<le> restored_stamp_ns r"
proof -
  have index: "ordered_index [odom_at 5, odom_at 10] name = Inr [(5, odom_at 5), (10, odom_at 10)]" for name
    by (simp add: ordered_index_def odom_at_def)
  have rate: "nano_scaled 0 = Inr (Fin 0)"
    using fl_ratio_pos [of 1 1000000000] by (auto simp: nano_scaled_def)
  have "\<exists>r. analyze_odometry_drift plain_platform [odom_at 5, odom_at 10] [odom_at 5, odom_at 10] [odom_at 5, odom_at 10]
       (PInt 0) (PInt 10) (PInt 0) (PInt 0) plain_limits = Inr r"
    using quiet_verdict
    by (simp add: analyze_odometry_drift_def index rate quiet_streams_def [symmetric])
      (simp add: plain_limits_def FINAL_ACTIVE_GAP_NS_def f_le_def)
  then show ?thesis using odometry_drift_sound by blast
qed

end
