(* ===== verification/Startup_Trigger.thy ===== *)
theory Startup_Trigger
  imports Exec_Monad Metrics_Geometry
begin

text \<open>
  The trigger that starts the Nav2 lifecycle manager (\<open>robotest_navigation/scripts/lifecycle_startup_trigger.py\<close>): names,
  configuration, the three polling phases of \<open>trigger_startup\<close>, the exit codes of \<open>main\<close> and the result document. The
  clock, the service client, the executor and the process table are the arguments the source passes around; every call
  to them is written to a log, so that the theorems can speak about what was called, with which answer, in which order.
  The protocol of the file is the automaton \<open>protocol_step\<close>, and the main theorem says that every log is one of its runs.
\<close>

section \<open>Names and configuration\<close>

definition EXIT_SUCCESS :: int where "EXIT_SUCCESS = 0"
definition EXIT_INVALID_CONFIGURATION :: int where "EXIT_INVALID_CONFIGURATION = 2"
definition EXIT_WATCH_PROCESS_ENDED :: int where "EXIT_WATCH_PROCESS_ENDED = 3"
definition EXIT_SERVICE_TIMEOUT :: int where "EXIT_SERVICE_TIMEOUT = 4"
definition EXIT_RESPONSE_TIMEOUT :: int where "EXIT_RESPONSE_TIMEOUT = 5"
definition EXIT_STARTUP_REJECTED :: int where "EXIT_STARTUP_REJECTED = 6"
definition EXIT_RUNTIME_ERROR :: int where "EXIT_RUNTIME_ERROR = 7"
definition EXIT_INTERRUPTED :: int where "EXIT_INTERRUPTED = 130"


definition FAILURE_KIND_BY_EXIT_CODE :: "(int \<times> string) list" where
  "FAILURE_KIND_BY_EXIT_CODE =
     [(EXIT_INVALID_CONFIGURATION, ''invalid_configuration''), (EXIT_WATCH_PROCESS_ENDED, ''watch_process_ended''),
      (EXIT_SERVICE_TIMEOUT, ''service_timeout''), (EXIT_RESPONSE_TIMEOUT, ''response_timeout''),
      (EXIT_STARTUP_REJECTED, ''startup_rejected''), (EXIT_RUNTIME_ERROR, ''runtime_error''),
      (EXIT_INTERRUPTED, ''interrupted'')]"

text \<open>What the platform and ROS may raise, and what the trigger raises.\<close>

datatype env_exn = EnvValueError string | KeyboardInterrupt | EnvException string string

datatype startup_exn = StartupError string int | ConfigError string | FromEnv env_exn

record startup_config =
  service_name :: string
  discovery_grace_sec :: pyfloat
  service_timeout_sec :: pyfloat
  response_timeout_sec :: pyfloat
  poll_period_sec :: pyfloat
  watch_pid :: "int option"

definition positive_finite :: "pyfloat \<Rightarrow> bool" where
  "positive_finite x = (f_isfinite x \<and> \<not> f_le x (Fin 0))"

text \<open>\<open>StartupConfig.__post_init__\<close>\<close>

definition check_config :: "startup_config \<Rightarrow> startup_exn + startup_config" where
  "check_config c =
     bindE (guardE (take 1 (service_name c) = ''/'') (ConfigError ''service_name must be absolute'')) (\<lambda>_.
     bindE (traverse (\<lambda>(name, x). guardE (positive_finite x)
         (ConfigError (name @ '' must be finite and greater than zero'')))
       [(''discovery_grace_sec'', discovery_grace_sec c), (''service_timeout_sec'', service_timeout_sec c),
        (''response_timeout_sec'', response_timeout_sec c), (''poll_period_sec'', poll_period_sec c)]) (\<lambda>_.
     bindE (guardE (case watch_pid c of None \<Rightarrow> True | Some pid \<Rightarrow> \<not> pid \<le> 0)
       (ConfigError ''watch_pid must be a positive process identifier'')) (\<lambda>_.
     Inr c)))"

text \<open>\<open>re.fullmatch('[A-Za-z_][A-Za-z0-9_]*')\<close>, \<open>s.strip()\<close> on ASCII text, \<open>s.strip('/')\<close> and \<open>s.split('/')\<close>.\<close>

definition name_start :: "char \<Rightarrow> bool" where
  "name_start c = (let n = of_char c :: int in 65 \<le> n \<and> n \<le> 90 \<or> 97 \<le> n \<and> n \<le> 122 \<or> n = 95)"

definition ros_name_token :: "string \<Rightarrow> bool" where
  "ros_name_token s = (case s of [] \<Rightarrow> False | c # cs \<Rightarrow> name_start c \<and> list_all (\<lambda>d. name_start d \<or> is_digit d) cs)"

definition strip_chars :: "(char \<Rightarrow> bool) \<Rightarrow> string \<Rightarrow> string" where
  "strip_chars p s = rev (dropWhile p (rev (dropWhile p s)))"

fun split_slash :: "string \<Rightarrow> string \<Rightarrow> string list" where
  "split_slash current [] = [current]"
| "split_slash current (c # cs) =
     (if c = CHR ''/'' then current # split_slash [] cs else split_slash (current @ [c]) cs)"

definition normalize_namespace :: "string \<Rightarrow> startup_exn + string" where
  "normalize_namespace namespace =
     (let stripped = strip_chars space_char namespace in
      if stripped = [] \<or> stripped = ''/'' then Inr ''/''
      else
        let tokens = split_slash [] (strip_chars (\<lambda>c. c = CHR ''/'') stripped) in
        bindE (guardE (list_all ros_name_token tokens) (ConfigError (''invalid ROS namespace: '' @ str_repr namespace))) (\<lambda>_.
        Inr (''/'' @ join_with ''/'' tokens)))"

definition lifecycle_manager_service :: "string \<Rightarrow> string \<Rightarrow> startup_exn + string" where
  "lifecycle_manager_service namespace manager_node =
     bindE (normalize_namespace namespace) (\<lambda>ns.
     let manager = strip_chars space_char manager_node in
     bindE (guardE (ros_name_token manager)
       (ConfigError (''invalid lifecycle manager node name: '' @ str_repr manager_node))) (\<lambda>_.
     Inr ((if ns = ''/'' then [] else ns) @ ''/'' @ manager @ ''/manage_nodes'')))"

section \<open>The calls\<close>

record 'w startup_env =
  STARTUP :: int
  monotonic :: "'w \<Rightarrow> pyfloat \<times> 'w"
  service_is_ready :: "'w \<Rightarrow> (env_exn + bool) \<times> 'w"
  alive :: "int \<Rightarrow> 'w \<Rightarrow> (env_exn + bool) \<times> 'w"
  spin_once :: "pyfloat \<Rightarrow> 'w \<Rightarrow> (env_exn + unit) \<times> 'w"
  call_async :: "int \<Rightarrow> 'w \<Rightarrow> (env_exn + unit) \<times> 'w"
  future_done :: "'w \<Rightarrow> (env_exn + bool) \<times> 'w"
  future_cancel :: "'w \<Rightarrow> (env_exn + unit) \<times> 'w"
  future_cancelled :: "'w \<Rightarrow> (env_exn + bool) \<times> 'w"
  future_exception :: "'w \<Rightarrow> (env_exn + string option) \<times> 'w"
  future_result :: "'w \<Rightarrow> (env_exn + bool option) \<times> 'w"

text \<open>\<open>SawBudget\<close> is the clock reading of \<open>_bounded_spin\<close>, \<open>SawClock\<close> every other one. \<open>future_result\<close> gives the field
  \<open>success\<close> of the response, if there is a response.\<close>

datatype startup_call =
    SawClock pyfloat
  | SawBudget pyfloat
  | SawReady bool
  | SawAlive bool
  | Spun pyfloat
  | Sent int
  | SawDone bool
  | SawCancelled bool
  | SawException bool
  | SawResult bool
  | Cancelled

record 'w startup_state =
  world :: 'w
  calls :: "startup_call list"

type_synonym ('w, 'a) sact = "('w startup_state, startup_exn, 'a) act"

definition asked :: "('w \<Rightarrow> (env_exn + 'a) \<times> 'w) \<Rightarrow> ('a \<Rightarrow> startup_call) \<Rightarrow> ('w, 'a) sact" where
  "asked f tag s =
     (case f (world s) of
        (Inl e, w) \<Rightarrow> Some (Inl (FromEnv e), s\<lparr>world := w\<rparr>)
      | (Inr a, w) \<Rightarrow> Some (Inr a, s\<lparr>world := w, calls := calls s @ [tag a]\<rparr>))"

text \<open>A call that counts as made even when it raises.\<close>

definition made :: "('w \<Rightarrow> (env_exn + 'a) \<times> 'w) \<Rightarrow> startup_call \<Rightarrow> ('w, 'a) sact" where
  "made f call s =
     (case f (world s) of
        (Inl e, w) \<Rightarrow> Some (Inl (FromEnv e), s\<lparr>world := w, calls := calls s @ [call]\<rparr>)
      | (Inr a, w) \<Rightarrow> Some (Inr a, s\<lparr>world := w, calls := calls s @ [call]\<rparr>))"

definition reading :: "'w startup_env \<Rightarrow> (pyfloat \<Rightarrow> startup_call) \<Rightarrow> ('w, pyfloat) sact" where
  "reading E tag = asked (\<lambda>w. case monotonic E w of (t, w') \<Rightarrow> (Inr t, w')) tag"

definition check_watch :: "'w startup_env \<Rightarrow> startup_config \<Rightarrow> ('w, unit) sact" where
  "check_watch E c =
     (case watch_pid c of
        None \<Rightarrow> retX ()
      | Some pid \<Rightarrow>
          bindX (asked (alive E pid) SawAlive) (\<lambda>is_alive.
          raise_if (\<not> is_alive)
            (StartupError (''watched process '' @ show_int pid @ '' ended before STARTUP completed'') EXIT_WATCH_PROCESS_ENDED)))"

definition bounded_spin :: "'w startup_env \<Rightarrow> pyfloat \<Rightarrow> startup_config \<Rightarrow> ('w, unit) sact" where
  "bounded_spin E deadline c =
     bindX (reading E SawBudget) (\<lambda>now.
     let remaining = f_sub deadline now in
     if f_less (Fin 0) remaining
     then (let t = f_min (poll_period_sec c) remaining in asked (spin_once E t) (\<lambda>_. Spun t))
     else retX ())"

text \<open>\<open>f'{x:.3f}'\<close>\<close>

definition fixed3 :: "pyfloat \<Rightarrow> string" where
  "fixed3 x =
     (case x of
        Fin q \<Rightarrow>
          (let ds = show_int (round_half_even (\<bar>q\<bar> * 1000)); padded = replicate (4 - length ds) (CHR ''0'') @ ds
           in (if q < 0 then ''-'' else []) @ take (length padded - 3) padded @ ''.'' @ drop (length padded - 3) padded)
      | PosInf \<Rightarrow> ''inf'' | NegInf \<Rightarrow> ''-inf'' | NaN \<Rightarrow> ''nan'')"

section \<open>\<open>trigger_startup\<close>\<close>

definition discovery_body :: "'w startup_env \<Rightarrow> startup_config \<Rightarrow> pyfloat \<Rightarrow> unit \<Rightarrow> ('w, unit + unit) sact" where
  "discovery_body E c service_deadline _ =
     bindX (asked (service_is_ready E) SawReady) (\<lambda>ready.
     if ready then retX (Inr ())
     else
       thenX (check_watch E c)
       (bindX (reading E SawClock) (\<lambda>now.
        thenX (raise_if (f_le service_deadline now)
          (StartupError (''timed out discovering '' @ service_name c @ '' after '' @ fixed3 (service_timeout_sec c) @ ''s'')
            EXIT_SERVICE_TIMEOUT))
        (thenX (bounded_spin E service_deadline c) (retX (Inl ()))))))"

definition grace_body :: "'w startup_env \<Rightarrow> startup_config \<Rightarrow> pyfloat \<Rightarrow> unit \<Rightarrow> ('w, unit + unit) sact" where
  "grace_body E c grace_deadline _ =
     bindX (reading E SawClock) (\<lambda>now.
     if \<not> f_less now grace_deadline then retX (Inr ())
     else
       thenX (check_watch E c)
       (bindX (asked (service_is_ready E) SawReady) (\<lambda>ready.
        thenX (raise_if (\<not> ready)
          (StartupError (service_name c @ '' disappeared during the '' @ fixed3 (discovery_grace_sec c) @ ''s discovery grace'')
            EXIT_SERVICE_TIMEOUT))
        (thenX (bounded_spin E grace_deadline c) (retX (Inl ()))))))"

definition suppressed_cancel :: "'w startup_env \<Rightarrow> ('w, unit) sact" where
  "suppressed_cancel E =
     catchX (made (future_cancel E) Cancelled)
       (\<lambda>e. case e of FromEnv KeyboardInterrupt \<Rightarrow> raiseX e | _ \<Rightarrow> retX ())"

definition response_body :: "'w startup_env \<Rightarrow> startup_config \<Rightarrow> pyfloat \<Rightarrow> unit \<Rightarrow> ('w, unit + unit) sact" where
  "response_body E c response_deadline _ =
     bindX (asked (future_done E) SawDone) (\<lambda>finished.
     if finished then retX (Inr ())
     else
       thenX (check_watch E c)
       (bindX (reading E SawClock) (\<lambda>now.
        thenX
          (if f_le response_deadline now
           then thenX (suppressed_cancel E)
             (raiseX (StartupError (''timed out waiting '' @ fixed3 (response_timeout_sec c) @ ''s for '' @ service_name c
               @ '' STARTUP response'') EXIT_RESPONSE_TIMEOUT))
           else retX ())
        (thenX (bounded_spin E response_deadline c) (retX (Inl ()))))))"

record startup_result =
  res_service_name :: string
  res_elapsed_wall_sec :: pyfloat
  res_discovery_grace_sec :: pyfloat
  res_command :: int

definition await_service :: "'w startup_env \<Rightarrow> startup_config \<Rightarrow> pyfloat \<Rightarrow> ('w, unit) sact" where
  "await_service E c started_at =
     thenX (loopX (discovery_body E c (f_add started_at (service_timeout_sec c))) ())
     (bindX (reading E SawClock) (\<lambda>now.
      thenX (loopX (grace_body E c (f_add now (discovery_grace_sec c))) ())
      (thenX (check_watch E c)
       (bindX (asked (service_is_ready E) SawReady) (\<lambda>ready.
        raise_if (\<not> ready)
          (StartupError (service_name c @ '' was unavailable at STARTUP dispatch'') EXIT_SERVICE_TIMEOUT))))))"

definition await_response :: "'w startup_env \<Rightarrow> startup_config \<Rightarrow> ('w, unit) sact" where
  "await_response E c =
     bindX (reading E SawClock) (\<lambda>now.
     thenX (loopX (response_body E c (f_add now (response_timeout_sec c))) ())
     (bindX (asked (future_cancelled E) SawCancelled) (\<lambda>cancelled.
      thenX (raise_if cancelled (StartupError ''STARTUP response future was cancelled'' EXIT_RUNTIME_ERROR))
      (bindX (asked (future_exception E) (\<lambda>e. SawException (e \<noteq> None))) (\<lambda>failure.
       thenX (case failure of
                None \<Rightarrow> retX ()
              | Some text \<Rightarrow> raiseX (StartupError (''STARTUP request failed: '' @ text) EXIT_RUNTIME_ERROR))
       (bindX (asked (future_result E) (\<lambda>r. SawResult (r = Some True))) (\<lambda>response.
        raise_if (response \<noteq> Some True)
          (StartupError (service_name c @ '' rejected STARTUP'') EXIT_STARTUP_REJECTED))))))))"

definition trigger_startup :: "'w startup_env \<Rightarrow> startup_config \<Rightarrow> ('w, startup_result) sact" where
  "trigger_startup E c =
     bindX (reading E SawClock) (\<lambda>started_at.
     thenX (await_service E c started_at)
     (thenX (made (call_async E (STARTUP E)) (Sent (STARTUP E)))
     (thenX (await_response E c)
     (bindX (reading E SawClock) (\<lambda>now.
      retX \<lparr>res_service_name = service_name c, res_elapsed_wall_sec = f_sub now started_at,
            res_discovery_grace_sec = discovery_grace_sec c, res_command = STARTUP E\<rparr>)))))"

section \<open>The result document and \<open>main\<close>\<close>









record startup_options =
  opt_namespace :: string
  opt_manager_node :: string
  opt_grace :: pyfloat
  opt_service_timeout :: pyfloat
  opt_response_timeout :: pyfloat
  opt_watch_pid :: "int option"
  opt_result_json :: string




definition config_of :: "string \<Rightarrow> startup_options \<Rightarrow> startup_config" where
  "config_of name opts =
     \<lparr>service_name = name, discovery_grace_sec = opt_grace opts, service_timeout_sec = opt_service_timeout opts,
      response_timeout_sec = opt_response_timeout opts, poll_period_sec = fl (5 / 100), watch_pid = opt_watch_pid opts\<rparr>"

definition service_of :: "startup_options \<Rightarrow> startup_exn + string" where
  "service_of opts = lifecycle_manager_service (opt_namespace opts) (opt_manager_node opts)"





section \<open>The protocol\<close>

datatype phase =
    Starting
  | Discovering pyfloat
  | Found
  | Grace pyfloat
  | GraceOver
  | Dispatch
  | Requested
  | Waiting pyfloat
  | Answered
  | Accepted
  | Failed int

definition watch_step :: "phase \<Rightarrow> startup_call \<Rightarrow> phase option" where
  "watch_step p e =
     (case e of
        SawAlive b \<Rightarrow> Some (if b then p else Failed EXIT_WATCH_PROCESS_ENDED)
      | SawBudget t \<Rightarrow> Some p
      | Spun t \<Rightarrow> Some p
      | _ \<Rightarrow> None)"

text \<open>\<open>watch_step\<close> is what every polling phase allows between its own calls.\<close>

primrec protocol_step :: "startup_config \<Rightarrow> phase \<Rightarrow> startup_call \<Rightarrow> phase option" where
  "protocol_step c Starting e =
     (case e of SawClock t \<Rightarrow> Some (Discovering (f_add t (service_timeout_sec c))) | _ \<Rightarrow> None)"
| "protocol_step c (Discovering d) e =
     (case e of
        SawReady b \<Rightarrow> Some (if b then Found else Discovering d)
      | SawClock t \<Rightarrow> Some (if f_le d t then Failed EXIT_SERVICE_TIMEOUT else Discovering d)
      | _ \<Rightarrow> watch_step (Discovering d) e)"
| "protocol_step c Found e =
     (case e of SawClock t \<Rightarrow> Some (Grace (f_add t (discovery_grace_sec c))) | _ \<Rightarrow> None)"
| "protocol_step c (Grace d) e =
     (case e of
        SawClock t \<Rightarrow> Some (if f_less t d then Grace d else GraceOver)
      | SawReady b \<Rightarrow> Some (if b then Grace d else Failed EXIT_SERVICE_TIMEOUT)
      | _ \<Rightarrow> watch_step (Grace d) e)"
| "protocol_step c GraceOver e =
     (case e of
        SawReady b \<Rightarrow> Some (if b then Dispatch else Failed EXIT_SERVICE_TIMEOUT)
      | SawAlive b \<Rightarrow> watch_step GraceOver e
      | _ \<Rightarrow> None)"
| "protocol_step c Dispatch e = (case e of Sent n \<Rightarrow> Some Requested | _ \<Rightarrow> None)"
| "protocol_step c Requested e =
     (case e of SawClock t \<Rightarrow> Some (Waiting (f_add t (response_timeout_sec c))) | _ \<Rightarrow> None)"
| "protocol_step c (Waiting d) e =
     (case e of
        SawDone b \<Rightarrow> Some (if b then Answered else Waiting d)
      | SawClock t \<Rightarrow> Some (if f_le d t then Failed EXIT_RESPONSE_TIMEOUT else Waiting d)
      | _ \<Rightarrow> watch_step (Waiting d) e)"
| "protocol_step c Answered e =
     (case e of
        SawCancelled b \<Rightarrow> Some (if b then Failed EXIT_RUNTIME_ERROR else Answered)
      | SawException b \<Rightarrow> Some (if b then Failed EXIT_RUNTIME_ERROR else Answered)
      | SawResult b \<Rightarrow> Some (if b then Accepted else Failed EXIT_STARTUP_REJECTED)
      | _ \<Rightarrow> None)"
| "protocol_step c Accepted e = (case e of SawClock t \<Rightarrow> Some Accepted | _ \<Rightarrow> None)"
| "protocol_step c (Failed n) e =
     (case e of Cancelled \<Rightarrow> if n = EXIT_RESPONSE_TIMEOUT then Some (Failed n) else None | _ \<Rightarrow> None)"

fun protocol_run :: "startup_config \<Rightarrow> phase \<Rightarrow> startup_call list \<Rightarrow> phase option" where
  "protocol_run c p [] = Some p"
| "protocol_run c p (e # es) = (case protocol_step c p e of None \<Rightarrow> None | Some q \<Rightarrow> protocol_run c q es)"

lemma protocol_run_append:
  "protocol_run c p (es @ fs) = Option.bind (protocol_run c p es) (\<lambda>q. protocol_run c q fs)"
  by (induction es arbitrary: p) (auto split: option.splits)

definition in_phase :: "startup_config \<Rightarrow> phase \<Rightarrow> 'w startup_state \<Rightarrow> bool" where
  "in_phase c p s \<longleftrightarrow> protocol_run c Starting (calls s) = Some p"

text \<open>What holds when a call of the trigger raises: the log is still a run, an error of the trigger's own is the
  failure the protocol is in, and an exception of the environment leaves the protocol undecided, up to an interrupt while
  the request is being cancelled after the response timeout.\<close>

fun undecided :: "phase \<Rightarrow> bool" where
  "undecided Accepted = False"
| "undecided (Failed n) = False"
| "undecided _ = True"

definition raised :: "startup_config \<Rightarrow> startup_exn \<Rightarrow> 'w startup_state \<Rightarrow> bool" where
  "raised c e s \<longleftrightarrow> (\<exists>p. in_phase c p s \<and>
     (case e of
        StartupError m code \<Rightarrow> p = Failed code
      | ConfigError m \<Rightarrow> False
      | FromEnv x \<Rightarrow> undecided p \<or> p = Failed EXIT_RESPONSE_TIMEOUT \<and> x = KeyboardInterrupt))"

lemma in_phase_snoc: "in_phase c p s \<Longrightarrow> protocol_step c p e = Some q \<Longrightarrow> calls s' = calls s @ [e] \<Longrightarrow> in_phase c q s'"
  by (simp add: in_phase_def protocol_run_append)

lemma hoare_asked:
  assumes "\<And>a. protocol_step c p (tag a) = Some (q a)" and "undecided p"
  shows "hoare (in_phase c p) (asked f tag) (\<lambda>a. in_phase c (q a)) (raised c)"
  unfolding hoare_def
proof (intro allI impI)
  fix s r s' assume p: "in_phase c p s" and m: "asked f tag s = Some (r, s')"
  obtain x w where f: "f (world s) = (x, w)" by (cases "f (world s)")
  show "case r of Inl e \<Rightarrow> raised c e s' | Inr a \<Rightarrow> in_phase c (q a) s'"
  proof (cases x)
    case (Inl e)
    then show ?thesis using m f p assms(2) by (auto simp: asked_def raised_def in_phase_def)
  next
    case (Inr a)
    then show ?thesis using m f by (auto simp: asked_def intro!: in_phase_snoc [OF p assms(1)])
  qed
qed

lemma hoare_made:
  assumes "protocol_step c p call = Some q" and "undecided q"
  shows "hoare (in_phase c p) (made f call) (\<lambda>_. in_phase c q) (raised c)"
  unfolding hoare_def
proof (intro allI impI)
  fix s r s' assume p: "in_phase c p s" and m: "made f call s = Some (r, s')"
  obtain x w where f: "f (world s) = (x, w)" by (cases "f (world s)")
  have "in_phase c q s'" using m f by (cases x) (auto simp: made_def intro!: in_phase_snoc [OF p assms(1)])
  moreover have "r = Inl e \<Longrightarrow> \<exists>e'. e = FromEnv e'" for e using m f by (cases x) (auto simp: made_def)
  ultimately show "case r of Inl e \<Rightarrow> raised c e s' | Inr a \<Rightarrow> in_phase c q s'"
    using assms(2) by (cases r) (auto simp: raised_def)
qed

lemma hoare_own_error: "hoare (in_phase c (Failed code)) (raiseX (StartupError m code)) Q (raised c)"
  by (auto simp: hoare_def raised_def)

lemma hoare_own_error_if:
  "hoare (in_phase c (if b then Failed code else p)) (raise_if b (StartupError m code)) (\<lambda>_. in_phase c p) (raised c)"
  by (auto simp: hoare_def raised_def raise_if_def)

lemma hoare_reading:
  "(\<And>t. protocol_step c p (tag t) = Some (q t)) \<Longrightarrow> hoare (in_phase c p) (reading E tag) (\<lambda>t. in_phase c (q t)) (raised c)"
  by (auto simp: hoare_def reading_def asked_def in_phase_def protocol_run_append split: prod.splits)

text \<open>The phases in which the trigger polls.\<close>

definition polling :: "startup_config \<Rightarrow> phase \<Rightarrow> bool" where
  "polling c p \<longleftrightarrow> undecided p \<and>
     (\<forall>b. protocol_step c p (SawAlive b) = Some (if b then p else Failed EXIT_WATCH_PROCESS_ENDED))
     \<and> (p = GraceOver \<or> (\<forall>t. protocol_step c p (SawBudget t) = Some p \<and> protocol_step c p (Spun t) = Some p))"

lemma polling_phases: "polling c (Discovering d)" "polling c (Grace d)" "polling c GraceOver" "polling c (Waiting d)"
  by (simp_all add: polling_def watch_step_def)

lemma hoare_check_watch:
  assumes "polling c p"
  shows "hoare (in_phase c p) (check_watch E c) (\<lambda>_. in_phase c p) (raised c)"
proof (cases "watch_pid c")
  case None
  then show ?thesis by (simp add: check_watch_def hoare_ret)
next
  case (Some pid)
  have "hoare (in_phase c p) (asked (alive E pid) SawAlive)
      (\<lambda>b. in_phase c (if \<not> b then Failed EXIT_WATCH_PROCESS_ENDED else p)) (raised c)"
    using assms by (intro hoare_asked) (auto simp: polling_def)
  then show ?thesis unfolding check_watch_def Some option.case by (rule hoare_bind) (rule hoare_own_error_if)
qed

lemma hoare_bounded_spin:
  assumes "polling c p" "p \<noteq> GraceOver"
  shows "hoare (in_phase c p) (bounded_spin E d c) (\<lambda>_. in_phase c p) (raised c)"
proof -
  have "hoare (in_phase c p) (reading E SawBudget) (\<lambda>_. in_phase c p) (raised c)"
    using assms by (intro hoare_reading) (simp add: polling_def)
  then show ?thesis unfolding bounded_spin_def Let_def
    by (rule hoare_bind) (use assms in \<open>auto intro!: hoare_asked hoare_ret simp: polling_def\<close>)
qed

lemma hoare_discovery:
  "hoare (in_phase c (Discovering d)) (loopX (discovery_body E c d) ()) (\<lambda>_. in_phase c Found) (raised c)"
proof (rule hoare_loop [where I = "\<lambda>_. in_phase c (Discovering d)"])
  fix l
  have ready: "hoare (in_phase c (Discovering d)) (asked (service_is_ready E) SawReady)
      (\<lambda>b. in_phase c (if b then Found else Discovering d)) (raised c)" by (rule hoare_asked) simp_all
  have clock: "hoare (in_phase c (Discovering d)) (reading E SawClock)
      (\<lambda>t. in_phase c (if f_le d t then Failed EXIT_SERVICE_TIMEOUT else Discovering d)) (raised c)"
    by (rule hoare_reading) simp
  show "hoare (in_phase c (Discovering d)) (discovery_body E c d l)
      (\<lambda>r s. case r of Inl l' \<Rightarrow> in_phase c (Discovering d) s | Inr v \<Rightarrow> in_phase c Found s) (raised c)"
    unfolding discovery_body_def
  proof (rule hoare_bind [OF ready], rule hoare_if_cases, goal_cases)
    case 1
    then show ?case by (auto intro: hoare_ret)
  next
    case 2
    then show ?case
      by simp (intro hoare_then [OF hoare_check_watch] hoare_bind [OF clock] hoare_then [OF hoare_own_error_if]
        hoare_then [OF hoare_bounded_spin] hoare_ret polling_phases; simp)
  qed
qed

lemma hoare_grace:
  "hoare (in_phase c (Grace d)) (loopX (grace_body E c d) ()) (\<lambda>_. in_phase c GraceOver) (raised c)"
proof (rule hoare_loop [where I = "\<lambda>_. in_phase c (Grace d)"])
  fix l
  have ready: "hoare (in_phase c (Grace d)) (asked (service_is_ready E) SawReady)
      (\<lambda>b. in_phase c (if \<not> b then Failed EXIT_SERVICE_TIMEOUT else Grace d)) (raised c)" by (rule hoare_asked) simp_all
  have clock: "hoare (in_phase c (Grace d)) (reading E SawClock)
      (\<lambda>t. in_phase c (if f_less t d then Grace d else GraceOver)) (raised c)"
    by (rule hoare_reading) simp
  show "hoare (in_phase c (Grace d)) (grace_body E c d l)
      (\<lambda>r s. case r of Inl l' \<Rightarrow> in_phase c (Grace d) s | Inr v \<Rightarrow> in_phase c GraceOver s) (raised c)"
    unfolding grace_body_def
  proof (rule hoare_bind [OF clock], rule hoare_if_cases, goal_cases)
    case 1
    then show ?case by (auto intro: hoare_ret)
  next
    case 2
    then show ?case
      by simp (intro hoare_then [OF hoare_check_watch] hoare_bind [OF ready] hoare_then [OF hoare_own_error_if]
        hoare_then [OF hoare_bounded_spin] hoare_ret polling_phases; simp)
  qed
qed

lemma hoare_cancel:
  "hoare (in_phase c (Failed EXIT_RESPONSE_TIMEOUT)) (suppressed_cancel E) (\<lambda>_. in_phase c (Failed EXIT_RESPONSE_TIMEOUT)) (raised c)"
proof -
  have made: "hoare (in_phase c (Failed EXIT_RESPONSE_TIMEOUT)) (made (future_cancel E) Cancelled)
      (\<lambda>_. in_phase c (Failed EXIT_RESPONSE_TIMEOUT))
      (\<lambda>e s. in_phase c (Failed EXIT_RESPONSE_TIMEOUT) s \<and> (\<exists>x. e = FromEnv x))"
    unfolding hoare_def
    by (auto simp: made_def in_phase_def protocol_run_append split: prod.splits sum.splits)
  show ?thesis unfolding suppressed_cancel_def
    by (rule hoare_catch [OF made])
      (auto simp: hoare_def raised_def split: startup_exn.splits env_exn.splits)
qed

lemma hoare_response:
  "hoare (in_phase c (Waiting d)) (loopX (response_body E c d) ()) (\<lambda>_. in_phase c Answered) (raised c)"
proof (rule hoare_loop [where I = "\<lambda>_. in_phase c (Waiting d)"])
  fix l
  have finished: "hoare (in_phase c (Waiting d)) (asked (future_done E) SawDone)
      (\<lambda>b. in_phase c (if b then Answered else Waiting d)) (raised c)" by (rule hoare_asked) simp_all
  have clock: "hoare (in_phase c (Waiting d)) (reading E SawClock)
      (\<lambda>t. in_phase c (if f_le d t then Failed EXIT_RESPONSE_TIMEOUT else Waiting d)) (raised c)"
    by (rule hoare_reading) simp
  have timeout: "hoare (in_phase c (if b then Failed EXIT_RESPONSE_TIMEOUT else Waiting d))
      (if b then thenX (suppressed_cancel E) (raiseX (StartupError m EXIT_RESPONSE_TIMEOUT)) else retX ())
      (\<lambda>_. in_phase c (Waiting d)) (raised c)" for b m
    by (cases b) (simp_all add: hoare_ret hoare_then [OF hoare_cancel hoare_own_error])
  show "hoare (in_phase c (Waiting d)) (response_body E c d l)
      (\<lambda>r s. case r of Inl l' \<Rightarrow> in_phase c (Waiting d) s | Inr v \<Rightarrow> in_phase c Answered s) (raised c)"
    unfolding response_body_def
  proof (rule hoare_bind [OF finished], rule hoare_if_cases, goal_cases)
    case 1
    then show ?case by (auto intro: hoare_ret)
  next
    case 2
    then show ?case
      by simp (intro hoare_then [OF hoare_check_watch] hoare_bind [OF clock] hoare_then [OF timeout]
        hoare_then [OF hoare_bounded_spin] hoare_ret polling_phases; simp)
  qed
qed

lemma hoare_await_service:
  "hoare (in_phase c (Discovering (f_add t (service_timeout_sec c)))) (await_service E c t) (\<lambda>_. in_phase c Dispatch) (raised c)"
proof -
  have clock: "hoare (in_phase c Found) (reading E SawClock) (\<lambda>t. in_phase c (Grace (f_add t (discovery_grace_sec c)))) (raised c)"
    by (rule hoare_reading) simp
  have ready: "hoare (in_phase c GraceOver) (asked (service_is_ready E) SawReady)
      (\<lambda>b. in_phase c (if \<not> b then Failed EXIT_SERVICE_TIMEOUT else Dispatch)) (raised c)" by (rule hoare_asked) simp_all
  show ?thesis unfolding await_service_def
    by (intro hoare_then [OF hoare_discovery] hoare_bind [OF clock] hoare_then [OF hoare_grace]
        hoare_then [OF hoare_check_watch] polling_phases hoare_bind [OF ready] hoare_own_error_if)
qed

lemma hoare_await_response: "hoare (in_phase c Requested) (await_response E c) (\<lambda>_. in_phase c Accepted) (raised c)"
proof -
  have clock: "hoare (in_phase c Requested) (reading E SawClock)
      (\<lambda>t. in_phase c (Waiting (f_add t (response_timeout_sec c)))) (raised c)" by (rule hoare_reading) simp
  have 1: "hoare (in_phase c Answered) (asked (future_cancelled E) SawCancelled)
      (\<lambda>b. in_phase c (if b then Failed EXIT_RUNTIME_ERROR else Answered)) (raised c)" by (rule hoare_asked) simp_all
  have 2: "hoare (in_phase c Answered) (asked (future_exception E) (\<lambda>e. SawException (e \<noteq> None)))
      (\<lambda>x. in_phase c (if x \<noteq> None then Failed EXIT_RUNTIME_ERROR else Answered)) (raised c)" by (rule hoare_asked) simp_all
  have 3: "hoare (in_phase c Answered) (asked (future_result E) (\<lambda>r. SawResult (r = Some True)))
      (\<lambda>r. in_phase c (if r \<noteq> Some True then Failed EXIT_STARTUP_REJECTED else Accepted)) (raised c)"
    by (rule hoare_asked) simp_all
  have 4: "hoare (in_phase c (if x \<noteq> None then Failed EXIT_RUNTIME_ERROR else Answered))
      (case x of None \<Rightarrow> retX () | Some text \<Rightarrow> raiseX (StartupError (m text) EXIT_RUNTIME_ERROR))
      (\<lambda>_. in_phase c Answered) (raised c)" for x :: "string option" and m
    by (cases x) (simp_all add: hoare_ret hoare_own_error)
  show ?thesis unfolding await_response_def
    by (intro hoare_bind [OF clock] hoare_then [OF hoare_response] hoare_bind [OF 1] hoare_then [OF hoare_own_error_if]
        hoare_bind [OF 2] hoare_then [OF 4] hoare_bind [OF 3] hoare_own_error_if)
qed

lemma hoare_trigger: "hoare (in_phase c Starting) (trigger_startup E c) (\<lambda>_. in_phase c Accepted) (raised c)"
proof -
  have start: "hoare (in_phase c Starting) (reading E SawClock)
      (\<lambda>t. in_phase c (Discovering (f_add t (service_timeout_sec c)))) (raised c)" by (rule hoare_reading) simp
  have send: "hoare (in_phase c Dispatch) (made (call_async E n) (Sent n)) (\<lambda>_. in_phase c Requested) (raised c)" for n
    by (rule hoare_made) simp_all
  have finish: "hoare (in_phase c Accepted) (reading E SawClock) (\<lambda>_. in_phase c Accepted) (raised c)"
    by (rule hoare_reading) simp
  show ?thesis unfolding trigger_startup_def
    by (intro hoare_bind [OF start] hoare_then [OF hoare_await_service] hoare_then [OF send]
        hoare_then [OF hoare_await_response] hoare_bind [OF finish] hoare_ret)
qed

section \<open>What the protocol guarantees\<close>

definition is_request :: "startup_call \<Rightarrow> bool" where
  "is_request e = (case e of Sent n \<Rightarrow> True | _ \<Rightarrow> False)"

definition requests :: "startup_call list \<Rightarrow> nat" where
  "requests es = length (filter is_request es)"

text \<open>The log up to a dispatch: the service was found, then ready at every poll until a clock reading at or after the
  end of the grace period, and once more right before the dispatch.\<close>

definition stable_discovery :: "pyfloat \<Rightarrow> startup_call list \<Rightarrow> bool" where
  "stable_discovery grace es \<longleftrightarrow>
     (\<exists>before t0 mid t watch. es = before @ [SawReady True, SawClock t0] @ mid @ [SawClock t] @ watch @ [SawReady True]
        \<and> SawReady False \<notin> set (mid @ watch) \<and> \<not> f_less t (f_add t0 grace))"

definition dispatched :: "pyfloat \<Rightarrow> startup_call list \<Rightarrow> bool" where
  "dispatched grace es \<longleftrightarrow>
     requests es = 1 \<and> (\<exists>before n after. es = before @ Sent n # after \<and> stable_discovery grace before)"








text \<open>Which answers are in the log: those that decide are there exactly in the phase they lead to.\<close>

definition undecided_log :: "startup_call list \<Rightarrow> bool" where
  "undecided_log es \<longleftrightarrow> SawAlive False \<notin> set es \<and> SawResult True \<notin> set es \<and> SawResult False \<notin> set es
     \<and> SawCancelled True \<notin> set es \<and> SawException True \<notin> set es"





section \<open>Exit codes\<close>

text \<open>What an exit code says about the calls that were made; \<open>document\<close> says that a result document has to be
  written.\<close>

definition code_matches :: "pyfloat \<Rightarrow> bool \<Rightarrow> int \<Rightarrow> startup_call list \<Rightarrow> bool" where
  "code_matches grace document code es \<longleftrightarrow>
     code \<in> insert EXIT_SUCCESS (fst ` set FAILURE_KIND_BY_EXIT_CODE)
     \<and> requests es \<le> 1
     \<and> (code = EXIT_SUCCESS \<longrightarrow> dispatched grace es \<and> SawDone True \<in> set es \<and> SawResult True \<in> set es)
     \<and> (SawResult True \<in> set es \<longrightarrow> code = EXIT_SUCCESS \<or> document \<and> code = EXIT_RUNTIME_ERROR)
     \<and> (code = EXIT_INVALID_CONFIGURATION \<or> code = EXIT_INTERRUPTED \<longrightarrow> undecided_log es)
     \<and> (code = EXIT_WATCH_PROCESS_ENDED \<longleftrightarrow> SawAlive False \<in> set es)
     \<and> (code = EXIT_SERVICE_TIMEOUT \<longrightarrow> requests es = 0)
     \<and> (code = EXIT_RESPONSE_TIMEOUT \<longrightarrow> requests es = 1 \<and> SawDone True \<notin> set es)
     \<and> (code = EXIT_STARTUP_REJECTED \<longleftrightarrow> SawResult False \<in> set es)
     \<and> (code = EXIT_STARTUP_REJECTED \<longrightarrow> requests es = 1)
     \<and> (SawCancelled True \<in> set es \<or> SawException True \<in> set es \<longrightarrow> code = EXIT_RUNTIME_ERROR \<and> requests es = 1)"

















text \<open>Options that the trigger refuses before it calls anything.\<close>

definition misconfigured :: "startup_options \<Rightarrow> bool" where
  "misconfigured opts =
     (case service_of opts of Inl e \<Rightarrow> True | Inr name \<Rightarrow> \<not> (check_config (config_of name opts) = Inr (config_of name opts)))"


definition main_post :: "startup_options \<Rightarrow> bool \<Rightarrow> int \<Rightarrow> 'w startup_state \<Rightarrow> bool" where
  "main_post opts document code s \<longleftrightarrow> code_matches (opt_grace opts) document code (calls s)
     \<and> (misconfigured opts \<longrightarrow> code = EXIT_INVALID_CONFIGURATION \<and> calls s = [])"

lemma main_post_world [simp]: "main_post opts b code (s\<lparr>world := w\<rparr>) = main_post opts b code s"
  by (simp add: main_post_def)






section \<open>The trigger returns\<close>

definition never_back :: "('w \<Rightarrow> nat) \<Rightarrow> ('w \<Rightarrow> 'a \<times> 'w) \<Rightarrow> bool" where
  "never_back T f \<longleftrightarrow> (\<forall>w. T w \<le> T (snd (f w)))"

text \<open>What the trigger relies on: no call sets the elapsed time \<open>T\<close> back, a clock reading lets it grow, and after enough of
  it the clock has passed a deadline set from any of its readings.\<close>

definition startup_progress :: "'w startup_env \<Rightarrow> startup_config \<Rightarrow> ('w \<Rightarrow> nat) \<Rightarrow> bool" where
  "startup_progress E c T \<longleftrightarrow>
     (\<forall>w. T w < T (snd (monotonic E w)))
     \<and> never_back T (service_is_ready E) \<and> (\<forall>pid. never_back T (alive E pid)) \<and> (\<forall>t. never_back T (spin_once E t))
     \<and> (\<forall>n. never_back T (call_async E n)) \<and> never_back T (future_done E) \<and> never_back T (future_cancel E)
     \<and> never_back T (future_cancelled E) \<and> never_back T (future_exception E) \<and> never_back T (future_result E)
     \<and> (\<forall>w. \<forall>d \<in> {service_timeout_sec c, discovery_grace_sec c, response_timeout_sec c}.
          \<exists>B. \<forall>w'. B \<le> T w' \<longrightarrow> f_le (f_add (fst (monotonic E w)) d) (fst (monotonic E w')))"

definition elapsed :: "('w \<Rightarrow> nat) \<Rightarrow> 'w startup_state \<Rightarrow> nat" where
  "elapsed T s = T (world s)"

lemma returns_asked:
  fixes T :: "'w \<Rightarrow> nat"
  shows "never_back T f \<Longrightarrow> returns (elapsed T) (asked f tag)"
  unfolding returns_def
proof
  fix s :: "'w startup_state" assume nb: "never_back T f"
  obtain x w where f: "f (world s) = (x, w)" by (cases "f (world s)")
  with nb have "T (world s) \<le> T w" unfolding never_back_def by (metis snd_conv)
  with f show "\<exists>r s'. asked f tag s = Some (r, s') \<and> elapsed T s \<le> elapsed T s'"
    by (cases x) (auto simp: asked_def elapsed_def)
qed

lemma returns_made:
  fixes T :: "'w \<Rightarrow> nat"
  shows "never_back T f \<Longrightarrow> returns (elapsed T) (made f call)"
  unfolding returns_def
proof
  fix s :: "'w startup_state" assume nb: "never_back T f"
  obtain x w where f: "f (world s) = (x, w)" by (cases "f (world s)")
  with nb have "T (world s) \<le> T w" unfolding never_back_def by (metis snd_conv)
  with f show "\<exists>r s'. made f call s = Some (r, s') \<and> elapsed T s \<le> elapsed T s'"
    by (cases x) (auto simp: made_def elapsed_def)
qed

lemma returns_hoare: "returns T m \<Longrightarrow> (\<And>r s. Q r s = (n \<le> T s)) \<Longrightarrow> hoare (\<lambda>s. n \<le> T s) m Q (\<lambda>_ _. True)"
  unfolding returns_def hoare_def by (auto split: sum.splits) (metis dual_order.trans option.inject prod.inject)

lemma returns_hoare_strict: "returns T m \<Longrightarrow> hoare (\<lambda>s. n < T s) m (\<lambda>_ s. n < T s) (\<lambda>_ _. True)"
  unfolding returns_def hoare_def by (auto split: sum.splits) (metis order_less_le_trans option.inject prod.inject)

lemma returns_poll:
  assumes "\<And>l. returns T (body l)"
    and "\<And>l n. hoare (\<lambda>s. n \<le> T s) (body l) (\<lambda>r s. (\<exists>l'. r = Inl l') \<longrightarrow> n < T s \<and> n < B) (\<lambda>_ _. True)"
  shows "returns T (loopX body l)"
proof (rule returns_loop [where B = B])
  fix l s
  obtain r s' where r: "body l s = Some (r, s')" "T s \<le> T s'" using assms(1) unfolding returns_def by blast
  moreover have "T s < T s' \<and> T s < B" if "r = Inr (Inl l')" for l'
    using hoare_value [OF assms(2) [of "T s" l], of s "Inl l'" s'] r(1) that by simp
  ultimately show "\<exists>r s'. body l s = Some (r, s') \<and> T s \<le> T s' \<and> (\<forall>l'. r = Inr (Inl l') \<longrightarrow> T s < T s' \<and> T s < B)" by blast
qed

lemma f_le_not_less: "f_le x y \<Longrightarrow> \<not> f_less y x"
  by (cases x; cases y) (auto simp: f_le_def)

lemma hoare_reading_time:
  assumes "startup_progress E c T"
  shows "hoare (\<lambda>s. n \<le> elapsed T s) (reading E tag) (\<lambda>t s. (\<exists>w. n \<le> T w \<and> t = fst (monotonic E w)) \<and> n < elapsed T s) (\<lambda>_ _. True)"
  unfolding hoare_def
proof (intro allI impI)
  fix s r s' assume n: "n \<le> elapsed T s" and m: "reading E tag s = Some (r, s')"
  have "T (world s) < T (snd (monotonic E (world s)))" using assms by (simp add: startup_progress_def)
  with n m show "case r of Inl e \<Rightarrow> True | Inr t \<Rightarrow> (\<exists>w. n \<le> T w \<and> t = fst (monotonic E w)) \<and> n < elapsed T s'"
    by (auto simp: reading_def asked_def elapsed_def split: prod.splits intro!: exI [of _ "world s"])
qed

lemma progress_calls:
  assumes "startup_progress E c T"
  shows "returns (elapsed T) (asked (service_is_ready E) tag1)" "returns (elapsed T) (asked (alive E pid) tag2)"
    "returns (elapsed T) (asked (spin_once E t) tag3)" "returns (elapsed T) (made (call_async E n) call)"
    "returns (elapsed T) (asked (future_done E) tag4)" "returns (elapsed T) (made (future_cancel E) call)"
    "returns (elapsed T) (asked (future_cancelled E) tag5)" "returns (elapsed T) (asked (future_exception E) tag6)"
    "returns (elapsed T) (asked (future_result E) tag7)" "returns (elapsed T) (reading E tag8)"
proof -
  have less: "T w < T (snd (monotonic E w))" for w using assms by (simp add: startup_progress_def)
  have "never_back T (\<lambda>w. case monotonic E w of (t, w') \<Rightarrow> (Inr t, w'))"
    unfolding never_back_def
  proof
    fix w
    show "T w \<le> T (snd (case monotonic E w of (t, w') \<Rightarrow> (Inr t, w')))"
      using less [of w] by (cases "monotonic E w") simp
  qed
  then show "returns (elapsed T) (reading E tag8)" unfolding reading_def by (rule returns_asked)
qed (use assms in \<open>auto simp: startup_progress_def intro!: returns_asked returns_made\<close>)

lemma returns_check_watch: "startup_progress E c T \<Longrightarrow> returns (elapsed T) (check_watch E c')"
  unfolding check_watch_def
  by (cases "watch_pid c'") (simp_all add: returns_ret returns_bind [OF progress_calls(2)] returns_raise_if)

lemma returns_bounded_spin: "startup_progress E c T \<Longrightarrow> returns (elapsed T) (bounded_spin E d c')"
  unfolding bounded_spin_def Let_def
  by (intro returns_bind [OF progress_calls(10)]) (auto intro: returns_ret progress_calls(3))

lemma returns_suppressed_cancel: "startup_progress E c T \<Longrightarrow> returns (elapsed T) (suppressed_cancel E)"
proof -
  assume p: "startup_progress E c T"
  have "returns (elapsed T) (case e of FromEnv KeyboardInterrupt \<Rightarrow> raiseX e | _ \<Rightarrow> retX ())" for e
    by (auto split: startup_exn.splits env_exn.splits intro: returns_ret returns_raise)
  with p show ?thesis unfolding suppressed_cancel_def by (intro returns_catch [OF progress_calls(6)])
qed

lemmas startup_returns_rules = returns_ret returns_raise returns_raise_if returns_then returns_bind
  returns_check_watch returns_bounded_spin returns_suppressed_cancel progress_calls

lemma returns_if: "(b \<Longrightarrow> returns T m) \<Longrightarrow> (\<not> b \<Longrightarrow> returns T n) \<Longrightarrow> returns T (if b then m else n)"
  by simp

lemma returns_bodies:
  assumes "startup_progress E c T"
  shows "returns (elapsed T) (discovery_body E c d l)" "returns (elapsed T) (grace_body E c d l)"
    "returns (elapsed T) (response_body E c d l)"
  unfolding discovery_body_def grace_body_def response_body_def
  by ((intro startup_returns_rules returns_if; rule assms)+)

text \<open>A turn of a polling loop that goes round again has read the clock before the deadline.\<close>

lemma hoare_turn:
  assumes p: "startup_progress E c T" and b: "\<And>w'. B \<le> T w' \<Longrightarrow> f_le d (fst (monotonic E w'))"
  shows "hoare (\<lambda>s. n \<le> elapsed T s) (discovery_body E c d l) (\<lambda>r s. (\<exists>l'. r = Inl l') \<longrightarrow> n < elapsed T s \<and> n < B) (\<lambda>_ _. True)"
    "hoare (\<lambda>s. n \<le> elapsed T s) (grace_body E c d l) (\<lambda>r s. (\<exists>l'. r = Inl l') \<longrightarrow> n < elapsed T s \<and> n < B) (\<lambda>_ _. True)"
    "hoare (\<lambda>s. n \<le> elapsed T s) (response_body E c d l) (\<lambda>r s. (\<exists>l'. r = Inl l') \<longrightarrow> n < elapsed T s \<and> n < B) (\<lambda>_ _. True)"
proof -
  let ?Q = "\<lambda>r s. (\<exists>l'. r = Inl l') \<longrightarrow> n < elapsed T s \<and> n < B"
  let ?N = "\<lambda>s. n \<le> elapsed T s"
  let ?L = "\<lambda>s. n < elapsed T s \<and> n < B"
  have keep: "returns (elapsed T) m \<Longrightarrow> hoare ?N m (\<lambda>_. ?N) (\<lambda>_ _. True)" for m :: "('a, 'b) sact"
    by (rule returns_hoare) simp_all
  have late: "returns (elapsed T) m \<Longrightarrow> hoare ?L m (\<lambda>_. ?L) (\<lambda>_ _. True)" for m :: "('a, 'b) sact"
    using returns_hoare_strict [of "elapsed T" m n] unfolding hoare_def by (auto split: sum.splits)
  have early: "n < B" if "\<exists>w. n \<le> T w \<and> t = fst (monotonic E w)" "\<not> f_le d t" for t
  proof (rule ccontr)
    assume "\<not> n < B"
    with that b show False by (metis le_trans not_less)
  qed
  have early': "n < B" if "\<exists>w. n \<le> T w \<and> t = fst (monotonic E w)" "f_less t d" for t
    using early [OF that(1)] f_le_not_less that(2) by blast
  have leave: "hoare P (retX (Inr ())) ?Q (\<lambda>_ _. True)" for P by (rule hoare_ret) simp
  have again: "hoare ?L (retX (Inl ())) ?Q (\<lambda>_ _. True)" by (rule hoare_ret) simp
  note clock = hoare_reading_time [OF p, of n]
  have past: "hoare (\<lambda>s. (\<exists>w. n \<le> T w \<and> t = fst (monotonic E w)) \<and> n < elapsed T s) m (\<lambda>_. ?L) (\<lambda>_ _. True)"
    if "m = raise_if (f_le d t) e \<or> m = (if f_le d t then thenX (suppressed_cancel E) (raiseX e) else retX ())" for t m e
    using that early by (cases "f_le d t") (auto simp: hoare_def raise_if_def thenX_def elim!: bindX_cases split: sum.splits)
  show "hoare ?N (discovery_body E c d l) ?Q (\<lambda>_ _. True)"
    unfolding discovery_body_def
    by (intro hoare_bind [OF keep [OF progress_calls(1)]] hoare_if leave hoare_then [OF keep [OF returns_check_watch]]
        hoare_bind [OF clock] hoare_then [OF past] hoare_then [OF late [OF returns_bounded_spin]] again disjI1)
      (rule p refl)+
  show "hoare ?N (response_body E c d l) ?Q (\<lambda>_ _. True)"
    unfolding response_body_def
    by (intro hoare_bind [OF keep [OF progress_calls(5)]] hoare_if leave hoare_then [OF keep [OF returns_check_watch]]
        hoare_bind [OF clock] hoare_then [OF past] hoare_then [OF late [OF returns_bounded_spin]] again disjI2)
      (rule p refl)+
  have turn: "hoare (\<lambda>s. (\<exists>w. n \<le> T w \<and> t = fst (monotonic E w)) \<and> n < elapsed T s) m ?Q (\<lambda>_ _. True)"
    if "hoare ?L m ?Q (\<lambda>_ _. True)" "f_less t d" for t m
    by (rule hoare_pre [OF that(1)]) (use early' that(2) in blast)
  show "hoare ?N (grace_body E c d l) ?Q (\<lambda>_ _. True)"
    unfolding grace_body_def
  proof (rule hoare_bind [OF clock], rule hoare_if_cases, goal_cases)
    case (2 t)
    then show ?case
      by (intro turn hoare_then [OF late [OF returns_check_watch]] hoare_bind [OF late [OF progress_calls(1)]]
          hoare_then [OF late [OF returns_raise_if]] hoare_then [OF late [OF returns_bounded_spin]] again) (rule p | simp)+
  qed (rule leave)
qed

lemma returns_reading_bind:
  fixes T :: "'w \<Rightarrow> nat"
  assumes p: "startup_progress E c T" and k: "\<And>w. returns (elapsed T) (k (fst (monotonic E w)))"
  shows "returns (elapsed T) (bindX (reading E tag) k)"
  unfolding returns_def
proof
  fix s :: "'w startup_state"
  obtain r s1 where r: "reading E tag s = Some (r, s1)" "elapsed T s \<le> elapsed T s1"
    using progress_calls(10) [OF p] unfolding returns_def by blast
  then have "r = Inr (fst (monotonic E (world s)))" by (auto simp: reading_def asked_def split: prod.splits)
  with r(1) have r': "reading E tag s = Some (Inr (fst (monotonic E (world s))), s1)" by simp
  obtain q s2 where "k (fst (monotonic E (world s))) s1 = Some (q, s2)" "elapsed T s1 \<le> elapsed T s2"
    using k [of "world s"] unfolding returns_def by blast
  with r' r(2) show "\<exists>q s'. bindX (reading E tag) k s = Some (q, s') \<and> elapsed T s \<le> elapsed T s'"
    by (auto simp: bindX_def)
qed

lemma returns_loops:
  assumes p: "startup_progress E c T"
  shows "returns (elapsed T) (loopX (discovery_body E c (f_add (fst (monotonic E w)) (service_timeout_sec c))) l)"
    "returns (elapsed T) (loopX (grace_body E c (f_add (fst (monotonic E w)) (discovery_grace_sec c))) l)"
    "returns (elapsed T) (loopX (response_body E c (f_add (fst (monotonic E w)) (response_timeout_sec c))) l)"
proof -
  have bound: "\<exists>B. \<forall>w'. B \<le> T w' \<longrightarrow> f_le (f_add (fst (monotonic E w)) d) (fst (monotonic E w'))"
    if "d \<in> {service_timeout_sec c, discovery_grace_sec c, response_timeout_sec c}" for d
    using p that unfolding startup_progress_def by blast
  obtain B1 where B1: "\<And>w'. B1 \<le> T w' \<Longrightarrow> f_le (f_add (fst (monotonic E w)) (service_timeout_sec c)) (fst (monotonic E w'))"
    using bound [of "service_timeout_sec c"] by auto
  obtain B2 where B2: "\<And>w'. B2 \<le> T w' \<Longrightarrow> f_le (f_add (fst (monotonic E w)) (discovery_grace_sec c)) (fst (monotonic E w'))"
    using bound [of "discovery_grace_sec c"] by auto
  obtain B3 where B3: "\<And>w'. B3 \<le> T w' \<Longrightarrow> f_le (f_add (fst (monotonic E w)) (response_timeout_sec c)) (fst (monotonic E w'))"
    using bound [of "response_timeout_sec c"] by auto
  show "returns (elapsed T) (loopX (discovery_body E c (f_add (fst (monotonic E w)) (service_timeout_sec c))) l)"
    by (rule returns_poll [OF returns_bodies(1) [OF p] hoare_turn(1) [OF p B1]])
  show "returns (elapsed T) (loopX (grace_body E c (f_add (fst (monotonic E w)) (discovery_grace_sec c))) l)"
    by (rule returns_poll [OF returns_bodies(2) [OF p] hoare_turn(2) [OF p B2]])
  show "returns (elapsed T) (loopX (response_body E c (f_add (fst (monotonic E w)) (response_timeout_sec c))) l)"
    by (rule returns_poll [OF returns_bodies(3) [OF p] hoare_turn(3) [OF p B3]])
qed

lemma returns_trigger:
  assumes p: "startup_progress E c T"
  shows "returns (elapsed T) (trigger_startup E c)"
proof -
  have service: "returns (elapsed T) (await_service E c (fst (monotonic E w)))" for w
    unfolding await_service_def
    by (intro returns_then [OF returns_loops(1) [OF p]] returns_reading_bind [OF p] returns_then [OF returns_loops(2) [OF p]]
        returns_then [OF returns_check_watch [OF p]] returns_bind [OF progress_calls(1) [OF p]] returns_raise_if)
  have failure: "returns (elapsed T) (case x of None \<Rightarrow> retX () | Some text \<Rightarrow> raiseX (e text))" for x and e :: "string \<Rightarrow> startup_exn"
    by (cases x) (simp_all add: returns_ret returns_raise)
  have response: "returns (elapsed T) (await_response E c)"
    unfolding await_response_def
    by (intro returns_reading_bind [OF p] returns_then [OF returns_loops(3) [OF p]] returns_bind [OF progress_calls(7) [OF p]]
        returns_then [OF returns_raise_if] returns_bind [OF progress_calls(8) [OF p]] returns_then [OF failure]
        returns_bind [OF progress_calls(9) [OF p]] returns_raise_if)
  show ?thesis unfolding trigger_startup_def
    by (intro returns_reading_bind [OF p] returns_then [OF service] returns_then [OF progress_calls(4) [OF p]]
        returns_then [OF response] returns_ret)
qed

section \<open>The theorems\<close>

abbreviation fresh :: "'w \<Rightarrow> 'w startup_state" where
  "fresh w \<equiv> \<lparr>world = w, calls = []\<rparr>"

text \<open>C12: the trigger implements the protocol. The calls of every run that returns form a run of the automaton; a
  returned result means that it has reached \<open>Accepted\<close>, and an error of the trigger carries the code of the failure the
  automaton is in.\<close>

theorem startup_refines_protocol:
  assumes "trigger_startup E c (fresh w) = Some (r, s)"
  shows "\<exists>p. protocol_run c Starting (calls s) = Some p
    \<and> (case r of Inr result \<Rightarrow> p = Accepted | Inl e \<Rightarrow> \<forall>m code. e = StartupError m code \<longrightarrow> p = Failed code)"
proof -
  have "in_phase c Starting (fresh w)" by (simp add: in_phase_def)
  note start = this
  show ?thesis
  proof (cases r)
    case (Inl e)
    with hoare_exn [OF hoare_trigger start] assms have "raised c e s" by blast
    then obtain p where p: "in_phase c p s" "case e of StartupError m code \<Rightarrow> p = Failed code | _ \<Rightarrow> True"
      unfolding raised_def by (cases e) auto
    then show ?thesis using Inl by (intro exI [of _ p]) (auto simp: in_phase_def)
  next
    case (Inr a)
    with hoare_value [OF hoare_trigger start] assms show ?thesis by (simp add: in_phase_def)
  qed
qed


text \<open>C21: under a clock that keeps going, the trigger always returns, whatever the service, the watched process and the
  response do.\<close>

theorem startup_returns:
  assumes "startup_progress E c T"
  shows "\<exists>r s. trigger_startup E c (fresh w) = Some (r, s)"
  using returns_trigger [OF assms] unfolding returns_def by blast

section \<open>A concrete invocation\<close>

text \<open>The world is the number of clock readings so far; each of them is one second later than the last.\<close>

definition demo_env :: "nat startup_env" where
  "demo_env = \<lparr>STARTUP = 0, monotonic = (\<lambda>w. (if w < 100 then Fin (of_nat w) else PosInf, w + 1)),
     service_is_ready = Pair (Inr True), alive = (\<lambda>_. Pair (Inr True)), spin_once = (\<lambda>_. Pair (Inr ())),
     call_async = (\<lambda>_. Pair (Inr ())), future_done = Pair (Inr True), future_cancel = Pair (Inr ()),
     future_cancelled = Pair (Inr False), future_exception = Pair (Inr None), future_result = Pair (Inr (Some True))\<rparr>"


definition demo_options :: startup_options where
  "demo_options = \<lparr>opt_namespace = ''/robotest'', opt_manager_node = ''manager'', opt_grace = Fin 1,
     opt_service_timeout = Fin 1, opt_response_timeout = Fin 1, opt_watch_pid = None, opt_result_json = []\<rparr>"

lemma demo_progress: "startup_progress demo_env (config_of ''/m'' demo_options) id"
proof -
  have "fl q \<noteq> NaN" for q by (simp add: fl_def Let_def)
  then have "f_le (fl (of_nat w + 1)) PosInf" "f_le PosInf PosInf" for w :: nat
    by (cases "fl (of_nat w + 1)") (simp_all add: f_le_def)
  then show ?thesis
    by (auto simp: startup_progress_def demo_env_def never_back_def config_of_def demo_options_def intro!: exI [of _ "100 :: nat"])
qed

lemma loop_exit: "body l s = Some (Inr (Inr v), s') \<Longrightarrow> loopX body l s = Some (Inr v, s')"
  by (subst loopX.simps) (simp add: bindX_def)

lemma demo_calls:
  "asked (service_is_ready demo_env) tag s = Some (Inr True, s\<lparr>calls := calls s @ [tag True]\<rparr>)"
  "asked (future_done demo_env) tag s = Some (Inr True, s\<lparr>calls := calls s @ [tag True]\<rparr>)"
  "asked (future_cancelled demo_env) tag s = Some (Inr False, s\<lparr>calls := calls s @ [tag False]\<rparr>)"
  "asked (future_exception demo_env) tag1 s = Some (Inr None, s\<lparr>calls := calls s @ [tag1 None]\<rparr>)"
  "asked (future_result demo_env) tag2 s = Some (Inr (Some True), s\<lparr>calls := calls s @ [tag2 (Some True)]\<rparr>)"
  "made (call_async demo_env n) call s = Some (Inr (), s\<lparr>calls := calls s @ [call]\<rparr>)"
  "world s < 100 \<Longrightarrow> reading demo_env tag3 s
     = Some (Inr (Fin (of_nat (world s))), s\<lparr>world := world s + 1, calls := calls s @ [tag3 (Fin (of_nat (world s)))]\<rparr>)"
  by (simp_all add: asked_def made_def reading_def demo_env_def)

lemma demo_loops:
  "loopX (discovery_body demo_env c d) () s = Some (Inr (), s\<lparr>calls := calls s @ [SawReady True]\<rparr>)"
  "loopX (response_body demo_env c d) () s = Some (Inr (), s\<lparr>calls := calls s @ [SawDone True]\<rparr>)"
  "world s < 100 \<Longrightarrow> \<not> f_less (Fin (of_nat (world s))) d \<Longrightarrow>
   loopX (grace_body demo_env c d) () s
     = Some (Inr (), s\<lparr>world := world s + 1, calls := calls s @ [SawClock (Fin (of_nat (world s)))]\<rparr>)"
  by (rule loop_exit; simp add: discovery_body_def response_body_def grace_body_def bindX_def demo_calls)+

lemma demo_trigger:
  assumes "c = config_of name demo_options"
  shows "trigger_startup demo_env c \<lparr>world = 1, calls = []\<rparr> = Some (Inr \<lparr>res_service_name = service_name c,
       res_elapsed_wall_sec = f_sub (Fin 5) (Fin 1), res_discovery_grace_sec = Fin 1, res_command = 0\<rparr>,
     \<lparr>world = 6, calls = [SawClock (Fin 1), SawReady True, SawClock (Fin 2), SawClock (Fin 3), SawReady True, Sent 0,
        SawClock (Fin 4), SawDone True, SawCancelled False, SawException False, SawResult True, SawClock (Fin 5)]\<rparr>)"
proof -
  have c: "watch_pid c = None" "discovery_grace_sec c = Fin 1" "STARTUP demo_env = 0"
    by (simp_all add: assms config_of_def demo_options_def demo_env_def)
  show ?thesis
    by (simp add: trigger_startup_def await_service_def await_response_def thenX_def bindX_def demo_calls demo_loops check_watch_def
        raise_if_def c)
qed


theorem startup_refines_protocol_witness:
  "\<exists>r s. trigger_startup demo_env (config_of ''/m'' demo_options) \<lparr>world = 1, calls = []\<rparr> = Some (Inr r, s)
     \<and> protocol_run (config_of ''/m'' demo_options) Starting (calls s) = Some Accepted"
  using startup_refines_protocol [OF demo_trigger [OF refl, of "''/m''"]] demo_trigger [OF refl, of "''/m''"] by auto


theorem startup_returns_witness:
  "\<exists>r s. trigger_startup demo_env (config_of ''/m'' demo_options) (fresh 7) = Some (r, s)"
  by (rule startup_returns [OF demo_progress])

end
