(* ===== verification/Spec2Isabelle.thy ===== *)
theory Spec2Isabelle
  imports Sha256_Known Lifecycle_Sampler Mission_Report Ros_Action Fault_Control Safety_Metrics Recovery_Metrics
    Contact_Evidence Run_Analysis Localization_Metrics Odometry_Metrics Startup_Trigger
begin

text \<open>
  \<^bold>\<open>Verification development of RoboTest Lab\<close>

  RoboTest Lab runs navigation missions of a simulated robot, injects sensor faults while they run,
  records what happened, and derives verdicts and metrics from the record. Its Python packages
  under \<open>src/src\<close> are modelled here:
  \<^item> \<open>robotest_missions\<close> sends one waypoint mission to Nav2, arms the fault proxy for a phase 3
    mission, decides the verdict and writes the result as JSON and as one CSV row;
  \<^item> \<open>robotest_metrics\<close> captures bounded evidence (odometry, plans, scans, lifecycle states) and
    computes safety, path and recovery metrics from it, refusing to give a number when the
    evidence does not support it (\<open>MetricUnavailable\<close>);
  \<^item> \<open>robotest_scenarios\<close> and the launch packages drive the simulator around them.

  \<^bold>\<open>Theories and sources.\<close> File names are relative to \<open>src/src\<close>.
  \<^item> \<open>Py_Prelude\<close>: the Python fragment. Values (\<open>pyval\<close>), dictionaries, binary64 floats over exact
    rationals (\<open>pyfloat\<close>, \<open>fl\<close> rounds to nearest even), \<open>json.dumps\<close>, exceptions as \<open>Inl\<close>.
  \<^item> \<open>Sha256\<close>, \<open>Sha256_Known\<close>: \<open>hashlib.sha256\<close> on 32-bit words, checked on published test vectors.
  \<^item> \<open>Fault_Schedule\<close>: \<open>robotest_missions/fault_schedule.py\<close>. A built schedule is well formed, does not
    depend on input order, is rebuilt from its own dictionaries, has at most one active fault
    per target at every offset, and a wrong claimed hash is rejected.
  \<^item> \<open>Evidence_Buffers\<close>: \<open>robotest_metrics/buffers.py\<close>. A bounded prefix buffer holds exactly the longest
    accepted prefix and its counters account for every call. The contract is the locale \<open>prefix_log\<close>,
    interpreted on the buffer.
  \<^item> \<open>Lifecycle_Sampler\<close>: \<open>robotest_metrics/lifecycle_sampler.py\<close> as a step relation over calls that
    return or raise. Every slot is recorded, pending or lost in a \<open>record_error\<close> call that raised, and \<open>finalize\<close> leaves
    exactly one record per slot that was not lost.
  \<^item> \<open>Mission_Models\<close>, \<open>Exec_Monad\<close>, \<open>Mission_Execution\<close>: \<open>robotest_missions/models.py\<close> and
    \<open>execution.py\<close>, the executor as a state and exception program over the state of its
    environment. \<open>Mission_Safety\<close> (trace bounds, and that a phase 2 success has a complete feedback trace; the locales
    \<open>silent\<close>, \<open>quiet\<close>, \<open>quiet_open\<close> and \<open>quiet_run\<close> say which state
    properties every step of a run keeps, and are interpreted on the trace invariant and on the
    facts of the phases of a run), \<open>Mission_Verdict\<close> (what each exit code means),
    \<open>Mission_Progress\<close> (every run returns), \<open>Mission_Demo\<close> (concrete runs).
  \<^item> \<open>Mission_Artifacts\<close>, \<open>Mission_Report\<close>: \<open>robotest_missions/artifacts.py\<close>, the result document, its
    CSV projection, CSV writing and reading with the exact condition under which a row reads back, reconciliation, and
    the composition with the executor.
  \<^item> \<open>Ros_Codec\<close>, \<open>Ros_Action\<close>, \<open>Fault_Control\<close>: \<open>robotest_missions/ros_action.py\<close> and \<open>fault_control.py\<close>,
    the two ROS adapters with their callbacks as interleaved steps.
  \<^item> \<open>Collector_Core\<close>: \<open>robotest_metrics/collector.py\<close>, the collector that fills the buffers. Whatever the
    callbacks deliver, the streams hold bounded, numbered, typed evidence, and every plan a stamp.
  \<^item> \<open>Metrics_Geometry\<close>, \<open>Safety_Metrics\<close>, \<open>Path_Metrics\<close>: \<open>robotest_metrics/geometry.py\<close>,
    \<open>safety_metrics.py\<close> and \<open>path_metrics.py\<close>. A gate that passes proves a statement about every
    instant of an interval, not only about the samples; interpolation is supported by close
    samples; plan hashes identify plan geometry.
  \<^item> \<open>Recovery_Metrics\<close>: \<open>robotest_metrics/recovery_metrics.py\<close>. What a measured supervisor outage, a
    reconciled dropout and an accepted recovery window say about the logs, and that the search
    takes the first window that qualifies.
  \<^item> \<open>Collision_Metrics\<close>: the names, classification and snapshot tracker of
    \<open>robotest_metrics/collision_metrics.py\<close>, equal to a per-counterpart reference.
  \<^item> \<open>Contact_Evidence\<close>: \<open>robotest_scenarios/contact_evidence.py\<close> and \<open>bounded.py\<close>. The buffer is a second
    instance of \<open>prefix_log\<close>; reconciled traces are the same sequence of snapshots; the tracker and the
    collision metrics, written separately, find the same contact episodes.
  \<^item> \<open>Metrics_Statistics\<close>, \<open>Odometry_Metrics\<close>: \<open>robotest_metrics/statistics.py\<close> (ranks of percentiles under
    rounding) and \<open>odometry_metrics.py\<close> (the odometry-drift gate).
  \<^item> \<open>Localization_Metrics\<close>: \<open>robotest_metrics/localization_metrics.py\<close>, which samples an accepted error series rests on.
  \<^item> \<open>Run_Analysis\<close>: the integrity check, the thresholds and the verdict of \<open>robotest_metrics/analysis.py\<close>. The check is
    composed with the collector: integrity means that nothing was lost. PASS implies what the targets ask.
  \<^item> \<open>Suite_Aggregation\<close>: \<open>robotest_metrics/aggregation.py\<close>, the verdict over fifteen runs. PASS means that all
    of them passed, and that they are comparable: one candidate, one commit, the same hashes.
  \<^item> \<open>Startup_Trigger\<close>: \<open>robotest_navigation/scripts/lifecycle_startup_trigger.py\<close>. The trigger refines a
    protocol automaton, sends at most one request, returns, and its exit codes say which answers were seen.

  \<^bold>\<open>Bounds and loops.\<close> Loops over data are structural recursion. The polling loops of the executor
  (\<open>loopX\<close>) are \<open>partial_function (option)\<close>: \<open>None\<close> means that the loop never ends, and
  \<open>mission_run_returns\<close> proves that this does not happen when the clock makes progress. No
  definition uses fuel, except for the seventeen digits of \<open>repr\<close> of a float, which always suffice.

  \<^bold>\<open>Parameters.\<close> What the sources only call is an argument: the action and fault drivers, the clock
  and the ROS spin of the executor, \<open>rclpy\<close> futures and messages, and \<open>sin\<close>, \<open>cos\<close>, \<open>hypot\<close>, \<open>sqrt\<close> and \<open>x ** 2\<close>
  of the platform's \<open>math\<close>. No theorem assumes anything about the functions of \<open>math\<close>.

  \<^bold>\<open>Not modelled.\<close> YAML and JSON Schema loading, file writes, plots and command lines; the rclpy nodes
  around the modelled state machines; the validation of the positive-control and candidate documents and of the
  coverage manifest, long checks of nested JSON against frozen literals, and the calls of the metric modules by
  \<open>analyze_run\<close>; the obstacle and contact drivers, which talk to Gazebo services; the C++ fault proxy and the Go
  supervisor. Floats do not distinguish the sign of zero.
\<close>

text \<open>The rclpy fault driver reports its overflow as a count, as the executor's trace invariant wants it.\<close>

lemma rclpy_fault_driver_counts: "counts_overflow (rclpy_fault_driver ready)"
  by (simp add: counts_overflow_def rclpy_fault_driver_def fc_event_overflow_count_def)

end
